(* ===== verification/Prelude.thy ===== *)
theory Prelude
  imports Main "HOL-Library.Char_ord" "HOL-Library.List_Lexorder"
begin

text \<open>
  Shared vocabulary of the development: the Rust standard-library operations that the
  coordination kernel uses on \<^verbatim>\<open>i64\<close>, \<^verbatim>\<open>u32\<close>, \<^verbatim>\<open>str\<close>
  and \<^verbatim>\<open>Result\<close>, with the lemmas about them that the components share.

  Machine integers are \<^typ>\<open>int\<close> and \<^typ>\<open>nat\<close> with the width written out:
  \<open>sat_add\<close> and \<open>sat_sub\<close> are \<^verbatim>\<open>i64::saturating_add\<close> and
  \<^verbatim>\<open>i64::saturating_sub\<close>, \<open>wrap_i64\<close> is the two's-complement result of a plain
  \<^verbatim>\<open>i64\<close> operator in a release build (the workspace sets no
  \<^verbatim>\<open>overflow-checks\<close>), and \<open>as_u32\<close> is the truncating cast.
  A Rust \<^verbatim>\<open>String\<close> and a \<^verbatim>\<open>Vec<u8>\<close> are lists of bytes, that is HOL
  \<^typ>\<open>string\<close>s: \<open>length\<close> is the byte length and the order is bytewise, as in Rust.
\<close>

named_theorems res_simps \<open>unfolding of result-valued guards\<close>

type_synonym bytes = string
type_synonym i64 = int
type_synonym u32 = nat
type_synonym u64 = nat

section \<open>Machine integers\<close>

definition i64_min :: i64 where "i64_min = - (2 ^ 63)"
definition i64_max :: i64 where "i64_max = 2 ^ 63 - 1"

definition in_i64 :: "int \<Rightarrow> bool" where
  "in_i64 x \<longleftrightarrow> i64_min \<le> x \<and> x \<le> i64_max"

definition sat :: "int \<Rightarrow> i64" where
  "sat x = max i64_min (min i64_max x)"

definition sat_add :: "i64 \<Rightarrow> i64 \<Rightarrow> i64" where
  "sat_add a b = sat (a + b)"

definition sat_sub :: "i64 \<Rightarrow> i64 \<Rightarrow> i64" where
  "sat_sub a b = sat (a - b)"

definition wrap_i64 :: "int \<Rightarrow> i64" where
  "wrap_i64 x = (x + 2 ^ 63) mod 2 ^ 64 - 2 ^ 63"

definition as_u32 :: "nat \<Rightarrow> u32" where
  "as_u32 n = n mod 2 ^ 32"

lemma in_i64_sat [simp, intro]: "in_i64 (sat x)"
  by (simp add: in_i64_def sat_def i64_min_def i64_max_def)

lemma sat_id: "in_i64 x \<Longrightarrow> sat x = x"
  by (simp add: in_i64_def sat_def)

lemma sat_mono: "x \<le> y \<Longrightarrow> sat x \<le> sat y"
  by (auto simp: sat_def)

lemma sat_le: "i64_min \<le> x \<Longrightarrow> sat x \<le> x"
  by (simp add: sat_def)

lemma sat_ge: "x \<le> i64_max \<Longrightarrow> x \<le> sat x"
  by (simp add: sat_def)

lemma in_i64_sat_add [simp]: "in_i64 (sat_add a b)"
  by (simp add: sat_add_def)

lemma in_i64_sat_sub [simp]: "in_i64 (sat_sub a b)"
  by (simp add: sat_sub_def)

lemma sat_add_mono: "a \<le> a' \<Longrightarrow> b \<le> b' \<Longrightarrow> sat_add a b \<le> sat_add a' b'"
  by (simp add: sat_add_def sat_mono)

lemma sat_add_ge: "in_i64 a \<Longrightarrow> 0 \<le> b \<Longrightarrow> a \<le> sat_add a b"
  by (simp add: sat_add_def sat_def in_i64_def)

lemma in_i64_wrap [simp]: "in_i64 (wrap_i64 x)"
proof -
  have "0 \<le> (x + 2 ^ 63) mod 2 ^ 64" "(x + 2 ^ 63) mod 2 ^ 64 < 2 ^ 64"
    by simp_all
  then show ?thesis by (simp add: wrap_i64_def in_i64_def i64_min_def i64_max_def)
qed

lemma wrap_i64_id: "in_i64 x \<Longrightarrow> wrap_i64 x = x"
  by (simp add: wrap_i64_def in_i64_def i64_min_def i64_max_def)

lemma as_u32_id: "n < 2 ^ 32 \<Longrightarrow> as_u32 n = n"
  by (simp add: as_u32_def)

lemma as_u32_bound: "as_u32 n < 2 ^ 32"
  by (simp add: as_u32_def)

section \<open>Strings\<close>

definition starts_with :: "string \<Rightarrow> string \<Rightarrow> bool" where
  "starts_with s p \<longleftrightarrow> take (length p) s = p"

definition ends_with :: "string \<Rightarrow> string \<Rightarrow> bool" where
  "ends_with s p \<longleftrightarrow> starts_with (rev s) (rev p)"

lemma starts_with_append [simp]: "starts_with (p @ s) p"
  by (simp add: starts_with_def)

lemma starts_with_iff: "starts_with s p \<longleftrightarrow> (\<exists>t. s = p @ t)"
  by (metis append_take_drop_id starts_with_append starts_with_def)

lemma ends_with_iff: "ends_with s p \<longleftrightarrow> (\<exists>t. s = t @ p)"
proof -
  have "ends_with s p \<longleftrightarrow> (\<exists>t. rev s = rev p @ t)"
    by (simp add: ends_with_def starts_with_iff)
  also have "\<dots> \<longleftrightarrow> (\<exists>t. s = t @ p)"
    by (metis rev_append rev_rev_ident)
  finally show ?thesis .
qed

text \<open>
  \<^verbatim>\<open>str::trim\<close> strips the code points with the Unicode property
  \<^verbatim>\<open>White_Space\<close> at both ends. \<open>ws_encodings\<close> lists their UTF-8 encodings:
  U+0009 to U+000D, U+0020, U+0085, U+00A0, U+1680, U+2000 to U+200A, U+2028, U+2029,
  U+202F, U+205F and U+3000. No encoding is a proper suffix or prefix of another
  code point's encoding, so matching bytes at the ends is matching code points.
\<close>

definition ws_encodings :: "string list" where
  "ws_encodings =
     map (map char_of)
       ([[9], [10], [11], [12], [13], [32], [0xC2, 0x85], [0xC2, 0xA0], [0xE1, 0x9A, 0x80 :: nat]]
        @ map (\<lambda>n. [0xE2, 0x80, n]) [0x80, 0x81, 0x82, 0x83, 0x84, 0x85, 0x86, 0x87, 0x88, 0x89,
            0x8A, 0xA8, 0xA9, 0xAF]
        @ [[0xE2, 0x81, 0x9F], [0xE3, 0x80, 0x80]])"

function strip_all :: "string list \<Rightarrow> string \<Rightarrow> string" where
  "strip_all ws s =
     (case find (\<lambda>w. w \<noteq> [] \<and> starts_with s w) ws of
        None \<Rightarrow> s
      | Some w \<Rightarrow> strip_all ws (drop (length w) s))"
  by pat_completeness auto
termination
proof (relation "measure (\<lambda>(ws, s). length s)")
  show "wf (measure (\<lambda>(ws :: string list, s :: string). length s))" by simp
next
  fix ws s w
  assume "find (\<lambda>w. w \<noteq> [] \<and> starts_with s w) ws = Some w"
  then have "w \<noteq> []" "starts_with s w"
    by (auto simp: find_Some_iff)
  then show "((ws, drop (length w) s), ws, s) \<in> measure (\<lambda>(ws, s). length s)"
    by (auto simp: starts_with_iff)
qed

declare strip_all.simps [simp del]

definition trim :: "string \<Rightarrow> string" where
  "trim s = rev (strip_all (map rev ws_encodings) (rev (strip_all ws_encodings s)))"

definition blank :: "string \<Rightarrow> bool" where
  "blank s \<longleftrightarrow> trim s = []"

lemma strip_all_Nil [simp]: "strip_all ws [] = []"
proof -
  have "find (\<lambda>w. w \<noteq> [] \<and> starts_with [] w) ws = None"
    by (auto simp: find_None_iff starts_with_def)
  then show ?thesis by (simp add: strip_all.simps [of ws "[]"])
qed

lemma trim_Nil [simp]: "trim [] = []"
  by (simp add: trim_def)

lemma blank_Nil [simp]: "blank []"
  by (simp add: blank_def)

text \<open>A printable ASCII character belongs to no white space, so a text with one is not blank.\<close>

lemma strip_all_keeps:
  "c \<in> set s \<Longrightarrow> \<forall>w \<in> set ws. c \<notin> set w \<Longrightarrow> c \<in> set (strip_all ws s)"
proof (induction ws s rule: strip_all.induct)
  case (1 ws s)
  show ?case
  proof (cases "find (\<lambda>w. w \<noteq> [] \<and> starts_with s w) ws")
    case None
    then show ?thesis using "1.prems"(1) by (simp add: strip_all.simps [of ws s])
  next
    case (Some w)
    then have w: "w \<in> set ws" "starts_with s w" by (auto simp: find_Some_iff)
    then obtain r where "s = w @ r" by (auto simp: starts_with_iff)
    then have "c \<in> set (drop (length w) s)" using "1.prems" w(1) by auto
    then show ?thesis using "1.IH" [OF Some] "1.prems"(2) Some by (simp add: strip_all.simps [of ws s])
  qed
qed

lemma printable_solid:
  "33 \<le> (of_char c :: nat) \<Longrightarrow> (of_char c :: nat) < 128 \<Longrightarrow> \<forall>w \<in> set ws_encodings. c \<notin> set w"
  by (auto simp: ws_encodings_def)

lemma printable_not_blank:
  assumes "33 \<le> (of_char c :: nat)" "(of_char c :: nat) < 128"
  shows "\<not> blank (c # s)"
proof -
  note solid = printable_solid [OF assms]
  have "c \<in> set (strip_all ws_encodings (c # s))" by (rule strip_all_keeps) (use solid in simp_all)
  then have "c \<in> set (strip_all (map rev ws_encodings) (rev (strip_all ws_encodings (c # s))))"
    using solid by (intro strip_all_keeps) simp_all
  then show ?thesis by (auto simp: blank_def trim_def)
qed

lemma strip_all_solid:
  assumes "\<forall>w \<in> set ws. c \<notin> set w"
  shows "strip_all ws (c # s) = c # s"
proof -
  have "find (\<lambda>w. w \<noteq> [] \<and> starts_with (c # s) w) ws = None"
    using assms by (auto simp: find_None_iff starts_with_iff Cons_eq_append_conv)
  then show ?thesis by (simp add: strip_all.simps [of ws "c # s"])
qed

lemma trim_printable:
  assumes "33 \<le> (of_char (hd s) :: nat)" "(of_char (hd s) :: nat) < 128" "s \<noteq> []"
    and "33 \<le> (of_char (last s) :: nat)" "(of_char (last s) :: nat) < 128"
  shows "trim s = s"
proof -
  have "strip_all ws_encodings s = s"
    using strip_all_solid [OF printable_solid [OF assms(1,2)], of "tl s"] assms(3) by simp
  moreover have r: "rev s = last s # rev (butlast s)"
    using assms(3) by (cases s rule: rev_cases) simp_all
  have "strip_all (map rev ws_encodings) (rev s) = rev s"
    using printable_solid [OF assms(4,5)] unfolding r by (intro strip_all_solid) simp
  ultimately show ?thesis by (simp add: trim_def)
qed

section \<open>Lists\<close>

lemma sum_list_filter_nonneg_le:
  fixes f :: "'a \<Rightarrow> int"
  assumes "\<And>x. x \<in> set xs \<Longrightarrow> 0 \<le> f x"
  shows "sum_list (map f (filter P xs)) \<le> sum_list (map f xs)"
  using assms
proof (induction xs)
  case (Cons x xs)
  have "sum_list (map f (filter P xs)) \<le> sum_list (map f xs)"
    by (rule Cons.IH) (simp add: Cons.prems)
  then show ?case using Cons.prems [of x] by simp
qed simp

lemma length_filter_disjoint:
  assumes "\<And>x. x \<in> set xs \<Longrightarrow> \<not> (P x \<and> Q x)"
  shows "length (filter P xs) + length (filter Q xs) \<le> length xs"
  using assms by (induction xs) auto

end
