(* ===== verification/F64.thy ===== *)
theory F64
  imports Prelude "HOL-Library.Log_Nat" Complex_Main
begin

text \<open>
  IEEE-754 binary64, the Rust type \<^verbatim>\<open>f64\<close>, as far as the kernel computes with it.
  A value is a NaN, an infinity or a finite number, kept as the rational it denotes; both
  zeros are the rational zero. Arithmetic rounds the exact rational result to the nearest
  representable number, ties to even, with gradual underflow and overflow to infinity
  (\<open>f64_round\<close>). Comparisons are the ordered predicates: every one of them is false when
  an operand is a NaN.
\<close>

datatype f64 = NaN | Infinite bool | Finite rat

definition pow2 :: "int \<Rightarrow> rat" where
  "pow2 e = (if 0 \<le> e then 2 ^ nat e else 1 / 2 ^ nat (- e))"

text \<open>The exponent of the leading bit of a positive rational.\<close>

definition flog2 :: "rat \<Rightarrow> int" where
  "flog2 a = (let (p, q) = quotient_of a; e = bitlen p - bitlen q
              in if pow2 e \<le> a then e else e - 1)"

definition round_half_even :: "rat \<Rightarrow> int" where
  "round_half_even x =
     (let f = \<lfloor>x\<rfloor>; r = x - of_int f
      in if r < 1 / 2 then f else if 1 / 2 < r then f + 1 else if even f then f else f + 1)"

definition f64_round :: "rat \<Rightarrow> f64" where
  "f64_round q =
     (if q = 0 then Finite 0
      else let a = \<bar>q\<bar>;
               e = max (- 1074) (flog2 a - 52);
               v = of_int (round_half_even (a / pow2 e)) * pow2 e
           in if pow2 1024 \<le> v then Infinite (q < 0)
              else Finite (if q < 0 then - v else v))"

definition f64_of_nat :: "nat \<Rightarrow> f64" where
  "f64_of_nat n = f64_round (of_nat n)"

fun f64_lt :: "f64 \<Rightarrow> f64 \<Rightarrow> bool" where
  "f64_lt (Finite a) (Finite b) = (a < b)"
| "f64_lt (Finite a) (Infinite neg) = (\<not> neg)"
| "f64_lt (Infinite neg) (Finite b) = neg"
| "f64_lt (Infinite n1) (Infinite n2) = (n1 \<and> \<not> n2)"
| "f64_lt NaN y = False"
| "f64_lt x NaN = False"

fun f64_eq :: "f64 \<Rightarrow> f64 \<Rightarrow> bool" where
  "f64_eq (Finite a) (Finite b) = (a = b)"
| "f64_eq (Infinite n1) (Infinite n2) = (n1 = n2)"
| "f64_eq x y = False"

definition f64_le :: "f64 \<Rightarrow> f64 \<Rightarrow> bool" where
  "f64_le x y \<longleftrightarrow> f64_lt x y \<or> f64_eq x y"

abbreviation f64_gt :: "f64 \<Rightarrow> f64 \<Rightarrow> bool" where "f64_gt x y \<equiv> f64_lt y x"
abbreviation f64_ge :: "f64 \<Rightarrow> f64 \<Rightarrow> bool" where "f64_ge x y \<equiv> f64_le y x"

fun is_finite :: "f64 \<Rightarrow> bool" where
  "is_finite (Finite q) = True"
| "is_finite x = False"

fun f64_neg_sign :: "f64 \<Rightarrow> bool" where
  "f64_neg_sign (Finite q) = (q < 0)"
| "f64_neg_sign (Infinite n) = n"
| "f64_neg_sign NaN = False"

fun f64_add :: "f64 \<Rightarrow> f64 \<Rightarrow> f64" where
  "f64_add (Finite a) (Finite b) = f64_round (a + b)"
| "f64_add (Infinite n1) (Infinite n2) = (if n1 = n2 then Infinite n1 else NaN)"
| "f64_add (Infinite n) (Finite b) = Infinite n"
| "f64_add (Finite a) (Infinite n) = Infinite n"
| "f64_add NaN y = NaN"
| "f64_add x NaN = NaN"

fun f64_mul :: "f64 \<Rightarrow> f64 \<Rightarrow> f64" where
  "f64_mul (Finite a) (Finite b) = f64_round (a * b)"
| "f64_mul NaN y = NaN"
| "f64_mul x NaN = NaN"
| "f64_mul x y =
     (if x = Finite 0 \<or> y = Finite 0 then NaN
      else Infinite (f64_neg_sign x \<noteq> f64_neg_sign y))"

text \<open>Division; a zero divisor counts as the positive zero.\<close>

fun f64_div :: "f64 \<Rightarrow> f64 \<Rightarrow> f64" where
  "f64_div (Finite a) (Finite b) =
     (if b = 0 then if a = 0 then NaN else Infinite (a < 0) else f64_round (a / b))"
| "f64_div NaN y = NaN"
| "f64_div x NaN = NaN"
| "f64_div (Finite a) (Infinite n) = Finite 0"
| "f64_div (Infinite n) (Finite b) = Infinite (n \<noteq> (b < 0))"
| "f64_div (Infinite n1) (Infinite n2) = NaN"

fun f64_ceil :: "f64 \<Rightarrow> f64" where
  "f64_ceil (Finite q) = Finite (of_int \<lceil>q\<rceil>)"
| "f64_ceil x = x"

text \<open>\<^verbatim>\<open>f64::fract\<close> is \<^verbatim>\<open>x - x.trunc()\<close>; it is zero exactly on the integers.\<close>

fun f64_fract_is_zero :: "f64 \<Rightarrow> bool" where
  "f64_fract_is_zero (Finite q) = (of_int \<lfloor>q\<rfloor> = q)"
| "f64_fract_is_zero x = False"

text \<open>The saturating float-to-unsigned casts \<^verbatim>\<open>as u32\<close> and \<^verbatim>\<open>as u128\<close>.\<close>

fun f64_as_unsigned :: "nat \<Rightarrow> f64 \<Rightarrow> nat" where
  "f64_as_unsigned w (Finite q) = (if q < 0 then 0 else min (nat \<lfloor>q\<rfloor>) (2 ^ w - 1))"
| "f64_as_unsigned w (Infinite n) = (if n then 0 else 2 ^ w - 1)"
| "f64_as_unsigned w NaN = 0"

lemma f64_lt_irrefl [simp]: "\<not> f64_lt x x"
  by (cases x) auto

lemma f64_lt_trans: "f64_lt x y \<Longrightarrow> f64_lt y z \<Longrightarrow> f64_lt x z"
  by (cases x; cases y; cases z) auto

lemma f64_not_nan_total:
  "x \<noteq> NaN \<Longrightarrow> y \<noteq> NaN \<Longrightarrow> f64_lt x y \<or> f64_eq x y \<or> f64_lt y x"
  by (cases x; cases y) auto

lemma f64_as_unsigned_bound: "f64_as_unsigned w x < 2 ^ w"
proof -
  have "0 < (2::nat) ^ w" by simp
  then have "min n (2 ^ w - 1) < (2::nat) ^ w" for n by linarith
  then show ?thesis by (cases x) auto
qed

subsection \<open>Rounding error and exact comparisons\<close>

lemma pow2_pos [simp]: "0 < pow2 e"
  by (simp add: pow2_def)

lemma pow2_nonneg [simp]: "0 \<le> pow2 e"
  by (simp add: pow2_def)

lemma pow2_nonzero [simp]: "pow2 e \<noteq> 0"
  by (simp add: pow2_def)

lemma pow2_powi: "pow2 e = 2 powi e"
  by (simp add: pow2_def power_int_def field_simps)

lemma pow2_mono: "e \<le> e' \<Longrightarrow> pow2 e \<le> pow2 e'"
  by (simp add: pow2_powi power_int_increasing)

lemma round_half_even_error: "\<bar>of_int (round_half_even x) - x\<bar> \<le> 1 / 2"
  unfolding round_half_even_def Let_def by (auto simp: abs_if; linarith)

lemma round_half_even_int [simp]: "round_half_even (of_int n) = n"
  by (simp add: round_half_even_def)

lemma flog2_less_one:
  assumes "0 < q" "q < 1"
  shows "flog2 q \<le> - 1"
proof -
  obtain p d where pd: "quotient_of q = (p, d)" by (cases "quotient_of q")
  have d: "0 < d" and q: "q = of_int p / of_int d"
    using quotient_of_denom_pos [OF pd] quotient_of_div [OF pd] by auto
  have "p < d" using assms q d by (simp add: field_simps)
  then have "p < 2 ^ nat (bitlen d)" using bitlen_bounds [OF d] by linarith
  then have le: "bitlen p \<le> bitlen d" by (simp add: bitlen_le_iff_power bitlen_nonneg)
  have "\<not> pow2 0 \<le> q" using assms(2) by (simp add: pow2_def)
  then have "bitlen p - bitlen d \<noteq> 0" if "pow2 (bitlen p - bitlen d) \<le> q" using that by metis
  then show ?thesis using le by (auto simp: flog2_def pd Let_def)
qed

text \<open>Rounding a number of the unit interval is off by at most half a unit in the last place of
  the interval's upper half.\<close>

lemma f64_round_unit:
  assumes "0 \<le> q" "q \<le> 1"
  obtains v where "f64_round q = Finite v" "\<bar>v - q\<bar> \<le> 1 / 2 ^ 54"
proof (cases "q = 0 \<or> q = 1")
  case True
  then have "f64_round q = Finite q" by (elim disjE; simp; code_simp)
  then show ?thesis using that by simp
next
  case False
  then have q: "0 < q" "q < 1" using assms by auto
  define e where "e = max (- 1074) (flog2 q - 52)"
  define v where "v = of_int (round_half_even (q / pow2 e)) * pow2 e"
  have "e \<le> - 53" using flog2_less_one [OF q] by (simp add: e_def)
  then have small: "pow2 e \<le> 1 / 2 ^ 53" using pow2_mono [of e "- 53"] by (simp add: pow2_def)
  have "v - q = (of_int (round_half_even (q / pow2 e)) - q / pow2 e) * pow2 e"
    using pow2_pos [of e] by (simp add: v_def left_diff_distrib)
  then have "\<bar>v - q\<bar> = \<bar>of_int (round_half_even (q / pow2 e)) - q / pow2 e\<bar> * pow2 e"
    using pow2_pos [of e] by (simp add: abs_mult abs_of_pos)
  also have "\<dots> \<le> 1 / 2 * pow2 e"
    using pow2_pos [of e] by (intro mult_right_mono round_half_even_error) simp
  finally have err: "\<bar>v - q\<bar> \<le> 1 / 2 ^ 54" using small by simp
  moreover have "(1 / 2 ^ 54 :: rat) \<le> 1" by simp
  ultimately have "\<bar>v - q\<bar> \<le> 1" by (rule order_trans)
  then have "v < 2" using q by linarith
  moreover have "2 \<le> pow2 1024" by (simp add: pow2_def)
  ultimately have "f64_round q = Finite v"
    using q by (simp add: f64_round_def Let_def e_def [symmetric] v_def [symmetric])
  then show ?thesis using err that by blast
qed

lemma f64_of_nat_exact:
  assumes "n < 2 ^ 53"
  shows "f64_of_nat n = Finite (of_nat n)"
proof (cases "n = 0")
  case True
  then show ?thesis by (simp add: f64_of_nat_def f64_round_def)
next
  case False
  then have n: "0 < int n" by simp
  let ?l = "bitlen (int n)"
  have l: "?l \<le> 53" "1 \<le> ?l"
    using less_power_nat_iff_bitlen [of n 53] assms n by (simp_all add: bitlen_ge_iff_power)
  have one: "bitlen 1 = 1" by code_simp
  have "pow2 (?l - 1) \<le> of_nat n"
  proof -
    have "2 ^ nat (?l - 1) \<le> int n" using bitlen_bounds [OF n] by blast
    then have "(of_int (2 ^ nat (?l - 1)) :: rat) \<le> of_int (int n)" by (simp only: of_int_le_iff)
    then show ?thesis using l by (simp add: pow2_def)
  qed
  then have fl: "flog2 (of_nat n) = ?l - 1"
    using quotient_of_int [of "int n"] one by (simp add: flog2_def)
  define e where "e = max (- 1074) (?l - 1 - 52)"
  have e: "e \<le> 0" using l by (simp add: e_def)
  have int: "of_nat n / pow2 e = of_int (int n * 2 ^ nat (- e))"
    using e by (simp add: pow2_def field_simps)
  have exact: "of_int (int n * 2 ^ nat (- e)) * pow2 e = (of_nat n :: rat)"
    using e by (simp add: pow2_def)
  have "(of_nat n :: rat) < of_nat (2 ^ 53)" using assms by (simp only: of_nat_less_iff)
  also have "\<dots> \<le> pow2 1024" by (simp add: pow2_def)
  finally have "\<not> pow2 1024 \<le> (of_nat n :: rat)" by simp
  then show ?thesis using False
    unfolding f64_of_nat_def f64_round_def Let_def
    by (simp only: fl e_def [symmetric] abs_of_nat int round_half_even_int exact) simp
qed

text \<open>
  The approval ratio of integer counts compared with a rounded fraction gives the exact answer: the
  two differ by at least the reciprocal of the product of their denominators, which no rounding of
  numbers of this size bridges.
\<close>

lemma f64_ratio_exact:
  fixes a b p d :: nat
  assumes "a \<le> b" "0 < b" "0 < p" "p \<le> d" "b * d < 2 ^ 53"
  shows "f64_ge (f64_div (f64_of_nat a) (f64_of_nat b)) (f64_round (of_nat p / of_nat d))
           \<longleftrightarrow> p * b \<le> d * a"
proof -
  have d: "0 < d" using assms by simp
  have "b * 1 \<le> b * d" using d by (intro mult_le_mono) auto
  then have b53: "b < 2 ^ 53" using assms(5) by linarith
  define r t :: rat where "r = of_nat a / of_nat b" and "t = of_nat p / of_nat d"
  have "f64_div (f64_of_nat a) (f64_of_nat b) = f64_round r"
    using assms b53 by (simp add: f64_of_nat_exact r_def)
  moreover obtain v where v: "f64_round r = Finite v" "\<bar>v - r\<bar> \<le> 1 / 2 ^ 54"
    using f64_round_unit [of r] assms by (auto simp: r_def field_simps)
  moreover obtain w where w: "f64_round t = Finite w" "\<bar>w - t\<bar> \<le> 1 / 2 ^ 54"
    using f64_round_unit [of t] assms d by (auto simp: t_def field_simps)
  moreover have "w \<le> v \<longleftrightarrow> p * b \<le> d * a"
  proof -
    define D :: rat where "D = of_nat b * of_nat d"
    have D: "0 < D" "D < 2 ^ 53"
      using assms d of_nat_less_iff [of "b * d" "2 ^ 53", where 'a = rat] by (auto simp: D_def)
    have diff: "(r - t) * D = of_nat (d * a) - of_nat (p * b)"
      using assms d by (simp add: r_def t_def D_def field_simps)
    define u G :: rat where "u = 1 / 2 ^ 54" and "G = 1 / D"
    have "2 * u = 1 / 2 ^ 53" by (simp add: u_def)
    moreover have "1 / 2 ^ 53 < 1 / D" using D by (simp add: frac_less2)
    ultimately have gap: "2 * u < G" by (simp add: G_def)
    have near: "\<bar>v - r\<bar> \<le> u" "\<bar>w - t\<bar> \<le> u" using v(2) w(2) by (simp_all only: u_def)
    consider "d * a = p * b" | "p * b + 1 \<le> d * a" | "d * a + 1 \<le> p * b" by linarith
    then show ?thesis
    proof cases
      case 1
      then have "r = t" using diff D by simp
      then show ?thesis using 1 v w by simp
    next
      case 2
      then have "(of_nat (p * b + 1) :: rat) \<le> of_nat (d * a)" by (simp only: of_nat_le_iff)
      then have "1 \<le> (r - t) * D" using diff by simp
      then have "G \<le> r - t" using D by (simp add: G_def field_simps)
      then have "w \<le> v" using gap near by linarith
      then show ?thesis using 2 by simp
    next
      case 3
      then have "(of_nat (d * a + 1) :: rat) \<le> of_nat (p * b)" by (simp only: of_nat_le_iff)
      then have "1 \<le> (t - r) * D" using diff by (simp add: left_diff_distrib)
      then have "G \<le> t - r" using D by (simp add: G_def field_simps)
      then have "\<not> w \<le> v" using gap near by linarith
      then show ?thesis using 3 by simp
    qed
  qed
  ultimately show ?thesis by (auto simp: f64_le_def t_def)
qed

subsection \<open>The rounding of a number between one half and one\<close>

lemma flog2_unique:
  assumes "pow2 e \<le> q" "q < pow2 (e + 1)"
  shows "flog2 q = e"
proof -
  obtain p d where pd: "quotient_of q = (p, d)" by (cases "quotient_of q")
  have d: "0 < d" and q: "q = of_int p / of_int d"
    using quotient_of_denom_pos [OF pd] quotient_of_div [OF pd] by auto
  have "0 < q" using assms(1) pow2_pos [of e] by linarith
  then have p: "0 < p" using q d by (simp add: zero_less_divide_iff)
  let ?l = "bitlen p - bitlen d"
  have b: "2 powi (bitlen x - 1) \<le> (of_int x :: rat)" "(of_int x :: rat) < 2 powi (bitlen x)" if "0 < x" for x
  proof -
    have "1 \<le> bitlen x" using that by (simp add: bitlen_ge_iff_power)
    moreover have "2 ^ nat (bitlen x - 1) \<le> x" "x < 2 ^ nat (bitlen x)" using bitlen_bounds [OF that] by auto
    then have "(2::rat) ^ nat (bitlen x - 1) \<le> of_int x" "(of_int x :: rat) < 2 ^ nat (bitlen x)"
      by (metis of_int_le_iff of_int_numeral of_int_power) (metis of_int_less_iff of_int_numeral of_int_power \<open>x < 2 ^ nat (bitlen x)\<close>)
    ultimately show "2 powi (bitlen x - 1) \<le> (of_int x :: rat)" "(of_int x :: rat) < 2 powi (bitlen x)"
      by (simp_all add: power_int_def)
  qed
  have "q * 2 powi (bitlen d - 1) \<le> of_int p" 
    using b(1) [OF d] d p unfolding q by (simp add: field_simps mult_left_mono)
  then have "q < 2 powi (bitlen p) / 2 powi (bitlen d - 1)"
    using b(2) [OF p] by (simp add: field_simps)
  then have up: "q < pow2 (?l + 1)" by (simp add: pow2_powi flip: power_int_diff) (simp add: algebra_simps)
  have "of_int p < q * 2 powi (bitlen d)"
    using b(2) [OF d] d p unfolding q by (simp add: field_simps mult_left_mono)
  then have "2 powi (bitlen p - 1) / 2 powi (bitlen d) < q"
    using b(1) [OF p] by (simp add: field_simps)
  then have low: "pow2 (?l - 1) < q" by (simp add: pow2_powi flip: power_int_diff) (simp add: algebra_simps)
  have e: "x < y" if "pow2 x < pow2 y" for x y using that pow2_mono [of y x] by (metis leD not_le)
  have "e < ?l + 1" "?l - 1 < e + 1" using e up low assms by (meson order_le_less_trans order_less_trans)+
  show ?thesis
  proof (cases "pow2 ?l \<le> q")
    case True
    then have "?l < e + 1" using e assms by (meson order_le_less_trans)
    then show ?thesis using True \<open>e < ?l + 1\<close> by (simp add: flog2_def pd Let_def)
  next
    case False
    then have "e < ?l" using e assms by (meson order_le_less_trans not_le)
    then show ?thesis using False \<open>?l - 1 < e + 1\<close> by (simp add: flog2_def pd Let_def)
  qed
qed

lemma f64_round_half_to_one:
  assumes "1 / 2 \<le> q" "q < 1"
  shows "f64_round q = Finite (of_int (round_half_even (q * 2 ^ 53)) / 2 ^ 53)"
proof -
  have "flog2 q = - 1" using assms by (intro flog2_unique) (simp_all add: pow2_def)
  moreover have "\<not> pow2 1024 \<le> of_int (round_half_even (q * 2 ^ 53)) / 2 ^ 53"
  proof -
    define b :: rat where "b = 2 ^ 53"
    have "1 \<le> b" by (simp add: b_def)
    moreover have "q * b \<le> b" using assms(2) \<open>1 \<le> b\<close> by simp
    ultimately have "of_int (round_half_even (q * b)) \<le> 2 * b"
      using round_half_even_error [of "q * b"] by linarith
    then have "of_int (round_half_even (q * b)) / b \<le> 2"
      using \<open>1 \<le> b\<close> by (simp add: divide_le_eq)
    then have "of_int (round_half_even (q * 2 ^ 53)) / 2 ^ 53 \<le> (2::rat)" by (simp only: b_def)
    moreover have "(2::rat) < pow2 1024" by (simp add: pow2_def)
    ultimately show ?thesis by linarith
  qed
  ultimately show ?thesis using assms by (simp add: f64_round_def Let_def pow2_def)
qed

lemma round_half_even_near:
  assumes "\<bar>of_int n - x\<bar> < 1 / 2"
  shows "round_half_even x = n"
proof -
  have "\<bar>of_int (round_half_even x) - (of_int n :: rat)\<bar> < 1"
    using assms round_half_even_error [of x] by linarith
  then show ?thesis by (simp flip: of_int_diff)
qed

lemma f64_round_near:
  assumes "1 / 2 \<le> q" "q < 1" "\<bar>of_int n - q * 2 ^ 53\<bar> < 1 / 2"
  shows "f64_round q = Finite (of_int n / 2 ^ 53)"
  using f64_round_half_to_one [OF assms(1,2)] round_half_even_near [OF assms(3)] by simp

end
