(* ===== verification/Ordered_Map.thy ===== *)
theory Ordered_Map
  imports Prelude "HOL-Library.Multiset"
begin

text \<open>
  \<^verbatim>\<open>std::collections::BTreeMap\<close> as the ordered association list of its entries, and
  the interface the modes rely on. Iteration (\<^verbatim>\<open>values\<close>, \<^verbatim>\<open>iter\<close>) is
  the list itself, so it runs in key order, which for string keys is bytewise.
\<close>

type_synonym ('k, 'v) btree = "('k \<times> 'v) list"

definition bt_invar :: "('k::linorder, 'v) btree \<Rightarrow> bool" where
  "bt_invar m \<longleftrightarrow> sorted_wrt (<) (map fst m)"

definition bt_empty :: "('k, 'v) btree" where
  "bt_empty = []"

fun bt_insert :: "'k::linorder \<Rightarrow> 'v \<Rightarrow> ('k, 'v) btree \<Rightarrow> ('k, 'v) btree" where
  "bt_insert k v [] = [(k, v)]"
| "bt_insert k v ((k', v') # m) =
     (if k < k' then (k, v) # (k', v') # m
      else if k = k' then (k, v) # m
      else (k', v') # bt_insert k v m)"

fun bt_get :: "('k, 'v) btree \<Rightarrow> 'k \<Rightarrow> 'v option" where
  "bt_get [] k = None"
| "bt_get ((k', v) # m) k = (if k = k' then Some v else bt_get m k)"

definition bt_contains :: "('k, 'v) btree \<Rightarrow> 'k \<Rightarrow> bool" where
  "bt_contains m k \<longleftrightarrow> bt_get m k \<noteq> None"

definition bt_values :: "('k, 'v) btree \<Rightarrow> 'v list" where
  "bt_values m = map snd m"

definition bt_retain :: "('k \<Rightarrow> 'v \<Rightarrow> bool) \<Rightarrow> ('k, 'v) btree \<Rightarrow> ('k, 'v) btree" where
  "bt_retain P m = filter (\<lambda>(k, v). P k v) m"

text \<open>In-place update of every value, \<^verbatim>\<open>values_mut\<close>.\<close>

definition bt_map_values :: "('v \<Rightarrow> 'v) \<Rightarrow> ('k, 'v) btree \<Rightarrow> ('k, 'v) btree" where
  "bt_map_values f m = map (\<lambda>(k, v). (k, f v)) m"

subsection \<open>The interface\<close>

text \<open>
  What a client of an ordered map may assume: lookup after insert, the keys of the entry
  list, and that every operation keeps the representation invariant.
\<close>

locale ordered_map =
  fixes empty :: "'m"
    and ins :: "'k::linorder \<Rightarrow> 'v \<Rightarrow> 'm \<Rightarrow> 'm"
    and get :: "'m \<Rightarrow> 'k \<Rightarrow> 'v option"
    and entries :: "'m \<Rightarrow> ('k \<times> 'v) list"
    and invar :: "'m \<Rightarrow> bool"
  assumes invar_empty: "invar empty"
    and entries_empty: "entries empty = []"
    and invar_ins: "invar m \<Longrightarrow> invar (ins k v m)"
    and get_entries: "invar m \<Longrightarrow> get m = map_of (entries m)"
    and keys_sorted: "invar m \<Longrightarrow> sorted_wrt (<) (map fst (entries m))"
    and entries_ins_fresh: "invar m \<Longrightarrow> get m k = None \<Longrightarrow>
          mset (entries (ins k v m)) = add_mset (k, v) (mset (entries m))"
    and entries_ins_bound: "invar m \<Longrightarrow> get m k = Some w \<Longrightarrow>
          mset (entries (ins k v m)) = add_mset (k, v) (mset (entries m) - {#(k, w)#})"
begin

lemma distinct_keys: "invar m \<Longrightarrow> distinct (map fst (entries m))"
  using keys_sorted strict_sorted_iff by blast

lemma get_iff: "invar m \<Longrightarrow> get m k = Some v \<longleftrightarrow> (k, v) \<in> set (entries m)"
  by (simp add: get_entries distinct_keys map_of_eq_Some_iff)

lemma entry_unique:
  "invar m \<Longrightarrow> (k, v) \<in> set (entries m) \<Longrightarrow> (k, w) \<in> set (entries m) \<Longrightarrow> v = w"
  by (metis get_iff option.inject)

lemma mset_entries_Diff:
  assumes "invar m" "get m k = Some w"
  shows "set_mset (mset (entries m) - {#(k, w)#}) = {e \<in> set (entries m). fst e \<noteq> k}"
proof -
  have d: "distinct (map fst (entries m))" by (rule distinct_keys) (rule assms(1))
  then have de: "distinct (entries m)" using distinct_map by blast
  have rm: "set_mset (mset (entries m) - {#(k, w)#}) = set (entries m) - {(k, w)}"
    using de by (metis mset_remove1 set_mset_mset set_remove1_eq)
  have uniq: "v = w" if "(k, v) \<in> set (entries m)" for v
    using that assms by (simp flip: get_iff)
  have "set (entries m) - {(k, w)} = {e \<in> set (entries m). fst e \<noteq> k}"
  proof (rule set_eqI, rule iffI)
    fix e assume e: "e \<in> set (entries m) - {(k, w)}"
    obtain j v where jv: "e = (j, v)" by (cases e)
    with e uniq [of v] have "j \<noteq> k" by blast
    with e jv show "e \<in> {e \<in> set (entries m). fst e \<noteq> k}" by simp
  qed auto
  with rm show ?thesis by simp
qed

lemma set_entries_ins:
  assumes "invar m"
  shows "set (entries (ins k v m)) = insert (k, v) {e \<in> set (entries m). fst e \<noteq> k}"
proof (cases "get m k")
  case None
  then have "\<forall>e \<in> set (entries m). fst e \<noteq> k"
    using assms by (auto simp: get_entries map_of_eq_None_iff)
  moreover have "set (entries (ins k v m)) = insert (k, v) (set (entries m))"
    using entries_ins_fresh [OF assms None] by (metis set_mset_add_mset_insert set_mset_mset)
  ultimately show ?thesis by auto
next
  case (Some w)
  have "set (entries (ins k v m)) = insert (k, v) (set_mset (mset (entries m) - {#(k, w)#}))"
    using entries_ins_bound [OF assms Some] by (metis set_mset_add_mset_insert set_mset_mset)
  then show ?thesis by (simp add: mset_entries_Diff [OF assms Some])
qed

lemma get_ins:
  assumes "invar m"
  shows "get (ins k v m) = (get m)(k \<mapsto> v)"
proof
  fix j
  show "get (ins k v m) j = ((get m)(k \<mapsto> v)) j"
  proof (cases "j = k")
    case True
    have "(k, v) \<in> set (entries (ins k v m))" by (simp add: set_entries_ins assms)
    then have "get (ins k v m) k = Some v" by (simp add: get_iff invar_ins assms)
    with True show ?thesis by simp
  next
    case False
    then have "(j, w) \<in> set (entries (ins k v m)) \<longleftrightarrow> (j, w) \<in> set (entries m)" for w
      by (simp add: set_entries_ins assms)
    then have "get (ins k v m) j = Some w \<longleftrightarrow> get m j = Some w" for w
      by (simp add: get_iff invar_ins assms)
    then have "get (ins k v m) j = get m j" by (metis not_Some_eq)
    with False show ?thesis by simp
  qed
qed

lemma ins_commute:
  assumes "invar m" "j \<noteq> k"
  shows "get (ins j v (ins k w m)) = get (ins k w (ins j v m))"
  using assms by (simp add: get_ins invar_ins fun_upd_twist)

lemma size_ins_fresh:
  "invar m \<Longrightarrow> get m k = None \<Longrightarrow> length (entries (ins k v m)) = Suc (length (entries m))"
  using entries_ins_fresh [of m k v] by (metis size_add_mset size_mset)

lemma count_ins_fresh:
  assumes "invar m" "get m k = None"
  shows "length (filter P (entries (ins k v m)))
           = (if P (k, v) then 1 else 0) + length (filter P (entries m))"
proof -
  have len: "length (filter P xs) = size (filter_mset P (mset xs))" for xs :: "('k \<times> 'v) list"
    by (simp flip: mset_filter)
  show ?thesis by (simp add: len entries_ins_fresh [OF assms])
qed

end

subsection \<open>The association list implements it\<close>

lemma bt_get_map_of: "bt_get m k = map_of m k"
  by (induction m k rule: bt_get.induct) auto

lemma set_bt_insert_keys: "fst ` set (bt_insert k v m) = insert k (fst ` set m)"
  by (induction k v m rule: bt_insert.induct) (auto split: if_splits)

lemma bt_invar_Cons: "bt_invar ((k, v) # m) \<longleftrightarrow> (\<forall>j \<in> fst ` set m. k < j) \<and> bt_invar m"
  by (auto simp: bt_invar_def)

lemma bt_invar_insert: "bt_invar m \<Longrightarrow> bt_invar (bt_insert k v m)"
  by (induction k v m rule: bt_insert.induct)
    (auto simp: bt_invar_Cons set_bt_insert_keys bt_invar_def intro: less_trans)

lemma bt_get_None_iff: "bt_get m k = None \<longleftrightarrow> k \<notin> fst ` set m"
  by (simp add: bt_get_map_of map_of_eq_None_iff)

lemma mset_bt_insert_fresh:
  "bt_get m k = None \<Longrightarrow> mset (bt_insert k v m) = add_mset (k, v) (mset m)"
  by (induction k v m rule: bt_insert.induct) (auto split: if_splits)

lemma bt_get_beyond:
  fixes k :: "'k::linorder"
  assumes "\<forall>j \<in> fst ` set m. k < j"
  shows "bt_get m k = None"
  unfolding bt_get_None_iff
proof
  assume "k \<in> fst ` set m"
  with assms have "k < k" by (rule bspec)
  then show False by simp
qed

lemma mset_bt_insert_bound:
  assumes "bt_invar m" "bt_get m k = Some w"
  shows "mset (bt_insert k v m) = add_mset (k, v) (mset m - {#(k, w)#})"
  using assms
proof (induction k v m rule: bt_insert.induct)
  case (1 k v)
  then show ?case by simp
next
  case (2 k v k' v' m)
  have inv: "\<forall>j \<in> fst ` set m. k' < j" "bt_invar m"
    using "2.prems"(1) by (simp_all add: bt_invar_Cons)
  consider "k = k'" | "k < k'" | "k' < k" by (rule linorder_cases)
  then show ?case
  proof cases
    case 1
    with "2.prems" show ?thesis by simp
  next
    case 2
    then have "\<forall>j \<in> fst ` set m. k < j" using inv(1) less_trans by blast
    then have "bt_get m k = None" by (rule bt_get_beyond)
    with 2 "2.prems"(2) show ?thesis by (simp split: if_splits)
  next
    case 3
    then have "k \<noteq> k'" by simp
    then have g: "bt_get m k = Some w" using "2.prems"(2) by simp
    have "mset (bt_insert k v m) = add_mset (k, v) (mset m - {#(k, w)#})"
      using "2.IH" 3 inv(2) g by simp
    moreover have "(k, w) \<in># mset m"
      using g by (metis bt_get_map_of map_of_SomeD set_mset_mset)
    ultimately show ?thesis using 3 by simp
  qed
qed

interpretation bt: ordered_map bt_empty bt_insert bt_get "\<lambda>m. m" bt_invar
proof (unfold_locales, goal_cases)
  case 1 show ?case by (simp add: bt_invar_def bt_empty_def)
next
  case 2 show ?case by (simp add: bt_empty_def)
next
  case 3 then show ?case by (rule bt_invar_insert)
next
  case 4 show ?case by (auto simp: bt_get_map_of)
next
  case 5 then show ?case by (simp add: bt_invar_def)
next
  case 6 then show ?case by (intro mset_bt_insert_fresh)
next
  case 7 then show ?case by (intro mset_bt_insert_bound)
qed

lemmas bt_get_insert [simp] = bt.get_ins
lemmas bt_set_insert = bt.set_entries_ins

lemma bt_invar_empty [simp, intro]: "bt_invar bt_empty"
  by (rule bt.invar_empty)

lemma bt_get_empty [simp]: "bt_get bt_empty k = None"
  by (simp add: bt_empty_def)

lemma bt_invar_retain: "bt_invar m \<Longrightarrow> bt_invar (bt_retain P m)"
  by (induction m) (auto simp: bt_retain_def bt_invar_def)

lemma bt_invar_map_values: "bt_invar m \<Longrightarrow> bt_invar (bt_map_values f m)"
  by (simp add: bt_map_values_def bt_invar_def case_prod_beta comp_def)

lemma bt_get_map_values: "bt_get (bt_map_values f m) k = map_option f (bt_get m k)"
  by (induction m) (auto simp: bt_map_values_def)

lemma bt_values_iff: "bt_invar m \<Longrightarrow> v \<in> set (bt_values m) \<longleftrightarrow> (\<exists>k. bt_get m k = Some v)"
  by (force simp: bt_values_def bt.get_iff)

lemma bt_values_insert:
  assumes "bt_invar m"
  shows "set (bt_values (bt_insert k v m)) = insert v {w. \<exists>j. j \<noteq> k \<and> bt_get m j = Some w}"
  using assms by (auto simp: bt_values_iff bt_invar_insert split: if_splits)

lemma bt_get_in_values: "bt_get m k = Some v \<Longrightarrow> v \<in> set (bt_values m)"
  by (force simp: bt_get_map_of bt_values_def dest: map_of_SomeD)

end
