(* ===== verification/Policy_Types.thy ===== *)
theory Policy_Types
  imports F64 Ordered_Map
begin

text \<open>
  The vocabulary of \<^verbatim>\<open>macp-core\<close> that modes and evaluators share: the Decision
  mode's domain types (\<^verbatim>\<open>decision.rs\<close>), policy definitions and decisions
  (\<^verbatim>\<open>policy/mod.rs\<close>), denial reasons (\<^verbatim>\<open>policy/deny.rs\<close>), the rule
  schemas and the quorum threshold rule (\<^verbatim>\<open>policy/rules.rs\<close>).

  A rules document is a JSON value. Reading a rules structure out of it is
  \<^verbatim>\<open>serde_json::from_value\<close>, which is not code of the repository: \<open>rule_parsers\<close>
  collects those functions as a parameter of the definitions that call them.
  The text of a message is kept as its format pieces; rendering them is not modelled.
\<close>

section \<open>JSON values and message text\<close>

datatype json_number = PosInt nat | NegInt int | Float f64

datatype json =
    JNull
  | JBool bool
  | JNumber json_number
  | JString string
  | JArray "json list"
  | JObject "(string \<times> json) list"

fun json_get :: "json \<Rightarrow> string \<Rightarrow> json option" where
  "json_get (JObject kvs) k = map_of kvs k"
| "json_get _ k = None"

datatype fmt_piece =
    Lit string
  | FmtStr string
  | FmtNat nat
  | FmtF64 f64
  | FmtF64_1 f64
  | FmtF64_2 f64
  | FmtDebug "nat list"
  | FmtDebugStrs "string list"
  | FmtSerdeError

type_synonym message = "fmt_piece list"

section \<open>Decision mode domain types\<close>

datatype DecisionPhase = Proposal | Evaluation | Voting | Committed

record Proposal =
  pr_proposal_id :: string
  pr_option :: string
  pr_rationale :: string
  pr_sender :: string

record Evaluation =
  ev_proposal_id :: string
  ev_recommendation :: string
  ev_confidence :: f64
  ev_reason :: string
  ev_sender :: string

record Objection =
  ob_proposal_id :: string
  ob_reason :: string
  ob_severity :: string
  ob_sender :: string

record Vote =
  vo_proposal_id :: string
  vo_vote :: string
  vo_reason :: string
  vo_sender :: string

type_synonym vote_table = "(string, (string, Vote) btree) btree"

record DecisionState =
  ds_proposals :: "(string, Proposal) btree"
  ds_evaluations :: "Evaluation list"
  ds_objections :: "Objection list"
  ds_votes :: vote_table
  ds_phase :: DecisionPhase

section \<open>Policies and decisions\<close>

record PolicyDefinition =
  p_policy_id :: string
  p_mode :: string
  p_description :: string
  p_rules :: json
  p_schema_version :: u32

type_synonym DenyCode = string

record DenyReason =
  deny_code :: DenyCode
  deny_message :: message
  deny_participants :: "string list"

abbreviation "UNSPECIFIED \<equiv> ''unspecified''"
abbreviation "VETO \<equiv> ''veto''"
abbreviation "VETO_HOLD \<equiv> ''veto_hold''"
abbreviation "QUORUM_NOT_MET \<equiv> ''quorum_not_met''"
abbreviation "THRESHOLD_NOT_MET \<equiv> ''threshold_not_met''"
abbreviation "CONFIDENCE_BELOW_MINIMUM \<equiv> ''confidence_below_minimum''"
abbreviation "EVALUATION_REQUIRED \<equiv> ''evaluation_required''"
abbreviation "NO_VOTES \<equiv> ''no_votes''"
abbreviation "DECLINE_OVER_APPROVAL \<equiv> ''decline_over_approval''"
abbreviation "DECLINE_NOT_BACKED \<equiv> ''decline_not_backed''"
abbreviation "CRITERION_NOT_MET \<equiv> ''criterion_not_met''"
abbreviation "OUTPUT_REQUIRED \<equiv> ''output_required''"
abbreviation "REASSIGNMENT_NOT_ALLOWED \<equiv> ''reassignment_not_allowed''"
abbreviation "UNSUPPORTED_SCHEMA_VERSION \<equiv> ''unsupported_schema_version''"
abbreviation "INVALID_RULES \<equiv> ''invalid_rules''"

definition DenyReason_new :: "DenyCode \<Rightarrow> message \<Rightarrow> DenyReason" where
  "DenyReason_new c m = \<lparr>deny_code = c, deny_message = m, deny_participants = []\<rparr>"

text \<open>\<open>with_participants\<close> sorts the identifiers and removes adjacent duplicates.\<close>

definition with_participants :: "DenyReason \<Rightarrow> string list \<Rightarrow> DenyReason" where
  "with_participants r ps = r\<lparr>deny_participants := remdups_adj (sort ps)\<rparr>"

definition redacted :: "DenyReason \<Rightarrow> DenyReason" where
  "redacted r = r\<lparr>deny_participants := []\<rparr>"

datatype PolicyDecision = Allow "message list" | Deny "DenyReason list"

record CommitmentRules =
  cr_authority :: string
  cr_designated_roles :: "string list"
  cr_require_vote_quorum :: bool
  cr_allow_decline_over_approval :: bool

definition default_CommitmentRules :: CommitmentRules where
  "default_CommitmentRules =
     \<lparr>cr_authority = ''initiator_only'', cr_designated_roles = [],
      cr_require_vote_quorum = False, cr_allow_decline_over_approval = False\<rparr>"

datatype CommitmentMode =
    CM_Decision DecisionState
  | CM_Proposal nat
  | CM_Task bool
  | CM_Handoff
  | CM_Quorum nat nat nat

record CommitmentContext =
  cc_policy :: PolicyDefinition
  cc_participants :: "string list"
  cc_outcome_positive :: bool
  cc_mode :: CommitmentMode

type_synonym PolicyEvaluator = "CommitmentContext \<Rightarrow> PolicyDecision"

section \<open>Rule schemas\<close>

record QuorumRules =
  qr_quorum_type :: string
  qr_value :: f64

record VotingRules =
  vr_algorithm :: string
  vr_threshold :: f64
  vr_quorum :: QuorumRules
  vr_weights :: "string \<rightharpoonup> f64"

datatype CriticalObjectionAction = DenyAction | FinalizeDecline | Hold

record ObjectionHandlingRules =
  oh_critical_severity_vetoes :: bool
  oh_veto_threshold :: u32
  oh_critical_objection_action :: CriticalObjectionAction

record EvaluationRules =
  er_required_before_voting :: bool
  er_minimum_confidence :: f64

record DecisionPolicyRules =
  dr_voting :: VotingRules
  dr_objection_handling :: ObjectionHandlingRules
  dr_evaluation :: EvaluationRules
  dr_commitment :: CommitmentRules

definition default_DecisionPolicyRules :: DecisionPolicyRules where
  "default_DecisionPolicyRules =
     \<lparr>dr_voting = \<lparr>vr_algorithm = ''none'', vr_threshold = Finite (1 / 2),
        vr_quorum = \<lparr>qr_quorum_type = ''count'', qr_value = Finite 0\<rparr>,
        vr_weights = Map.empty\<rparr>,
      dr_objection_handling = \<lparr>oh_critical_severity_vetoes = False, oh_veto_threshold = 1,
        oh_critical_objection_action = DenyAction\<rparr>,
      dr_evaluation = \<lparr>er_required_before_voting = False, er_minimum_confidence = Finite 0\<rparr>,
      dr_commitment = default_CommitmentRules\<rparr>"

record ProposalAcceptanceRules =
  par_criterion :: string

record CounterProposalRules =
  cpr_max_rounds :: nat

record RejectionRules =
  rr_terminal_on_any_reject :: bool

record ProposalPolicyRules =
  ppr_acceptance :: ProposalAcceptanceRules
  ppr_counter_proposal :: CounterProposalRules
  ppr_rejection :: RejectionRules
  ppr_commitment :: CommitmentRules

definition default_ProposalPolicyRules :: ProposalPolicyRules where
  "default_ProposalPolicyRules =
     \<lparr>ppr_acceptance = \<lparr>par_criterion = ''all_parties''\<rparr>,
      ppr_counter_proposal = \<lparr>cpr_max_rounds = 0\<rparr>,
      ppr_rejection = \<lparr>rr_terminal_on_any_reject = False\<rparr>,
      ppr_commitment = default_CommitmentRules\<rparr>"

record TaskAssignmentRules =
  tar_allow_reassignment_on_reject :: bool

record TaskCompletionRules =
  tcr_require_output :: bool

record TaskPolicyRules =
  tpr_assignment :: TaskAssignmentRules
  tpr_completion :: TaskCompletionRules
  tpr_commitment :: CommitmentRules

definition default_TaskPolicyRules :: TaskPolicyRules where
  "default_TaskPolicyRules =
     \<lparr>tpr_assignment = \<lparr>tar_allow_reassignment_on_reject = False\<rparr>,
      tpr_completion = \<lparr>tcr_require_output = False\<rparr>,
      tpr_commitment = default_CommitmentRules\<rparr>"

record HandoffAcceptanceRules =
  har_implicit_accept_timeout_ms :: u64

record HandoffPolicyRules =
  hpr_acceptance :: HandoffAcceptanceRules
  hpr_commitment :: CommitmentRules

definition default_HandoffPolicyRules :: HandoffPolicyRules where
  "default_HandoffPolicyRules =
     \<lparr>hpr_acceptance = \<lparr>har_implicit_accept_timeout_ms = 0\<rparr>, hpr_commitment = default_CommitmentRules\<rparr>"

record QuorumThreshold =
  qt_threshold_type :: string
  qt_value :: f64

record AbstentionRules =
  ab_counts_toward_quorum :: bool
  ab_interpretation :: string

record QuorumPolicyRules =
  qpr_threshold :: QuorumThreshold
  qpr_abstention :: AbstentionRules
  qpr_commitment :: CommitmentRules

definition default_QuorumPolicyRules :: QuorumPolicyRules where
  "default_QuorumPolicyRules =
     \<lparr>qpr_threshold = \<lparr>qt_threshold_type = ''n_of_m'', qt_value = Finite 0\<rparr>,
      qpr_abstention = \<lparr>ab_counts_toward_quorum = False, ab_interpretation = ''neutral''\<rparr>,
      qpr_commitment = default_CommitmentRules\<rparr>"

text \<open>The \<^verbatim>\<open>serde_json::from_value\<close> instances: \<open>None\<close> is a failed parse.\<close>

record rule_parsers =
  parse_commitment_rules :: "json \<Rightarrow> CommitmentRules option"
  parse_decision_rules :: "json \<Rightarrow> DecisionPolicyRules option"
  parse_proposal_rules :: "json \<Rightarrow> ProposalPolicyRules option"
  parse_task_rules :: "json \<Rightarrow> TaskPolicyRules option"
  parse_handoff_rules :: "json \<Rightarrow> HandoffPolicyRules option"
  parse_quorum_rules :: "json \<Rightarrow> QuorumPolicyRules option"

definition unwrap_or :: "'a \<Rightarrow> 'a option \<Rightarrow> 'a" where
  "unwrap_or d x = (case x of None \<Rightarrow> d | Some y \<Rightarrow> y)"

definition extract_commitment_rules :: "rule_parsers \<Rightarrow> json \<Rightarrow> CommitmentRules" where
  "extract_commitment_rules rp rules =
     unwrap_or default_CommitmentRules
       (Option.bind (json_get rules ''commitment'') (parse_commitment_rules rp))"

section \<open>The quorum threshold rule\<close>

datatype EffectiveThreshold = Inert | Approvals u32 | Unsatisfiable

definition u128_sat_mul :: "nat \<Rightarrow> nat \<Rightarrow> nat" where
  "u128_sat_mul a b = min (a * b) (2 ^ 128 - 1)"

definition div_ceil :: "nat \<Rightarrow> nat \<Rightarrow> nat" where
  "div_ceil a b = a div b + (if a mod b = 0 then 0 else 1)"

definition effective :: "QuorumThreshold \<Rightarrow> nat \<Rightarrow> EffectiveThreshold" where
  "effective t total_participants =
     (let v = qt_value t in
      if \<not> f64_gt v (Finite 0) then Inert
      else if qt_threshold_type t = ''percentage'' then
        (if total_participants = 0 then Unsatisfiable
         else if f64_fract_is_zero v then
           (let scaled = div_ceil (u128_sat_mul (f64_as_unsigned 128 v) total_participants) 100
            in Approvals (min (max scaled 1) (2 ^ 32 - 1)))
         else
           (let required = f64_div (f64_mul v (f64_of_nat total_participants)) (Finite 100)
            in Approvals (max (f64_as_unsigned 32 (f64_ceil required)) 1)))
      else if qt_threshold_type t = ''n_of_m'' \<or> qt_threshold_type t = ''count'' then
        Approvals (max (f64_as_unsigned 32 (f64_ceil v)) 1)
      else Unsatisfiable)"

subsection \<open>Facts about the threshold\<close>

lemma div_ceil_bias: "0 < b \<Longrightarrow> div_ceil a b = (a + b - 1) div b"
proof -
  assume b: "0 < b"
  obtain q r where a: "a = q * b + r" and r: "r < b"
    using b by (metis div_mult_mod_eq mod_less_divisor)
  show ?thesis
  proof (cases "r = 0")
    case True
    then have "(a + b - 1) div b = q" using a b
      by (metis Nat.add_diff_assoc One_nat_def Suc_leI add.right_neutral diff_less div_mult_self3
          div_less lessI less_numeral_extra(1) not_gr_zero plus_1_eq_Suc)
    then show ?thesis using True a b by (simp add: div_ceil_def)
  next
    case False
    then have "a + b - 1 = (r - 1) + (q + 1) * b" using a by simp
    moreover have "r - 1 < b" using r by simp
    ultimately have "(a + b - 1) div b = q + 1" using b
      by (metis add.commute add_cancel_right_right div_less div_mult_self1 not_gr_zero)
    then show ?thesis using False a r b by (simp add: div_ceil_def)
  qed
qed

lemma effective_Approvals_bounds:
  assumes "effective t n = Approvals k"
  shows "1 \<le> k \<and> k < 2 ^ 32"
proof -
  have "f64_as_unsigned 32 x < 2 ^ 32" for x by (rule f64_as_unsigned_bound)
  then show ?thesis using assms
    by (auto simp: effective_def Let_def split: if_splits)
qed

lemma effective_percentage:
  assumes "qt_threshold_type t = ''percentage''" "qt_value t = Finite (of_nat v)"
    and "0 < v" "0 < n" "v * n \<le> 100 * (2 ^ 32 - 1)"
  shows "effective t n = Approvals ((v * n + 99) div 100)"
proof -
  have v: "v < 2 ^ 128"
  proof -
    have "v * 1 \<le> v * n" using assms(4) by (intro mult_le_mono) auto
    then have "v \<le> 100 * (2 ^ 32 - 1)" using assms(5) by linarith
    then show ?thesis by simp
  qed
  have cast: "min v 340282366920938463463374607431768211455 = v"
    using v by simp
  have mul: "u128_sat_mul v n = v * n"
    using assms(5) by (simp add: u128_sat_mul_def)
  have ceil: "div_ceil (v * n) 100 = (v * n + 99) div 100"
    by (simp add: div_ceil_bias)
  have lo: "1 \<le> (v * n + 99) div 100"
  proof -
    have "1 \<le> v * n" using assms(3,4) by (simp add: Suc_le_eq)
    then have "100 div 100 \<le> (v * n + 99) div 100" by (intro div_le_mono) linarith
    then show ?thesis by simp
  qed
  have hi: "(v * n + 99) div 100 \<le> 2 ^ 32 - 1" using assms(5) by simp
  show ?thesis
    using assms(1-4) lo hi by (simp add: effective_def Let_def cast mul ceil)
qed

end
