(* ===== verification/Errors.thy ===== *)
theory Errors
  imports Policy_Types
begin

text \<open>
  The protocol error vocabulary of \<^verbatim>\<open>macp-core/src/error.rs\<close>: the error variants,
  their registry codes, and the registry's gRPC and HTTP columns. Fallible operations of the
  model return \<open>'a result\<close>, with \<open>Inl\<close> for \<^verbatim>\<open>Err\<close> and \<open>Inr\<close> for \<^verbatim>\<open>Ok\<close>.
\<close>

datatype MacpError =
    InvalidMacpVersion
  | InvalidEnvelope
  | SessionAlreadyExists
  | UnknownSession
  | SessionNotOpen
  | TtlExpired
  | InvalidTtl
  | UnknownMode
  | InvalidModeState
  | InvalidPayload
  | Forbidden
  | Unauthenticated
  | DuplicateMessage
  | PayloadTooLarge
  | RateLimited
  | StorageFailed
  | InvalidSessionId
  | UnknownPolicyVersion
  | PolicyDenied "DenyReason list"
  | InvalidPolicyDefinition
  | RegistryReadOnly
  | InvalidRequest
  | StreamLagged
  | AgentNotFound
  | HistoryUnavailable
  | ReceiptUnavailable

type_synonym 'a result = "MacpError + 'a"

abbreviation Err :: "MacpError \<Rightarrow> 'a result" where "Err \<equiv> Inl"
abbreviation Ok :: "'a \<Rightarrow> 'a result" where "Ok \<equiv> Inr"

text \<open>The question mark operator: stop at the first error.\<close>

definition and_then :: "'a result \<Rightarrow> ('a \<Rightarrow> 'b result) \<Rightarrow> 'b result" where
  "and_then r f = (case r of Inl e \<Rightarrow> Inl e | Inr x \<Rightarrow> f x)"

definition guard :: "bool \<Rightarrow> MacpError \<Rightarrow> unit result" where
  "guard b e = (if b then Inr () else Inl e)"

definition ok_or :: "'a option \<Rightarrow> MacpError \<Rightarrow> 'a result" where
  "ok_or x e = (case x of None \<Rightarrow> Inl e | Some y \<Rightarrow> Inr y)"

lemma and_then_simps [simp]: "and_then (Inl e) f = Inl e" "and_then (Inr x) f = f x"
  by (simp_all add: and_then_def)

lemma and_then_Inr_iff [res_simps]: "and_then r f = Inr y \<longleftrightarrow> (\<exists>x. r = Inr x \<and> f x = Inr y)"
  by (cases r) auto

lemma and_then_Inl_iff [res_simps]:
  "and_then r f = Inl e \<longleftrightarrow> r = Inl e \<or> (\<exists>x. r = Inr x \<and> f x = Inl e)"
  by (cases r) auto

lemma guard_Inr_iff [res_simps]: "guard b e = Inr u \<longleftrightarrow> b"
  by (simp add: guard_def)

lemma guard_Inl_iff [res_simps]: "guard b e = Inl e' \<longleftrightarrow> \<not> b \<and> e' = e"
  by (auto simp: guard_def)

lemma guard_simps [simp]: "guard True e = Inr ()" "guard False e = Inl e"
  by (simp_all add: guard_def)

lemma ok_or_Inr_iff [res_simps]: "ok_or x e = Inr y \<longleftrightarrow> x = Some y"
  by (cases x) (auto simp: ok_or_def)

lemma ok_or_Inl_iff [res_simps]: "ok_or x e = Inl e' \<longleftrightarrow> x = None \<and> e' = e"
  by (cases x) (auto simp: ok_or_def)

lemma if_Err_Inr_iff [res_simps]: "(if b then Inl e else r) = Inr y \<longleftrightarrow> \<not> b \<and> r = Inr y"
  by simp

lemma if_Inr_Err_iff [res_simps]: "(if b then r else Inl e) = Inr y \<longleftrightarrow> b \<and> r = Inr y"
  by simp

lemma if_Err_Inl_iff [res_simps]:
  "(if b then Inl e else r) = Inl e' \<longleftrightarrow> b \<and> e = e' \<or> \<not> b \<and> r = Inl e'"
  by auto

lemma if_Inl_Err_iff [res_simps]:
  "(if b then r else Inl e) = Inl e' \<longleftrightarrow> \<not> b \<and> e = e' \<or> b \<and> r = Inl e'"
  by auto

lemma ok_or_simps [simp]: "ok_or None e = Inl e" "ok_or (Some y) e = Inr y"
  by (simp_all add: ok_or_def)

section \<open>The error-codes registry\<close>

fun error_code :: "MacpError \<Rightarrow> string" where
  "error_code InvalidMacpVersion = ''UNSUPPORTED_PROTOCOL_VERSION''"
| "error_code InvalidEnvelope = ''INVALID_ENVELOPE''"
| "error_code SessionAlreadyExists = ''SESSION_ALREADY_EXISTS''"
| "error_code UnknownSession = ''SESSION_NOT_FOUND''"
| "error_code SessionNotOpen = ''SESSION_NOT_OPEN''"
| "error_code TtlExpired = ''SESSION_NOT_OPEN''"
| "error_code InvalidTtl = ''INVALID_ENVELOPE''"
| "error_code UnknownMode = ''MODE_NOT_SUPPORTED''"
| "error_code InvalidModeState = ''INVALID_ENVELOPE''"
| "error_code InvalidPayload = ''INVALID_ENVELOPE''"
| "error_code Forbidden = ''FORBIDDEN''"
| "error_code MacpError.Unauthenticated = ''UNAUTHENTICATED''"
| "error_code DuplicateMessage = ''DUPLICATE_MESSAGE''"
| "error_code PayloadTooLarge = ''PAYLOAD_TOO_LARGE''"
| "error_code RateLimited = ''RATE_LIMITED''"
| "error_code StorageFailed = ''INTERNAL_ERROR''"
| "error_code InvalidSessionId = ''INVALID_SESSION_ID''"
| "error_code UnknownPolicyVersion = ''UNKNOWN_POLICY_VERSION''"
| "error_code (PolicyDenied _) = ''POLICY_DENIED''"
| "error_code InvalidPolicyDefinition = ''INVALID_POLICY_DEFINITION''"
| "error_code RegistryReadOnly = ''REGISTRY_READ_ONLY''"
| "error_code InvalidRequest = ''INVALID_REQUEST''"
| "error_code StreamLagged = ''STREAM_LAGGED''"
| "error_code AgentNotFound = ''AGENT_NOT_FOUND''"
| "error_code HistoryUnavailable = ''HISTORY_UNAVAILABLE''"
| "error_code ReceiptUnavailable = ''RECEIPT_UNAVAILABLE''"

datatype TransportStatus =
    InvalidArgument
  | NotFound
  | AlreadyExists
  | PermissionDenied
  | ResourceExhausted
  | FailedPrecondition
  | Internal
  | Unauthenticated

fun grpc_code :: "TransportStatus \<Rightarrow> nat" where
  "grpc_code InvalidArgument = 3"
| "grpc_code NotFound = 5"
| "grpc_code AlreadyExists = 6"
| "grpc_code PermissionDenied = 7"
| "grpc_code ResourceExhausted = 8"
| "grpc_code FailedPrecondition = 9"
| "grpc_code Internal = 13"
| "grpc_code TransportStatus.Unauthenticated = 16"

fun grpc_name :: "TransportStatus \<Rightarrow> string" where
  "grpc_name InvalidArgument = ''INVALID_ARGUMENT''"
| "grpc_name NotFound = ''NOT_FOUND''"
| "grpc_name AlreadyExists = ''ALREADY_EXISTS''"
| "grpc_name PermissionDenied = ''PERMISSION_DENIED''"
| "grpc_name ResourceExhausted = ''RESOURCE_EXHAUSTED''"
| "grpc_name FailedPrecondition = ''FAILED_PRECONDITION''"
| "grpc_name Internal = ''INTERNAL''"
| "grpc_name TransportStatus.Unauthenticated = ''UNAUTHENTICATED''"

record RegistryEntry =
  re_code :: string
  re_grpc :: TransportStatus
  re_http :: nat

abbreviation entry :: "string \<Rightarrow> TransportStatus \<Rightarrow> nat \<Rightarrow> RegistryEntry" where
  "entry c g h \<equiv> \<lparr>re_code = c, re_grpc = g, re_http = h\<rparr>"

definition ERROR_CODE_REGISTRY :: "RegistryEntry list" where
  "ERROR_CODE_REGISTRY =
    [entry ''UNAUTHENTICATED'' TransportStatus.Unauthenticated 401,
     entry ''FORBIDDEN'' PermissionDenied 403,
     entry ''SESSION_NOT_FOUND'' NotFound 404,
     entry ''SESSION_NOT_OPEN'' FailedPrecondition 409,
     entry ''DUPLICATE_MESSAGE'' AlreadyExists 409,
     entry ''SESSION_ALREADY_EXISTS'' AlreadyExists 409,
     entry ''INVALID_ENVELOPE'' InvalidArgument 400,
     entry ''UNSUPPORTED_PROTOCOL_VERSION'' InvalidArgument 400,
     entry ''MODE_NOT_SUPPORTED'' InvalidArgument 400,
     entry ''PAYLOAD_TOO_LARGE'' ResourceExhausted 413,
     entry ''RATE_LIMITED'' ResourceExhausted 429,
     entry ''INVALID_SESSION_ID'' InvalidArgument 400,
     entry ''INTERNAL_ERROR'' Internal 500,
     entry ''UNKNOWN_POLICY_VERSION'' NotFound 404,
     entry ''POLICY_DENIED'' PermissionDenied 403,
     entry ''INVALID_POLICY_DEFINITION'' InvalidArgument 400,
     entry ''REGISTRY_READ_ONLY'' FailedPrecondition 409,
     entry ''INVALID_REQUEST'' InvalidArgument 400,
     entry ''STREAM_LAGGED'' ResourceExhausted 503,
     entry ''AGENT_NOT_FOUND'' NotFound 404,
     entry ''HISTORY_UNAVAILABLE'' FailedPrecondition 409,
     entry ''RECEIPT_UNAVAILABLE'' FailedPrecondition 409,
     entry ''UNAUTHORIZED'' PermissionDenied 403]"

definition registry_entry :: "string \<Rightarrow> RegistryEntry option" where
  "registry_entry c = List.find (\<lambda>e. re_code e = c) ERROR_CODE_REGISTRY"

text \<open>\<open>registry_row\<close> panics when the lookup fails: \<open>None\<close> is the panic.\<close>

definition registry_row :: "MacpError \<Rightarrow> RegistryEntry option" where
  "registry_row e = registry_entry (error_code e)"

definition transport_status :: "MacpError \<Rightarrow> TransportStatus option" where
  "transport_status e = map_option re_grpc (registry_row e)"

definition http_status :: "MacpError \<Rightarrow> nat option" where
  "http_status e = map_option re_http (registry_row e)"

fun deny_reasons :: "MacpError \<Rightarrow> DenyReason list" where
  "deny_reasons (PolicyDenied rs) = rs"
| "deny_reasons _ = []"

lemma registry_codes_distinct: "distinct (map re_code ERROR_CODE_REGISTRY)"
  by (simp add: ERROR_CODE_REGISTRY_def)

lemma registry_row_total:
  "\<exists>row. registry_row e = Some row \<and> re_code row = error_code e"
  by (cases e) (simp_all add: registry_row_def registry_entry_def ERROR_CODE_REGISTRY_def)

end
