(* ===== verification/Sessions.thy ===== *)
theory Sessions
  imports Errors
begin

text \<open>
  The session model of \<^verbatim>\<open>macp-core/src/session.rs\<close>: the session record, its lifecycle
  operations (suspend, resume, cancel, expire), the suspension-corrected deadline walk, and the
  SessionStart validation. A method that takes \<^verbatim>\<open>&mut self\<close> and returns a \<^verbatim>\<open>Result\<close>
  is a function to a pair of the result and the session it leaves behind.

  Subtractions the source writes without saturation are 64-bit two's complement (\<open>wrap_i64\<close>).
  \<^verbatim>\<open>uuid::Uuid::parse_str\<close> and the protobuf decoder are parameters.
\<close>

section \<open>Data\<close>

definition MAX_TTL_MS :: i64 where "MAX_TTL_MS = 24 * 60 * 60 * 1000"

definition MAX_SUSPEND_MS :: i64 where "MAX_SUSPEND_MS = 7 * 24 * 60 * 60 * 1000"

definition MAX_SUSPENSION_CYCLES :: nat where "MAX_SUSPENSION_CYCLES = 1024"

definition CURRENT_SEMANTICS_REV :: u32 where "CURRENT_SEMANTICS_REV = 4"

definition resolve_max_suspend_ms :: "i64 \<Rightarrow> i64" where
  "resolve_max_suspend_ms payload_value =
     (if payload_value > 0 then payload_value else MAX_SUSPEND_MS)"

datatype SessionState = Open | Suspended | Resolved | Expired | Cancelled

fun is_terminal :: "SessionState \<Rightarrow> bool" where
  "is_terminal Resolved = True"
| "is_terminal Expired = True"
| "is_terminal Cancelled = True"
| "is_terminal _ = False"

record Root =
  r_uri :: string
  r_name :: string

record Session =
  s_session_id :: string
  s_state :: SessionState
  s_ttl_expiry :: i64
  s_ttl_ms :: i64
  s_started_at_unix_ms :: i64
  s_resolution :: "bytes option"
  s_mode :: string
  s_mode_state :: bytes
  s_participants :: "string list"
  s_seen_message_ids :: "string set"
  s_intent :: string
  s_mode_version :: string
  s_configuration_version :: string
  s_policy_version :: string
  s_context_id :: string
  s_extensions :: "string \<rightharpoonup> bytes"
  s_roots :: "Root list"
  s_initiator_sender :: string
  s_participant_message_counts :: "string \<rightharpoonup> u32"
  s_participant_last_seen :: "string \<rightharpoonup> i64"
  s_policy_definition :: "PolicyDefinition option"
  s_suspended_at_ms :: "i64 option"
  s_accumulated_suspended_ms :: i64
  s_suspension_intervals :: "(i64 \<times> i64) list"
  s_semantics_rev :: u32
  s_max_suspend_ms :: i64

definition Session_builder :: "string \<Rightarrow> string \<Rightarrow> string \<Rightarrow> Session" where
  "Session_builder session_id mode initiator_sender =
     \<lparr>s_session_id = session_id, s_state = Open, s_ttl_expiry = i64_max, s_ttl_ms = 0,
      s_started_at_unix_ms = 0, s_resolution = None, s_mode = mode, s_mode_state = [],
      s_participants = [], s_seen_message_ids = {}, s_intent = [], s_mode_version = [],
      s_configuration_version = [], s_policy_version = [], s_context_id = [],
      s_extensions = Map.empty, s_roots = [], s_initiator_sender = initiator_sender,
      s_participant_message_counts = Map.empty, s_participant_last_seen = Map.empty,
      s_policy_definition = None, s_suspended_at_ms = None, s_accumulated_suspended_ms = 0,
      s_suspension_intervals = [], s_semantics_rev = CURRENT_SEMANTICS_REV,
      s_max_suspend_ms = 0\<rparr>"

section \<open>Lifecycle operations\<close>

definition record_participant_activity :: "string \<Rightarrow> i64 \<Rightarrow> Session \<Rightarrow> Session" where
  "record_participant_activity sender timestamp_ms s =
     s\<lparr>s_participant_message_counts := (s_participant_message_counts s)
         (sender \<mapsto> as_u32 (unwrap_or 0 (s_participant_message_counts s sender) + 1)),
       s_participant_last_seen := (s_participant_last_seen s)(sender \<mapsto> timestamp_ms)\<rparr>"

definition suspend :: "i64 \<Rightarrow> Session \<Rightarrow> unit result \<times> Session" where
  "suspend now_ms s =
     (if s_state s \<noteq> Open then (Err SessionNotOpen, s)
      else (Ok (), s\<lparr>s_state := Suspended, s_suspended_at_ms := Some now_ms\<rparr>))"

definition effective_max_suspend_ms :: "Session \<Rightarrow> i64" where
  "effective_max_suspend_ms s =
     (if s_max_suspend_ms s > 0 then s_max_suspend_ms s else MAX_SUSPEND_MS)"

definition resume :: "i64 \<Rightarrow> Session \<Rightarrow> unit result \<times> Session" where
  "resume now_ms s =
     (if s_state s \<noteq> Suspended then (Err SessionNotOpen, s)
      else
        let suspended_at = unwrap_or now_ms (s_suspended_at_ms s);
            banked = max (wrap_i64 (now_ms - suspended_at)) 0;
            s1 = s\<lparr>s_accumulated_suspended_ms := sat_add (s_accumulated_suspended_ms s) banked,
                   s_suspended_at_ms := None\<rparr>;
            s2 = (if s_semantics_rev s1 \<ge> 2
                     \<or> length (s_suspension_intervals s1) < MAX_SUSPENSION_CYCLES
                  then s1\<lparr>s_suspension_intervals :=
                            s_suspension_intervals s1 @ [(suspended_at, now_ms)]\<rparr>
                  else s1)
        in if s_semantics_rev s2 \<ge> 2
              \<and> length (s_suspension_intervals s2) > MAX_SUSPENSION_CYCLES
           then (Err TtlExpired, s2\<lparr>s_state := Expired\<rparr>)
           else if s_accumulated_suspended_ms s2 > effective_max_suspend_ms s2
           then (Err TtlExpired, s2\<lparr>s_state := Expired\<rparr>)
           else (Ok (), s2\<lparr>s_ttl_expiry := sat_add (s_ttl_expiry s2) banked,
                           s_state := Open\<rparr>))"

definition cancel :: "Session \<Rightarrow> unit result \<times> Session" where
  "cancel s =
     (if is_terminal (s_state s) then (Err SessionNotOpen, s)
      else (Ok (), s\<lparr>s_state := Cancelled, s_suspended_at_ms := None\<rparr>))"

definition suspend_cap_exceeded :: "i64 \<Rightarrow> Session \<Rightarrow> bool" where
  "suspend_cap_exceeded now_ms s =
     (case s_suspended_at_ms s of
        Some at_ms \<Rightarrow> sat_add (s_accumulated_suspended_ms s) (max (wrap_i64 (now_ms - at_ms)) 0)
                   > effective_max_suspend_ms s
      | None \<Rightarrow> s_accumulated_suspended_ms s > effective_max_suspend_ms s)"

definition deadline_passed :: "i64 \<Rightarrow> Session \<Rightarrow> bool" where
  "deadline_passed now_ms s =
     (case s_state s of
        Open \<Rightarrow> now_ms > s_ttl_expiry s
      | Suspended \<Rightarrow> suspend_cap_exceeded now_ms s
      | _ \<Rightarrow> False)"

definition expire :: "Session \<Rightarrow> unit result \<times> Session" where
  "expire s =
     (if is_terminal (s_state s) then (Err SessionNotOpen, s)
      else (Ok (), s\<lparr>s_state := Expired, s_suspended_at_ms := None\<rparr>))"

fun deadline_walk :: "(i64 \<times> i64) list \<Rightarrow> i64 \<Rightarrow> i64 \<Rightarrow> i64" where
  "deadline_walk [] cur remaining = sat_add cur remaining"
| "deadline_walk ((s, e) # ivs) cur remaining =
     (let run = max (sat_sub s cur) 0 in
      if run \<ge> remaining then sat_add cur remaining
      else deadline_walk ivs (max (max e s) cur) (sat_sub remaining run))"

definition unsuspended_deadline :: "Session \<Rightarrow> i64 \<Rightarrow> i64 \<Rightarrow> i64" where
  "unsuspended_deadline s from_ms duration_ms =
     deadline_walk (filter (\<lambda>(a, _). a \<ge> from_ms) (s_suspension_intervals s)) from_ms duration_ms"

datatype ModeResponse =
    NoOp
  | PersistState bytes
  | Resolve bytes
  | PersistAndResolve bytes bytes

fun apply_mode_response :: "ModeResponse \<Rightarrow> Session \<Rightarrow> Session" where
  "apply_mode_response NoOp s = s"
| "apply_mode_response (PersistState st) s = s\<lparr>s_mode_state := st\<rparr>"
| "apply_mode_response (Resolve resolution) s =
     s\<lparr>s_state := Resolved, s_resolution := Some resolution\<rparr>"
| "apply_mode_response (PersistAndResolve st resolution) s =
     s\<lparr>s_mode_state := st, s_state := Resolved, s_resolution := Some resolution\<rparr>"

section \<open>SessionStart validation\<close>

record SessionStartPayload =
  ssp_intent :: string
  ssp_participants :: "string list"
  ssp_mode_version :: string
  ssp_configuration_version :: string
  ssp_policy_version :: string
  ssp_ttl_ms :: i64
  ssp_context_id :: string
  ssp_extensions :: "string \<rightharpoonup> bytes"
  ssp_roots :: "Root list"
  ssp_max_suspend_ms :: i64

definition requires_strict_session_start :: "string \<Rightarrow> bool" where
  "requires_strict_session_start mode =
     (mode \<in> {''macp.mode.decision.v1'', ''macp.mode.proposal.v1'', ''macp.mode.task.v1'',
               ''macp.mode.handoff.v1'', ''macp.mode.quorum.v1'', ''ext.multi_round.v1''})"

definition parse_session_start_payload ::
    "(bytes \<Rightarrow> SessionStartPayload option) \<Rightarrow> bytes \<Rightarrow> SessionStartPayload result" where
  "parse_session_start_payload decode payload =
     (if payload = [] then Err InvalidPayload else ok_or (decode payload) InvalidPayload)"

definition extract_ttl_ms :: "SessionStartPayload \<Rightarrow> i64 result" where
  "extract_ttl_ms payload =
     (if \<not> (1 \<le> ssp_ttl_ms payload \<and> ssp_ttl_ms payload \<le> MAX_TTL_MS) then Err InvalidTtl
      else Ok (ssp_ttl_ms payload))"

definition allows_empty_participants :: "string \<Rightarrow> bool" where
  "allows_empty_participants mode = (mode = ''macp.mode.decision.v1'')"

definition MAX_PARTICIPANTS :: nat where "MAX_PARTICIPANTS = 1000"

fun check_roster :: "string list \<Rightarrow> string set \<Rightarrow> unit result" where
  "check_roster [] seen = Ok ()"
| "check_roster (p # ps) seen =
     (let participant = trim p in
      if participant = [] \<or> participant \<in> seen then Err InvalidPayload
      else check_roster ps (insert participant seen))"

definition validate_canonical_start :: "SessionStartPayload \<Rightarrow> bool \<Rightarrow> unit result" where
  "validate_canonical_start payload allow_empty_participants =
     and_then (extract_ttl_ms payload) (\<lambda>_.
     if blank (ssp_mode_version payload) \<or> blank (ssp_configuration_version payload)
     then Err InvalidPayload
     else if ssp_participants payload = [] \<and> \<not> allow_empty_participants
     then Err InvalidPayload
     else if length (ssp_participants payload) > MAX_PARTICIPANTS then Err InvalidPayload
     else and_then (check_roster (ssp_participants payload) {}) (\<lambda>_.
          if ssp_max_suspend_ms payload < 0 then Err InvalidPayload else Ok ()))"

definition validate_canonical_session_start_payload :: "SessionStartPayload \<Rightarrow> unit result" where
  "validate_canonical_session_start_payload payload = validate_canonical_start payload False"

definition validate_canonical_session_start_payload_for_mode ::
    "string \<Rightarrow> SessionStartPayload \<Rightarrow> unit result" where
  "validate_canonical_session_start_payload_for_mode mode payload =
     validate_canonical_start payload (allows_empty_participants mode)"

definition validate_strict_session_start_payload ::
    "string \<Rightarrow> SessionStartPayload \<Rightarrow> unit result" where
  "validate_strict_session_start_payload mode payload =
     (if \<not> requires_strict_session_start mode then Ok ()
      else validate_canonical_session_start_payload_for_mode mode payload)"

definition MAX_SESSION_ID_BYTES :: nat where "MAX_SESSION_ID_BYTES = 128"

datatype uuid_version = Random | SortRand | OtherVersion

definition is_ascii_alphanumeric :: "char \<Rightarrow> bool" where
  "is_ascii_alphanumeric c =
     (c \<in> set ''0123456789ABCDEFGHIJKLMNOPQRSTUVWXYZabcdefghijklmnopqrstuvwxyz'')"

text \<open>The parameter stands for \<^verbatim>\<open>uuid::Uuid::parse_str\<close>: the hyphenated rendering of the
  parsed value and its version.\<close>

definition validate_session_id_for_acceptance ::
    "(string \<Rightarrow> (string \<times> uuid_version) option) \<Rightarrow> string \<Rightarrow> unit result" where
  "validate_session_id_for_acceptance parse_uuid session_id =
     (if session_id = [] \<or> length session_id > MAX_SESSION_ID_BYTES then Err InvalidSessionId
      else
        let token_rule =
              (if length session_id \<ge> 22
                  \<and> list_all (\<lambda>c. is_ascii_alphanumeric c \<or> c = CHR ''_'' \<or> c = CHR ''-'')
                      session_id
               then Ok () else Err InvalidSessionId)
        in if length session_id = 36 \<and> CHR ''-'' \<in> set session_id
           then (case parse_uuid session_id of
                   Some (hyphenated, version) \<Rightarrow>
                     (if hyphenated = session_id \<and> version \<in> {Random, SortRand}
                      then Ok () else Err InvalidSessionId)
                 | None \<Rightarrow> token_rule)
           else token_rule)"

section \<open>The deadline walk\<close>

text \<open>Total pause recorded after an instant, backwards pairs counting as zero.\<close>

definition pause :: "i64 \<times> i64 \<Rightarrow> i64" where
  "pause p = max (snd p - fst p) 0"

definition pauses_from :: "i64 \<Rightarrow> (i64 \<times> i64) list \<Rightarrow> i64" where
  "pauses_from t ivs = sum_list (map pause (filter (\<lambda>(a, _). a \<ge> t) ivs))"

text \<open>Time inside the window that the listed pauses cover.\<close>

definition suspended_in :: "(i64 \<times> i64) list \<Rightarrow> i64 \<Rightarrow> i64 \<Rightarrow> i64" where
  "suspended_in ivs a b = (\<Sum>(s, e) \<leftarrow> ivs. max 0 (min e b - max s a))"

text \<open>A recorded timeline: pauses run forwards, do not overlap and are in order.\<close>

fun timeline :: "i64 \<Rightarrow> (i64 \<times> i64) list \<Rightarrow> bool" where
  "timeline t [] = True"
| "timeline t ((s, e) # ivs) = (t \<le> s \<and> s \<le> e \<and> timeline e ivs)"

lemma pause_nonneg [simp]: "0 \<le> pause p"
  by (simp add: pause_def)

lemma sum_pauses_nonneg: "0 \<le> sum_list (map pause ivs)"
  by (induction ivs) auto

lemma pauses_from_nonneg: "0 \<le> pauses_from t ivs"
  by (simp add: pauses_from_def sum_pauses_nonneg)

lemma timeline_mono: "timeline t ivs \<Longrightarrow> t' \<le> t \<Longrightarrow> timeline t' ivs"
  by (cases ivs) auto

lemma timeline_starts: "timeline t ivs \<Longrightarrow> (s, e) \<in> set ivs \<Longrightarrow> t \<le> s \<and> s \<le> e"
proof (induction ivs arbitrary: t)
  case (Cons iv ivs)
  then show ?case by (cases iv) fastforce
qed simp

lemma suspended_in_before:
  assumes "timeline t ivs" "b \<le> t"
  shows "suspended_in ivs a b = 0"
proof -
  have "max 0 (min e b - max s a) = 0" if "(s, e) \<in> set ivs" for s e
    using timeline_starts [OF assms(1) that] assms(2) by auto
  then show ?thesis unfolding suspended_in_def by (induction ivs) auto
qed

lemma suspended_in_start:
  assumes "timeline t ivs" "a \<le> t" "a' \<le> t"
  shows "suspended_in ivs a b = suspended_in ivs a' b"
proof -
  have "max s a = max s a'" if "(s, e) \<in> set ivs" for s e
    using timeline_starts [OF assms(1) that] assms(2,3) by auto
  then have "(\<lambda>(s, e). max 0 (min e b - max s a)) iv = (\<lambda>(s, e). max 0 (min e b - max s a')) iv"
    if "iv \<in> set ivs" for iv using that by (cases iv) auto
  then show ?thesis unfolding suspended_in_def by (metis (no_types, lifting) map_cong)
qed

lemma suspended_in_Cons:
  "suspended_in ((s, e) # ivs) a b = max 0 (min e b - max s a) + suspended_in ivs a b"
  by (simp add: suspended_in_def)

lemma suspended_in_nonneg: "0 \<le> suspended_in ivs a b"
  unfolding suspended_in_def by (induction ivs) auto

text \<open>Without saturation the walk returns the earliest instant at which the requested
  unsuspended time has elapsed.\<close>

lemma deadline_walk_earliest:
  assumes "timeline cur ivs" "0 \<le> cur" "0 \<le> remaining"
    and "cur + remaining + sum_list (map pause ivs) \<le> i64_max"
    and "\<forall>(s, e) \<in> set ivs. e \<le> i64_max"
  defines "d \<equiv> deadline_walk ivs cur remaining"
  shows "cur \<le> d \<and> (d - cur) - suspended_in ivs cur d = remaining
    \<and> (\<forall>u. cur \<le> u \<and> u < d \<longrightarrow> (u - cur) - suspended_in ivs cur u < remaining)"
  using assms(1-5) unfolding d_def
proof (induction ivs arbitrary: cur remaining)
  case Nil
  then show ?case by (auto simp: sat_id suspended_in_def sat_add_def in_i64_def i64_min_def)
next
  case (Cons iv ivs)
  obtain s e where iv: "iv = (s, e)" by (cases iv)
  have w: "cur \<le> s" "s \<le> e" "timeline e ivs" "e \<le> i64_max" using Cons.prems iv by auto
  have tl: "timeline s (iv # ivs)" using w iv by simp
  have run: "max (sat_sub s cur) 0 = s - cur"
    using w Cons.prems(2) by (simp add: sat_sub_def sat_def i64_min_def)
  have pn: "0 \<le> sum_list (map pause ivs)" by (rule sum_pauses_nonneg)
  have pe: "pause iv = e - s" using w iv by (simp add: pause_def)
  show ?case
  proof (cases "s - cur \<ge> remaining")
    case True
    have val: "deadline_walk (iv # ivs) cur remaining = cur + remaining"
      using True run Cons.prems pn pe w iv
      by (simp add: Let_def sat_add_def sat_def i64_min_def)
    have "suspended_in (iv # ivs) cur u = 0" if "u \<le> cur + remaining" for u
      using that True by (intro suspended_in_before [OF tl]) auto
    then show ?thesis using val Cons.prems(3) by auto
  next
    case False
    let ?r = "remaining - (s - cur)" let ?d = "deadline_walk ivs e ?r"
    have "sat_sub remaining (s - cur) = ?r"
      using False w Cons.prems(2,3,4) pn pe by (simp add: sat_sub_def sat_def i64_min_def)
    then have val: "deadline_walk (iv # ivs) cur remaining = ?d"
      using False run w iv by (simp add: Let_def max_absorb1)
    have IH: "e \<le> ?d \<and> (?d - e) - suspended_in ivs e ?d = ?r
        \<and> (\<forall>u. e \<le> u \<and> u < ?d \<longrightarrow> (u - e) - suspended_in ivs e u < ?r)"
      using Cons.prems w iv pe False by (intro Cons.IH) auto
    have split: "(u - cur) - suspended_in (iv # ivs) cur u
        = (s - cur) + ((u - e) - suspended_in ivs e u)" if "e \<le> u" for u
      using that w iv suspended_in_start [OF w(3), of cur e u] by (simp add: suspended_in_Cons)
    have early: "(u - cur) - suspended_in (iv # ivs) cur u < remaining"
      if "cur \<le> u" "u < e" for u
      using that w iv False suspended_in_nonneg [of ivs cur u]
      by (auto simp: suspended_in_Cons max_def min_def split: if_splits)
    have "(u - cur) - suspended_in (iv # ivs) cur u < remaining" if "cur \<le> u" "u < ?d" for u
    proof (cases "e \<le> u")
      case True
      with IH that have "(u - e) - suspended_in ivs e u < ?r" by simp
      with split [OF True] show ?thesis by linarith
    qed (use early that in simp)
    moreover have "(?d - cur) - suspended_in (iv # ivs) cur ?d = remaining"
      using split [of ?d] IH by linarith
    ultimately show ?thesis using IH w unfolding val by simp
  qed
qed

text \<open>One step of the walk that does not stop is free of saturation.\<close>

lemma deadline_walk_step:
  assumes "in_i64 s" "in_i64 remaining" "max (sat_sub s cur) 0 < remaining"
  shows "max (sat_sub s cur) 0 = max (s - cur) 0"
    and "sat_sub remaining (max (s - cur) 0) = remaining - max (s - cur) 0"
    and "0 \<le> remaining - max (s - cur) 0" "in_i64 (remaining - max (s - cur) 0)"
    and "deadline_walk ((s, e) # ivs) cur remaining
      = deadline_walk ivs (max (max e s) cur) (remaining - max (s - cur) 0)"
proof -
  show 1: "max (sat_sub s cur) 0 = max (s - cur) 0"
    and 2: "sat_sub remaining (max (s - cur) 0) = remaining - max (s - cur) 0"
    and "0 \<le> remaining - max (s - cur) 0" "in_i64 (remaining - max (s - cur) 0)"
    using assms by (auto simp: sat_sub_def sat_def in_i64_def i64_min_def i64_max_def)
  show "deadline_walk ((s, e) # ivs) cur remaining
      = deadline_walk ivs (max (max e s) cur) (remaining - max (s - cur) 0)"
    using assms(3) unfolding deadline_walk.simps Let_def 1 2 by (subst if_not_P) (linarith, rule refl)
qed

lemma deadline_walk_stop:
  "\<not> max (sat_sub s cur) 0 < remaining \<Longrightarrow>
     deadline_walk ((s, e) # ivs) cur remaining = sat_add cur remaining"
  unfolding deadline_walk.simps Let_def by (simp only: not_less if_True)

text \<open>The bounds hold for every list of pairs, overlapping and backwards ones included.\<close>

declare deadline_walk.simps(2) [simp del]

lemma deadline_walk_ge:
  assumes "in_i64 cur" "in_i64 remaining" "\<forall>(s, e) \<in> set ivs. in_i64 s \<and> in_i64 e"
  shows "sat_add cur remaining \<le> deadline_walk ivs cur remaining"
  using assms
proof (induction ivs arbitrary: cur remaining)
  case (Cons iv ivs)
  obtain s e where iv: "iv = (s, e)" by (cases iv)
  have se: "in_i64 s" "in_i64 e" using Cons.prems(3) iv by auto
  let ?run = "max (s - cur) 0" let ?cur = "max (max e s) cur"
  show ?case
  proof (cases "max (sat_sub s cur) 0 < remaining")
    case True
    note st = deadline_walk_step [OF se(1) Cons.prems(2) True]
    have "sat_add ?cur (remaining - ?run) \<le> deadline_walk ivs ?cur (remaining - ?run)"
      using Cons.prems se st(4) by (intro Cons.IH) (auto simp: in_i64_def)
    moreover have "sat_add cur remaining \<le> sat_add ?cur (remaining - ?run)"
      unfolding sat_add_def by (rule sat_mono) auto
    ultimately show ?thesis using iv by (simp add: st(5))
  qed (use iv deadline_walk_stop in simp)
qed simp

lemma deadline_walk_le:
  assumes "in_i64 cur" "in_i64 remaining" "\<forall>(s, e) \<in> set ivs. in_i64 s \<and> in_i64 e"
  shows "deadline_walk ivs cur remaining \<le> sat (cur + remaining + sum_list (map pause ivs))"
  using assms
proof (induction ivs arbitrary: cur remaining)
  case Nil
  then show ?case by (simp add: sat_add_def)
next
  case (Cons iv ivs)
  obtain s e where iv: "iv = (s, e)" by (cases iv)
  have se: "in_i64 s" "in_i64 e" using Cons.prems(3) iv by auto
  have pn: "0 \<le> sum_list (map pause ivs)" "0 \<le> pause iv" by (simp_all add: sum_pauses_nonneg)
  let ?run = "max (s - cur) 0" let ?cur = "max (max e s) cur"
  show ?case
  proof (cases "max (sat_sub s cur) 0 < remaining")
    case True
    note st = deadline_walk_step [OF se(1) Cons.prems(2) True]
    have "deadline_walk ivs ?cur (remaining - ?run)
        \<le> sat (?cur + (remaining - ?run) + sum_list (map pause ivs))"
      using Cons.prems se st(4) by (intro Cons.IH) (auto simp: in_i64_def)
    moreover have "\<dots> \<le> sat (cur + remaining + (pause iv + sum_list (map pause ivs)))"
      using iv by (intro sat_mono) (auto simp: pause_def)
    ultimately show ?thesis using iv by (simp add: st(5))
  next
    case False
    have "sat_add cur remaining \<le> sat (cur + remaining + (pause iv + sum_list (map pause ivs)))"
      unfolding sat_add_def using pn by (intro sat_mono) linarith
    then show ?thesis using iv by (simp add: deadline_walk_stop [OF False])
  qed
qed

text \<open>A pause that starts at or after the deadline never moves it.\<close>

lemma deadline_walk_append:
  assumes "in_i64 cur" "in_i64 remaining" "0 \<le> remaining"
    and "\<forall>(s, e) \<in> set (ivs @ ivs'). in_i64 s \<and> in_i64 e"
    and "\<forall>(s, e) \<in> set ivs'. deadline_walk ivs cur remaining \<le> s"
  shows "deadline_walk (ivs @ ivs') cur remaining = deadline_walk ivs cur remaining"
  using assms
proof (induction ivs arbitrary: cur remaining)
  case Nil
  show ?case
  proof (cases ivs')
    case (Cons iv rest)
    obtain s e where iv: "iv = (s, e)" by (cases iv)
    have se: "in_i64 s" "in_i64 e" "sat_add cur remaining \<le> s" using Nil.prems(4,5) Cons iv by auto
    show ?thesis
    proof (cases "max (sat_sub s cur) 0 < remaining")
      case True
      note st = deadline_walk_step [OF se(1) Nil.prems(2) True]
      have s: "s = i64_max" "sat_add cur remaining = i64_max" "cur \<le> s"
        using True se Nil.prems(1-3) st
        by (auto simp: sat_add_def sat_sub_def sat_def in_i64_def i64_min_def i64_max_def
            max_def min_def split: if_splits)
      have cur': "max (max e s) cur = i64_max" using s se(2) by (auto simp: in_i64_def)
      have "i64_max \<le> deadline_walk rest i64_max (remaining - max (s - cur) 0)"
      proof -
        have "sat_add i64_max (remaining - max (s - cur) 0)
            \<le> deadline_walk rest i64_max (remaining - max (s - cur) 0)"
          using Nil.prems(4) Cons st(4) by (intro deadline_walk_ge) (auto simp: in_i64_def i64_min_def i64_max_def)
        then show ?thesis using st(3) by (simp add: sat_add_def sat_def i64_min_def i64_max_def)
      qed
      moreover have "deadline_walk rest i64_max (remaining - max (s - cur) 0) \<le> i64_max"
        using deadline_walk_le [of i64_max "remaining - max (s - cur) 0" rest] st(4) Nil.prems(4) Cons
        by (auto simp: sat_def in_i64_def i64_min_def i64_max_def)
      ultimately have "deadline_walk rest i64_max (remaining - max (s - cur) 0) = i64_max" by simp
      then have "deadline_walk ((s, e) # rest) cur remaining = i64_max" unfolding st(5) cur' .
      then show ?thesis using s(2) iv Cons by simp
    qed (use Cons iv deadline_walk_stop in simp)
  qed simp
next
  case (Cons iv ivs)
  obtain s e where iv: "iv = (s, e)" by (cases iv)
  have se: "in_i64 s" "in_i64 e" using Cons.prems(4) iv by auto
  show ?case
  proof (cases "max (sat_sub s cur) 0 < remaining")
    case True
    note st = deadline_walk_step [OF se(1) Cons.prems(2) True]
    have "deadline_walk (ivs @ ivs') (max (max e s) cur) (remaining - max (s - cur) 0)
        = deadline_walk ivs (max (max e s) cur) (remaining - max (s - cur) 0)"
      using Cons.prems se st True iv by (intro Cons.IH) (auto simp: in_i64_def st(5) simp del: deadline_walk.simps(2))
    then show ?thesis using iv by (simp add: st(5))
  qed (use iv deadline_walk_stop in simp)
qed

section \<open>The lifecycle as a transition system\<close>

definition session_inv :: "Session \<Rightarrow> bool" where
  "session_inv s \<longleftrightarrow>
     (s_state s = Suspended \<longleftrightarrow> s_suspended_at_ms s \<noteq> None) \<and>
     (s_state s = Resolved \<longleftrightarrow> s_resolution s \<noteq> None) \<and>
     0 \<le> s_accumulated_suspended_ms s \<and> s_accumulated_suspended_ms s \<le> i64_max \<and>
     in_i64 (s_ttl_expiry s) \<and>
     length (s_suspension_intervals s) \<le> MAX_SUSPENSION_CYCLES
       + (if s_semantics_rev s \<ge> 2 \<and> s_state s = Expired then 1 else 0) \<and>
     (s_state s \<noteq> Expired \<longrightarrow> s_accumulated_suspended_ms s \<le> effective_max_suspend_ms s)"

text \<open>What is bound at SessionStart and never written again.\<close>

definition bound_fields :: "Session \<Rightarrow> _" where
  "bound_fields s =
     (s_session_id s, s_ttl_ms s, s_started_at_unix_ms s, s_mode s, s_participants s,
      s_initiator_sender s, s_policy_definition s, s_policy_version s, s_semantics_rev s,
      s_max_suspend_ms s, s_mode_version s, s_configuration_version s, s_intent s, s_context_id s,
      s_extensions s, s_roots s)"

text \<open>One call of a session method. The kernel applies a mode's response to open sessions
  only; the other methods check the state themselves.\<close>

inductive session_step :: "Session \<Rightarrow> Session \<Rightarrow> bool" where
  step_suspend: "session_step s (snd (suspend now_ms s))"
| step_resume: "session_step s (snd (resume now_ms s))"
| step_cancel: "session_step s (snd (cancel s))"
| step_expire: "session_step s (snd (expire s))"
| step_respond: "s_state s = Open \<Longrightarrow> session_step s (apply_mode_response r s)"
| step_activity: "session_step s (record_participant_activity sender t s)"
| step_dedup: "session_step s (s\<lparr>s_seen_message_ids := insert i (s_seen_message_ids s)\<rparr>)"

inductive_cases session_stepE: "session_step s s'"

lemma is_terminal_iff: "is_terminal st \<longleftrightarrow> st \<noteq> Open \<and> st \<noteq> Suspended"
  by (cases st) auto

lemma effective_cap_pos: "0 < effective_max_suspend_ms s"
  by (simp add: effective_max_suspend_ms_def MAX_SUSPEND_MS_def)

lemma effective_cap_cong:
  "s_max_suspend_ms s = s_max_suspend_ms s' \<Longrightarrow>
     effective_max_suspend_ms s = effective_max_suspend_ms s'"
  by (simp add: effective_max_suspend_ms_def)

lemma suspend_inv: "session_inv s \<Longrightarrow> session_inv (snd (suspend now s))"
  by (auto simp: session_inv_def suspend_def effective_max_suspend_ms_def)

lemma cancel_inv: "session_inv s \<Longrightarrow> session_inv (snd (cancel s))"
  by (auto simp: session_inv_def cancel_def effective_max_suspend_ms_def is_terminal_iff)

lemma expire_inv: "session_inv s \<Longrightarrow> session_inv (snd (expire s))"
  by (auto simp: session_inv_def expire_def is_terminal_iff)

lemma respond_inv:
  "session_inv s \<Longrightarrow> s_state s = Open \<Longrightarrow> session_inv (apply_mode_response r s)"
  by (cases r) (auto simp: session_inv_def effective_max_suspend_ms_def)

lemma activity_inv: "session_inv s \<Longrightarrow> session_inv (record_participant_activity sender t s)"
  by (auto simp: session_inv_def record_participant_activity_def effective_max_suspend_ms_def)

lemma resume_inv: "session_inv s \<Longrightarrow> session_inv (snd (resume now s))"
proof -
  assume inv: "session_inv s"
  have acc: "0 \<le> sat_add (s_accumulated_suspended_ms s) (max d 0)"
    "sat_add (s_accumulated_suspended_ms s) (max d 0) \<le> i64_max" for d
    using inv by (auto simp: session_inv_def sat_add_def sat_def i64_max_def i64_min_def)
  show ?thesis
  proof (cases "s_state s = Suspended")
    case True
    then show ?thesis using inv acc
      by (auto simp: session_inv_def resume_def Let_def effective_max_suspend_ms_def in_i64_sat
          sat_add_def)
  qed (simp add: inv resume_def)
qed

lemma dedup_inv:
  "session_inv s \<Longrightarrow> session_inv (s\<lparr>s_seen_message_ids := insert i (s_seen_message_ids s)\<rparr>)"
  by (auto simp: session_inv_def effective_max_suspend_ms_def)

lemma session_step_inv: "session_step s s' \<Longrightarrow> session_inv s \<Longrightarrow> session_inv s'"
  by (erule session_step.cases)
    (simp_all add: suspend_inv resume_inv cancel_inv expire_inv respond_inv activity_inv dedup_inv)

lemma session_steps_inv: "session_step\<^sup>*\<^sup>* s s' \<Longrightarrow> session_inv s \<Longrightarrow> session_inv s'"
  by (induction rule: rtranclp_induct) (auto intro: session_step_inv)

lemma builder_inv: "session_inv (Session_builder i m a)"
  by (simp add: session_inv_def Session_builder_def effective_max_suspend_ms_def i64_max_def
      in_i64_def i64_min_def MAX_SUSPEND_MS_def)

text \<open>A terminal session keeps its state, its resolution and its mode state.\<close>

definition outcome :: "Session \<Rightarrow> SessionState \<times> bytes option \<times> bytes" where
  "outcome s = (s_state s, s_resolution s, s_mode_state s)"

lemma terminal_errors:
  assumes "is_terminal (s_state s)"
  shows "suspend now s = (Err SessionNotOpen, s)" "resume now s = (Err SessionNotOpen, s)"
    "cancel s = (Err SessionNotOpen, s)" "expire s = (Err SessionNotOpen, s)"
    "\<not> deadline_passed now s"
  using assms
  by (auto simp: suspend_def resume_def cancel_def expire_def deadline_passed_def is_terminal_iff
      split: SessionState.splits)

lemma session_step_terminal:
  "session_step s s' \<Longrightarrow> is_terminal (s_state s) \<Longrightarrow> outcome s' = outcome s"
  by (erule session_step.cases)
    (auto simp: terminal_errors outcome_def record_participant_activity_def is_terminal_iff)

lemma session_steps_terminal:
  "session_step\<^sup>*\<^sup>* s s' \<Longrightarrow> is_terminal (s_state s) \<Longrightarrow> outcome s' = outcome s"
proof (induction rule: rtranclp_induct)
  case (step y z)
  then have "is_terminal (s_state y)" by (simp add: outcome_def)
  then show ?case using step session_step_terminal by metis
qed simp

lemma session_step_bound: "session_step s s' \<Longrightarrow> bound_fields s' = bound_fields s"
proof (erule session_step.cases)
  fix r t assume "s = t" "s' = apply_mode_response r t"
  then show ?thesis by (cases r) (simp_all add: bound_fields_def)
qed (auto simp: bound_fields_def suspend_def resume_def Let_def cancel_def expire_def
    record_participant_activity_def)

lemma session_steps_bound: "session_step\<^sup>*\<^sup>* s s' \<Longrightarrow> bound_fields s' = bound_fields s"
  by (induction rule: rtranclp_induct) (auto dest: session_step_bound)

section \<open>Suspension and the TTL\<close>

lemma suspend_resume:
  assumes "s_state s = Open" "session_inv s"
    and "0 \<le> t0" "t0 \<le> t1" "t1 \<le> i64_max"
    and "s_accumulated_suspended_ms s + (t1 - t0) \<le> effective_max_suspend_ms s"
    and "effective_max_suspend_ms s \<le> i64_max"
    and "length (s_suspension_intervals s) < MAX_SUSPENSION_CYCLES"
    and "s_ttl_expiry s + (t1 - t0) \<le> i64_max"
  shows "resume t1 (snd (suspend t0 s)) =
    (Ok (), s\<lparr>s_ttl_expiry := s_ttl_expiry s + (t1 - t0),
              s_accumulated_suspended_ms := s_accumulated_suspended_ms s + (t1 - t0),
              s_suspension_intervals := s_suspension_intervals s @ [(t0, t1)]\<rparr>)"
proof -
  have d: "max (wrap_i64 (t1 - t0)) 0 = t1 - t0"
    using assms(3-5) by (simp add: wrap_i64_id in_i64_def i64_min_def)
  have a: "sat_add (s_accumulated_suspended_ms s) (t1 - t0) = s_accumulated_suspended_ms s + (t1 - t0)"
    using assms by (simp add: sat_add_def sat_id session_inv_def in_i64_def i64_min_def)
  have e: "sat_add (s_ttl_expiry s) (t1 - t0) = s_ttl_expiry s + (t1 - t0)"
    using assms by (simp add: sat_add_def sat_id session_inv_def in_i64_def i64_min_def)
  show ?thesis
    using assms(1,2,6,8) d a e
    by (auto simp: suspend_def resume_def Let_def unwrap_or_def effective_max_suspend_ms_def
        session_inv_def split: if_splits)
qed

text \<open>On a suspended session the expiry predicate and the outcome of \<open>resume\<close> agree.\<close>

lemma deadline_passed_resume:
  assumes "s_state s = Suspended" "session_inv s"
    and "s_semantics_rev s \<ge> 2 \<longrightarrow> length (s_suspension_intervals s) < MAX_SUSPENSION_CYCLES"
  shows "deadline_passed now s \<longleftrightarrow> resume now s = (Err TtlExpired, snd (resume now s))"
    and "\<not> deadline_passed now s \<Longrightarrow> s_state (snd (resume now s)) = Open"
proof -
  obtain t where t: "s_suspended_at_ms s = Some t" using assms by (auto simp: session_inv_def)
  show "deadline_passed now s \<longleftrightarrow> resume now s = (Err TtlExpired, snd (resume now s))"
    "\<not> deadline_passed now s \<Longrightarrow> s_state (snd (resume now s)) = Open"
    using assms t
    by (auto simp: deadline_passed_def suspend_cap_exceeded_def resume_def Let_def unwrap_or_def
        effective_max_suspend_ms_def)
qed

end
