(* ===== verification/Mode_Trait.thy ===== *)
theory Mode_Trait
  imports Sessions
begin

text \<open>
  The coordination-mode interface of \<^verbatim>\<open>macp-modes/src/mode/mod.rs\<close> and the helpers every mode
  shares (\<^verbatim>\<open>mode/util.rs\<close>). A \<^verbatim>\<open>dyn Mode\<close> is a record of the trait's six methods; a
  method a mode does not override is the trait's default below.

  The locale \<open>mode_contract\<close> states what the kernel relies on when it drives a mode. Each shipped
  mode is shown to satisfy it in its own theory; \<^verbatim>\<open>Step\<close> and \<^verbatim>\<open>Replay\<close> prove their
  theorems inside the locale.
\<close>

section \<open>Envelopes, contexts, modes\<close>

record Envelope =
  e_macp_version :: string
  e_mode :: string
  e_message_type :: string
  e_message_id :: string
  e_session_id :: string
  e_sender :: string
  e_timestamp_unix_ms :: i64
  e_payload :: bytes

record MessageContext =
  ctx_accepted_at_ms :: i64

abbreviation MessageContext_new :: "i64 \<Rightarrow> MessageContext" where
  "MessageContext_new t \<equiv> \<lparr>ctx_accepted_at_ms = t\<rparr>"

record Mode =
  m_on_session_start :: "Session \<Rightarrow> Envelope \<Rightarrow> ModeResponse result"
  m_on_message :: "Session \<Rightarrow> Envelope \<Rightarrow> ModeResponse result"
  m_on_message_at :: "Session \<Rightarrow> Envelope \<Rightarrow> MessageContext \<Rightarrow> ModeResponse result"
  m_validate_client_envelope :: "Session \<Rightarrow> Envelope \<Rightarrow> unit result"
  m_due_synthetic_envelope :: "Session \<Rightarrow> i64 \<Rightarrow> Envelope option"
  m_authorize_sender :: "Session \<Rightarrow> Envelope \<Rightarrow> unit result"

definition default_validate_client_envelope :: "Session \<Rightarrow> Envelope \<Rightarrow> unit result" where
  "default_validate_client_envelope s env = Ok ()"

definition default_due_synthetic_envelope :: "Session \<Rightarrow> i64 \<Rightarrow> Envelope option" where
  "default_due_synthetic_envelope s now_ms = None"

definition default_authorize_sender :: "Session \<Rightarrow> Envelope \<Rightarrow> unit result" where
  "default_authorize_sender s env =
     (if s_participants s \<noteq> [] \<and> e_sender env \<notin> set (s_participants s)
      then Err Forbidden else Ok ())"

text \<open>The trait's defaults around the two required methods.\<close>

definition default_mode ::
    "(Session \<Rightarrow> Envelope \<Rightarrow> ModeResponse result) \<Rightarrow> (Session \<Rightarrow> Envelope \<Rightarrow> ModeResponse result)
     \<Rightarrow> Mode" where
  "default_mode start message =
     \<lparr>m_on_session_start = start, m_on_message = message,
      m_on_message_at = (\<lambda>s env ctx. message s env),
      m_validate_client_envelope = default_validate_client_envelope,
      m_due_synthetic_envelope = default_due_synthetic_envelope,
      m_authorize_sender = default_authorize_sender\<rparr>"

section \<open>Shared helpers\<close>

record CommitmentRef =
  cref_session_id :: string
  cref_commitment_hash :: string

record CommitmentPayload =
  cp_commitment_id :: string
  cp_action :: string
  cp_authority_scope :: string
  cp_reason :: string
  cp_mode_version :: string
  cp_policy_version :: string
  cp_configuration_version :: string
  cp_outcome_positive :: bool
  cp_supersedes :: "CommitmentRef option"

text \<open>What a mode reaches outside the repository, or has injected: the protobuf decoder of
  \<^verbatim>\<open>CommitmentPayload\<close>, the rule parsers and the policy evaluator. Each mode extends this
  record with the decoders of its own payloads and the codec of its state.\<close>

record mode_ext =
  x_decode_commitment :: "bytes \<Rightarrow> CommitmentPayload option"
  x_rules :: rule_parsers
  x_evaluator :: PolicyEvaluator

definition is_canonical_commitment_hash :: "string \<Rightarrow> bool" where
  "is_canonical_commitment_hash s =
     (starts_with s ''sha256:''
      \<and> (let rest = drop 7 s in
         length rest = 64 \<and> list_all (\<lambda>b. b \<in> set ''0123456789abcdef'') rest))"

definition decode_commitment_payload :: "'z mode_ext_scheme \<Rightarrow> bytes \<Rightarrow> CommitmentPayload result" where
  "decode_commitment_payload x payload = ok_or (x_decode_commitment x payload) InvalidPayload"

definition negative_actions :: "string list" where
  "negative_actions = [''rejected'', ''failed'', ''declined'']"

definition positive_actions :: "string list" where
  "positive_actions = [''selected'', ''accepted'', ''completed'', ''approved'']"

definition validate_outcome_positive :: "CommitmentPayload \<Rightarrow> unit result" where
  "validate_outcome_positive c =
     (let action = cp_action c;
          is_negative = list_ex (\<lambda>suffix. ends_with action suffix) negative_actions;
          is_positive = list_ex (\<lambda>suffix. ends_with action suffix) positive_actions
      in if is_negative \<and> cp_outcome_positive c then Err InvalidPayload
         else if is_positive \<and> \<not> cp_outcome_positive c then Err InvalidPayload
         else Ok ())"

definition validate_commitment_payload_for_session ::
    "'z mode_ext_scheme \<Rightarrow> Session \<Rightarrow> bytes \<Rightarrow> CommitmentPayload result" where
  "validate_commitment_payload_for_session x s payload =
     and_then (decode_commitment_payload x payload) (\<lambda>c.
     if blank (cp_commitment_id c) \<or> blank (cp_action c) \<or> blank (cp_authority_scope c)
        \<or> blank (cp_reason c)
     then Err InvalidPayload
     else if cp_mode_version c \<noteq> s_mode_version s
        \<or> cp_configuration_version c \<noteq> s_configuration_version s
     then Err InvalidPayload
     else if cp_policy_version c \<noteq> [] \<and> s_policy_version s \<noteq> []
        \<and> cp_policy_version c \<noteq> s_policy_version s
     then Err InvalidPayload
     else and_then
       (case cp_supersedes c of
          None \<Rightarrow> Ok ()
        | Some sref \<Rightarrow>
            if blank (cref_session_id sref) then Err InvalidPayload
            else if \<not> is_canonical_commitment_hash (cref_commitment_hash sref)
            then Err InvalidPayload
            else Ok ())
       (\<lambda>_. and_then (validate_outcome_positive c) (\<lambda>_. Ok c)))"

definition enforce_commitment_policy ::
    "'z mode_ext_scheme \<Rightarrow> Session \<Rightarrow> CommitmentMode \<Rightarrow> bool \<Rightarrow> unit result" where
  "enforce_commitment_policy x s mode outcome_positive =
     (case s_policy_definition s of
        None \<Rightarrow> Ok ()
      | Some policy \<Rightarrow>
          (case x_evaluator x \<lparr>cc_policy = policy, cc_participants = s_participants s,
                               cc_outcome_positive = outcome_positive, cc_mode = mode\<rparr> of
             Allow _ \<Rightarrow> Ok ()
           | Deny reasons \<Rightarrow> Err (PolicyDenied reasons)))"

definition is_declared_participant :: "string list \<Rightarrow> string \<Rightarrow> bool" where
  "is_declared_participant participants sender =
     list_ex (\<lambda>participant. participant = sender) participants"

definition check_commitment_authority ::
    "'z mode_ext_scheme \<Rightarrow> Session \<Rightarrow> string \<Rightarrow> unit result" where
  "check_commitment_authority x s sender =
     (case s_policy_definition s of
        Some policy \<Rightarrow>
          (let rules = extract_commitment_rules (x_rules x) (p_rules policy) in
           if cr_authority rules = ''any_participant'' then
             (if sender = s_initiator_sender s
                 \<or> is_declared_participant (s_participants s) sender
              then Ok () else Err Forbidden)
           else if cr_authority rules = ''designated_role'' then
             (if list_ex (\<lambda>r. r = sender) (cr_designated_roles rules)
              then Ok () else Err Forbidden)
           else
             (if sender = s_initiator_sender s then Ok () else Err Forbidden))
      | None \<Rightarrow> (if sender = s_initiator_sender s then Ok () else Err Forbidden))"

definition participants_all_accept ::
    "string list \<Rightarrow> (string, string) btree \<Rightarrow> string \<Rightarrow> bool" where
  "participants_all_accept participants accepts proposal_id =
     (participants \<noteq> []
      \<and> list_all (\<lambda>participant. bt_get accepts participant = Some proposal_id) participants)"

text \<open>\<open>decode_mode_state\<close> maps a failed parse to \<open>InvalidModeState\<close>; the parser itself is the
  mode's parameter.\<close>

definition decode_mode_state :: "(bytes \<Rightarrow> 's option) \<Rightarrow> bytes \<Rightarrow> 's result" where
  "decode_mode_state dec b = ok_or (dec b) InvalidModeState"

section \<open>Facts about the helpers\<close>

lemma is_declared_iff [simp]: "is_declared_participant ps p \<longleftrightarrow> p \<in> set ps"
  by (auto simp: is_declared_participant_def list_ex_iff)

lemma authority_cases:
  assumes "check_commitment_authority x s sender = Inr u"
  shows "sender = s_initiator_sender s \<or>
    (\<exists>p. s_policy_definition s = Some p \<and>
       (let r = extract_commitment_rules (x_rules x) (p_rules p) in
        cr_authority r = ''any_participant'' \<and> sender \<in> set (s_participants s) \<or>
        cr_authority r = ''designated_role'' \<and> sender \<in> set (cr_designated_roles r)))"
  using assms
  by (auto simp: check_commitment_authority_def Let_def list_ex_iff
      split: option.splits if_splits)

lemma authority_error: "check_commitment_authority x s sender = Inl e \<Longrightarrow> e = Forbidden"
  by (auto simp: check_commitment_authority_def Let_def split: option.splits if_splits)

lemma authority_frame:
  "bound_fields s' = bound_fields s \<Longrightarrow>
     check_commitment_authority x s' sender = check_commitment_authority x s sender"
  by (simp add: check_commitment_authority_def bound_fields_def)

lemma default_authorize_frame:
  "bound_fields s' = bound_fields s \<Longrightarrow>
     default_authorize_sender s' env = default_authorize_sender s env"
  by (simp add: default_authorize_sender_def bound_fields_def)

lemma enforce_ok_iff:
  "enforce_commitment_policy x s m pos = Inr u \<longleftrightarrow>
     (\<forall>p. s_policy_definition s = Some p \<longrightarrow>
        (\<exists>rs. x_evaluator x \<lparr>cc_policy = p, cc_participants = s_participants s,
                cc_outcome_positive = pos, cc_mode = m\<rparr> = Allow rs))"
  by (auto simp: enforce_commitment_policy_def split: option.splits PolicyDecision.splits)

lemma validate_outcome_ok:
  assumes "validate_outcome_positive c = Inr u"
  shows "suffix \<in> set negative_actions \<Longrightarrow> ends_with (cp_action c) suffix \<Longrightarrow> \<not> cp_outcome_positive c"
    and "suffix \<in> set positive_actions \<Longrightarrow> ends_with (cp_action c) suffix \<Longrightarrow> cp_outcome_positive c"
  using assms by (auto simp: validate_outcome_positive_def Let_def res_simps list_ex_iff)

lemma validate_commitment_Inr_iff:
  "validate_commitment_payload_for_session x s payload = Inr c \<longleftrightarrow>
     x_decode_commitment x payload = Some c \<and>
     \<not> blank (cp_commitment_id c) \<and> \<not> blank (cp_action c) \<and>
     \<not> blank (cp_authority_scope c) \<and> \<not> blank (cp_reason c) \<and>
     cp_mode_version c = s_mode_version s \<and>
     cp_configuration_version c = s_configuration_version s \<and>
     (cp_policy_version c = [] \<or> s_policy_version s = [] \<or>
        cp_policy_version c = s_policy_version s) \<and>
     (\<forall>ref. cp_supersedes c = Some ref \<longrightarrow>
        \<not> blank (cref_session_id ref) \<and> is_canonical_commitment_hash (cref_commitment_hash ref)) \<and>
     validate_outcome_positive c = Inr ()"
proof (cases "x_decode_commitment x payload")
  case (Some d)
  then show ?thesis
    by (cases "cp_supersedes d")
      (auto simp: validate_commitment_payload_for_session_def decode_commitment_payload_def
        res_simps)
qed (simp add: validate_commitment_payload_for_session_def decode_commitment_payload_def)

lemma validate_commitment_error:
  "validate_commitment_payload_for_session x s payload = Inl e \<Longrightarrow> e = InvalidPayload"
proof (cases "x_decode_commitment x payload")
  case (Some d)
  assume "validate_commitment_payload_for_session x s payload = Inl e"
  with Some show ?thesis
    by (cases "cp_supersedes d")
      (auto simp: validate_commitment_payload_for_session_def decode_commitment_payload_def
        validate_outcome_positive_def Let_def res_simps)
qed (simp add: validate_commitment_payload_for_session_def decode_commitment_payload_def)

text \<open>The mode state a response persists.\<close>

fun response_state :: "ModeResponse \<Rightarrow> bytes option" where
  "response_state (PersistState b) = Some b"
| "response_state (PersistAndResolve b _) = Some b"
| "response_state _ = None"

lemma response_state_apply:
  "response_state r = Some b \<Longrightarrow> s_mode_state (apply_mode_response r s) = b"
  by (cases r) auto

section \<open>The contract between the kernel and a mode\<close>

text \<open>
  \<open>minv\<close> is the mode's own invariant on sessions. The laws say: the mode establishes it, and
  keeps it on every message of an authorized sender; it depends on the mode state and on what SessionStart bound; who may send is decided by what
  SessionStart bound alone; an envelope the mode declares due carries an id, leaves the session
  open when it is dispatched, and is not due again once it has been applied.
\<close>

locale mode_contract =
  fixes M :: Mode and minv :: "Session \<Rightarrow> bool"
  assumes start_minv:
      "m_on_session_start M s env = Inr r \<Longrightarrow> minv (apply_mode_response r s)"
    and message_minv:
      "minv s \<Longrightarrow> s_state s = Open \<Longrightarrow> m_authorize_sender M s env = Inr () \<Longrightarrow>
         m_on_message_at M s env ctx = Inr r \<Longrightarrow> minv (apply_mode_response r s)"
    and minv_frame:
      "minv s \<Longrightarrow> s_mode_state s' = s_mode_state s \<Longrightarrow> bound_fields s' = bound_fields s \<Longrightarrow> minv s'"
    and authorize_frame:
      "bound_fields s' = bound_fields s \<Longrightarrow> m_authorize_sender M s' env = m_authorize_sender M s env"
    and due_id: "m_due_synthetic_envelope M s now = Some env \<Longrightarrow> e_message_id env \<noteq> []"
    and due_open:
      "minv s \<Longrightarrow> m_due_synthetic_envelope M s now = Some env \<Longrightarrow>
         m_on_message_at M s env (MessageContext_new (e_timestamp_unix_ms env)) = Inr r \<Longrightarrow>
         s_state (apply_mode_response r s) = s_state s"
    and due_once:
      "minv s \<Longrightarrow> m_due_synthetic_envelope M s now = Some env \<Longrightarrow>
         m_on_message_at M s env (MessageContext_new (e_timestamp_unix_ms env)) = Inr r \<Longrightarrow>
         s_mode_state s' = s_mode_state (apply_mode_response r s) \<Longrightarrow>
         bound_fields s' = bound_fields s \<Longrightarrow>
         m_due_synthetic_envelope M s' now' = None"

text \<open>A mode that keeps the trait's default for synthetic envelopes, and whose sender check reads
  only what SessionStart bound, satisfies the contract with the trivial invariant.\<close>

lemma contract_without_synthetic:
  assumes "m_due_synthetic_envelope M = default_due_synthetic_envelope"
    and "\<And>s s' env. bound_fields s' = bound_fields s \<Longrightarrow>
           m_authorize_sender M s' env = m_authorize_sender M s env"
  shows "mode_contract M (\<lambda>_. True)"
proof
  fix s s' env
  assume "bound_fields s' = bound_fields s"
  then show "m_authorize_sender M s' env = m_authorize_sender M s env" by (rule assms(2))
qed (simp_all add: assms(1) default_due_synthetic_envelope_def)

lemma contract_default_mode:
  assumes "\<And>s s' env. bound_fields s' = bound_fields s \<Longrightarrow> auth s' env = auth s env"
  shows "mode_contract ((default_mode start message)\<lparr>m_authorize_sender := auth\<rparr>) (\<lambda>_. True)"
proof (rule contract_without_synthetic)
  fix s s' env
  assume "bound_fields s' = bound_fields s"
  then have "auth s' env = auth s env" by (rule assms)
  then show "m_authorize_sender ((default_mode start message)\<lparr>m_authorize_sender := auth\<rparr>) s' env
    = m_authorize_sender ((default_mode start message)\<lparr>m_authorize_sender := auth\<rparr>) s env"
    by simp
qed (simp add: default_mode_def)

section \<open>Modes that keep a typed state\<close>

text \<open>Every mode starts its handler by reading its state: the default when nothing was persisted
  yet, the decoded bytes otherwise.\<close>

definition load :: "(bytes \<Rightarrow> 'st option) \<Rightarrow> 'st \<Rightarrow> Session \<Rightarrow> 'st option" where
  "load dec dflt s = (if s_mode_state s = [] then Some dflt else dec (s_mode_state s))"

lemma load_result:
  "(if s_mode_state s = [] then Ok dflt else decode_mode_state dec (s_mode_state s))
     = ok_or (load dec dflt s) InvalidModeState"
  by (simp add: load_def decode_mode_state_def)

text \<open>
  A mode without synthetic envelopes whose handlers keep an invariant of its typed state, with a
  codec that reads back every state the invariant allows. Such a mode keeps the kernel contract,
  and the invariant holds of the state of every session it drives.
\<close>

locale stateful_mode =
  fixes M :: Mode and enc :: "'st \<Rightarrow> bytes" and dec :: "bytes \<Rightarrow> 'st option" and dflt :: 'st
    and sinv :: "Session \<Rightarrow> 'st \<Rightarrow> bool"
  assumes roundtrip: "sinv s st \<Longrightarrow> dec (enc st) = Some st \<and> enc st \<noteq> []"
    and sinv_frame: "bound_fields s' = bound_fields s \<Longrightarrow> sinv s st \<Longrightarrow> sinv s' st"
    and start_state:
      "m_on_session_start M s env = Inr r \<Longrightarrow> r = PersistState (enc dflt) \<and> sinv s dflt"
    and message_state:
      "load dec dflt s = Some st \<Longrightarrow> sinv s st \<Longrightarrow> m_authorize_sender M s env = Inr () \<Longrightarrow>
         m_on_message_at M s env ctx = Inr r \<Longrightarrow>
         \<exists>st'. response_state r = Some (enc st') \<and> sinv s st'"
    and sender_frame:
      "bound_fields s' = bound_fields s \<Longrightarrow> m_authorize_sender M s' env = m_authorize_sender M s env"
    and no_synthetic: "m_due_synthetic_envelope M = default_due_synthetic_envelope"
begin

definition holds :: "Session \<Rightarrow> bool" where
  "holds s \<longleftrightarrow> (\<exists>st. load dec dflt s = Some st \<and> sinv s st)"

lemma holds_respond:
  assumes "response_state r = Some (enc st)" "sinv s st"
  shows "holds (apply_mode_response r s)"
proof -
  have "bound_fields (apply_mode_response r s) = bound_fields s"
    by (cases r) (simp_all add: bound_fields_def)
  then have "sinv (apply_mode_response r s) st" using assms(2) by (rule sinv_frame)
  moreover have "load dec dflt (apply_mode_response r s) = Some st"
    using roundtrip [OF assms(2)] response_state_apply [OF assms(1)] by (simp add: load_def)
  ultimately show ?thesis unfolding holds_def by blast
qed

lemma holds_frame:
  assumes "holds s" "s_mode_state s' = s_mode_state s" "bound_fields s' = bound_fields s"
  shows "holds s'"
proof -
  obtain st where st: "load dec dflt s = Some st" "sinv s st" using assms(1) unfolding holds_def by blast
  have "load dec dflt s' = Some st" using st(1) unfolding load_def assms(2) .
  with sinv_frame [OF assms(3) st(2)] show ?thesis unfolding holds_def by blast
qed

end

sublocale stateful_mode \<subseteq> kernel: mode_contract M holds
proof
  fix s env r
  assume "m_on_session_start M s env = Inr r"
  then have "r = PersistState (enc dflt) \<and> sinv s dflt" by (rule start_state)
  then show "holds (apply_mode_response r s)" by (intro holds_respond) auto
next
  fix s env ctx r
  assume h: "holds s" and "m_authorize_sender M s env = Inr ()" "m_on_message_at M s env ctx = Inr r"
  then obtain st' where "response_state r = Some (enc st')" "sinv s st'"
    using message_state unfolding holds_def by blast
  then show "holds (apply_mode_response r s)" by (rule holds_respond)
next
  fix s s' :: Session and env
  assume b: "bound_fields s' = bound_fields s"
  show "m_authorize_sender M s' env = m_authorize_sender M s env" by (rule sender_frame [OF b])
  assume "holds s" "s_mode_state s' = s_mode_state s"
  then show "holds s'" using b by (rule holds_frame)
qed (simp_all add: no_synthetic default_due_synthetic_envelope_def)

text \<open>
  The same for a codec that cannot read back every state it writes: what is \<open>readable\<close> comes back,
  everything else is refused when it is decoded. The invariant then holds of the state that was
  written, whether or not it can be read again; once it cannot, no message is accepted any more.
\<close>

locale lossy_mode =
  fixes M :: Mode and enc :: "'st \<Rightarrow> bytes" and dec :: "bytes \<Rightarrow> 'st option" and dflt :: 'st
    and readable :: "'st \<Rightarrow> bool" and sinv :: "Session \<Rightarrow> 'st \<Rightarrow> bool"
  assumes codec: "enc st \<noteq> []" "dec (enc st) = (if readable st then Some st else None)"
    and sinv_frame: "bound_fields s' = bound_fields s \<Longrightarrow> sinv s st \<Longrightarrow> sinv s' st"
    and start_state:
      "m_on_session_start M s env = Inr r \<Longrightarrow> r = PersistState (enc dflt) \<and> sinv s dflt"
    and message_state:
      "load dec dflt s = Some st \<Longrightarrow> sinv s st \<Longrightarrow> m_authorize_sender M s env = Inr () \<Longrightarrow>
         m_on_message_at M s env ctx = Inr r \<Longrightarrow>
         \<exists>st'. response_state r = Some (enc st') \<and> sinv s st'"
    and unreadable: "load dec dflt s = None \<Longrightarrow> m_on_message_at M s env ctx = Inl InvalidModeState"
    and sender_frame:
      "bound_fields s' = bound_fields s \<Longrightarrow> m_authorize_sender M s' env = m_authorize_sender M s env"
    and no_synthetic: "m_due_synthetic_envelope M = default_due_synthetic_envelope"
begin

definition written :: "Session \<Rightarrow> bool" where
  "written s \<longleftrightarrow> (\<exists>st. s_mode_state s = enc st \<and> sinv s st)"

lemma written_load:
  assumes "written s"
  shows "\<exists>st. s_mode_state s = enc st \<and> sinv s st \<and>
    load dec dflt s = (if readable st then Some st else None)"
proof -
  obtain st where "s_mode_state s = enc st" "sinv s st" using assms unfolding written_def by blast
  then show ?thesis using codec by (intro exI [of _ st]) (simp add: load_def)
qed

lemma written_respond:
  assumes "response_state r = Some (enc st)" "sinv s st"
  shows "written (apply_mode_response r s)"
proof -
  have "bound_fields (apply_mode_response r s) = bound_fields s"
    by (cases r) (simp_all add: bound_fields_def)
  then have "sinv (apply_mode_response r s) st" using assms(2) by (rule sinv_frame)
  then show ?thesis using response_state_apply [OF assms(1)] unfolding written_def by blast
qed

end

sublocale lossy_mode \<subseteq> kernel: mode_contract M written
proof
  fix s env r
  assume "m_on_session_start M s env = Inr r"
  then have "r = PersistState (enc dflt) \<and> sinv s dflt" by (rule start_state)
  then show "written (apply_mode_response r s)" by (intro written_respond) auto
next
  fix s env ctx r
  assume w: "written s" and a: "m_authorize_sender M s env = Inr ()" and m: "m_on_message_at M s env ctx = Inr r"
  obtain st where st: "sinv s st" "load dec dflt s = Some st"
    using written_load [OF w] unreadable [of s env ctx] m by (auto split: if_splits)
  show "written (apply_mode_response r s)"
    using message_state [OF st(2,1) a m] by (auto intro: written_respond)
next
  fix s s' :: Session and env
  assume b: "bound_fields s' = bound_fields s"
  show "m_authorize_sender M s' env = m_authorize_sender M s env" by (rule sender_frame [OF b])
  assume "written s" "s_mode_state s' = s_mode_state s"
  then show "written s'" using sinv_frame [OF b] by (auto simp: written_def)
qed (simp_all add: no_synthetic default_due_synthetic_envelope_def)

end
