(* ===== verification/Step.thy ===== *)
theory Step
  imports Mode_Trait
begin

text \<open>
  The per-message kernel step of \<^verbatim>\<open>macp-modes/src/step.rs\<close>: the mode-independent
  preconditions, admission, synthesis of runtime-originated envelopes, dispatch and commit; and
  the acceptance of a SessionStart. The acceptance clock is the argument \<open>now_ms\<close>.
\<close>

section \<open>Preconditions, admission, dispatch, commit\<close>

definition MACP_VERSION :: string where "MACP_VERSION = ''1.0''"

definition MAX_SYNTHETIC_PER_STEP :: nat where "MAX_SYNTHETIC_PER_STEP = 64"

datatype Precheck = PcDuplicate | PcExpired | PcProceed

definition check_envelope_shape :: "Envelope \<Rightarrow> unit result" where
  "check_envelope_shape env =
     (if e_macp_version env \<noteq> MACP_VERSION then Err InvalidMacpVersion
      else if e_message_type env = [] \<or> e_message_id env = [] \<or> e_sender env = []
      then Err InvalidEnvelope
      else Ok ())"

definition check_preconditions :: "Session \<Rightarrow> Envelope \<Rightarrow> i64 \<Rightarrow> Precheck result" where
  "check_preconditions s env now_ms =
     and_then (check_envelope_shape env) (\<lambda>_.
     if e_message_id env \<in> s_seen_message_ids s then Ok PcDuplicate
     else if e_mode env \<noteq> s_mode s \<or> e_session_id env \<noteq> s_session_id s
     then Err InvalidEnvelope
     else if deadline_passed now_ms s then Ok PcExpired
     else if s_state s \<noteq> Open then Err SessionNotOpen
     else Ok PcProceed)"

definition admit :: "Session \<Rightarrow> Envelope \<Rightarrow> Mode \<Rightarrow> unit result" where
  "admit s env mode =
     and_then (m_authorize_sender mode s env) (\<lambda>_. m_validate_client_envelope mode s env)"

definition dispatch :: "Session \<Rightarrow> Envelope \<Rightarrow> Mode \<Rightarrow> i64 \<Rightarrow> ModeResponse result" where
  "dispatch s env mode now_ms = m_on_message_at mode s env (MessageContext_new now_ms)"

definition validate_message :: "Session \<Rightarrow> Envelope \<Rightarrow> Mode \<Rightarrow> i64 \<Rightarrow> ModeResponse result" where
  "validate_message s env mode now_ms =
     and_then (admit s env mode) (\<lambda>_. dispatch s env mode now_ms)"

definition consume_id :: "string \<Rightarrow> Session \<Rightarrow> Session" where
  "consume_id i s = s\<lparr>s_seen_message_ids := insert i (s_seen_message_ids s)\<rparr>"

definition commit :: "Session \<Rightarrow> Envelope \<Rightarrow> ModeResponse \<Rightarrow> i64 \<Rightarrow> SessionState \<times> Session" where
  "commit s env response now_ms =
     (let s1 = consume_id (e_message_id env) s;
          s2 = record_participant_activity (e_sender env) now_ms s1;
          s3 = apply_mode_response response s2
      in (s_state s3, s3))"

section \<open>Synthesis\<close>

record Synthetic =
  syn_envelope :: Envelope
  syn_response :: ModeResponse

definition next_synthetic :: "Session \<Rightarrow> Mode \<Rightarrow> i64 \<Rightarrow> Synthetic option result" where
  "next_synthetic s mode now_ms =
     (if s_state s \<noteq> Open then Ok None
      else case m_due_synthetic_envelope mode s now_ms of
        None \<Rightarrow> Ok None
      | Some env \<Rightarrow>
          if e_message_id env \<in> s_seen_message_ids s then Ok None
          else and_then (m_authorize_sender mode s env) (\<lambda>_.
               and_then (m_on_message_at mode s env
                           (MessageContext_new (e_timestamp_unix_ms env))) (\<lambda>response.
               Ok (Some \<lparr>syn_envelope = env, syn_response = response\<rparr>))))"

definition commit_synthetic :: "Session \<Rightarrow> Synthetic \<Rightarrow> Envelope \<times> Session" where
  "commit_synthetic s syn =
     (syn_envelope syn,
      apply_mode_response (syn_response syn) (consume_id (e_message_id (syn_envelope syn)) s))"

text \<open>The loop of \<open>advance\<close>, counting down from \<open>MAX_SYNTHETIC_PER_STEP\<close>.\<close>

fun advance_loop :: "nat \<Rightarrow> Session \<Rightarrow> Mode \<Rightarrow> i64 \<Rightarrow> Envelope list
    \<Rightarrow> Envelope list result \<times> Session" where
  "advance_loop left s mode now_ms emitted =
     (case next_synthetic s mode now_ms of
        Inl e \<Rightarrow> (Inl e, s)
      | Inr None \<Rightarrow> (Inr emitted, s)
      | Inr (Some syn) \<Rightarrow>
          (case left of
             0 \<Rightarrow> (Inl InvalidModeState, s)
           | Suc k \<Rightarrow>
               (let (env, s') = commit_synthetic s syn
                in advance_loop k s' mode now_ms (emitted @ [env]))))"

declare advance_loop.simps [simp del]

definition advance :: "Session \<Rightarrow> Mode \<Rightarrow> i64 \<Rightarrow> Envelope list result \<times> Session" where
  "advance s mode now_ms = advance_loop MAX_SYNTHETIC_PER_STEP s mode now_ms []"

section \<open>The step\<close>

datatype StepOutcome = Duplicate | Accepted SessionState "Envelope list"

definition step :: "Session \<Rightarrow> Envelope \<Rightarrow> Mode \<Rightarrow> i64 \<Rightarrow> StepOutcome result \<times> Session" where
  "step s env mode now_ms =
     (case check_preconditions s env now_ms of
        Inl e \<Rightarrow> (Inl e, s)
      | Inr PcDuplicate \<Rightarrow> (Ok Duplicate, s)
      | Inr PcExpired \<Rightarrow>
          (case expire s of
             (Inl e, s') \<Rightarrow> (Inl e, s')
           | (Inr _, s') \<Rightarrow> (Err TtlExpired, s'))
      | Inr PcProceed \<Rightarrow>
          (case admit s env mode of
             Inl e \<Rightarrow> (Inl e, s)
           | Inr _ \<Rightarrow>
               (case advance s mode now_ms of
                  (Inl e, s1) \<Rightarrow> (Inl e, s1)
                | (Inr synthesized, s1) \<Rightarrow>
                    (case dispatch s1 env mode now_ms of
                       Inl e \<Rightarrow> (Inl e, s1)
                     | Inr response \<Rightarrow>
                         (let (state, s2) = commit s1 env response now_ms
                          in (Ok (Accepted state synthesized), s2))))))"

section \<open>SessionStart\<close>

record StartOptions =
  so_strict :: "bool option"
  so_descriptor_mode_version :: "string option"
  so_default_max_suspend_ms :: "i64 option"
  so_session_id_validator :: "(string \<Rightarrow> unit result) option"
  so_max_ttl_ms :: "i64 option"

definition default_StartOptions :: StartOptions where
  "default_StartOptions =
     \<lparr>so_strict = None, so_descriptor_mode_version = None, so_default_max_suspend_ms = None,
      so_session_id_validator = None, so_max_ttl_ms = None\<rparr>"

record ValidatedStart =
  vs_payload :: SessionStartPayload
  vs_bound_mode_version :: "string option"
  vs_ttl_ms :: i64
  vs_ttl_expiry :: i64
  vs_max_suspend_ms :: i64
  vs_accepted_at_ms :: i64

record start_ext =
  sx_decode_start :: "bytes \<Rightarrow> SessionStartPayload option"
  sx_parse_uuid :: "string \<Rightarrow> (string \<times> uuid_version) option"

definition validate_session_start ::
    "start_ext \<Rightarrow> Envelope \<Rightarrow> i64 \<Rightarrow> StartOptions \<Rightarrow> ValidatedStart result" where
  "validate_session_start sx env now_ms opts =
     and_then (check_envelope_shape env) (\<lambda>_.
     if e_message_type env \<noteq> ''SessionStart'' \<or> blank (e_mode env) then Err InvalidEnvelope
     else
     and_then (case so_session_id_validator opts of
         Some validate \<Rightarrow> validate (e_session_id env)
       | None \<Rightarrow> validate_session_id_for_acceptance (sx_parse_uuid sx) (e_session_id env)) (\<lambda>_.
     and_then (parse_session_start_payload (sx_decode_start sx) (e_payload env)) (\<lambda>payload.
     and_then (if unwrap_or (requires_strict_session_start (e_mode env)) (so_strict opts)
               then validate_canonical_session_start_payload_for_mode (e_mode env) payload
               else Ok ()) (\<lambda>_.
     and_then (case so_descriptor_mode_version opts of
         Some descriptor \<Rightarrow>
           if ssp_mode_version payload \<noteq> [] \<and> ssp_mode_version payload \<noteq> descriptor
           then Err InvalidEnvelope else Ok ()
       | None \<Rightarrow> Ok ()) (\<lambda>_.
     and_then (extract_ttl_ms payload) (\<lambda>ttl_ms.
     if (case so_max_ttl_ms opts of None \<Rightarrow> False | Some cap \<Rightarrow> ttl_ms > cap) then Err InvalidTtl
     else
     let bound_mode_version =
           (if ssp_mode_version payload = [] then so_descriptor_mode_version opts else None);
         ttl_base = (if e_timestamp_unix_ms env > 0 then e_timestamp_unix_ms env else now_ms);
         max_suspend_ms =
           (case so_default_max_suspend_ms opts of
              Some dflt \<Rightarrow>
                if ssp_max_suspend_ms payload \<le> 0 \<and> dflt > 0 then dflt
                else resolve_max_suspend_ms (ssp_max_suspend_ms payload)
            | None \<Rightarrow> resolve_max_suspend_ms (ssp_max_suspend_ms payload))
     in Ok \<lparr>vs_payload = payload, vs_bound_mode_version = bound_mode_version,
            vs_ttl_ms = ttl_ms, vs_ttl_expiry = sat_add ttl_base ttl_ms,
            vs_max_suspend_ms = max_suspend_ms, vs_accepted_at_ms = now_ms\<rparr>))))))"

definition requested_policy_version :: "ValidatedStart \<Rightarrow> string" where
  "requested_policy_version v = ssp_policy_version (vs_payload v)"

definition resolve_policy_version :: "string \<Rightarrow> PolicyDefinition option \<Rightarrow> string result" where
  "resolve_policy_version requested policy =
     (case policy of
        None \<Rightarrow> if requested \<noteq> [] then Err UnknownPolicyVersion else Ok requested
      | Some p \<Rightarrow>
          if requested \<noteq> [] \<and> p_policy_id p \<noteq> requested then Err UnknownPolicyVersion
          else if requested = [] then Ok (p_policy_id p)
          else Ok requested)"

definition ValidatedStart_accept ::
    "ValidatedStart \<Rightarrow> Envelope \<Rightarrow> Mode \<Rightarrow> PolicyDefinition option \<Rightarrow> Session result" where
  "ValidatedStart_accept v env mode policy =
     and_then (resolve_policy_version (ssp_policy_version (vs_payload v)) policy) (\<lambda>policy_version.
     if (case policy of None \<Rightarrow> False
         | Some p \<Rightarrow> p_mode p \<noteq> ''*'' \<and> p_mode p \<noteq> e_mode env)
     then Err InvalidPolicyDefinition
     else
     let payload = vs_payload v;
         s = (Session_builder (e_session_id env) (e_mode env) (e_sender env))
               \<lparr>s_ttl_expiry := vs_ttl_expiry v, s_ttl_ms := vs_ttl_ms v,
                s_max_suspend_ms := vs_max_suspend_ms v,
                s_started_at_unix_ms := vs_accepted_at_ms v,
                s_participants := ssp_participants payload, s_intent := ssp_intent payload,
                s_mode_version := unwrap_or (ssp_mode_version payload) (vs_bound_mode_version v),
                s_configuration_version := ssp_configuration_version payload,
                s_policy_version := policy_version, s_context_id := ssp_context_id payload,
                s_extensions := ssp_extensions payload, s_roots := ssp_roots payload,
                s_policy_definition := policy, s_semantics_rev := CURRENT_SEMANTICS_REV\<rparr>
     in and_then (m_on_session_start mode s env) (\<lambda>response.
        and_then (m_validate_client_envelope mode s env) (\<lambda>_.
        Ok (apply_mode_response response (consume_id (e_message_id env) s)))))"

definition accept_session_start ::
    "start_ext \<Rightarrow> Envelope \<Rightarrow> i64 \<Rightarrow> Mode \<Rightarrow> PolicyDefinition option \<Rightarrow> StartOptions
     \<Rightarrow> Session result" where
  "accept_session_start sx env now_ms mode policy opts =
     and_then (validate_session_start sx env now_ms opts) (\<lambda>v.
     ValidatedStart_accept v env mode policy)"

section \<open>What each phase does\<close>

lemma consume_id_simps [simp]:
  "s_state (consume_id i s) = s_state s" "s_mode_state (consume_id i s) = s_mode_state s"
  "s_resolution (consume_id i s) = s_resolution s" "bound_fields (consume_id i s) = bound_fields s"
  "s_seen_message_ids (consume_id i s) = insert i (s_seen_message_ids s)"
  "s_mode_version (consume_id i s) = s_mode_version s"
  by (simp_all add: consume_id_def bound_fields_def)

lemma apply_response_simps [simp]:
  "bound_fields (apply_mode_response r s) = bound_fields s"
  "s_seen_message_ids (apply_mode_response r s) = s_seen_message_ids s"
  "s_ttl_expiry (apply_mode_response r s) = s_ttl_expiry s"
  "s_suspended_at_ms (apply_mode_response r s) = s_suspended_at_ms s"
  by (cases r; simp add: bound_fields_def)+

lemma activity_simps [simp]:
  "bound_fields (record_participant_activity p t s) = bound_fields s"
  "s_state (record_participant_activity p t s) = s_state s"
  "s_mode_state (record_participant_activity p t s) = s_mode_state s"
  "s_resolution (record_participant_activity p t s) = s_resolution s"
  "s_seen_message_ids (record_participant_activity p t s) = s_seen_message_ids s"
  by (simp_all add: record_participant_activity_def bound_fields_def)

lemma apply_response_state:
  "s_state (apply_mode_response r s) = s_state s \<or> s_state (apply_mode_response r s) = Resolved"
  by (cases r) auto

lemma lifecycle_frame [simp]:
  "s_mode_state (snd (suspend t s)) = s_mode_state s" "bound_fields (snd (suspend t s)) = bound_fields s"
  "s_mode_state (snd (resume t s)) = s_mode_state s" "bound_fields (snd (resume t s)) = bound_fields s"
  "s_mode_state (snd (cancel s)) = s_mode_state s" "bound_fields (snd (cancel s)) = bound_fields s"
  "s_mode_state (snd (expire s)) = s_mode_state s" "bound_fields (snd (expire s)) = bound_fields s"
  by (simp_all add: suspend_def resume_def Let_def cancel_def expire_def bound_fields_def)

text \<open>A response acts on the state, the mode state and the resolution, and reads nothing.\<close>

lemma apply_response_cong:
  assumes "s_state s' = s_state s" "s_mode_state s' = s_mode_state s"
  shows "s_state (apply_mode_response r s') = s_state (apply_mode_response r s)"
    "s_mode_state (apply_mode_response r s') = s_mode_state (apply_mode_response r s)"
  using assms by (cases r; simp)+

lemma shape_ok_iff:
  "check_envelope_shape env = Inr u \<longleftrightarrow>
     e_macp_version env = MACP_VERSION \<and> e_message_type env \<noteq> [] \<and> e_message_id env \<noteq> [] \<and>
     e_sender env \<noteq> []"
  by (simp add: check_envelope_shape_def)

lemma preconditions_proceed:
  "check_preconditions s env now = Inr PcProceed \<longleftrightarrow>
     check_envelope_shape env = Inr () \<and> e_message_id env \<notin> s_seen_message_ids s \<and>
     e_mode env = s_mode s \<and> e_session_id env = s_session_id s \<and>
     \<not> deadline_passed now s \<and> s_state s = Open"
  by (auto simp: check_preconditions_def res_simps)

lemma preconditions_duplicate:
  "check_preconditions s env now = Inr PcDuplicate \<longleftrightarrow>
     check_envelope_shape env = Inr () \<and> e_message_id env \<in> s_seen_message_ids s"
  by (auto simp: check_preconditions_def res_simps)

lemma preconditions_expired:
  "check_preconditions s env now = Inr PcExpired \<longleftrightarrow>
     check_envelope_shape env = Inr () \<and> e_message_id env \<notin> s_seen_message_ids s \<and>
     e_mode env = s_mode s \<and> e_session_id env = s_session_id s \<and> deadline_passed now s"
  by (auto simp: check_preconditions_def res_simps)

lemma deadline_passed_live: "deadline_passed now s \<Longrightarrow> \<not> is_terminal (s_state s)"
  by (auto simp: deadline_passed_def is_terminal_iff split: SessionState.splits)

lemma next_synthetic_Some:
  assumes "next_synthetic s M now = Inr (Some syn)"
  shows "s_state s = Open" "m_due_synthetic_envelope M s now = Some (syn_envelope syn)"
    "e_message_id (syn_envelope syn) \<notin> s_seen_message_ids s"
    "m_authorize_sender M s (syn_envelope syn) = Inr ()"
    "m_on_message_at M s (syn_envelope syn)
       (MessageContext_new (e_timestamp_unix_ms (syn_envelope syn))) = Inr (syn_response syn)"
  using assms by (auto simp: next_synthetic_def res_simps split: if_splits option.splits)

lemma next_synthetic_closed: "s_state s \<noteq> Open \<Longrightarrow> next_synthetic s M now = Inr None"
  by (simp add: next_synthetic_def)

lemma advance_loop_bound:
  "advance_loop k s M now es = (Inr es', s') \<Longrightarrow> length es' \<le> length es + k"
proof (induction k arbitrary: s es)
  case 0
  then show ?case
    by (auto simp: advance_loop.simps [of 0] split: sum.splits option.splits)
next
  case (Suc k)
  from Suc.prems show ?case
    by (auto simp: advance_loop.simps [of "Suc k"] commit_synthetic_def
        split: sum.splits option.splits dest: Suc.IH)
qed

lemma advance_loop_frame:
  "advance_loop k s M now es = (r, s') \<Longrightarrow>
     bound_fields s' = bound_fields s \<and> s_seen_message_ids s \<subseteq> s_seen_message_ids s'"
proof (induction k arbitrary: s es)
  case 0
  then show ?case
    by (auto simp: advance_loop.simps [of 0] split: sum.splits option.splits)
next
  case (Suc k)
  from Suc.prems show ?case
    by (auto simp: advance_loop.simps [of "Suc k"] commit_synthetic_def
        split: sum.splits option.splits dest!: Suc.IH)
qed

lemma advance_frame:
  "bound_fields (snd (advance s M now)) = bound_fields s"
  "s_seen_message_ids s \<subseteq> s_seen_message_ids (snd (advance s M now))"
  using advance_loop_frame [of MAX_SYNTHETIC_PER_STEP s M now "[]"
      "fst (advance s M now)" "snd (advance s M now)"]
  by (simp_all add: advance_def)

lemma advance_closed: "s_state s \<noteq> Open \<Longrightarrow> advance s M now = (Inr [], s)"
  by (simp add: advance_def advance_loop.simps next_synthetic_closed)

text \<open>The three ways a step ends.\<close>

lemma step_accepted:
  assumes "step s env M now = (Inr (Accepted st syns), s')"
  obtains s1 r where "check_preconditions s env now = Inr PcProceed" "admit s env M = Inr ()"
    "advance s M now = (Inr syns, s1)" "dispatch s1 env M now = Inr r"
    "s' = snd (commit s1 env r now)" "st = s_state s'"
  using assms
  by (auto simp: step_def commit_def Let_def expire_def split: sum.splits Precheck.splits prod.splits if_splits)

lemma step_duplicate:
  assumes "step s env M now = (Inr Duplicate, s')"
  shows "s' = s" "e_message_id env \<in> s_seen_message_ids s"
  using assms preconditions_duplicate [of s env now]
  by (auto simp: step_def commit_def Let_def expire_def split: sum.splits Precheck.splits prod.splits if_splits)

lemma step_rejected:
  assumes "step s env M now = (Inl e, s')"
  shows "s' = s
    \<or> check_preconditions s env now = Inr PcExpired \<and> e = TtlExpired \<and> expire s = (Inr (), s')
    \<or> check_preconditions s env now = Inr PcProceed \<and> admit s env M = Inr ()
       \<and> s' = snd (advance s M now)"
  using assms
  by (auto simp: step_def commit_def Let_def expire_def split: sum.splits Precheck.splits prod.splits if_splits)

lemma accept_facts:
  assumes "accept_session_start sx env t M policy opts = Inr s"
  obtains v s0 r where "validate_session_start sx env t opts = Inr v"
    "m_on_session_start M s0 env = Inr r"
    "s = apply_mode_response r (consume_id (e_message_id env) s0)"
    "s_state s0 = Open" "s_suspension_intervals s0 = []" "s_accumulated_suspended_ms s0 = 0"
    "s_suspended_at_ms s0 = None" "s_semantics_rev s0 = CURRENT_SEMANTICS_REV"
    "s_resolution s0 = None" "s_seen_message_ids s0 = {}" "s_mode_state s0 = []"
    "s_participants s0 = ssp_participants (vs_payload v)" "s_ttl_expiry s0 = vs_ttl_expiry v"
    "s_max_suspend_ms s0 = vs_max_suspend_ms v" "s_policy_definition s0 = policy"
    "s_initiator_sender s0 = e_sender env" "s_mode s0 = e_mode env" "s_session_id s0 = e_session_id env"
    "resolve_policy_version (ssp_policy_version (vs_payload v)) policy = Inr (s_policy_version s0)"
    "s_ttl_ms s0 = vs_ttl_ms v" "m_validate_client_envelope M s0 env = Inr ()"
    "\<forall>p. policy = Some p \<longrightarrow> p_mode p = ''*'' \<or> p_mode p = e_mode env"
proof -
  obtain v where v: "validate_session_start sx env t opts = Inr v"
    "ValidatedStart_accept v env M policy = Inr s"
    using assms by (auto simp: accept_session_start_def res_simps)
  then show ?thesis using that [OF v(1)]
    by (auto simp: ValidatedStart_accept_def Let_def res_simps Session_builder_def split: option.splits)
qed

section \<open>Driving a mode that keeps its contract\<close>

context mode_contract
begin

lemma accepted_minv:
  assumes "accept_session_start sx env t M policy opts = Inr s"
  shows "minv s"
proof -
  obtain v s0 r where a: "m_on_session_start M s0 env = Inr r"
    "s = apply_mode_response r (consume_id (e_message_id env) s0)"
    using assms by (rule accept_facts)
  show ?thesis
    by (rule minv_frame [OF start_minv [OF a(1)]])
      (simp_all add: a(2) apply_response_cong(2) [of "consume_id (e_message_id env) s0" s0])
qed

lemma lifecycle_minv:
  assumes "minv s"
  shows "minv (snd (suspend t s))" "minv (snd (resume t s))" "minv (snd (cancel s))"
    "minv (snd (expire s))"
  by (rule minv_frame [OF assms]; simp)+

lemma synthetic_applied:
  assumes inv: "minv s" and syn: "next_synthetic s M now = Inr (Some syn)"
  defines "s' \<equiv> snd (commit_synthetic s syn)"
  shows "minv s'" "s_state s' = Open" "bound_fields s' = bound_fields s"
    "next_synthetic s' M t = Inr None"
proof -
  note sf = next_synthetic_Some [OF syn]
  let ?r = "syn_response syn"
  have s': "s' = apply_mode_response ?r (consume_id (e_message_id (syn_envelope syn)) s)"
    by (simp add: s'_def commit_synthetic_def)
  have ms: "s_mode_state s' = s_mode_state (apply_mode_response ?r s)"
    "s_state s' = s_state (apply_mode_response ?r s)"
    unfolding s' by (rule apply_response_cong; simp)+
  show b: "bound_fields s' = bound_fields s" by (simp add: s')
  show "minv s'"
    by (rule minv_frame [OF message_minv [OF inv sf(1,4,5)] ms(1)]) (simp add: b)
  show "s_state s' = Open"
    using due_open [OF inv sf(2,5)] ms(2) sf(1) by simp
  have "m_due_synthetic_envelope M s' t = None"
    by (rule due_once [OF inv sf(2,5) ms(1) b])
  then show "next_synthetic s' M t = Inr None" by (simp add: next_synthetic_def)
qed

text \<open>One observation emits at most one envelope, and a second finds nothing.\<close>

lemma advance_cases:
  assumes "minv s"
  shows "(\<exists>e. next_synthetic s M now = Inl e \<and> advance s M now = (Inl e, s))
    \<or> next_synthetic s M now = Inr None \<and> advance s M now = (Inr [], s)
    \<or> (\<exists>syn. next_synthetic s M now = Inr (Some syn)
         \<and> advance s M now = (Inr [syn_envelope syn], snd (commit_synthetic s syn)))"
proof -
  have M64: "MAX_SYNTHETIC_PER_STEP = Suc 63" by (simp add: MAX_SYNTHETIC_PER_STEP_def)
  consider e where "next_synthetic s M now = Inl e" | "next_synthetic s M now = Inr None"
    | syn where "next_synthetic s M now = Inr (Some syn)"
    by (metis not_Some_eq sum.exhaust)
  then show ?thesis
  proof cases
    case (3 syn)
    have "next_synthetic (snd (commit_synthetic s syn)) M now = Inr None"
      using synthetic_applied [OF assms 3] by simp
    then have "advance_loop (Suc k) s M now [] = (Inr [syn_envelope syn], snd (commit_synthetic s syn))"
      for k using 3
      by (simp add: advance_loop.simps [of "Suc k"] advance_loop.simps [of k] commit_synthetic_def)
    then have "advance s M now = (Inr [syn_envelope syn], snd (commit_synthetic s syn))"
      unfolding advance_def M64 .
    then show ?thesis using 3 by blast
  qed (simp_all add: advance_def advance_loop.simps [of MAX_SYNTHETIC_PER_STEP])
qed

lemma advance_minv:
  assumes "minv s"
  shows "minv (snd (advance s M now))" "s_state (snd (advance s M now)) = s_state s"
  using advance_cases [OF assms, of now] synthetic_applied [OF assms, of now]
    next_synthetic_Some(1) assms
  by fastforce+

lemma advance_settles:
  assumes "minv s" "advance s M now = (Inr es, s')"
  shows "length es \<le> 1" "next_synthetic s' M t = Inr None \<or> es = []"
  using advance_cases [OF assms(1), of now] synthetic_applied(4) [OF assms(1), of now _ t] assms(2)
  by auto

lemma step_minv:
  assumes "minv s"
  shows "minv (snd (step s env M now))"
proof -
  obtain r s' where st: "step s env M now = (r, s')" by (cases "step s env M now")
  show ?thesis
  proof (cases r)
    case (Inl e)
    with st have "s' = s \<or> expire s = (Inr (), s') \<or> s' = snd (advance s M now)"
      by (auto dest: step_rejected)
    moreover have "minv (snd (expire s))" by (rule lifecycle_minv [OF assms])
    ultimately show ?thesis using st assms advance_minv by auto
  next
    case (Inr out)
    show ?thesis
    proof (cases out)
      case Duplicate
      with st Inr have "s' = s" by (auto dest: step_duplicate(1))
      then show ?thesis using st assms by simp
    next
      case (Accepted state syns)
      with st Inr obtain s1 resp where "check_preconditions s env now = Inr PcProceed"
        "advance s M now = (Inr syns, s1)" "dispatch s1 env M now = Inr resp"
        "s' = snd (commit s1 env resp now)" "admit s env M = Inr ()"
        by (auto elim: step_accepted)
      note acc = this
      have "bound_fields s1 = bound_fields s" using advance_frame(1) [of s M now] acc(2) by simp
      then have au: "m_authorize_sender M s1 env = Inr ()"
        using authorize_frame [of s1 s env] acc(5) by (auto simp: admit_def res_simps)
      have s1: "minv s1" "s_state s1 = Open"
        using advance_minv [OF assms, of now] acc(1,2) by (simp_all add: preconditions_proceed)
      let ?s2 = "record_participant_activity (e_sender env) now (consume_id (e_message_id env) s1)"
      have "minv (apply_mode_response resp s1)"
        using message_minv [OF s1 au] acc(3) by (simp add: dispatch_def)
      then have "minv (apply_mode_response resp ?s2)"
        by (rule minv_frame) (simp_all add: apply_response_cong(2) [of ?s2 s1])
      then show ?thesis using st acc(4) by (simp add: commit_def Let_def)
    qed
  qed
qed

text \<open>Every kernel step is a sequence of session method calls.\<close>

lemma advance_reaches:
  assumes "minv s"
  shows "session_step\<^sup>*\<^sup>* s (snd (advance s M now))"
proof -
  have "session_step\<^sup>*\<^sup>* s (snd (commit_synthetic s syn))"
    if "next_synthetic s M now = Inr (Some syn)" for syn
  proof -
    let ?i = "e_message_id (syn_envelope syn)"
    have "session_step s (consume_id ?i s)" unfolding consume_id_def by (rule step_dedup)
    moreover have "session_step (consume_id ?i s) (apply_mode_response (syn_response syn) (consume_id ?i s))"
      using next_synthetic_Some(1) [OF that] by (intro step_respond) simp
    ultimately show ?thesis by (simp add: commit_synthetic_def)
  qed
  then show ?thesis using advance_cases [OF assms, of now] by auto
qed

lemma step_reaches:
  assumes "minv s"
  shows "session_step\<^sup>*\<^sup>* s (snd (step s env M now))"
proof -
  obtain r s' where st: "step s env M now = (r, s')" by (cases "step s env M now")
  show ?thesis
  proof (cases r)
    case (Inl e)
    then consider "s' = s" | "s' = snd (expire s)" | "s' = snd (advance s M now)"
      using step_rejected st by fastforce
    then show ?thesis
      using st advance_reaches [OF assms, of now] step_expire [of s] by cases auto
  next
    case (Inr out)
    show ?thesis
    proof (cases out)
      case Duplicate
      with st Inr have "s' = s" by (auto dest: step_duplicate(1))
      then show ?thesis using st by simp
    next
      case (Accepted state syns)
      with st Inr obtain s1 resp where acc: "check_preconditions s env now = Inr PcProceed"
        "advance s M now = (Inr syns, s1)" "s' = snd (commit s1 env resp now)"
        by (auto elim: step_accepted)
      have s1: "session_step\<^sup>*\<^sup>* s s1" "s_state s1 = Open"
        using advance_reaches [OF assms, of now] advance_minv [OF assms, of now] acc(1,2)
        by (simp_all add: preconditions_proceed)
      let ?s2 = "consume_id (e_message_id env) s1"
      let ?s3 = "record_participant_activity (e_sender env) now ?s2"
      have "session_step s1 ?s2" unfolding consume_id_def by (rule step_dedup)
      moreover have "session_step ?s2 ?s3" by (rule step_activity)
      moreover have "session_step ?s3 (apply_mode_response resp ?s3)"
        using s1(2) by (intro step_respond) simp
      ultimately have "session_step\<^sup>*\<^sup>* s1 (apply_mode_response resp ?s3)"
        by (meson converse_rtranclp_into_rtranclp rtranclp.rtrancl_refl)
      then show ?thesis using st s1(1) acc(3) by (simp add: commit_def Let_def)
    qed
  qed
qed

end

end
