(* ===== verification/Replay.thy ===== *)
theory Replay
  imports Step
begin

text \<open>
  Rebuilding a session from its recorded history (\<^verbatim>\<open>macp-modes/src/replay.rs\<close>), and the
  proof that replay of what a recorder wrote rebuilds the live session. The relation \<open>live\<close> is the
  recorder of the crate's documentation: it appends an event for each thing the kernel did.
\<close>

section \<open>Replay\<close>

definition LEGACY_EXTENSION_TTL_MS :: i64 where "LEGACY_EXTENSION_TTL_MS = 60000"

record RecordedStart =
  rs_envelope :: Envelope
  rs_accepted_at_ms :: i64
  rs_semantics_rev :: u32
  rs_max_suspend_ms :: i64
  rs_bound_mode_version :: "string option"
  rs_policy :: "PolicyDefinition option"
  rs_strict :: "bool option"

definition RecordedStart_new :: "Envelope \<Rightarrow> i64 \<Rightarrow> RecordedStart" where
  "RecordedStart_new env accepted_at_ms =
     \<lparr>rs_envelope = env, rs_accepted_at_ms = accepted_at_ms, rs_semantics_rev = 0,
      rs_max_suspend_ms = 0, rs_bound_mode_version = None, rs_policy = None, rs_strict = None\<rparr>"

definition RecordedStart_from_session ::
    "Envelope \<Rightarrow> Session \<Rightarrow> string option \<Rightarrow> RecordedStart" where
  "RecordedStart_from_session env s bound_mode_version =
     \<lparr>rs_envelope = env, rs_accepted_at_ms = s_started_at_unix_ms s,
      rs_semantics_rev = s_semantics_rev s, rs_max_suspend_ms = s_max_suspend_ms s,
      rs_bound_mode_version = bound_mode_version, rs_policy = s_policy_definition s,
      rs_strict = None\<rparr>"

datatype ReplayEvent =
    EvMessage Envelope i64
  | EvSynthetic Envelope
  | EvSuspended i64
  | EvResumed i64
  | EvCancelled
  | EvExpired

record ReplayOptions =
  ro_credit_participant_activity :: bool

definition default_ReplayOptions :: ReplayOptions where
  "default_ReplayOptions = \<lparr>ro_credit_participant_activity = True\<rparr>"

definition default_SessionStartPayload :: SessionStartPayload where
  "default_SessionStartPayload =
     \<lparr>ssp_intent = [], ssp_participants = [], ssp_mode_version = [],
      ssp_configuration_version = [], ssp_policy_version = [], ssp_ttl_ms = 0,
      ssp_context_id = [], ssp_extensions = Map.empty, ssp_roots = [], ssp_max_suspend_ms = 0\<rparr>"

definition replay_start :: "start_ext \<Rightarrow> RecordedStart \<Rightarrow> Mode \<Rightarrow> Session result" where
  "replay_start sx start mode =
     (let env = rs_envelope start;
          strict = unwrap_or (requires_strict_session_start (e_mode env)) (rs_strict start)
      in
      and_then (if e_payload env = [] \<and> \<not> strict then Ok default_SessionStartPayload
                else parse_session_start_payload (sx_decode_start sx) (e_payload env)) (\<lambda>payload.
      and_then (if strict then validate_canonical_session_start_payload_for_mode (e_mode env) payload
                else Ok ()) (\<lambda>_.
      and_then (if \<not> strict \<and> ssp_ttl_ms payload = 0 then Ok LEGACY_EXTENSION_TTL_MS
                else extract_ttl_ms payload) (\<lambda>ttl_ms.
      let ttl_base = (if e_timestamp_unix_ms env > 0 then e_timestamp_unix_ms env
                      else rs_accepted_at_ms start);
          policy_version =
            (case rs_policy start of
               Some p \<Rightarrow> if ssp_policy_version payload = [] then p_policy_id p
                         else ssp_policy_version payload
             | None \<Rightarrow> ssp_policy_version payload);
          s = (Session_builder (e_session_id env) (e_mode env) (e_sender env))
                \<lparr>s_semantics_rev := rs_semantics_rev start,
                 s_max_suspend_ms := rs_max_suspend_ms start,
                 s_ttl_expiry := sat_add ttl_base ttl_ms, s_ttl_ms := ttl_ms,
                 s_started_at_unix_ms := rs_accepted_at_ms start,
                 s_participants := ssp_participants payload, s_intent := ssp_intent payload,
                 s_mode_version := unwrap_or (ssp_mode_version payload) (rs_bound_mode_version start),
                 s_configuration_version := ssp_configuration_version payload,
                 s_policy_version := policy_version, s_context_id := ssp_context_id payload,
                 s_extensions := ssp_extensions payload, s_roots := ssp_roots payload,
                 s_policy_definition := rs_policy start\<rparr>
      in and_then (m_on_session_start mode s env) (\<lambda>response.
         Ok (apply_mode_response response (consume_id (e_message_id env) s)))))))"

definition apply_envelope_event ::
    "Session \<Rightarrow> Envelope \<Rightarrow> i64 \<Rightarrow> bool \<Rightarrow> Mode \<Rightarrow> unit result \<times> Session" where
  "apply_envelope_event s env accepted_at_ms credit mode =
     (if s_state s \<noteq> Open then
        (Ok (), if e_message_id env \<noteq> [] then consume_id (e_message_id env) s else s)
      else case m_authorize_sender mode s env of
        Inl e \<Rightarrow> (Inl e, s)
      | Inr _ \<Rightarrow>
          (case m_on_message_at mode s env (MessageContext_new accepted_at_ms) of
             Inl e \<Rightarrow> (Inl e, s)
           | Inr response \<Rightarrow>
               (let s1 = apply_mode_response response s;
                    s2 = (if credit then record_participant_activity (e_sender env) accepted_at_ms s1
                          else s1);
                    s3 = (if e_message_id env \<noteq> [] then consume_id (e_message_id env) s2 else s2)
                in (Ok (), s3))))"

fun apply_event :: "Session \<Rightarrow> ReplayEvent \<Rightarrow> Mode \<Rightarrow> ReplayOptions \<Rightarrow> unit result \<times> Session" where
  "apply_event s (EvMessage env accepted_at_ms) mode opts =
     apply_envelope_event s env accepted_at_ms (ro_credit_participant_activity opts) mode"
| "apply_event s (EvSynthetic env) mode opts =
     apply_envelope_event s env (e_timestamp_unix_ms env) False mode"
| "apply_event s (EvSuspended at_ms) mode opts = (Ok (), snd (suspend at_ms s))"
| "apply_event s (EvResumed at_ms) mode opts = (Ok (), snd (resume at_ms s))"
| "apply_event s EvCancelled mode opts = (Ok (), snd (cancel s))"
| "apply_event s EvExpired mode opts = (Ok (), s\<lparr>s_state := Expired\<rparr>)"

fun replay_events :: "Session \<Rightarrow> ReplayEvent list \<Rightarrow> Mode \<Rightarrow> ReplayOptions \<Rightarrow> Session result" where
  "replay_events s [] mode opts = Ok s"
| "replay_events s (ev # evs) mode opts =
     (case apply_event s ev mode opts of
        (Inl e, _) \<Rightarrow> Inl e
      | (Inr _, s') \<Rightarrow> replay_events s' evs mode opts)"

definition replay ::
    "start_ext \<Rightarrow> RecordedStart \<Rightarrow> ReplayEvent list \<Rightarrow> Mode \<Rightarrow> ReplayOptions \<Rightarrow> Session result" where
  "replay sx start events mode opts =
     and_then (replay_start sx start mode) (\<lambda>s. replay_events s events mode opts)"

section \<open>The live recorder\<close>

text \<open>
  \<open>live M s0 evs s\<close>: driving \<open>s0\<close> through the kernel reaches \<open>s\<close>, and \<open>evs\<close> was recorded on the
  way. Synthesized envelopes are recorded before the message that observed them; a rejected
  message records nothing (the recorder calls \<open>advance\<close> first, so a rejection finds nothing due).
\<close>

inductive live :: "Mode \<Rightarrow> Session \<Rightarrow> ReplayEvent list \<Rightarrow> Session \<Rightarrow> bool" for M s0 where
  live_start: "live M s0 [] s0"
| live_accept:
    "live M s0 evs s \<Longrightarrow> step s env M now = (Ok (Accepted st syns), s') \<Longrightarrow>
       live M s0 (evs @ map EvSynthetic syns @ [EvMessage env now]) s'"
| live_duplicate:
    "live M s0 evs s \<Longrightarrow> step s env M now = (Ok Duplicate, s') \<Longrightarrow> live M s0 evs s'"
| live_reject:
    "live M s0 evs s \<Longrightarrow> next_synthetic s M now = Ok None \<Longrightarrow> step s env M now = (Err e, s') \<Longrightarrow>
       check_preconditions s env now \<noteq> Ok PcExpired \<Longrightarrow> live M s0 evs s'"
| live_deadline:
    "live M s0 evs s \<Longrightarrow> check_preconditions s env now = Ok PcExpired \<Longrightarrow>
       step s env M now = (Err e, s') \<Longrightarrow> live M s0 (evs @ [EvExpired]) s'"
| live_tick:
    "live M s0 evs s \<Longrightarrow> advance s M now = (Ok syns, s') \<Longrightarrow>
       live M s0 (evs @ map EvSynthetic syns) s'"
| live_suspend:
    "live M s0 evs s \<Longrightarrow> suspend now s = (Ok (), s') \<Longrightarrow> live M s0 (evs @ [EvSuspended now]) s'"
| live_resume:
    "live M s0 evs s \<Longrightarrow> s_state s = Suspended \<Longrightarrow> resume now s = (r, s') \<Longrightarrow>
       live M s0 (evs @ [EvResumed now]) s'"
| live_cancel:
    "live M s0 evs s \<Longrightarrow> cancel s = (Ok (), s') \<Longrightarrow> live M s0 (evs @ [EvCancelled]) s'"
| live_expire:
    "live M s0 evs s \<Longrightarrow> expire s = (Ok (), s') \<Longrightarrow> live M s0 (evs @ [EvExpired]) s'"

text \<open>A replayed expiry leaves \<^verbatim>\<open>suspended_at_ms\<close> as it was, a live one clears it.\<close>

definition forget_pause :: "Session \<Rightarrow> Session" where
  "forget_pause s = (if s_state s = Expired then s\<lparr>s_suspended_at_ms := None\<rparr> else s)"

section \<open>Replay follows the live session\<close>

lemma replay_events_append:
  "replay_events s (evs @ evs') M opts =
     and_then (replay_events s evs M opts) (\<lambda>s'. replay_events s' evs' M opts)"
  by (induction s evs M opts rule: replay_events.induct) (auto split: prod.splits sum.splits)

lemma consume_apply_commute:
  "apply_mode_response r (consume_id i s) = consume_id i (apply_mode_response r s)"
  by (cases r) (simp_all add: consume_id_def)

lemma activity_apply_commute:
  "apply_mode_response r (record_participant_activity p t s)
     = record_participant_activity p t (apply_mode_response r s)"
  by (cases r) (simp_all add: record_participant_activity_def)

lemma activity_consume_commute:
  "record_participant_activity p t (consume_id i s) = consume_id i (record_participant_activity p t s)"
  by (simp add: record_participant_activity_def consume_id_def)

lemma forget_pause_simps [simp]:
  "s_state (forget_pause s) = s_state s" "bound_fields (forget_pause s) = bound_fields s"
  by (simp_all add: forget_pause_def bound_fields_def)

lemma forget_pause_id: "s_state s \<noteq> Expired \<Longrightarrow> forget_pause s = s"
  by (simp add: forget_pause_def)

lemma forget_pause_eq:
  "forget_pause r = forget_pause s \<Longrightarrow> s_state s \<noteq> Expired \<Longrightarrow> r = s"
  by (metis forget_pause_id forget_pause_simps(1))

text \<open>The start a recorder writes for an accepted SessionStart replays to the accepted session.
  \<^verbatim>\<open>from_session\<close> leaves \<open>strict\<close> unset, so an explicit acceptance option is recorded with
  \<^verbatim>\<open>with_strict\<close>.\<close>

definition recorded_start :: "Envelope \<Rightarrow> Session \<Rightarrow> ValidatedStart \<Rightarrow> StartOptions \<Rightarrow> RecordedStart" where
  "recorded_start env s v opts =
     (RecordedStart_from_session env s (vs_bound_mode_version v))\<lparr>rs_strict := so_strict opts\<rparr>"

lemma validate_start_facts:
  assumes "validate_session_start sx env now opts = Inr v"
  shows "e_payload env \<noteq> []"
    "parse_session_start_payload (sx_decode_start sx) (e_payload env) = Inr (vs_payload v)"
    "unwrap_or (requires_strict_session_start (e_mode env)) (so_strict opts) \<Longrightarrow>
       validate_canonical_session_start_payload_for_mode (e_mode env) (vs_payload v) = Inr ()"
    "extract_ttl_ms (vs_payload v) = Inr (vs_ttl_ms v)"
    "vs_ttl_expiry v = sat_add (if e_timestamp_unix_ms env > 0 then e_timestamp_unix_ms env else now)
       (vs_ttl_ms v)"
    "vs_accepted_at_ms v = now" "check_envelope_shape env = Inr ()"
    "0 < vs_max_suspend_ms v"
proof -
  show "e_payload env \<noteq> []"
    "parse_session_start_payload (sx_decode_start sx) (e_payload env) = Inr (vs_payload v)"
    "unwrap_or (requires_strict_session_start (e_mode env)) (so_strict opts) \<Longrightarrow>
       validate_canonical_session_start_payload_for_mode (e_mode env) (vs_payload v) = Inr ()"
    "extract_ttl_ms (vs_payload v) = Inr (vs_ttl_ms v)"
    "vs_ttl_expiry v = sat_add (if e_timestamp_unix_ms env > 0 then e_timestamp_unix_ms env else now)
       (vs_ttl_ms v)"
    "vs_accepted_at_ms v = now" "check_envelope_shape env = Inr ()"
    using assms
    by (auto simp: validate_session_start_def parse_session_start_payload_def Let_def res_simps
        split: if_splits)
  have "vs_max_suspend_ms v = (case so_default_max_suspend_ms opts of
      Some dflt \<Rightarrow> if ssp_max_suspend_ms (vs_payload v) \<le> 0 \<and> dflt > 0 then dflt
        else resolve_max_suspend_ms (ssp_max_suspend_ms (vs_payload v))
    | None \<Rightarrow> resolve_max_suspend_ms (ssp_max_suspend_ms (vs_payload v)))"
    using assms
    by (cases "so_default_max_suspend_ms opts") (auto simp: validate_session_start_def Let_def res_simps)
  moreover have "0 < resolve_max_suspend_ms m" for m
    by (simp add: resolve_max_suspend_ms_def MAX_SUSPEND_MS_def)
  ultimately show "0 < vs_max_suspend_ms v" by (simp split: option.split)
qed

lemma replay_recorded_start:
  assumes v: "validate_session_start sx env now opts = Inr v"
    and s: "ValidatedStart_accept v env M policy = Inr s"
  shows "replay_start sx (recorded_start env s v opts) M = Inr s"
proof -
  note vf = validate_start_facts [OF v]
  obtain pv where pv: "resolve_policy_version (ssp_policy_version (vs_payload v)) policy = Inr pv"
    using s by (auto simp: ValidatedStart_accept_def res_simps)
  have pv': "pv = (case policy of Some p \<Rightarrow> if ssp_policy_version (vs_payload v) = []
      then p_policy_id p else ssp_policy_version (vs_payload v) | None \<Rightarrow> ssp_policy_version (vs_payload v))"
    using pv by (auto simp: resolve_policy_version_def split: option.splits if_splits)
  have ttl: "ssp_ttl_ms (vs_payload v) \<noteq> 0"
    using vf(4) by (auto simp: extract_ttl_ms_def split: if_splits)
  obtain s0 r where s0: "s = apply_mode_response r (consume_id (e_message_id env) s0)"
    "m_on_session_start M s0 env = Inr r"
    "s0 = (Session_builder (e_session_id env) (e_mode env) (e_sender env))
       \<lparr>s_ttl_expiry := vs_ttl_expiry v, s_ttl_ms := vs_ttl_ms v,
        s_max_suspend_ms := vs_max_suspend_ms v, s_started_at_unix_ms := now,
        s_participants := ssp_participants (vs_payload v), s_intent := ssp_intent (vs_payload v),
        s_mode_version := unwrap_or (ssp_mode_version (vs_payload v)) (vs_bound_mode_version v),
        s_configuration_version := ssp_configuration_version (vs_payload v),
        s_policy_version := pv, s_context_id := ssp_context_id (vs_payload v),
        s_extensions := ssp_extensions (vs_payload v), s_roots := ssp_roots (vs_payload v),
        s_policy_definition := policy, s_semantics_rev := CURRENT_SEMANTICS_REV\<rparr>"
    using s vf(6) pv by (auto simp: ValidatedStart_accept_def Let_def res_simps)
  have b: "bound_fields s = bound_fields s0" unfolding s0(1) by simp
  have f: "s_started_at_unix_ms s = now" "s_semantics_rev s = CURRENT_SEMANTICS_REV"
    "s_max_suspend_ms s = vs_max_suspend_ms v" "s_policy_definition s = policy"
    using b by (simp_all add: bound_fields_def s0(3))
  have s0': "s0 = (Session_builder (e_session_id env) (e_mode env) (e_sender env))
       \<lparr>s_semantics_rev := CURRENT_SEMANTICS_REV, s_max_suspend_ms := vs_max_suspend_ms v,
        s_ttl_expiry := vs_ttl_expiry v, s_ttl_ms := vs_ttl_ms v, s_started_at_unix_ms := now,
        s_participants := ssp_participants (vs_payload v), s_intent := ssp_intent (vs_payload v),
        s_mode_version := unwrap_or (ssp_mode_version (vs_payload v)) (vs_bound_mode_version v),
        s_configuration_version := ssp_configuration_version (vs_payload v),
        s_policy_version := pv, s_context_id := ssp_context_id (vs_payload v),
        s_extensions := ssp_extensions (vs_payload v), s_roots := ssp_roots (vs_payload v),
        s_policy_definition := policy\<rparr>"
    by (simp add: s0(3))
  have rs: "rs_envelope (recorded_start env s v opts) = env"
    "rs_accepted_at_ms (recorded_start env s v opts) = now"
    "rs_semantics_rev (recorded_start env s v opts) = CURRENT_SEMANTICS_REV"
    "rs_max_suspend_ms (recorded_start env s v opts) = vs_max_suspend_ms v"
    "rs_bound_mode_version (recorded_start env s v opts) = vs_bound_mode_version v"
    "rs_policy (recorded_start env s v opts) = policy"
    "rs_strict (recorded_start env s v opts) = so_strict opts"
    using f by (simp_all add: recorded_start_def RecordedStart_from_session_def)
  show ?thesis
    using vf(1-4) ttl s0(1,2) unfolding replay_start_def Let_def rs
    by (simp add: vf(5) [symmetric] pv' [symmetric] s0' [symmetric])
qed

context mode_contract
begin

lemma replay_synthetic:
  assumes "minv s" "next_synthetic s M now = Inr (Some syn)"
  shows "apply_event s (EvSynthetic (syn_envelope syn)) M opts = (Inr (), snd (commit_synthetic s syn))"
  using next_synthetic_Some [OF assms(2)] due_id
  by (auto simp: apply_envelope_event_def commit_synthetic_def consume_apply_commute)

lemma replay_advance:
  assumes "minv s" "advance s M now = (Inr es, s')"
  shows "replay_events s (map EvSynthetic es) M opts = Inr s'"
  using advance_cases [OF assms(1), of now] replay_synthetic [OF assms(1), of now] assms(2)
  by auto

lemma replay_accept:
  assumes "minv s" "step s env M now = (Inr (Accepted st syns), s')"
  shows "replay_events s (map EvSynthetic syns @ [EvMessage env now]) M default_ReplayOptions = Inr s'"
proof -
  obtain s1 r where acc: "check_preconditions s env now = Inr PcProceed" "admit s env M = Inr ()"
    "advance s M now = (Inr syns, s1)" "dispatch s1 env M now = Inr r"
    "s' = snd (commit s1 env r now)"
    using assms(2) by (rule step_accepted)
  have s1: "s_state s1 = Open" "bound_fields s1 = bound_fields s"
    using advance_minv(2) [OF assms(1), of now] advance_frame(1) [of s M now] acc(1,3)
    by (simp_all add: preconditions_proceed)
  have "m_authorize_sender M s1 env = Inr ()"
    using acc(2) authorize_frame [OF s1(2)] by (auto simp: admit_def res_simps)
  moreover have "e_message_id env \<noteq> []"
    using acc(1) by (simp add: preconditions_proceed shape_ok_iff)
  ultimately have "apply_event s1 (EvMessage env now) M default_ReplayOptions = (Inr (), s')"
    using s1(1) acc(4,5)
    by (simp add: apply_envelope_event_def dispatch_def commit_def Let_def default_ReplayOptions_def
        consume_apply_commute activity_apply_commute activity_consume_commute)
  then show ?thesis
    using replay_advance [OF assms(1) acc(3)] by (simp add: replay_events_append)
qed

lemma live_minv: "live M s0 evs s \<Longrightarrow> minv s0 \<Longrightarrow> minv s"
proof (induction rule: live.induct)
  case (live_accept evs s env now st syns s')
  then show ?case by (metis step_minv snd_conv)
next
  case (live_duplicate evs s env now s')
  then show ?case by (metis step_minv snd_conv)
next
  case (live_reject evs s now env e s')
  then show ?case by (metis step_minv snd_conv)
next
  case (live_deadline evs s env now e s')
  then show ?case by (metis step_minv snd_conv)
next
  case (live_tick evs s now syns s')
  then show ?case by (metis advance_minv(1) snd_conv)
next
  case (live_suspend evs s now s')
  then show ?case by (metis lifecycle_minv snd_conv)
next
  case (live_resume evs s now r s')
  then show ?case by (metis lifecycle_minv snd_conv)
next
  case (live_cancel evs s s')
  then show ?case by (metis lifecycle_minv snd_conv)
next
  case (live_expire evs s s')
  then show ?case by (metis lifecycle_minv snd_conv)
qed simp

lemma live_reaches: "live M s0 evs s \<Longrightarrow> minv s0 \<Longrightarrow> session_step\<^sup>*\<^sup>* s0 s"
proof (induction rule: live.induct)
  case (live_accept evs s env now st syns s')
  then show ?case using step_reaches [OF live_minv] by (metis rtranclp_trans snd_conv)
next
  case (live_duplicate evs s env now s')
  then show ?case using step_reaches [OF live_minv] by (metis rtranclp_trans snd_conv)
next
  case (live_reject evs s now env e s')
  then show ?case using step_reaches [OF live_minv] by (metis rtranclp_trans snd_conv)
next
  case (live_deadline evs s env now e s')
  then show ?case using step_reaches [OF live_minv] by (metis rtranclp_trans snd_conv)
next
  case (live_tick evs s now syns s')
  then show ?case using advance_reaches [OF live_minv] by (metis rtranclp_trans snd_conv)
next
  case (live_suspend evs s now s')
  then show ?case using step_suspend [of s now] by (metis rtranclp.rtrancl_into_rtrancl snd_conv)
next
  case (live_resume evs s now r s')
  then show ?case using step_resume [of s now] by (metis rtranclp.rtrancl_into_rtrancl snd_conv)
next
  case (live_cancel evs s s')
  then show ?case using step_cancel [of s] by (metis rtranclp.rtrancl_into_rtrancl snd_conv)
next
  case (live_expire evs s s')
  then show ?case using step_expire [of s] by (metis rtranclp.rtrancl_into_rtrancl snd_conv)
qed simp

lemma replay_expiry:
  assumes "expire s = (Inr u, s')"
  shows "forget_pause (s\<lparr>s_state := Expired\<rparr>) = forget_pause s'" "s_state s \<noteq> Expired"
  using assms by (auto simp: expire_def forget_pause_def split: if_splits)

lemma live_replay:
  assumes "live M s0 evs s" "minv s0"
  shows "\<exists>r. replay_events s0 evs M default_ReplayOptions = Inr r \<and> forget_pause r = forget_pause s"
  using assms
proof (induction rule: live.induct)
  case (live_accept evs s env now st syns s')
  then have "s_state s = Open" by (auto elim!: step_accepted simp: preconditions_proceed)
  moreover obtain r where "replay_events s0 evs M default_ReplayOptions = Inr r"
    "forget_pause r = forget_pause s" using live_accept by blast
  ultimately have "replay_events s0 evs M default_ReplayOptions = Inr s"
    using forget_pause_eq by fastforce
  then show ?case
    using replay_accept [OF live_minv [OF live_accept(1,4)] live_accept(2)]
    by (simp add: replay_events_append [of s0 evs])
next
  case (live_duplicate evs s env now s')
  then show ?case by (metis step_duplicate(1))
next
  case (live_reject evs s now env e s')
  have "s' = s"
    using step_rejected [OF live_reject(3)] live_reject(2,4)
    by (auto simp: advance_def advance_loop.simps [of MAX_SYNTHETIC_PER_STEP])
  then show ?case using live_reject by simp
next
  case (live_deadline evs s env now e s')
  have "\<not> is_terminal (s_state s)"
    using live_deadline(2) deadline_passed_live by (auto simp: preconditions_expired)
  then have ex: "expire s = (Inr (), s')"
    using live_deadline(2,3) by (simp add: step_def expire_def)
  obtain r where "replay_events s0 evs M default_ReplayOptions = Inr r"
    "forget_pause r = forget_pause s" using live_deadline by blast
  then have "replay_events s0 evs M default_ReplayOptions = Inr s"
    using forget_pause_eq replay_expiry(2) [OF ex] by fastforce
  then show ?case using replay_expiry(1) [OF ex] by (simp add: replay_events_append)
next
  case (live_tick evs s now syns s')
  obtain r where r: "replay_events s0 evs M default_ReplayOptions = Inr r"
    "forget_pause r = forget_pause s" using live_tick by blast
  show ?case
  proof (cases "s_state s = Open")
    case True
    then have "r = s" using r(2) forget_pause_eq by simp
    then show ?thesis
      using r replay_advance [OF live_minv [OF live_tick(1,4)] live_tick(2)]
      by (simp add: replay_events_append)
  next
    case False
    then show ?thesis using live_tick(2) r by (simp add: advance_closed)
  qed
next
  case (live_suspend evs s now s')
  then obtain r where r: "replay_events s0 evs M default_ReplayOptions = Inr r"
    "forget_pause r = forget_pause s" by blast
  have "s_state s = Open" using live_suspend(2) by (auto simp: suspend_def split: if_splits)
  then have "r = s" using r(2) forget_pause_eq by simp
  then show ?case using r(1) live_suspend(2) by (simp add: replay_events_append)
next
  case (live_resume evs s now q s')
  then obtain r where r: "replay_events s0 evs M default_ReplayOptions = Inr r"
    "forget_pause r = forget_pause s" by blast
  have "r = s" using r(2) forget_pause_eq live_resume(2) by simp
  then show ?case using r(1) live_resume(3) by (simp add: replay_events_append)
next
  case (live_cancel evs s s')
  then obtain r where r: "replay_events s0 evs M default_ReplayOptions = Inr r"
    "forget_pause r = forget_pause s" by blast
  have "s_state s \<noteq> Expired" using live_cancel(2) by (auto simp: cancel_def split: if_splits)
  then have "r = s" using r(2) forget_pause_eq by simp
  then show ?case using r(1) live_cancel(2) by (simp add: replay_events_append)
next
  case (live_expire evs s s')
  then obtain r where r: "replay_events s0 evs M default_ReplayOptions = Inr r"
    "forget_pause r = forget_pause s" by blast
  have "r = s" using r(2) forget_pause_eq replay_expiry(2) [OF live_expire(2)] by simp
  then show ?case using r(1) replay_expiry(1) [OF live_expire(2)]
    by (simp add: replay_events_append)
qed auto

end

end
