(* ===== verification/Kernel_Runs.thy ===== *)
theory Kernel_Runs
  imports Replay
begin

text \<open>
  Sessions as the kernel drives them: an accepted SessionStart followed by any sequence of kernel
  calls (messages accepted or not, observations of the clock, suspensions, resumptions,
  cancellations, expiries). The invariants of the session and of its mode hold on every such
  session.
\<close>

inductive kernel_op :: "Mode \<Rightarrow> Session \<Rightarrow> Session \<Rightarrow> bool" for M where
  op_step: "kernel_op M s (snd (step s env M now))"
| op_advance: "kernel_op M s (snd (advance s M now))"
| op_suspend: "kernel_op M s (snd (suspend now s))"
| op_resume: "kernel_op M s (snd (resume now s))"
| op_cancel: "kernel_op M s (snd (cancel s))"
| op_expire: "kernel_op M s (snd (expire s))"

inductive accepted :: "Mode \<Rightarrow> Session \<Rightarrow> bool" for M where
  accepted_start: "accept_session_start sx env now M policy opts = Ok s \<Longrightarrow> accepted M s"

definition driven :: "Mode \<Rightarrow> Session \<Rightarrow> bool" where
  "driven M s \<longleftrightarrow> (\<exists>s0. accepted M s0 \<and> (kernel_op M)\<^sup>*\<^sup>* s0 s)"

lemma driven_accepted: "accepted M s \<Longrightarrow> driven M s"
  by (auto simp: driven_def)

lemma driven_op: "driven M s \<Longrightarrow> kernel_op M s s' \<Longrightarrow> driven M s'"
  by (auto simp: driven_def intro: rtranclp.rtrancl_into_rtrancl)

lemma driven_ops: "driven M s \<Longrightarrow> (kernel_op M)\<^sup>*\<^sup>* s s' \<Longrightarrow> driven M s'"
  by (metis driven_def rtranclp_trans)

section \<open>Accepted sessions\<close>

lemma ttl_range:
  assumes "validate_session_start sx env now opts = Inr v"
  shows "1 \<le> vs_ttl_ms v" "vs_ttl_ms v \<le> MAX_TTL_MS"
  using validate_start_facts(4) [OF assms] by (auto simp: extract_ttl_ms_def split: if_splits)

lemma accepted_inv:
  assumes "accept_session_start sx env now M policy opts = Inr s"
  shows "session_inv s"
proof -
  obtain v s0 r where a: "validate_session_start sx env now opts = Inr v"
    "s = apply_mode_response r (consume_id (e_message_id env) s0)"
    "s_state s0 = Open" "s_suspension_intervals s0 = []" "s_accumulated_suspended_ms s0 = 0"
    "s_suspended_at_ms s0 = None" "s_resolution s0 = None" "s_ttl_expiry s0 = vs_ttl_expiry v"
    using assms by (rule accept_facts)
  have "in_i64 (vs_ttl_expiry v)" using validate_start_facts(5) [OF a(1)] by simp
  then have "session_inv s0"
    using a(3-8) effective_cap_pos [of s0] by (simp add: session_inv_def i64_max_def)
  then have "session_inv (consume_id (e_message_id env) s0)"
    unfolding consume_id_def by (rule dedup_inv)
  then show ?thesis unfolding a(2) by (rule respond_inv) (simp add: a(3))
qed

section \<open>What every kernel call keeps\<close>

context mode_contract
begin

lemma op_minv: "kernel_op M s s' \<Longrightarrow> minv s \<Longrightarrow> minv s'"
  by (induction rule: kernel_op.induct) (auto intro: step_minv advance_minv lifecycle_minv)

lemma ops_minv: "(kernel_op M)\<^sup>*\<^sup>* s s' \<Longrightarrow> minv s \<Longrightarrow> minv s'"
  by (induction rule: rtranclp_induct) (auto intro: op_minv)

lemma driven_minv: "driven M s \<Longrightarrow> minv s"
  using ops_minv accepted_minv by (auto simp: driven_def elim!: accepted.cases)

lemma op_reaches: "kernel_op M s s' \<Longrightarrow> minv s \<Longrightarrow> session_step\<^sup>*\<^sup>* s s'"
  by (induction rule: kernel_op.induct)
    (auto intro: step_reaches advance_reaches session_step.intros)

lemma ops_reach: "(kernel_op M)\<^sup>*\<^sup>* s s' \<Longrightarrow> minv s \<Longrightarrow> session_step\<^sup>*\<^sup>* s s'"
proof (induction rule: rtranclp_induct)
  case (step y z)
  then show ?case using op_reaches ops_minv by (meson rtranclp_trans)
qed simp

lemma driven_inv: "driven M s \<Longrightarrow> session_inv s"
  using ops_reach accepted_minv accepted_inv session_steps_inv
  by (fastforce simp: driven_def elim!: accepted.cases)

text \<open>A consumed message id is never dispatched again.\<close>

lemma op_seen: "kernel_op M s s' \<Longrightarrow> minv s \<Longrightarrow> s_seen_message_ids s \<subseteq> s_seen_message_ids s'"
proof -
  assume "kernel_op M s s'" "minv s"
  then have "session_step\<^sup>*\<^sup>* s s'" by (rule op_reaches)
  then show ?thesis
  proof (induction rule: rtranclp_induct)
    case (step y z)
    from step(2) have "s_seen_message_ids y \<subseteq> s_seen_message_ids z"
      by (cases rule: session_step.cases)
        (auto simp: suspend_def resume_def Let_def cancel_def expire_def record_participant_activity_def)
    then show ?case using step(3) by simp
  qed simp
qed

lemma ops_seen:
  "(kernel_op M)\<^sup>*\<^sup>* s s' \<Longrightarrow> minv s \<Longrightarrow> s_seen_message_ids s \<subseteq> s_seen_message_ids s'"
proof (induction rule: rtranclp_induct)
  case (step y z)
  then show ?case using op_seen ops_minv by blast
qed simp

lemma accepted_seen:
  assumes "step s env M now = (Inr (Accepted st syns), s')"
  shows "e_message_id env \<in> s_seen_message_ids s'" "check_envelope_shape env = Inr ()"
proof -
  obtain s1 r where "check_preconditions s env now = Inr PcProceed"
    "s' = snd (commit s1 env r now)" using assms by (rule step_accepted)
  then show "e_message_id env \<in> s_seen_message_ids s'" "check_envelope_shape env = Inr ()"
    by (simp_all add: commit_def Let_def preconditions_proceed)
qed

lemma resend_duplicate:
  assumes "driven M s" "step s env M now = (Inr (Accepted st syns), s')" "(kernel_op M)\<^sup>*\<^sup>* s' t"
    and "e_message_id env' = e_message_id env" "check_envelope_shape env' = Inr ()"
  shows "step t env' M later = (Inr Duplicate, t)"
proof -
  have "minv s'" using driven_minv [OF assms(1)] step_minv [of s env now] assms(2) by simp
  then have "e_message_id env \<in> s_seen_message_ids t"
    using ops_seen [OF assms(3)] accepted_seen(1) [OF assms(2)] by blast
  then have "check_preconditions t env' later = Inr PcDuplicate"
    using assms(4,5) by (simp add: preconditions_duplicate)
  then show ?thesis by (simp add: step_def)
qed

end

end
