(* ===== verification/State_Codec.thy ===== *)
theory State_Codec
  imports Mode_Trait "HOL-Library.Countable"
begin

text \<open>
  A concrete codec and concrete rule parsers. The modes take the JSON codec of their state and the
  rule parsers as parameters; here are functions that satisfy the laws the modes rely on, so that
  the laws are known to be satisfiable and the theorems can be applied at concrete inputs.
\<close>

definition unary_encode :: "'a::countable \<Rightarrow> bytes" where
  "unary_encode a = replicate (Suc (to_nat a)) CHR ''1''"

definition unary_decode :: "bytes \<Rightarrow> 'a::countable option" where
  "unary_decode b = (if b = [] then None else Some (from_nat (length b - 1)))"

lemma unary_roundtrip [simp]: "unary_decode (unary_encode a) = Some a" "unary_encode a \<noteq> []"
  by (simp_all add: unary_encode_def unary_decode_def)

text \<open>A codec that refuses to read some of the states it writes.\<close>

definition lossy_decode :: "('a::countable \<Rightarrow> bool) \<Rightarrow> bytes \<Rightarrow> 'a option" where
  "lossy_decode readable b =
     Option.bind (unary_decode b) (\<lambda>a. if readable a then Some a else None)"

lemma lossy_roundtrip [simp]:
  "lossy_decode readable (unary_encode a) = (if readable a then Some a else None)"
  by (simp add: lossy_decode_def)

instance f64 :: countable
  by countable_datatype

text \<open>A rules document that is a bare number is read as the handoff timeout or the quorum count;
  everything else fails to parse, so the modes fall back to their defaults.\<close>

definition no_rules :: rule_parsers where
  "no_rules = \<lparr>parse_commitment_rules = (\<lambda>_. None), parse_decision_rules = (\<lambda>_. None),
     parse_proposal_rules = (\<lambda>_. None), parse_task_rules = (\<lambda>_. None),
     parse_handoff_rules =
       (\<lambda>j. case j of
          JNumber (PosInt n) \<Rightarrow>
            Some \<lparr>hpr_acceptance = \<lparr>har_implicit_accept_timeout_ms = n\<rparr>,
                  hpr_commitment = default_CommitmentRules\<rparr>
        | _ \<Rightarrow> None),
     parse_quorum_rules =
       (\<lambda>j. case j of
          JNumber (PosInt n) \<Rightarrow>
            Some (default_QuorumPolicyRules
              \<lparr>qpr_threshold := \<lparr>qt_threshold_type = ''n_of_m'', qt_value = Finite (of_nat n)\<rparr>\<rparr>)
        | _ \<Rightarrow> None)\<rparr>"

end
