(* ===== verification/Decision_Mode.thy ===== *)
theory Decision_Mode
  imports Replay State_Codec
begin

text \<open>
  Decision mode (\<^verbatim>\<open>macp-modes/src/mode/decision.rs\<close>): proposals, evaluations, objections and
  votes over phases, and a terminal Commitment. The state types are those of
  \<^verbatim>\<open>macp-core/src/decision.rs\<close>. The Unicode case mappings \<^verbatim>\<open>str::to_uppercase\<close> and
  \<^verbatim>\<open>str::to_lowercase\<close>, read only for sessions of revision 3 and below, are parameters.
\<close>

section \<open>Payloads and wire enums\<close>

definition STRICT_WIRE_ENUMS_REV :: u32 where "STRICT_WIRE_ENUMS_REV = 4"

record ProposalPayload =
  dpp_proposal_id :: string
  dpp_option :: string
  dpp_rationale :: string

record EvaluationPayload =
  dep_proposal_id :: string
  dep_recommendation :: string
  dep_confidence :: f64
  dep_reason :: string

record ObjectionPayload =
  dop_proposal_id :: string
  dop_reason :: string
  dop_severity :: string

record VotePayload =
  dvp_proposal_id :: string
  dvp_vote :: string
  dvp_reason :: string

record decision_ext = mode_ext +
  dx_decode_proposal :: "bytes \<Rightarrow> ProposalPayload option"
  dx_decode_evaluation :: "bytes \<Rightarrow> EvaluationPayload option"
  dx_decode_objection :: "bytes \<Rightarrow> ObjectionPayload option"
  dx_decode_vote :: "bytes \<Rightarrow> VotePayload option"
  dx_to_uppercase :: "string \<Rightarrow> string"
  dx_to_lowercase :: "string \<Rightarrow> string"
  dx_encode_state :: "DecisionState \<Rightarrow> bytes"
  dx_decode_state :: "bytes \<Rightarrow> DecisionState option"

datatype Case = Upper | Lower

definition wire_enum ::
    "decision_ext \<Rightarrow> Session \<Rightarrow> string \<Rightarrow> Case \<Rightarrow> string option \<Rightarrow> string result" where
  "wire_enum x s raw cs legacy_default =
     (if s_semantics_rev s \<ge> STRICT_WIRE_ENUMS_REV then
        (if raw = [] then Err InvalidPayload else Ok raw)
      else if raw = [] \<and> legacy_default \<noteq> None then Ok (the legacy_default)
      else Ok (case cs of Upper \<Rightarrow> dx_to_uppercase x raw | Lower \<Rightarrow> dx_to_lowercase x raw))"

section \<open>Phase guards\<close>

definition default_state :: DecisionState where
  "default_state =
     \<lparr>ds_proposals = bt_empty, ds_evaluations = [], ds_objections = [], ds_votes = bt_empty,
      ds_phase = DecisionPhase.Proposal\<rparr>"

definition ensure_not_committed :: "DecisionState \<Rightarrow> unit result" where
  "ensure_not_committed st =
     (if ds_phase st = DecisionPhase.Committed then Err SessionNotOpen else Ok ())"

definition ensure_known_proposal :: "DecisionState \<Rightarrow> string \<Rightarrow> unit result" where
  "ensure_known_proposal st proposal_id =
     (if \<not> bt_contains (ds_proposals st) proposal_id then Err InvalidPayload else Ok ())"

definition ensure_can_propose :: "DecisionState \<Rightarrow> unit result" where
  "ensure_can_propose st =
     and_then (ensure_not_committed st) (\<lambda>_.
     if ds_phase st = Voting then Err InvalidPayload else Ok ())"

definition ensure_can_deliberate :: "DecisionState \<Rightarrow> unit result" where
  "ensure_can_deliberate st =
     and_then (ensure_not_committed st) (\<lambda>_.
     if ds_phase st \<noteq> DecisionPhase.Evaluation then Err InvalidPayload else Ok ())"

definition ensure_can_vote :: "DecisionState \<Rightarrow> unit result" where
  "ensure_can_vote st =
     and_then (ensure_not_committed st) (\<lambda>_.
     if ds_phase st = DecisionPhase.Proposal \<or> ds_phase st = DecisionPhase.Committed
     then Err InvalidPayload else Ok ())"

definition commitment_ready :: "DecisionState \<Rightarrow> bool" where
  "commitment_ready st = (ds_proposals st \<noteq> [])"

section \<open>The mode\<close>

definition decision_authorize_sender :: "decision_ext \<Rightarrow> Session \<Rightarrow> Envelope \<Rightarrow> unit result" where
  "decision_authorize_sender x s env =
     (if e_message_type env = ''Commitment'' then check_commitment_authority x s (e_sender env)
      else if e_message_type env \<in> {''Proposal'', ''Evaluation'', ''Objection'', ''Vote''}
         \<and> is_declared_participant (s_participants s) (e_sender env)
      then Ok ()
      else Err Forbidden)"

definition decision_on_session_start ::
    "decision_ext \<Rightarrow> Session \<Rightarrow> Envelope \<Rightarrow> ModeResponse result" where
  "decision_on_session_start x s env = Ok (PersistState (dx_encode_state x default_state))"

definition handle_proposal ::
    "decision_ext \<Rightarrow> Session \<Rightarrow> Envelope \<Rightarrow> DecisionState \<Rightarrow> DecisionState result" where
  "handle_proposal x s env st =
     and_then (ensure_can_propose st) (\<lambda>_.
     and_then (ok_or (dx_decode_proposal x (e_payload env)) InvalidPayload) (\<lambda>payload.
     if blank (dpp_proposal_id payload) \<or> blank (dpp_option payload)
        \<or> bt_contains (ds_proposals st) (dpp_proposal_id payload)
     then Err InvalidPayload
     else Ok (st\<lparr>ds_proposals := bt_insert (dpp_proposal_id payload)
           \<lparr>pr_proposal_id = dpp_proposal_id payload, pr_option = dpp_option payload,
            pr_rationale = dpp_rationale payload, pr_sender = e_sender env\<rparr> (ds_proposals st),
         ds_phase := DecisionPhase.Evaluation\<rparr>)))"

definition handle_evaluation ::
    "decision_ext \<Rightarrow> Session \<Rightarrow> Envelope \<Rightarrow> DecisionState \<Rightarrow> DecisionState result" where
  "handle_evaluation x s env st =
     and_then (ok_or (dx_decode_evaluation x (e_payload env)) InvalidPayload) (\<lambda>payload.
     and_then (wire_enum x s (dep_recommendation payload) Upper None) (\<lambda>recommendation.
     if recommendation \<notin> {''APPROVE'', ''REVIEW'', ''BLOCK'', ''REJECT''} then Err InvalidPayload
     else if f64_lt (dep_confidence payload) (Finite 0) \<or> f64_gt (dep_confidence payload) (Finite 1)
     then Err InvalidPayload
     else
     and_then (ensure_can_deliberate st) (\<lambda>_.
     and_then (ensure_known_proposal st (dep_proposal_id payload)) (\<lambda>_.
     Ok (st\<lparr>ds_evaluations := ds_evaluations st @
       [\<lparr>ev_proposal_id = dep_proposal_id payload, ev_recommendation = recommendation,
         ev_confidence = dep_confidence payload, ev_reason = dep_reason payload,
         ev_sender = e_sender env\<rparr>]\<rparr>)))))"

definition handle_objection ::
    "decision_ext \<Rightarrow> Session \<Rightarrow> Envelope \<Rightarrow> DecisionState \<Rightarrow> DecisionState result" where
  "handle_objection x s env st =
     and_then (ok_or (dx_decode_objection x (e_payload env)) InvalidPayload) (\<lambda>payload.
     and_then (wire_enum x s (dop_severity payload) Lower (Some ''medium'')) (\<lambda>severity.
     if severity \<notin> {''critical'', ''high'', ''medium'', ''low''} then Err InvalidPayload
     else
     and_then (ensure_can_deliberate st) (\<lambda>_.
     and_then (ensure_known_proposal st (dop_proposal_id payload)) (\<lambda>_.
     Ok (st\<lparr>ds_objections := ds_objections st @
       [\<lparr>ob_proposal_id = dop_proposal_id payload, ob_reason = dop_reason payload,
         ob_severity = severity, ob_sender = e_sender env\<rparr>]\<rparr>)))))"

definition handle_vote ::
    "decision_ext \<Rightarrow> Session \<Rightarrow> Envelope \<Rightarrow> DecisionState \<Rightarrow> DecisionState result" where
  "handle_vote x s env st =
     and_then (ok_or (dx_decode_vote x (e_payload env)) InvalidPayload) (\<lambda>payload.
     and_then (wire_enum x s (dvp_vote payload) Upper None) (\<lambda>normalized_vote.
     if normalized_vote \<notin> {''APPROVE'', ''REJECT'', ''ABSTAIN''} then Err InvalidPayload
     else
     and_then (ensure_can_vote st) (\<lambda>_.
     and_then (ensure_known_proposal st (dvp_proposal_id payload)) (\<lambda>_.
     let proposal_votes = unwrap_or bt_empty (bt_get (ds_votes st) (dvp_proposal_id payload)) in
     if bt_contains proposal_votes (e_sender env) then Err InvalidPayload
     else Ok (st\<lparr>ds_votes := bt_insert (dvp_proposal_id payload)
           (bt_insert (e_sender env)
             \<lparr>vo_proposal_id = dvp_proposal_id payload, vo_vote = normalized_vote,
              vo_reason = dvp_reason payload, vo_sender = e_sender env\<rparr> proposal_votes)
           (ds_votes st),
         ds_phase := Voting\<rparr>)))))"

definition handle_commitment ::
    "decision_ext \<Rightarrow> Session \<Rightarrow> Envelope \<Rightarrow> DecisionState \<Rightarrow> ModeResponse result" where
  "handle_commitment x s env st =
     and_then (validate_commitment_payload_for_session x s (e_payload env)) (\<lambda>commitment.
     if \<not> commitment_ready st then Err InvalidPayload
     else and_then (enforce_commitment_policy x s (CM_Decision st) (cp_outcome_positive commitment))
       (\<lambda>_. Ok (PersistAndResolve
          (dx_encode_state x (st\<lparr>ds_phase := DecisionPhase.Committed\<rparr>)) (e_payload env))))"

definition persist :: "decision_ext \<Rightarrow> DecisionState result \<Rightarrow> ModeResponse result" where
  "persist x r = and_then r (\<lambda>st. Ok (PersistState (dx_encode_state x st)))"

definition decision_on_message :: "decision_ext \<Rightarrow> Session \<Rightarrow> Envelope \<Rightarrow> ModeResponse result" where
  "decision_on_message x s env =
     and_then (if s_mode_state s = [] then Ok default_state
               else decode_mode_state (dx_decode_state x) (s_mode_state s)) (\<lambda>st.
     and_then (ensure_not_committed st) (\<lambda>_.
     if e_message_type env = ''Proposal'' then persist x (handle_proposal x s env st)
     else if e_message_type env = ''Evaluation'' then persist x (handle_evaluation x s env st)
     else if e_message_type env = ''Objection'' then persist x (handle_objection x s env st)
     else if e_message_type env = ''Vote'' then persist x (handle_vote x s env st)
     else if e_message_type env = ''Commitment'' then handle_commitment x s env st
     else Err InvalidPayload))"

definition DecisionMode :: "decision_ext \<Rightarrow> Mode" where
  "DecisionMode x =
     (default_mode (decision_on_session_start x) (decision_on_message x))
       \<lparr>m_authorize_sender := decision_authorize_sender x\<rparr>"

section \<open>The kernel contract\<close>

lemma decision_authorize_frame:
  assumes "bound_fields s' = bound_fields s"
  shows "decision_authorize_sender x s' env = decision_authorize_sender x s env"
  unfolding decision_authorize_sender_def authority_frame [OF assms]
  using assms by (simp add: bound_fields_def)

interpretation decision_run: mode_contract "DecisionMode x" "\<lambda>_. True" for x
  unfolding DecisionMode_def by (rule contract_default_mode) (rule decision_authorize_frame)

section \<open>Invariant\<close>

text \<open>The range check compares with \<^verbatim>\<open><\<close> and \<^verbatim>\<open>>\<close>, which are both false on NaN: what it
  lets through is the unit interval and NaN.\<close>

definition unit_interval :: "f64 \<Rightarrow> bool" where
  "unit_interval c \<longleftrightarrow> (\<exists>q. c = Finite q \<and> 0 \<le> q \<and> q \<le> 1)"

text \<open>Everything refers to a known proposal, the enumerations hold canonical values, votes are keyed
  by their sender under their proposal, and the phase matches what has been recorded.\<close>

definition good_vote :: "Session \<Rightarrow> string \<Rightarrow> string \<Rightarrow> Vote \<Rightarrow> bool" where
  "good_vote s pid a v \<longleftrightarrow> vo_sender v = a \<and> vo_proposal_id v = pid \<and>
     a \<in> set (s_participants s) \<and> vo_vote v \<in> {''APPROVE'', ''REJECT'', ''ABSTAIN''}"

definition votes_inv :: "Session \<Rightarrow> DecisionState \<Rightarrow> bool" where
  "votes_inv s st \<longleftrightarrow> bt_invar (ds_votes st) \<and>
     (\<forall>pid vs. bt_get (ds_votes st) pid = Some vs \<longrightarrow>
        bt_get (ds_proposals st) pid \<noteq> None \<and> bt_invar vs \<and>
        (\<forall>a v. bt_get vs a = Some v \<longrightarrow> good_vote s pid a v))"

definition deliberation_inv :: "Session \<Rightarrow> DecisionState \<Rightarrow> bool" where
  "deliberation_inv s st \<longleftrightarrow> bt_invar (ds_proposals st) \<and>
     (\<forall>k p. bt_get (ds_proposals st) k = Some p \<longrightarrow>
        pr_proposal_id p = k \<and> pr_sender p \<in> set (s_participants s)) \<and>
     (\<forall>e \<in> set (ds_evaluations st). bt_get (ds_proposals st) (ev_proposal_id e) \<noteq> None \<and>
        ev_recommendation e \<in> {''APPROVE'', ''REVIEW'', ''BLOCK'', ''REJECT''} \<and>
        (unit_interval (ev_confidence e) \<or> ev_confidence e = NaN) \<and> ev_sender e \<in> set (s_participants s)) \<and>
     (\<forall>b \<in> set (ds_objections st). bt_get (ds_proposals st) (ob_proposal_id b) \<noteq> None \<and>
        ob_severity b \<in> {''critical'', ''high'', ''medium'', ''low''} \<and>
        ob_sender b \<in> set (s_participants s))"

definition phase_inv :: "DecisionState \<Rightarrow> bool" where
  "phase_inv st \<longleftrightarrow>
     (ds_phase st = DecisionPhase.Proposal \<longleftrightarrow> ds_proposals st = []) \<and>
     (ds_phase st = DecisionPhase.Evaluation \<longrightarrow> ds_votes st = []) \<and>
     (ds_proposals st = [] \<longrightarrow> ds_evaluations st = [] \<and> ds_objections st = [] \<and> ds_votes st = [])"

definition decision_inv :: "Session \<Rightarrow> DecisionState \<Rightarrow> bool" where
  "decision_inv s st \<longleftrightarrow> deliberation_inv s st \<and> votes_inv s st \<and> phase_inv st"

lemma bt_insert_ne [simp]: "bt_insert k v m \<noteq> []"
  by (cases m) (auto split: if_splits)

lemma in_range_unit:
  "\<not> f64_lt c (Finite 0) \<Longrightarrow> \<not> f64_gt c (Finite 1) \<Longrightarrow> unit_interval c \<or> c = NaN"
  by (cases c) (auto simp: unit_interval_def)

lemma decision_persist_Inr: "persist x h = Inr r \<longleftrightarrow> (\<exists>st. h = Inr st \<and> r = PersistState (dx_encode_state x st))"
  by (auto simp: persist_def res_simps)

lemma handle_proposal_inv:
  assumes h: "handle_proposal x s env st = Inr st'" and inv: "decision_inv s st"
    and p: "e_sender env \<in> set (s_participants s)"
  shows "decision_inv s st'"
proof -
  have wf: "bt_invar (ds_proposals st)" using inv by (simp add: decision_inv_def deliberation_inv_def)
  have ph: "ds_phase st = DecisionPhase.Proposal \<or> ds_phase st = DecisionPhase.Evaluation"
    using h by (cases "ds_phase st")
      (auto simp: handle_proposal_def ensure_can_propose_def ensure_not_committed_def res_simps)
  obtain k q where st': "st' = st\<lparr>ds_proposals := bt_insert k q (ds_proposals st),
      ds_phase := DecisionPhase.Evaluation\<rparr>" "pr_proposal_id q = k" "pr_sender q = e_sender env"
    using h by (auto simp: handle_proposal_def res_simps)
  have keep: "bt_get (ds_proposals st') j \<noteq> None" if "bt_get (ds_proposals st) j \<noteq> None" for j
    using that wf by (simp add: st')
  have "deliberation_inv s st'"
    using inv p wf keep unfolding decision_inv_def deliberation_inv_def
    by (auto simp: st' bt_invar_insert split: if_splits)
  moreover have "votes_inv s st'"
    using inv keep unfolding decision_inv_def votes_inv_def by (auto simp: st'(1))
  moreover have "phase_inv st'"
    using inv ph unfolding decision_inv_def phase_inv_def by (auto simp: st'(1))
  ultimately show ?thesis by (simp add: decision_inv_def)
qed

lemma handle_evaluation_facts:
  assumes h: "handle_evaluation x s env st = Inr st'"
  obtains e where "st' = st\<lparr>ds_evaluations := ds_evaluations st @ [e]\<rparr>"
    "ds_phase st = DecisionPhase.Evaluation" "bt_get (ds_proposals st) (ev_proposal_id e) \<noteq> None"
    "ev_recommendation e \<in> {''APPROVE'', ''REVIEW'', ''BLOCK'', ''REJECT''}" "ev_sender e = e_sender env"
    "\<not> f64_lt (ev_confidence e) (Finite 0)" "\<not> f64_gt (ev_confidence e) (Finite 1)"
    "\<exists>p. dx_decode_evaluation x (e_payload env) = Some p \<and> ev_confidence e = dep_confidence p"
proof -
  obtain p where p: "dx_decode_evaluation x (e_payload env) = Some p"
    using h by (cases "dx_decode_evaluation x (e_payload env)") (simp_all add: handle_evaluation_def)
  obtain rec where rec: "wire_enum x s (dep_recommendation p) Upper None = Inr rec"
    using h p by (cases "wire_enum x s (dep_recommendation p) Upper None")
      (simp_all add: handle_evaluation_def)
  have g: "rec \<in> {''APPROVE'', ''REVIEW'', ''BLOCK'', ''REJECT''}"
    "\<not> f64_lt (dep_confidence p) (Finite 0)" "\<not> f64_gt (dep_confidence p) (Finite 1)"
    using h unfolding handle_evaluation_def by (simp_all add: p rec split: if_splits)
  have h': "and_then (ensure_can_deliberate st) (\<lambda>_.
     and_then (ensure_known_proposal st (dep_proposal_id p)) (\<lambda>_.
     Ok (st\<lparr>ds_evaluations := ds_evaluations st @
       [\<lparr>ev_proposal_id = dep_proposal_id p, ev_recommendation = rec,
         ev_confidence = dep_confidence p, ev_reason = dep_reason p,
         ev_sender = e_sender env\<rparr>]\<rparr>))) = Inr st'"
    using h unfolding handle_evaluation_def by (simp add: p rec split: if_splits)
  have f: "st' = st\<lparr>ds_evaluations := ds_evaluations st @
       [\<lparr>ev_proposal_id = dep_proposal_id p, ev_recommendation = rec,
         ev_confidence = dep_confidence p, ev_reason = dep_reason p, ev_sender = e_sender env\<rparr>]\<rparr>"
    "ds_phase st = DecisionPhase.Evaluation" "bt_get (ds_proposals st) (dep_proposal_id p) \<noteq> None"
    using h' by (auto simp: res_simps ensure_known_proposal_def ensure_can_deliberate_def bt_contains_def)
  show thesis
    by (rule that [OF f(1,2)], use f(3) g p in simp_all)
qed

lemma handle_evaluation_inv:
  assumes h: "handle_evaluation x s env st = Inr st'" and inv: "decision_inv s st"
    and p: "e_sender env \<in> set (s_participants s)"
  shows "decision_inv s st'"
proof -
  obtain e where st': "st' = st\<lparr>ds_evaluations := ds_evaluations st @ [e]\<rparr>"
    and ph: "ds_phase st = DecisionPhase.Evaluation" and k: "bt_get (ds_proposals st) (ev_proposal_id e) \<noteq> None"
    and r: "ev_recommendation e \<in> {''APPROVE'', ''REVIEW'', ''BLOCK'', ''REJECT''}" "ev_sender e = e_sender env"
    and c: "unit_interval (ev_confidence e) \<or> ev_confidence e = NaN"
    using handle_evaluation_facts [OF h] in_range_unit by metis
  have "ds_proposals st \<noteq> []" using k by auto
  then have "phase_inv st'" using inv ph by (simp add: decision_inv_def st' phase_inv_def)
  moreover have "votes_inv s st'" using inv by (simp add: decision_inv_def st' votes_inv_def)
  moreover have "deliberation_inv s st'"
    using inv k r c p by (simp add: decision_inv_def st' deliberation_inv_def)
  ultimately show ?thesis by (simp add: decision_inv_def)
qed

lemma handle_objection_facts:
  assumes h: "handle_objection x s env st = Inr st'"
  obtains b where "st' = st\<lparr>ds_objections := ds_objections st @ [b]\<rparr>"
    "ds_phase st = DecisionPhase.Evaluation" "bt_get (ds_proposals st) (ob_proposal_id b) \<noteq> None"
    "ob_severity b \<in> {''critical'', ''high'', ''medium'', ''low''}" "ob_sender b = e_sender env"
proof -
  obtain p where p: "dx_decode_objection x (e_payload env) = Some p"
    using h by (cases "dx_decode_objection x (e_payload env)") (simp_all add: handle_objection_def)
  obtain sev where sev: "wire_enum x s (dop_severity p) Lower (Some ''medium'') = Inr sev"
    using h p by (cases "wire_enum x s (dop_severity p) Lower (Some ''medium'')")
      (simp_all add: handle_objection_def)
  have g: "sev \<in> {''critical'', ''high'', ''medium'', ''low''}"
    using h unfolding handle_objection_def by (simp add: p sev split: if_splits)
  have h': "and_then (ensure_can_deliberate st) (\<lambda>_.
     and_then (ensure_known_proposal st (dop_proposal_id p)) (\<lambda>_.
     Ok (st\<lparr>ds_objections := ds_objections st @
       [\<lparr>ob_proposal_id = dop_proposal_id p, ob_reason = dop_reason p,
         ob_severity = sev, ob_sender = e_sender env\<rparr>]\<rparr>))) = Inr st'"
    using h unfolding handle_objection_def by (simp add: p sev split: if_splits)
  have f: "st' = st\<lparr>ds_objections := ds_objections st @
       [\<lparr>ob_proposal_id = dop_proposal_id p, ob_reason = dop_reason p,
         ob_severity = sev, ob_sender = e_sender env\<rparr>]\<rparr>"
    "ds_phase st = DecisionPhase.Evaluation" "bt_get (ds_proposals st) (dop_proposal_id p) \<noteq> None"
    using h' by (auto simp: res_simps ensure_known_proposal_def ensure_can_deliberate_def bt_contains_def)
  show thesis
    by (rule that [OF f(1,2)], use f(3) g in simp_all)
qed

lemma handle_objection_inv:
  assumes h: "handle_objection x s env st = Inr st'" and inv: "decision_inv s st"
    and p: "e_sender env \<in> set (s_participants s)"
  shows "decision_inv s st'"
proof -
  obtain b where st': "st' = st\<lparr>ds_objections := ds_objections st @ [b]\<rparr>"
    and ph: "ds_phase st = DecisionPhase.Evaluation" and k: "bt_get (ds_proposals st) (ob_proposal_id b) \<noteq> None"
    and r: "ob_severity b \<in> {''critical'', ''high'', ''medium'', ''low''}" "ob_sender b = e_sender env"
    using handle_objection_facts [OF h] by metis
  have "ds_proposals st \<noteq> []" using k by auto
  then have "phase_inv st'" using inv ph by (simp add: decision_inv_def st' phase_inv_def)
  moreover have "votes_inv s st'" using inv by (simp add: decision_inv_def st' votes_inv_def)
  moreover have "deliberation_inv s st'"
    using inv k r p by (simp add: decision_inv_def st' deliberation_inv_def)
  ultimately show ?thesis by (simp add: decision_inv_def)
qed

lemma handle_vote_facts:
  assumes "handle_vote x s env st = Inr st'"
  obtains pid v where "bt_get (ds_proposals st) pid \<noteq> None"
    "ds_phase st = DecisionPhase.Evaluation \<or> ds_phase st = Voting"
    "bt_get (unwrap_or bt_empty (bt_get (ds_votes st) pid)) (e_sender env) = None"
    "vo_sender v = e_sender env" "vo_proposal_id v = pid" "vo_vote v \<in> {''APPROVE'', ''REJECT'', ''ABSTAIN''}"
    "st' = st\<lparr>ds_votes := bt_insert pid
       (bt_insert (e_sender env) v (unwrap_or bt_empty (bt_get (ds_votes st) pid))) (ds_votes st),
       ds_phase := Voting\<rparr>"
proof -
  obtain p where p: "dx_decode_vote x (e_payload env) = Some p"
    using assms by (cases "dx_decode_vote x (e_payload env)") (simp_all add: handle_vote_def)
  obtain nv where nv: "wire_enum x s (dvp_vote p) Upper None = Inr nv"
    using assms p by (cases "wire_enum x s (dvp_vote p) Upper None") (simp_all add: handle_vote_def)
  let ?old = "unwrap_or bt_empty (bt_get (ds_votes st) (dvp_proposal_id p))"
  have g: "nv \<in> {''APPROVE'', ''REJECT'', ''ABSTAIN''}"
    using assms unfolding handle_vote_def by (simp add: p nv split: if_splits)
  have h: "and_then (ensure_can_vote st) (\<lambda>_.
     and_then (ensure_known_proposal st (dvp_proposal_id p)) (\<lambda>_.
     if bt_contains ?old (e_sender env) then Err InvalidPayload
     else Ok (st\<lparr>ds_votes := bt_insert (dvp_proposal_id p) (bt_insert (e_sender env)
             \<lparr>vo_proposal_id = dvp_proposal_id p, vo_vote = nv,
              vo_reason = dvp_reason p, vo_sender = e_sender env\<rparr> ?old) (ds_votes st),
         ds_phase := Voting\<rparr>))) = Inr st'"
    using assms unfolding handle_vote_def Let_def by (simp add: p nv split: if_splits)
  have ph: "ds_phase st = DecisionPhase.Evaluation \<or> ds_phase st = Voting"
    using h by (cases "ds_phase st") (auto simp: ensure_can_vote_def res_simps ensure_not_committed_def)
  have f: "st' = st\<lparr>ds_votes := bt_insert (dvp_proposal_id p) (bt_insert (e_sender env)
             \<lparr>vo_proposal_id = dvp_proposal_id p, vo_vote = nv,
              vo_reason = dvp_reason p, vo_sender = e_sender env\<rparr> ?old) (ds_votes st),
         ds_phase := Voting\<rparr>"
    "bt_get (ds_proposals st) (dvp_proposal_id p) \<noteq> None" "bt_get ?old (e_sender env) = None"
    using h by (auto simp: res_simps ensure_known_proposal_def bt_contains_def split: if_splits)
  show thesis
    by (rule that [OF f(2) ph f(3) _ _ _ f(1)], use g in simp_all)
qed

lemma unwrap_or_simps [simp]: "unwrap_or d None = d" "unwrap_or d (Some v) = v"
  by (simp_all add: unwrap_or_def)

lemma handle_vote_inv:
  assumes h: "handle_vote x s env st = Inr st'" and inv: "decision_inv s st"
    and p: "e_sender env \<in> set (s_participants s)"
  shows "decision_inv s st'"
proof -
  obtain pid v where v: "bt_get (ds_proposals st) pid \<noteq> None" "vo_sender v = e_sender env"
      "vo_proposal_id v = pid" "vo_vote v \<in> {''APPROVE'', ''REJECT'', ''ABSTAIN''}"
    and st': "st' = st\<lparr>ds_votes := bt_insert pid
       (bt_insert (e_sender env) v (unwrap_or bt_empty (bt_get (ds_votes st) pid))) (ds_votes st),
       ds_phase := Voting\<rparr>"
    using handle_vote_facts [OF h] by metis
  let ?old = "unwrap_or bt_empty (bt_get (ds_votes st) pid)"
  have vi: "votes_inv s st" and pi: "phase_inv st" and di: "deliberation_inv s st"
    using inv by (simp_all add: decision_inv_def)
  have wf: "bt_invar (ds_votes st)" using vi by (simp add: votes_inv_def)
  have old: "bt_invar ?old" "\<And>a w. bt_get ?old a = Some w \<Longrightarrow> good_vote s pid a w"
    using vi unfolding votes_inv_def by (cases "bt_get (ds_votes st) pid"; simp)+
  have new: "good_vote s pid (e_sender env) v" using v p by (simp add: good_vote_def)
  have "votes_inv s st'"
    unfolding votes_inv_def
  proof (intro conjI allI impI)
    show "bt_invar (ds_votes st')" using wf by (simp add: st' bt_invar_insert)
  next
    fix j vs
    assume j: "bt_get (ds_votes st') j = Some vs"
    show "bt_get (ds_proposals st') j \<noteq> None" "bt_invar vs"
      using j v(1) wf old(1) vi unfolding votes_inv_def
      by (auto simp: st' bt_invar_insert split: if_splits)
    fix a w
    assume a: "bt_get vs a = Some w"
    show "good_vote s j a w"
    proof (cases "j = pid")
      case True
      then have "vs = bt_insert (e_sender env) v ?old" using j wf by (simp add: st')
      then show ?thesis using a old new True by (simp split: if_splits)
    next
      case False
      then have "bt_get (ds_votes st) j = Some vs" using j wf by (simp add: st')
      then show ?thesis using a vi by (simp add: votes_inv_def)
    qed
  qed
  moreover have "phase_inv st'"
    using pi v(1) by (auto simp: st' phase_inv_def)
  moreover have "deliberation_inv s st'" using di by (simp add: st' deliberation_inv_def)
  ultimately show ?thesis by (simp add: decision_inv_def)
qed

lemma handle_commitment_facts:
  assumes "handle_commitment x s env st = Inr r"
  shows "r = PersistAndResolve (dx_encode_state x (st\<lparr>ds_phase := DecisionPhase.Committed\<rparr>)) (e_payload env)"
    "ds_proposals st \<noteq> []"
    "\<exists>c. validate_commitment_payload_for_session x s (e_payload env) = Inr c \<and>
       enforce_commitment_policy x s (CM_Decision st) (cp_outcome_positive c) = Inr ()"
  using assms by (auto simp: handle_commitment_def commitment_ready_def res_simps)

lemma committed_inv:
  "decision_inv s st \<Longrightarrow> ds_proposals st \<noteq> [] \<Longrightarrow> decision_inv s (st\<lparr>ds_phase := DecisionPhase.Committed\<rparr>)"
  by (simp add: decision_inv_def deliberation_inv_def votes_inv_def phase_inv_def)

lemma default_decision_inv: "decision_inv s default_state"
  by (simp add: decision_inv_def deliberation_inv_def votes_inv_def phase_inv_def default_state_def
      bt_invar_empty [unfolded bt_empty_def] bt_empty_def)

lemma decision_dispatch:
  assumes m: "decision_on_message x s env = Inr r"
    and ld: "load (dx_decode_state x) default_state s = Some st"
  obtains (handled) st' where "r = PersistState (dx_encode_state x st')"
      "e_message_type env \<in> {''Proposal'', ''Evaluation'', ''Objection'', ''Vote''}"
      "handle_proposal x s env st = Inr st' \<or> handle_evaluation x s env st = Inr st' \<or>
       handle_objection x s env st = Inr st' \<or> handle_vote x s env st = Inr st'"
    | (committed) "e_message_type env = ''Commitment''" "handle_commitment x s env st = Inr r"
  using m by (auto simp: decision_on_message_def load_result ld res_simps decision_persist_Inr split: if_splits)

lemma decision_message_inv:
  assumes m: "decision_on_message x s env = Inr r"
    and a: "decision_authorize_sender x s env = Inr ()"
    and ld: "load (dx_decode_state x) default_state s = Some st" and inv: "decision_inv s st"
  shows "\<exists>st'. response_state r = Some (dx_encode_state x st') \<and> decision_inv s st'"
  using m ld
proof (cases rule: decision_dispatch)
  case (handled st')
  have "e_sender env \<in> set (s_participants s)"
    using a handled(2) by (auto simp: decision_authorize_sender_def is_declared_participant_def
        split: if_splits)
  then have "decision_inv s st'"
    using handled(3) handle_proposal_inv handle_evaluation_inv handle_objection_inv handle_vote_inv
      inv by metis
  then show ?thesis using handled(1) by auto
next
  case committed
  then show ?thesis
    using handle_commitment_facts(1,2) [of x s env st r] committed_inv [OF inv] by auto
qed

lemma decision_inv_frame:
  assumes "bound_fields s' = bound_fields s"
  shows "decision_inv s' st = decision_inv s st"
proof -
  have f: "s_participants s' = s_participants s"
    using assms by (simp add: bound_fields_def)
  show ?thesis unfolding decision_inv_def deliberation_inv_def votes_inv_def good_vote_def f by (rule refl)
qed

text \<open>What the mode relies on: \<^verbatim>\<open>serde_json\<close> reads back a state whose numbers are finite; it
  writes any other number as null, and refuses null where an \<^verbatim>\<open>f64\<close> is expected.\<close>

definition finite_confidences :: "DecisionState \<Rightarrow> bool" where
  "finite_confidences st \<longleftrightarrow> list_all (\<lambda>e. is_finite (ev_confidence e)) (ds_evaluations st)"

definition decision_codec_law :: "decision_ext \<Rightarrow> bool" where
  "decision_codec_law x \<longleftrightarrow>
     (\<forall>st. dx_encode_state x st \<noteq> [] \<and>
        dx_decode_state x (dx_encode_state x st) = (if finite_confidences st then Some st else None))"

lemma finite_unit_interval:
  assumes "decision_inv s st" "finite_confidences st" "e \<in> set (ds_evaluations st)"
  shows "unit_interval (ev_confidence e)"
proof -
  have "unit_interval (ev_confidence e) \<or> ev_confidence e = NaN"
    using assms(1,3) unfolding decision_inv_def deliberation_inv_def by blast
  moreover have "is_finite (ev_confidence e)"
    using assms(2,3) by (simp add: finite_confidences_def list_all_iff)
  ultimately show ?thesis by auto
qed

lemma decision_unreadable:
  "load (dx_decode_state x) default_state s = None \<Longrightarrow> decision_on_message x s env = Inl InvalidModeState"
  by (simp add: decision_on_message_def load_result)

locale decision_codec =
  fixes x :: decision_ext
  assumes codec_law: "decision_codec_law x"

sublocale decision_codec \<subseteq> decision_state: lossy_mode "DecisionMode x" "dx_encode_state x"
  "dx_decode_state x" default_state finite_confidences decision_inv
proof
  fix st
  show "dx_encode_state x st \<noteq> []"
    "dx_decode_state x (dx_encode_state x st) = (if finite_confidences st then Some st else None)"
    using codec_law by (simp_all add: decision_codec_law_def)
next
  fix s env ctx
  assume "load (dx_decode_state x) default_state s = None"
  then show "m_on_message_at (DecisionMode x) s env ctx = Inl InvalidModeState"
    by (simp add: DecisionMode_def default_mode_def decision_unreadable)
next
  fix s s' st
  assume "bound_fields s' = bound_fields s" "decision_inv s st"
  then show "decision_inv s' st" using decision_inv_frame [of s' s] by simp
next
  fix s env r
  assume "m_on_session_start (DecisionMode x) s env = Inr r"
  then show "r = PersistState (dx_encode_state x default_state) \<and> decision_inv s default_state"
    by (simp add: DecisionMode_def default_mode_def decision_on_session_start_def default_decision_inv)
next
  fix s st env ctx r
  assume "load (dx_decode_state x) default_state s = Some st" "decision_inv s st"
    "m_authorize_sender (DecisionMode x) s env = Inr ()" "m_on_message_at (DecisionMode x) s env ctx = Inr r"
  then show "\<exists>st'. response_state r = Some (dx_encode_state x st') \<and> decision_inv s st'"
    using decision_message_inv [of x s env r st]
    by (simp add: DecisionMode_def default_mode_def)
next
  fix s s' env
  assume "bound_fields s' = bound_fields s"
  then show "m_authorize_sender (DecisionMode x) s' env = m_authorize_sender (DecisionMode x) s env"
    by (rule decision_run.authorize_frame)
qed (simp add: DecisionMode_def default_mode_def)

section \<open>Votes are final, phases move forward\<close>

fun phase_rank :: "DecisionPhase \<Rightarrow> nat" where
  "phase_rank DecisionPhase.Proposal = 0"
| "phase_rank DecisionPhase.Evaluation = 1"
| "phase_rank Voting = 2"
| "phase_rank DecisionPhase.Committed = 3"

definition vote_of :: "DecisionState \<Rightarrow> string \<Rightarrow> string \<Rightarrow> Vote option" where
  "vote_of st pid a = Option.bind (bt_get (ds_votes st) pid) (\<lambda>vs. bt_get vs a)"

definition grows :: "DecisionState \<Rightarrow> DecisionState \<Rightarrow> bool" where
  "grows st st' \<longleftrightarrow> phase_rank (ds_phase st) \<le> phase_rank (ds_phase st') \<and>
     (\<forall>pid a v. vote_of st pid a = Some v \<longrightarrow> vote_of st' pid a = Some v) \<and>
     (\<exists>es. ds_evaluations st' = ds_evaluations st @ es) \<and>
     (\<exists>bs. ds_objections st' = ds_objections st @ bs)"

lemma proposal_grows: "handle_proposal x s env st = Inr st' \<Longrightarrow> grows st st'"
  by (cases "ds_phase st") (auto simp: handle_proposal_def ensure_can_propose_def ensure_not_committed_def
      res_simps grows_def vote_of_def)

lemma evaluation_grows: "handle_evaluation x s env st = Inr st' \<Longrightarrow> grows st st'"
  by (erule handle_evaluation_facts) (auto simp: grows_def vote_of_def)

lemma objection_grows: "handle_objection x s env st = Inr st' \<Longrightarrow> grows st st'"
  by (erule handle_objection_facts) (auto simp: grows_def vote_of_def)

lemma vote_grows:
  assumes h: "handle_vote x s env st = Inr st'" and inv: "votes_inv s st"
  shows "grows st st'"
proof -
  obtain pid v where ph: "ds_phase st = DecisionPhase.Evaluation \<or> ds_phase st = Voting"
    and new: "bt_get (unwrap_or bt_empty (bt_get (ds_votes st) pid)) (e_sender env) = None"
    and st': "st' = st\<lparr>ds_votes := bt_insert pid
       (bt_insert (e_sender env) v (unwrap_or bt_empty (bt_get (ds_votes st) pid))) (ds_votes st),
       ds_phase := Voting\<rparr>"
    using handle_vote_facts [OF h] by metis
  have wf: "bt_invar (ds_votes st)" "bt_invar (unwrap_or bt_empty (bt_get (ds_votes st) pid))"
    using inv unfolding votes_inv_def by (cases "bt_get (ds_votes st) pid"; simp)+
  have "vote_of st' j a = Some w" if w: "vote_of st j a = Some w" for j a w
  proof -
    obtain vs where vs: "bt_get (ds_votes st) j = Some vs" "bt_get vs a = Some w"
      using w unfolding vote_of_def by (cases "bt_get (ds_votes st) j") simp_all
    show ?thesis
    proof (cases "j = pid")
      case True
      then have "unwrap_or bt_empty (bt_get (ds_votes st) pid) = vs" using vs(1) by simp
      then show ?thesis using vs(2) new wf True by (auto simp: vote_of_def st')
    next
      case False
      then show ?thesis using vs wf(1) by (simp add: vote_of_def st')
    qed
  qed
  then show ?thesis using ph unfolding grows_def by (auto simp: st')
qed

lemma message_grows:
  assumes m: "decision_on_message x s env = Inr r"
    and ld: "load (dx_decode_state x) default_state s = Some st" and inv: "decision_inv s st"
  shows "\<exists>st'. response_state r = Some (dx_encode_state x st') \<and> grows st st' \<and>
    ds_phase st \<noteq> DecisionPhase.Committed"
proof -
  have nc: "ds_phase st \<noteq> DecisionPhase.Committed"
    using m by (auto simp: decision_on_message_def load_result ld res_simps ensure_not_committed_def)
  show ?thesis
    using m ld
  proof (cases rule: decision_dispatch)
    case (handled st')
    then have "grows st st'"
      using proposal_grows evaluation_grows objection_grows vote_grows inv
      unfolding decision_inv_def by metis
    then show ?thesis using handled(1) nc by auto
  next
    case committed
    have "grows st (st\<lparr>ds_phase := DecisionPhase.Committed\<rparr>)"
      by (cases "ds_phase st") (simp_all add: grows_def vote_of_def)
    then show ?thesis using handle_commitment_facts(1) [OF committed(2)] nc by auto
  qed
qed

section \<open>A confidence that is not a number\<close>

text \<open>An evaluation with a NaN confidence is accepted like any other, and what is written then
  cannot be read again.\<close>

lemma nan_confidence_accepted:
  assumes "dx_decode_evaluation x (e_payload env) = Some p" "dep_confidence p = NaN"
    and "wire_enum x s (dep_recommendation p) Upper None = Inr rec"
    and "rec \<in> {''APPROVE'', ''REVIEW'', ''BLOCK'', ''REJECT''}"
    and "ds_phase st = DecisionPhase.Evaluation" "bt_get (ds_proposals st) (dep_proposal_id p) \<noteq> None"
  shows "handle_evaluation x s env st = Inr (st\<lparr>ds_evaluations := ds_evaluations st @
    [\<lparr>ev_proposal_id = dep_proposal_id p, ev_recommendation = rec, ev_confidence = NaN,
      ev_reason = dep_reason p, ev_sender = e_sender env\<rparr>]\<rparr>)"
  using assms
  by (auto simp: handle_evaluation_def ensure_can_deliberate_def ensure_not_committed_def
      ensure_known_proposal_def bt_contains_def)

lemma nan_confidence_poisons:
  assumes "decision_codec_law x" "s_mode_state s' = dx_encode_state x st'" "\<not> finite_confidences st'"
  shows "decision_on_message x s' env' = Inl InvalidModeState"
  using assms by (intro decision_unreadable) (simp add: load_def decision_codec_law_def)

section \<open>An instance of the codec\<close>

instance Proposal_ext :: (countable) countable
  by (rule countable_classI [of "\<lambda>r. to_nat (pr_proposal_id r, pr_option r, pr_rationale r,
        pr_sender r, Proposal.more r)"]) simp

instance Evaluation_ext :: (countable) countable
  by (rule countable_classI [of "\<lambda>r. to_nat (ev_proposal_id r, ev_recommendation r, ev_confidence r,
        ev_reason r, ev_sender r, Evaluation.more r)"]) simp

instance Objection_ext :: (countable) countable
  by (rule countable_classI [of "\<lambda>r. to_nat (ob_proposal_id r, ob_reason r, ob_severity r,
        ob_sender r, Objection.more r)"]) simp

instance Vote_ext :: (countable) countable
  by (rule countable_classI [of "\<lambda>r. to_nat (vo_proposal_id r, vo_vote r, vo_reason r,
        vo_sender r, Vote.more r)"]) simp

instance DecisionPhase :: countable
  by countable_datatype

instance DecisionState_ext :: (countable) countable
  by (rule countable_classI [of "\<lambda>r. to_nat (ds_proposals r, ds_evaluations r, ds_objections r,
        ds_votes r, ds_phase r, DecisionState.more r)"]) simp

definition example_decision :: decision_ext where
  "example_decision =
     \<lparr>x_decode_commitment = (\<lambda>_. None), x_rules = no_rules, x_evaluator = (\<lambda>_. Allow []),
      dx_decode_proposal = (\<lambda>b. Some \<lparr>dpp_proposal_id = b, dpp_option = ''yes'', dpp_rationale = []\<rparr>),
      dx_decode_evaluation = (\<lambda>b. Some \<lparr>dep_proposal_id = ''p1'', dep_recommendation = ''APPROVE'',
        dep_confidence = (if b = ''nan'' then NaN else Finite (1 / 2)), dep_reason = []\<rparr>),
      dx_decode_objection = (\<lambda>b. Some \<lparr>dop_proposal_id = b, dop_reason = [], dop_severity = ''low''\<rparr>),
      dx_decode_vote = (\<lambda>b. Some \<lparr>dvp_proposal_id = b, dvp_vote = ''APPROVE'', dvp_reason = []\<rparr>),
      dx_to_uppercase = (\<lambda>v. v), dx_to_lowercase = (\<lambda>v. v),
      dx_encode_state = unary_encode, dx_decode_state = lossy_decode finite_confidences\<rparr>"

lemma example_decision_law: "decision_codec_law example_decision"
  by (simp add: decision_codec_law_def example_decision_def)

interpretation unary_decision: decision_codec example_decision
  by unfold_locales (rule example_decision_law)

end
