(* ===== verification/Proposal_Mode.thy ===== *)
theory Proposal_Mode
  imports Replay State_Codec
begin

text \<open>
  Proposal mode (\<^verbatim>\<open>macp-modes/src/mode/proposal.rs\<close>): proposals, counterproposals, accepts,
  rejects and withdrawals, with a phase recomputed after every message, and a terminal Commitment.
\<close>

section \<open>State and payloads\<close>

datatype ProposalDisposition = Live | Withdrawn

datatype ProposalPhase = Negotiating | Converged | TerminalRejected | Committed

record ProposalRecord =
  prr_proposal_id :: string
  prr_title :: string
  prr_summary :: string
  prr_details :: bytes
  prr_tags :: "string list"
  prr_proposer :: string
  prr_supersedes_proposal_id :: "string option"
  prr_disposition :: ProposalDisposition

record TerminalRejectRecord =
  trr_proposal_id :: string
  trr_sender :: string
  trr_reason :: string

record RejectRecord =
  rjr_proposal_id :: string
  rjr_sender :: string
  rjr_reason :: string
  rjr_terminal :: bool

record ProposalState =
  ps_proposals :: "(string, ProposalRecord) btree"
  ps_accepts :: "(string, string) btree"
  ps_terminal_rejections :: "TerminalRejectRecord list"
  ps_rejections :: "RejectRecord list"
  ps_phase :: ProposalPhase

definition default_ProposalState :: ProposalState where
  "default_ProposalState =
     \<lparr>ps_proposals = bt_empty, ps_accepts = bt_empty, ps_terminal_rejections = [],
      ps_rejections = [], ps_phase = Negotiating\<rparr>"

record ProposalPayload =
  ppl_proposal_id :: string
  ppl_title :: string
  ppl_summary :: string
  ppl_details :: bytes
  ppl_tags :: "string list"

record CounterProposalPayload =
  cpl_proposal_id :: string
  cpl_supersedes_proposal_id :: string
  cpl_title :: string
  cpl_summary :: string
  cpl_details :: bytes

record AcceptPayload =
  apl_proposal_id :: string

record RejectPayload =
  rpl_proposal_id :: string
  rpl_terminal :: bool
  rpl_reason :: string

record WithdrawPayload =
  wpl_proposal_id :: string

record proposal_ext = mode_ext +
  px_decode_proposal :: "bytes \<Rightarrow> ProposalPayload option"
  px_decode_counter :: "bytes \<Rightarrow> CounterProposalPayload option"
  px_decode_accept :: "bytes \<Rightarrow> AcceptPayload option"
  px_decode_reject :: "bytes \<Rightarrow> RejectPayload option"
  px_decode_withdraw :: "bytes \<Rightarrow> WithdrawPayload option"
  px_encode_state :: "ProposalState \<Rightarrow> bytes"
  px_decode_state :: "bytes \<Rightarrow> ProposalState option"

section \<open>Phases\<close>

definition proposal_rules :: "proposal_ext \<Rightarrow> PolicyDefinition \<Rightarrow> ProposalPolicyRules" where
  "proposal_rules x policy =
     unwrap_or default_ProposalPolicyRules (parse_proposal_rules (x_rules x) (p_rules policy))"

definition live_proposal :: "ProposalState \<Rightarrow> string \<Rightarrow> ProposalRecord option" where
  "live_proposal st proposal_id =
     (case bt_get (ps_proposals st) proposal_id of
        Some record \<Rightarrow> if prr_disposition record = Live then Some record else None
      | None \<Rightarrow> None)"

definition check_acceptance_criterion ::
    "string \<Rightarrow> Session \<Rightarrow> ProposalState \<Rightarrow> string \<Rightarrow> string \<Rightarrow> bool" where
  "check_acceptance_criterion criterion s st proposal_id proposer =
     (if criterion = ''counterparty'' then
        list_all (\<lambda>p. bt_get (ps_accepts st) p = Some proposal_id)
          (filter (\<lambda>p. p \<noteq> proposer) (s_participants s))
      else if criterion = ''initiator'' then
        bt_get (ps_accepts st) (s_initiator_sender s) = Some proposal_id
      else participants_all_accept (s_participants s) (ps_accepts st) proposal_id)"

definition criterion_of :: "proposal_ext \<Rightarrow> Session \<Rightarrow> string" where
  "criterion_of x s =
     (case s_policy_definition s of
        Some p \<Rightarrow> par_criterion (ppr_acceptance (proposal_rules x p))
      | None \<Rightarrow> ''all_parties'')"

definition refresh_phase :: "proposal_ext \<Rightarrow> Session \<Rightarrow> ProposalState \<Rightarrow> ProposalState" where
  "refresh_phase x s st =
     st\<lparr>ps_phase :=
       (if ps_terminal_rejections st \<noteq> [] then TerminalRejected
        else if list_ex (\<lambda>proposal. check_acceptance_criterion (criterion_of x s) s st
                            (prr_proposal_id proposal) (prr_proposer proposal))
               (filter (\<lambda>proposal. prr_disposition proposal = Live) (bt_values (ps_proposals st)))
        then Converged
        else Negotiating)\<rparr>"

definition commitment_ready :: "ProposalState \<Rightarrow> bool" where
  "commitment_ready st = (ps_phase st = Converged \<or> ps_phase st = TerminalRejected)"

definition ensure_mutable :: "ProposalState \<Rightarrow> unit result" where
  "ensure_mutable st = (if ps_phase st = Committed then Err SessionNotOpen else Ok ())"

definition counter_count :: "ProposalState \<Rightarrow> nat" where
  "counter_count st =
     length (filter (\<lambda>p. prr_supersedes_proposal_id p \<noteq> None) (bt_values (ps_proposals st)))"

section \<open>The mode\<close>

definition proposal_authorize_sender :: "proposal_ext \<Rightarrow> Session \<Rightarrow> Envelope \<Rightarrow> unit result" where
  "proposal_authorize_sender x s env =
     (if e_message_type env = ''Commitment'' then check_commitment_authority x s (e_sender env)
      else if is_declared_participant (s_participants s) (e_sender env) then Ok ()
      else Err Forbidden)"

definition proposal_on_session_start ::
    "proposal_ext \<Rightarrow> Session \<Rightarrow> Envelope \<Rightarrow> ModeResponse result" where
  "proposal_on_session_start x s env =
     (if s_participants s = [] then Err InvalidPayload
      else Ok (PersistState (px_encode_state x default_ProposalState)))"

definition handle_proposal ::
    "proposal_ext \<Rightarrow> Session \<Rightarrow> Envelope \<Rightarrow> ProposalState \<Rightarrow> ProposalState result" where
  "handle_proposal x s env st =
     and_then (ok_or (px_decode_proposal x (e_payload env)) InvalidPayload) (\<lambda>payload.
     if blank (ppl_proposal_id payload) \<or> bt_contains (ps_proposals st) (ppl_proposal_id payload)
     then Err InvalidPayload
     else
       let record =
         \<lparr>prr_proposal_id = ppl_proposal_id payload, prr_title = ppl_title payload,
          prr_summary = ppl_summary payload, prr_details = ppl_details payload,
          prr_tags = ppl_tags payload, prr_proposer = e_sender env,
          prr_supersedes_proposal_id = None, prr_disposition = Live\<rparr>
       in Ok (refresh_phase x s
            (st\<lparr>ps_proposals := bt_insert (ppl_proposal_id payload) record (ps_proposals st)\<rparr>)))"

definition round_limit_reached :: "proposal_ext \<Rightarrow> Session \<Rightarrow> ProposalState \<Rightarrow> bool" where
  "round_limit_reached x s st =
     (case s_policy_definition s of
        None \<Rightarrow> False
      | Some policy \<Rightarrow>
          (let max_rounds = cpr_max_rounds (ppr_counter_proposal (proposal_rules x policy))
           in max_rounds > 0 \<and> counter_count st \<ge> max_rounds))"

definition handle_counter_proposal ::
    "proposal_ext \<Rightarrow> Session \<Rightarrow> Envelope \<Rightarrow> ProposalState \<Rightarrow> ProposalState result" where
  "handle_counter_proposal x s env st =
     and_then (ok_or (px_decode_counter x (e_payload env)) InvalidPayload) (\<lambda>payload.
     if blank (cpl_proposal_id payload) \<or> blank (cpl_supersedes_proposal_id payload)
        \<or> bt_contains (ps_proposals st) (cpl_proposal_id payload)
        \<or> \<not> bt_contains (ps_proposals st) (cpl_supersedes_proposal_id payload)
     then Err InvalidPayload
     else if round_limit_reached x s st then Err InvalidPayload
     else
       let record =
         \<lparr>prr_proposal_id = cpl_proposal_id payload, prr_title = cpl_title payload,
          prr_summary = cpl_summary payload, prr_details = cpl_details payload,
          prr_tags = [], prr_proposer = e_sender env,
          prr_supersedes_proposal_id = Some (cpl_supersedes_proposal_id payload),
          prr_disposition = Live\<rparr>
       in Ok (refresh_phase x s
            (st\<lparr>ps_proposals := bt_insert (cpl_proposal_id payload) record (ps_proposals st)\<rparr>)))"

definition handle_accept ::
    "proposal_ext \<Rightarrow> Session \<Rightarrow> Envelope \<Rightarrow> ProposalState \<Rightarrow> ProposalState result" where
  "handle_accept x s env st =
     and_then (ok_or (px_decode_accept x (e_payload env)) InvalidPayload) (\<lambda>payload.
     if live_proposal st (apl_proposal_id payload) = None then Err InvalidPayload
     else Ok (refresh_phase x s
       (st\<lparr>ps_accepts := bt_insert (e_sender env) (apl_proposal_id payload) (ps_accepts st)\<rparr>)))"

definition handle_reject ::
    "proposal_ext \<Rightarrow> Session \<Rightarrow> Envelope \<Rightarrow> ProposalState \<Rightarrow> ProposalState result" where
  "handle_reject x s env st =
     and_then (ok_or (px_decode_reject x (e_payload env)) InvalidPayload) (\<lambda>payload.
     if live_proposal st (rpl_proposal_id payload) = None then Err InvalidPayload
     else
       let is_term = rpl_terminal payload \<or>
             (case s_policy_definition s of
                None \<Rightarrow> False
              | Some p \<Rightarrow> rr_terminal_on_any_reject (ppr_rejection (proposal_rules x p)));
           st1 = st\<lparr>ps_rejections := ps_rejections st @
             [\<lparr>rjr_proposal_id = rpl_proposal_id payload, rjr_sender = e_sender env,
               rjr_reason = rpl_reason payload, rjr_terminal = is_term\<rparr>]\<rparr>;
           st2 = (if is_term
                  then st1\<lparr>ps_terminal_rejections := ps_terminal_rejections st1 @
                    [\<lparr>trr_proposal_id = rpl_proposal_id payload, trr_sender = e_sender env,
                      trr_reason = rpl_reason payload\<rparr>]\<rparr>
                  else st1)
       in Ok (refresh_phase x s st2))"

definition handle_withdraw ::
    "proposal_ext \<Rightarrow> Session \<Rightarrow> Envelope \<Rightarrow> ProposalState \<Rightarrow> ProposalState result" where
  "handle_withdraw x s env st =
     and_then (ok_or (px_decode_withdraw x (e_payload env)) InvalidPayload) (\<lambda>payload.
     if blank (wpl_proposal_id payload) then Err InvalidPayload
     else and_then (ok_or (bt_get (ps_proposals st) (wpl_proposal_id payload)) InvalidPayload)
       (\<lambda>record.
       if prr_proposer record \<noteq> e_sender env then Err Forbidden
       else if prr_disposition record = Withdrawn then Err InvalidPayload
       else Ok (refresh_phase x s
         (st\<lparr>ps_proposals := bt_insert (wpl_proposal_id payload)
                 (record\<lparr>prr_disposition := Withdrawn\<rparr>) (ps_proposals st),
             ps_accepts := bt_retain (\<lambda>_ pid. pid \<noteq> wpl_proposal_id payload) (ps_accepts st),
             ps_terminal_rejections :=
               filter (\<lambda>r. trr_proposal_id r \<noteq> wpl_proposal_id payload)
                 (ps_terminal_rejections st)\<rparr>))))"

definition handle_commitment ::
    "proposal_ext \<Rightarrow> Session \<Rightarrow> Envelope \<Rightarrow> ProposalState \<Rightarrow> ModeResponse result" where
  "handle_commitment x s env st0 =
     and_then (validate_commitment_payload_for_session x s (e_payload env)) (\<lambda>commitment.
     let st = refresh_phase x s st0 in
     if \<not> commitment_ready st then Err InvalidPayload
     else and_then (enforce_commitment_policy x s (CM_Proposal (counter_count st))
                      (cp_outcome_positive commitment)) (\<lambda>_.
       Ok (PersistAndResolve (px_encode_state x (st\<lparr>ps_phase := Committed\<rparr>)) (e_payload env))))"

definition persist :: "proposal_ext \<Rightarrow> ProposalState result \<Rightarrow> ModeResponse result" where
  "persist x r = and_then r (\<lambda>st. Ok (PersistState (px_encode_state x st)))"

definition proposal_on_message :: "proposal_ext \<Rightarrow> Session \<Rightarrow> Envelope \<Rightarrow> ModeResponse result" where
  "proposal_on_message x s env =
     and_then (if s_mode_state s = [] then Ok default_ProposalState
               else decode_mode_state (px_decode_state x) (s_mode_state s)) (\<lambda>st.
     and_then (ensure_mutable st) (\<lambda>_.
     if e_message_type env = ''Proposal'' then persist x (handle_proposal x s env st)
     else if e_message_type env = ''CounterProposal'' then
       persist x (handle_counter_proposal x s env st)
     else if e_message_type env = ''Accept'' then persist x (handle_accept x s env st)
     else if e_message_type env = ''Reject'' then persist x (handle_reject x s env st)
     else if e_message_type env = ''Withdraw'' then persist x (handle_withdraw x s env st)
     else if e_message_type env = ''Commitment'' then handle_commitment x s env st
     else Err InvalidPayload))"

definition ProposalMode :: "proposal_ext \<Rightarrow> Mode" where
  "ProposalMode x =
     (default_mode (proposal_on_session_start x) (proposal_on_message x))
       \<lparr>m_authorize_sender := proposal_authorize_sender x\<rparr>"

section \<open>The kernel contract\<close>

lemma proposal_authorize_frame:
  assumes "bound_fields s' = bound_fields s"
  shows "proposal_authorize_sender x s' env = proposal_authorize_sender x s env"
  unfolding proposal_authorize_sender_def authority_frame [OF assms]
  using assms by (simp add: bound_fields_def)

interpretation proposal_run: mode_contract "ProposalMode x" "\<lambda>_. True" for x
  unfolding ProposalMode_def by (rule contract_default_mode) (rule proposal_authorize_frame)

section \<open>Invariant\<close>

text \<open>
  Every accept and every standing terminal rejection names a live proposal, proposals are keyed by
  their id and come from participants, the counterproposal cap holds, and the phase is the one
  \<open>refresh_phase\<close> computes until the session commits.
\<close>

definition core_inv :: "proposal_ext \<Rightarrow> Session \<Rightarrow> ProposalState \<Rightarrow> bool" where
  "core_inv x s st \<longleftrightarrow>
     bt_invar (ps_proposals st) \<and> bt_invar (ps_accepts st) \<and>
     (\<forall>k p. bt_get (ps_proposals st) k = Some p \<longrightarrow>
        prr_proposal_id p = k \<and> prr_proposer p \<in> set (s_participants s)) \<and>
     (\<forall>a pid. bt_get (ps_accepts st) a = Some pid \<longrightarrow>
        a \<in> set (s_participants s) \<and> live_proposal st pid \<noteq> None) \<and>
     (\<forall>r \<in> set (ps_terminal_rejections st). live_proposal st (trr_proposal_id r) \<noteq> None) \<and>
     (\<forall>p. s_policy_definition s = Some p \<longrightarrow>
        0 < cpr_max_rounds (ppr_counter_proposal (proposal_rules x p)) \<longrightarrow>
        counter_count st \<le> cpr_max_rounds (ppr_counter_proposal (proposal_rules x p)))"

definition proposal_inv :: "proposal_ext \<Rightarrow> Session \<Rightarrow> ProposalState \<Rightarrow> bool" where
  "proposal_inv x s st \<longleftrightarrow> core_inv x s st \<and> (ps_phase st = Committed \<or> refresh_phase x s st = st)"

lemma refresh_simps [simp]:
  "ps_proposals (refresh_phase x s st) = ps_proposals st"
  "ps_accepts (refresh_phase x s st) = ps_accepts st"
  "ps_terminal_rejections (refresh_phase x s st) = ps_terminal_rejections st"
  by (simp_all add: refresh_phase_def)

lemma core_phase: "core_inv x s (st\<lparr>ps_phase := ph\<rparr>) = core_inv x s st"
  by (simp add: core_inv_def live_proposal_def counter_count_def)

lemma core_refresh: "core_inv x s (refresh_phase x s st) = core_inv x s st"
  unfolding refresh_phase_def by (rule core_phase)

lemma refresh_idem [simp]: "refresh_phase x s (refresh_phase x s st) = refresh_phase x s st"
  by (simp add: refresh_phase_def check_acceptance_criterion_def)

lemma refresh_inv: "core_inv x s st \<Longrightarrow> proposal_inv x s (refresh_phase x s st)"
  by (simp add: proposal_inv_def core_refresh)

lemma default_inv: "proposal_inv x s default_ProposalState"
  by (simp add: proposal_inv_def core_inv_def default_ProposalState_def refresh_phase_def
      counter_count_def bt_values_def bt_empty_def bt_invar_def)

lemma count_counter_fresh:
  assumes "bt_invar (ps_proposals st)" "bt_get (ps_proposals st) k = None"
  shows "counter_count (st\<lparr>ps_proposals := bt_insert k r (ps_proposals st)\<rparr>)
    = (if prr_supersedes_proposal_id r = None then 0 else 1) + counter_count st"
  using bt.count_ins_fresh [OF assms, of "\<lambda>e. prr_supersedes_proposal_id (snd e) \<noteq> None" r]
  by (simp add: counter_count_def bt_values_def filter_map comp_def)

lemma add_proposal_core:
  assumes inv: "core_inv x s st" and fresh: "bt_get (ps_proposals st) k = None"
    and r: "prr_proposal_id r = k" "prr_proposer r \<in> set (s_participants s)"
      "prr_disposition r = Live"
    and cap: "prr_supersedes_proposal_id r = None \<or> \<not> round_limit_reached x s st"
  shows "core_inv x s (st\<lparr>ps_proposals := bt_insert k r (ps_proposals st)\<rparr>)"
proof -
  let ?st = "st\<lparr>ps_proposals := bt_insert k r (ps_proposals st)\<rparr>"
  have wf: "bt_invar (ps_proposals st)" using inv by (simp add: core_inv_def)
  have live: "live_proposal ?st pid \<noteq> None" if "live_proposal st pid \<noteq> None" for pid
    using that wf r(3) by (auto simp: live_proposal_def split: option.splits if_splits)
  have "counter_count ?st \<le> cpr_max_rounds (ppr_counter_proposal (proposal_rules x p))"
    if "s_policy_definition s = Some p"
      "0 < cpr_max_rounds (ppr_counter_proposal (proposal_rules x p))" for p
    using that inv cap count_counter_fresh [OF wf fresh, of r]
    by (auto simp: core_inv_def round_limit_reached_def Let_def)
  then show ?thesis
    using inv live r wf by (auto simp: core_inv_def bt_invar_insert split: if_splits)
qed

lemma withdraw_core:
  assumes inv: "core_inv x s st" and rc: "bt_get (ps_proposals st) k = Some rc"
  shows "core_inv x s (st\<lparr>ps_proposals := bt_insert k (rc\<lparr>prr_disposition := Withdrawn\<rparr>) (ps_proposals st),
    ps_accepts := bt_retain (\<lambda>_ pid. pid \<noteq> k) (ps_accepts st),
    ps_terminal_rejections := filter (\<lambda>r. trr_proposal_id r \<noteq> k) (ps_terminal_rejections st)\<rparr>)"
    (is "core_inv x s ?st")
proof -
  have wf: "bt_invar (ps_proposals st)" "bt_invar (ps_accepts st)"
    using inv by (simp_all add: core_inv_def)
  have live: "live_proposal ?st pid \<noteq> None" if "live_proposal st pid \<noteq> None" "pid \<noteq> k" for pid
    using that wf by (auto simp: live_proposal_def split: option.splits if_splits)
  have acc: "bt_get (ps_accepts st) a = Some pid \<and> pid \<noteq> k"
    if "bt_get (bt_retain (\<lambda>_ pid. pid \<noteq> k) (ps_accepts st)) a = Some pid" for a pid
    using that wf(2) by (auto simp: bt.get_iff bt_invar_retain) (auto simp: bt_retain_def)
  have cnt: "counter_count ?st = counter_count st"
  proof -
    have "mset (bt_insert k (rc\<lparr>prr_disposition := Withdrawn\<rparr>) (ps_proposals st))
        = add_mset (k, rc\<lparr>prr_disposition := Withdrawn\<rparr>) (mset (ps_proposals st) - {#(k, rc)#})"
      by (rule bt.entries_ins_bound [OF wf(1) rc])
    moreover have "(k, rc) \<in> set (ps_proposals st)" using rc wf(1) by (simp add: bt.get_iff)
    ultimately have "size (filter_mset (\<lambda>e. prr_supersedes_proposal_id (snd e) \<noteq> None)
        (mset (bt_insert k (rc\<lparr>prr_disposition := Withdrawn\<rparr>) (ps_proposals st))))
      = size (filter_mset (\<lambda>e. prr_supersedes_proposal_id (snd e) \<noteq> None) (mset (ps_proposals st)))"
      by (auto dest!: multi_member_split simp flip: set_mset_mset)
    then show ?thesis
      by (simp add: counter_count_def bt_values_def filter_map comp_def flip: mset_filter)
  qed
  have acc': "a \<in> set (s_participants s) \<and> live_proposal ?st pid \<noteq> None"
    if "bt_get (bt_retain (\<lambda>_ pid. pid \<noteq> k) (ps_accepts st)) a = Some pid" for a pid
    using acc [OF that] live [of pid] inv unfolding core_inv_def by blast
  have trj: "live_proposal ?st (trr_proposal_id r) \<noteq> None"
    if "r \<in> set (filter (\<lambda>r. trr_proposal_id r \<noteq> k) (ps_terminal_rejections st))" for r
    using that live [of "trr_proposal_id r"] inv by (simp add: core_inv_def)
  have keys: "prr_proposal_id p = j \<and> prr_proposer p \<in> set (s_participants s)"
    if "bt_get (bt_insert k (rc\<lparr>prr_disposition := Withdrawn\<rparr>) (ps_proposals st)) j = Some p" for j p
    using that inv wf rc by (auto simp: core_inv_def split: if_splits)
  have cap: "counter_count ?st \<le> cpr_max_rounds (ppr_counter_proposal (proposal_rules x p))"
    if "s_policy_definition s = Some p"
      "0 < cpr_max_rounds (ppr_counter_proposal (proposal_rules x p))" for p
    using inv that unfolding cnt core_inv_def by blast
  show ?thesis
    unfolding core_inv_def
  proof (intro conjI)
    show "bt_invar (ps_proposals ?st)" "bt_invar (ps_accepts ?st)"
      using wf by (simp_all add: bt_invar_insert bt_invar_retain)
  qed (use keys acc' trj cap in simp_all)
qed

lemma accept_core:
  assumes "core_inv x s st" "live_proposal st pid \<noteq> None" "a \<in> set (s_participants s)"
  shows "core_inv x s (st\<lparr>ps_accepts := bt_insert a pid (ps_accepts st)\<rparr>)"
  using assms
  by (auto simp: core_inv_def live_proposal_def counter_count_def bt_invar_insert split: if_splits)

lemma reject_core:
  assumes "core_inv x s st" "live_proposal st (trr_proposal_id t) \<noteq> None"
  shows "core_inv x s (st\<lparr>ps_rejections := rs, ps_terminal_rejections := ps_terminal_rejections st @ [t]\<rparr>)"
    and "core_inv x s (st\<lparr>ps_rejections := rs\<rparr>)"
  using assms by (auto simp: core_inv_def live_proposal_def counter_count_def)

lemma proposal_persist_Inr: "persist x h = Inr r \<longleftrightarrow> (\<exists>st. h = Inr st \<and> r = PersistState (px_encode_state x st))"
  by (auto simp: persist_def res_simps)

lemma handlers_inv:
  assumes inv: "core_inv x s st" and p: "e_sender env \<in> set (s_participants s)"
  shows "handle_proposal x s env st = Inr st' \<Longrightarrow> proposal_inv x s st'"
    and "handle_counter_proposal x s env st = Inr st' \<Longrightarrow> proposal_inv x s st'"
    and "handle_accept x s env st = Inr st' \<Longrightarrow> proposal_inv x s st'"
    and "handle_reject x s env st = Inr st' \<Longrightarrow> proposal_inv x s st'"
    and "handle_withdraw x s env st = Inr st' \<Longrightarrow> proposal_inv x s st'"
proof -
  show "proposal_inv x s st'" if "handle_proposal x s env st = Inr st'"
    using that p
    by (auto simp: handle_proposal_def res_simps Let_def bt_contains_def
        intro!: refresh_inv add_proposal_core [OF inv])
  show "proposal_inv x s st'" if "handle_counter_proposal x s env st = Inr st'"
    using that p
    by (auto simp: handle_counter_proposal_def res_simps Let_def bt_contains_def
        intro!: refresh_inv add_proposal_core [OF inv])
  show "proposal_inv x s st'" if "handle_accept x s env st = Inr st'"
    using that p
    by (auto simp: handle_accept_def res_simps Let_def intro!: refresh_inv accept_core [OF inv])
  show "proposal_inv x s st'" if h: "handle_reject x s env st = Inr st'"
  proof -
    obtain q where q: "px_decode_reject x (e_payload env) = Some q" "live_proposal st (rpl_proposal_id q) \<noteq> None"
      using h by (auto simp: handle_reject_def res_simps Let_def)
    let ?t = "\<lparr>trr_proposal_id = rpl_proposal_id q, trr_sender = e_sender env, trr_reason = rpl_reason q\<rparr>"
    obtain rs where "st' = refresh_phase x s (st\<lparr>ps_rejections := rs\<rparr>) \<or>
      st' = refresh_phase x s (st\<lparr>ps_rejections := rs,
        ps_terminal_rejections := ps_terminal_rejections st @ [?t]\<rparr>)"
      using h q by (auto simp: handle_reject_def res_simps Let_def split: if_splits)
    then show ?thesis using reject_core [OF inv, of ?t rs] q(2) refresh_inv by auto
  qed
  show "proposal_inv x s st'" if "handle_withdraw x s env st = Inr st'"
    using that
    by (auto simp: handle_withdraw_def res_simps Let_def intro!: refresh_inv withdraw_core [OF inv])
qed

lemma proposal_message_inv:
  assumes m: "proposal_on_message x s env = Inr r"
    and ld: "load (px_decode_state x) default_ProposalState s = Some st"
    and inv: "proposal_inv x s st" and au: "proposal_authorize_sender x s env = Inr ()"
  shows "\<exists>st'. response_state r = Some (px_encode_state x st') \<and> proposal_inv x s st'"
proof -
  have core: "core_inv x s st" using inv by (simp add: proposal_inv_def)
  consider (h) st' where "e_sender env \<in> set (s_participants s)" "r = PersistState (px_encode_state x st')"
      "handle_proposal x s env st = Inr st' \<or> handle_counter_proposal x s env st = Inr st' \<or>
       handle_accept x s env st = Inr st' \<or> handle_reject x s env st = Inr st' \<or>
       handle_withdraw x s env st = Inr st'"
    | (c) "handle_commitment x s env st = Inr r"
    using m au
    by (auto simp: proposal_on_message_def load_result ld proposal_authorize_sender_def res_simps
        proposal_persist_Inr split: if_splits)
  then show ?thesis
  proof cases
    case h
    then show ?thesis using handlers_inv [OF core h(1), of st'] by auto
  next
    case c
    then have "response_state r = Some (px_encode_state x ((refresh_phase x s st)\<lparr>ps_phase := Committed\<rparr>))"
      by (auto simp: handle_commitment_def Let_def res_simps)
    moreover have "proposal_inv x s ((refresh_phase x s st)\<lparr>ps_phase := Committed\<rparr>)"
      using core by (simp add: proposal_inv_def core_phase core_refresh)
    ultimately show ?thesis by blast
  qed
qed

lemma proposal_inv_frame:
  assumes "bound_fields s' = bound_fields s"
  shows "proposal_inv x s' st = proposal_inv x s st"
proof -
  have f: "s_participants s' = s_participants s" "s_initiator_sender s' = s_initiator_sender s"
    "s_policy_definition s' = s_policy_definition s"
    using assms by (simp_all add: bound_fields_def)
  have "criterion_of x s' = criterion_of x s" unfolding criterion_of_def f by (rule refl)
  moreover have "check_acceptance_criterion c s' = check_acceptance_criterion c s" for c
    unfolding check_acceptance_criterion_def f by (rule refl)
  ultimately have "refresh_phase x s' st = refresh_phase x s st" by (simp add: refresh_phase_def)
  then show ?thesis unfolding proposal_inv_def core_inv_def f by simp
qed

definition proposal_codec_law :: "proposal_ext \<Rightarrow> bool" where
  "proposal_codec_law x \<longleftrightarrow>
     (\<forall>st. bt_invar (ps_proposals st) \<longrightarrow> bt_invar (ps_accepts st) \<longrightarrow>
        px_decode_state x (px_encode_state x st) = Some st \<and> px_encode_state x st \<noteq> [])"

locale proposal_codec =
  fixes x :: proposal_ext
  assumes codec_law: "proposal_codec_law x"

sublocale proposal_codec \<subseteq> proposal_state: stateful_mode "ProposalMode x" "px_encode_state x"
  "px_decode_state x" default_ProposalState "proposal_inv x"
proof
  fix s st
  assume "proposal_inv x s st"
  then show "px_decode_state x (px_encode_state x st) = Some st \<and> px_encode_state x st \<noteq> []"
    using codec_law by (simp add: proposal_inv_def core_inv_def proposal_codec_law_def)
next
  fix s s' st
  assume "bound_fields s' = bound_fields s" "proposal_inv x s st"
  then show "proposal_inv x s' st" using proposal_inv_frame [of s' s] by simp
next
  fix s env r
  assume "m_on_session_start (ProposalMode x) s env = Inr r"
  then show "r = PersistState (px_encode_state x default_ProposalState) \<and> proposal_inv x s default_ProposalState"
    by (simp add: ProposalMode_def default_mode_def proposal_on_session_start_def res_simps default_inv)
next
  fix s st env ctx r
  assume "load (px_decode_state x) default_ProposalState s = Some st" "proposal_inv x s st"
    "m_authorize_sender (ProposalMode x) s env = Inr ()" "m_on_message_at (ProposalMode x) s env ctx = Inr r"
  then show "\<exists>st'. response_state r = Some (px_encode_state x st') \<and> proposal_inv x s st'"
    using proposal_message_inv [of x s env r st] by (simp add: ProposalMode_def default_mode_def)
next
  fix s s' env
  assume "bound_fields s' = bound_fields s"
  then show "m_authorize_sender (ProposalMode x) s' env = m_authorize_sender (ProposalMode x) s env"
    by (rule proposal_run.authorize_frame)
qed (simp add: ProposalMode_def default_mode_def)

section \<open>Convergence\<close>

lemma converged_iff:
  assumes "proposal_inv x s st" "ps_phase st \<noteq> Committed"
  shows "ps_phase st = Converged \<longleftrightarrow> ps_terminal_rejections st = [] \<and>
    (\<exists>pid p. live_proposal st pid = Some p \<and>
       check_acceptance_criterion (criterion_of x s) s st pid (prr_proposer p))"
proof -
  have wf: "bt_invar (ps_proposals st)" and keys: "\<And>k p. bt_get (ps_proposals st) k = Some p \<Longrightarrow> prr_proposal_id p = k"
    using assms(1) by (simp_all add: proposal_inv_def core_inv_def)
  have live: "live_proposal st pid = Some p \<longleftrightarrow> bt_get (ps_proposals st) pid = Some p \<and> prr_disposition p = Live"
    for pid p by (auto simp: live_proposal_def split: option.splits)
  have "ps_phase st = ps_phase (refresh_phase x s st)" using assms by (simp add: proposal_inv_def)
  also have "\<dots> = Converged \<longleftrightarrow> ps_terminal_rejections st = [] \<and>
      (\<exists>p \<in> set (bt_values (ps_proposals st)). prr_disposition p = Live \<and>
         check_acceptance_criterion (criterion_of x s) s st (prr_proposal_id p) (prr_proposer p))"
    by (auto simp: refresh_phase_def list_ex_iff)
  also have "\<dots> \<longleftrightarrow> ps_terminal_rejections st = [] \<and>
    (\<exists>pid p. live_proposal st pid = Some p \<and>
       check_acceptance_criterion (criterion_of x s) s st pid (prr_proposer p))"
    unfolding live Bex_def bt_values_iff [OF wf] using keys by metis
  finally show ?thesis .
qed

lemma all_parties_unique:
  assumes "participants_all_accept ps acc pid" "participants_all_accept ps acc pid'"
  shows "pid = pid'"
  using assms by (cases ps) (auto simp: participants_all_accept_def)

section \<open>An instance of the codec\<close>

instance ProposalDisposition :: countable
  by countable_datatype

instance ProposalPhase :: countable
  by countable_datatype

instance ProposalRecord_ext :: (countable) countable
  by (rule countable_classI [of "\<lambda>r. to_nat (prr_proposal_id r, prr_title r, prr_summary r,
        prr_details r, prr_tags r, prr_proposer r, prr_supersedes_proposal_id r, prr_disposition r,
        ProposalRecord.more r)"]) simp

instance TerminalRejectRecord_ext :: (countable) countable
  by (rule countable_classI [of "\<lambda>r. to_nat (trr_proposal_id r, trr_sender r, trr_reason r,
        TerminalRejectRecord.more r)"]) simp

instance RejectRecord_ext :: (countable) countable
  by (rule countable_classI [of "\<lambda>r. to_nat (rjr_proposal_id r, rjr_sender r, rjr_reason r,
        rjr_terminal r, RejectRecord.more r)"]) simp

instance ProposalState_ext :: (countable) countable
  by (rule countable_classI [of "\<lambda>r. to_nat (ps_proposals r, ps_accepts r, ps_terminal_rejections r,
        ps_rejections r, ps_phase r, ProposalState.more r)"]) simp

definition example_proposal :: proposal_ext where
  "example_proposal =
     \<lparr>x_decode_commitment = (\<lambda>_. None), x_rules = no_rules, x_evaluator = (\<lambda>_. Allow []),
      px_decode_proposal = (\<lambda>b. Some \<lparr>ppl_proposal_id = b, ppl_title = [], ppl_summary = [],
        ppl_details = [], ppl_tags = []\<rparr>),
      px_decode_counter = (\<lambda>_. None),
      px_decode_accept = (\<lambda>b. Some \<lparr>apl_proposal_id = b\<rparr>),
      px_decode_reject = (\<lambda>b. Some \<lparr>rpl_proposal_id = b, rpl_terminal = True, rpl_reason = []\<rparr>),
      px_decode_withdraw = (\<lambda>b. Some \<lparr>wpl_proposal_id = b\<rparr>),
      px_encode_state = unary_encode, px_decode_state = unary_decode\<rparr>"

lemma example_proposal_law: "proposal_codec_law example_proposal"
  by (simp add: proposal_codec_law_def example_proposal_def)

interpretation unary_proposal: proposal_codec example_proposal
  by unfold_locales (rule example_proposal_law)

end
