(* ===== verification/Task_Mode.thy ===== *)
theory Task_Mode
  imports Replay State_Codec
begin

text \<open>
  Task mode (\<^verbatim>\<open>macp-modes/src/mode/task.rs\<close>): one delegated task, its acceptance, rejection and
  reassignment, progress updates, one terminal report, and a terminal Commitment.
\<close>

section \<open>State and payloads\<close>

record TaskRecord =
  tk_task_id :: string
  tk_title :: string
  tk_instructions :: string
  tk_requested_assignee :: string
  tk_input :: bytes
  tk_deadline_unix_ms :: i64
  tk_requester :: string

record TaskRejectRecord =
  tr_task_id :: string
  tr_assignee :: string
  tr_reason :: string
  tr_while_assigned :: bool

record TaskUpdateRecord =
  tu_task_id :: string
  tu_status :: string
  tu_progress :: f64
  tu_message :: string
  tu_partial_output :: bytes
  tu_sender :: string

record TaskCompleteRecord =
  tc_task_id :: string
  tc_assignee :: string
  tc_output :: bytes
  tc_summary :: string

record TaskFailRecord =
  tf_task_id :: string
  tf_assignee :: string
  tf_error_code :: string
  tf_reason :: string
  tf_retryable :: bool

datatype TaskTerminalReport = Complete TaskCompleteRecord | Fail TaskFailRecord

record TaskState =
  ts_task :: "TaskRecord option"
  ts_active_assignee :: "string option"
  ts_rejections :: "TaskRejectRecord list"
  ts_updates :: "TaskUpdateRecord list"
  ts_terminal_report :: "TaskTerminalReport option"

definition default_TaskState :: TaskState where
  "default_TaskState =
     \<lparr>ts_task = None, ts_active_assignee = None, ts_rejections = [], ts_updates = [],
      ts_terminal_report = None\<rparr>"

definition PERSONAL_DECLINE_REV :: u32 where "PERSONAL_DECLINE_REV = 4"

record TaskRequestPayload =
  trq_task_id :: string
  trq_title :: string
  trq_instructions :: string
  trq_requested_assignee :: string
  trq_input :: bytes
  trq_deadline_unix_ms :: i64

record TaskAcceptPayload =
  tap_task_id :: string
  tap_assignee :: string

record TaskRejectPayload =
  trp_task_id :: string
  trp_assignee :: string
  trp_reason :: string

record TaskUpdatePayload =
  tup_task_id :: string
  tup_status :: string
  tup_progress :: f64
  tup_message :: string
  tup_partial_output :: bytes

record TaskCompletePayload =
  tcp_task_id :: string
  tcp_assignee :: string
  tcp_output :: bytes
  tcp_summary :: string

record TaskFailPayload =
  tfp_task_id :: string
  tfp_assignee :: string
  tfp_error_code :: string
  tfp_reason :: string
  tfp_retryable :: bool

record task_ext = mode_ext +
  tx_decode_request :: "bytes \<Rightarrow> TaskRequestPayload option"
  tx_decode_accept :: "bytes \<Rightarrow> TaskAcceptPayload option"
  tx_decode_reject :: "bytes \<Rightarrow> TaskRejectPayload option"
  tx_decode_update :: "bytes \<Rightarrow> TaskUpdatePayload option"
  tx_decode_complete :: "bytes \<Rightarrow> TaskCompletePayload option"
  tx_decode_fail :: "bytes \<Rightarrow> TaskFailPayload option"
  tx_encode_state :: "TaskState \<Rightarrow> bytes"
  tx_decode_state :: "bytes \<Rightarrow> TaskState option"

section \<open>The mode\<close>

definition ensure_task_matches :: "string \<Rightarrow> string \<Rightarrow> unit result" where
  "ensure_task_matches expected_task_id actual_task_id =
     (if expected_task_id = [] \<or> expected_task_id \<noteq> actual_task_id then Err InvalidPayload
      else Ok ())"

definition can_assignee_respond :: "Session \<Rightarrow> TaskRecord \<Rightarrow> string \<Rightarrow> bool" where
  "can_assignee_respond s task sender =
     (if tk_requested_assignee task \<noteq> [] then sender = tk_requested_assignee task
      else is_declared_participant (s_participants s) sender \<and> sender \<noteq> s_initiator_sender s)"

definition reassignment_allowed :: "task_ext \<Rightarrow> Session \<Rightarrow> bool" where
  "reassignment_allowed x s =
     (case s_policy_definition s of
        None \<Rightarrow> False
      | Some p \<Rightarrow> tar_allow_reassignment_on_reject (tpr_assignment
            (unwrap_or default_TaskPolicyRules (parse_task_rules (x_rules x) (p_rules p)))))"

definition task_authorize_sender :: "task_ext \<Rightarrow> Session \<Rightarrow> Envelope \<Rightarrow> unit result" where
  "task_authorize_sender x s env =
     (if e_message_type env = ''TaskRequest'' then
        (if e_sender env = s_initiator_sender s then Ok () else Err Forbidden)
      else if e_message_type env = ''Commitment'' then
        check_commitment_authority x s (e_sender env)
      else if is_declared_participant (s_participants s) (e_sender env) then Ok ()
      else Err Forbidden)"

definition task_on_session_start :: "task_ext \<Rightarrow> Session \<Rightarrow> Envelope \<Rightarrow> ModeResponse result" where
  "task_on_session_start x s env =
     (if \<not> list_ex (\<lambda>p. p \<noteq> s_initiator_sender s) (s_participants s) then Err InvalidPayload
      else Ok (PersistState (tx_encode_state x default_TaskState)))"

definition handle_request :: "task_ext \<Rightarrow> Session \<Rightarrow> Envelope \<Rightarrow> TaskState \<Rightarrow> TaskState result" where
  "handle_request x s env st =
     (if e_sender env \<noteq> s_initiator_sender s then Err Forbidden
      else and_then (ok_or (tx_decode_request x (e_payload env)) InvalidPayload) (\<lambda>payload.
        if ts_task st \<noteq> None \<or> trq_task_id payload = [] then Err InvalidPayload
        else if trq_requested_assignee payload \<noteq> []
           \<and> \<not> is_declared_participant (s_participants s) (trq_requested_assignee payload)
        then Err InvalidPayload
        else Ok (st\<lparr>ts_task := Some
          \<lparr>tk_task_id = trq_task_id payload, tk_title = trq_title payload,
           tk_instructions = trq_instructions payload,
           tk_requested_assignee = trq_requested_assignee payload, tk_input = trq_input payload,
           tk_deadline_unix_ms = trq_deadline_unix_ms payload,
           tk_requester = e_sender env\<rparr>\<rparr>)))"

definition handle_accept :: "task_ext \<Rightarrow> Session \<Rightarrow> Envelope \<Rightarrow> TaskState \<Rightarrow> TaskState result" where
  "handle_accept x s env st =
     and_then (ok_or (tx_decode_accept x (e_payload env)) InvalidPayload) (\<lambda>payload.
     and_then (ok_or (ts_task st) InvalidPayload) (\<lambda>task.
     and_then (ensure_task_matches (tap_task_id payload) (tk_task_id task)) (\<lambda>_.
     if ts_active_assignee st \<noteq> None then Err InvalidPayload
     else
       let rule_2a = s_semantics_rev s \<ge> PERSONAL_DECLINE_REV in
       if rule_2a \<and> list_ex (\<lambda>r. tr_assignee r = e_sender env) (ts_rejections st)
       then Err InvalidPayload
       else
         let reassigning =
               (if rule_2a then list_ex tr_while_assigned (ts_rejections st)
                else ts_rejections st \<noteq> [])
         in if reassigning \<and> \<not> reassignment_allowed x s then Err InvalidPayload
            else if tap_assignee payload \<noteq> [] \<and> tap_assignee payload \<noteq> e_sender env
            then Err InvalidPayload
            else if \<not> can_assignee_respond s task (e_sender env) then Err Forbidden
            else Ok (st\<lparr>ts_active_assignee := Some (e_sender env)\<rparr>))))"

definition handle_reject :: "task_ext \<Rightarrow> Session \<Rightarrow> Envelope \<Rightarrow> TaskState \<Rightarrow> TaskState result" where
  "handle_reject x s env st =
     and_then (ok_or (tx_decode_reject x (e_payload env)) InvalidPayload) (\<lambda>payload.
     and_then (ok_or (ts_task st) InvalidPayload) (\<lambda>task.
     and_then (ensure_task_matches (trp_task_id payload) (tk_task_id task)) (\<lambda>_.
     and_then (case ts_active_assignee st of
         None \<Rightarrow> Ok ()
       | Some active \<Rightarrow>
           if active = e_sender env then
             (if \<not> reassignment_allowed x s then Err InvalidPayload else Ok ())
           else Err InvalidPayload) (\<lambda>_.
     if trp_assignee payload \<noteq> [] \<and> trp_assignee payload \<noteq> e_sender env
     then Err InvalidPayload
     else if ts_active_assignee st = None \<and> \<not> can_assignee_respond s task (e_sender env)
     then Err Forbidden
     else if list_ex (\<lambda>r. tr_assignee r = e_sender env) (ts_rejections st)
     then Err InvalidPayload
     else
       let while_assigned = (ts_active_assignee st = Some (e_sender env));
           st1 = (if while_assigned then st\<lparr>ts_active_assignee := None\<rparr> else st)
       in Ok (st1\<lparr>ts_rejections := ts_rejections st1 @
            [\<lparr>tr_task_id = trp_task_id payload, tr_assignee = e_sender env,
              tr_reason = trp_reason payload, tr_while_assigned = while_assigned\<rparr>]\<rparr>)))))"

definition handle_update :: "task_ext \<Rightarrow> Session \<Rightarrow> Envelope \<Rightarrow> TaskState \<Rightarrow> TaskState result" where
  "handle_update x s env st =
     and_then (ok_or (tx_decode_update x (e_payload env)) InvalidPayload) (\<lambda>payload.
     and_then (ok_or (ts_task st) InvalidPayload) (\<lambda>task.
     and_then (ensure_task_matches (tup_task_id payload) (tk_task_id task)) (\<lambda>_.
     if ts_terminal_report st \<noteq> None \<or> ts_active_assignee st \<noteq> Some (e_sender env)
     then Err Forbidden
     else Ok (st\<lparr>ts_updates := ts_updates st @
       [\<lparr>tu_task_id = tup_task_id payload, tu_status = tup_status payload,
         tu_progress = tup_progress payload, tu_message = tup_message payload,
         tu_partial_output = tup_partial_output payload, tu_sender = e_sender env\<rparr>]\<rparr>))))"

definition handle_complete :: "task_ext \<Rightarrow> Session \<Rightarrow> Envelope \<Rightarrow> TaskState \<Rightarrow> TaskState result" where
  "handle_complete x s env st =
     and_then (ok_or (tx_decode_complete x (e_payload env)) InvalidPayload) (\<lambda>payload.
     and_then (ok_or (ts_task st) InvalidPayload) (\<lambda>task.
     and_then (ensure_task_matches (tcp_task_id payload) (tk_task_id task)) (\<lambda>_.
     if ts_terminal_report st \<noteq> None \<or> ts_active_assignee st \<noteq> Some (e_sender env)
     then Err Forbidden
     else if tcp_assignee payload \<noteq> [] \<and> tcp_assignee payload \<noteq> e_sender env
     then Err InvalidPayload
     else Ok (st\<lparr>ts_terminal_report := Some (Complete
       \<lparr>tc_task_id = tcp_task_id payload, tc_assignee = e_sender env,
        tc_output = tcp_output payload, tc_summary = tcp_summary payload\<rparr>)\<rparr>))))"

definition handle_fail :: "task_ext \<Rightarrow> Session \<Rightarrow> Envelope \<Rightarrow> TaskState \<Rightarrow> TaskState result" where
  "handle_fail x s env st =
     and_then (ok_or (tx_decode_fail x (e_payload env)) InvalidPayload) (\<lambda>payload.
     and_then (ok_or (ts_task st) InvalidPayload) (\<lambda>task.
     and_then (ensure_task_matches (tfp_task_id payload) (tk_task_id task)) (\<lambda>_.
     if ts_terminal_report st \<noteq> None \<or> ts_active_assignee st \<noteq> Some (e_sender env)
     then Err Forbidden
     else if tfp_assignee payload \<noteq> [] \<and> tfp_assignee payload \<noteq> e_sender env
     then Err InvalidPayload
     else Ok (st\<lparr>ts_terminal_report := Some (Fail
       \<lparr>tf_task_id = tfp_task_id payload, tf_assignee = e_sender env,
        tf_error_code = tfp_error_code payload, tf_reason = tfp_reason payload,
        tf_retryable = tfp_retryable payload\<rparr>)\<rparr>))))"

definition no_eligible_assignee :: "Session \<Rightarrow> TaskState \<Rightarrow> bool" where
  "no_eligible_assignee s st =
     (s_semantics_rev s \<ge> PERSONAL_DECLINE_REV \<and> ts_active_assignee st = None
      \<and> (case ts_task st of
           None \<Rightarrow> False
         | Some t \<Rightarrow> tk_requested_assignee t \<noteq> [] \<and>
             list_ex (\<lambda>r. tr_assignee r = tk_requested_assignee t \<and> \<not> tr_while_assigned r)
               (ts_rejections st)))"

definition has_output :: "TaskState \<Rightarrow> bool" where
  "has_output st =
     (case ts_terminal_report st of
        Some (Complete record) \<Rightarrow> tc_output record \<noteq> []
      | _ \<Rightarrow> False)"

definition handle_commitment ::
    "task_ext \<Rightarrow> Session \<Rightarrow> Envelope \<Rightarrow> TaskState \<Rightarrow> ModeResponse result" where
  "handle_commitment x s env st =
     and_then (validate_commitment_payload_for_session x s (e_payload env)) (\<lambda>commitment.
     let declinable = no_eligible_assignee s st \<and> \<not> cp_outcome_positive commitment in
     if ts_terminal_report st = None \<and> \<not> declinable then Err InvalidPayload
     else and_then (enforce_commitment_policy x s (CM_Task (has_output st))
                      (cp_outcome_positive commitment)) (\<lambda>_.
       Ok (PersistAndResolve (tx_encode_state x st) (e_payload env))))"

definition persist :: "task_ext \<Rightarrow> TaskState result \<Rightarrow> ModeResponse result" where
  "persist x r = and_then r (\<lambda>st. Ok (PersistState (tx_encode_state x st)))"

definition task_on_message :: "task_ext \<Rightarrow> Session \<Rightarrow> Envelope \<Rightarrow> ModeResponse result" where
  "task_on_message x s env =
     and_then (if s_mode_state s = [] then Ok default_TaskState
               else decode_mode_state (tx_decode_state x) (s_mode_state s)) (\<lambda>st.
     if e_message_type env = ''TaskRequest'' then persist x (handle_request x s env st)
     else if e_message_type env = ''TaskAccept'' then persist x (handle_accept x s env st)
     else if e_message_type env = ''TaskReject'' then persist x (handle_reject x s env st)
     else if e_message_type env = ''TaskUpdate'' then persist x (handle_update x s env st)
     else if e_message_type env = ''TaskComplete'' then persist x (handle_complete x s env st)
     else if e_message_type env = ''TaskFail'' then persist x (handle_fail x s env st)
     else if e_message_type env = ''Commitment'' then handle_commitment x s env st
     else Err InvalidPayload)"

definition TaskMode :: "task_ext \<Rightarrow> Mode" where
  "TaskMode x =
     (default_mode (task_on_session_start x) (task_on_message x))
       \<lparr>m_authorize_sender := task_authorize_sender x\<rparr>"

section \<open>The kernel contract\<close>

lemma task_authorize_frame:
  assumes "bound_fields s' = bound_fields s"
  shows "task_authorize_sender x s' env = task_authorize_sender x s env"
  unfolding task_authorize_sender_def authority_frame [OF assms]
  using assms by (simp add: bound_fields_def)

interpretation task_run: mode_contract "TaskMode x" "\<lambda>_. True" for x
  unfolding TaskMode_def by (rule contract_default_mode) (rule task_authorize_frame)

section \<open>Invariant\<close>

text \<open>
  There is nothing before the request; the active assignee and the author of the terminal report
  were eligible; nobody rejects twice; and from revision 4 on the active assignee has not declined.
\<close>

definition report_author :: "TaskTerminalReport \<Rightarrow> string" where
  "report_author r = (case r of Complete c \<Rightarrow> tc_assignee c | Fail f \<Rightarrow> tf_assignee f)"

definition task_inv :: "Session \<Rightarrow> TaskState \<Rightarrow> bool" where
  "task_inv s st \<longleftrightarrow>
     distinct (map tr_assignee (ts_rejections st)) \<and>
     (case ts_task st of
        None \<Rightarrow> st = default_TaskState
      | Some t \<Rightarrow> tk_task_id t \<noteq> [] \<and> tk_requester t = s_initiator_sender s \<and>
          (\<forall>a. ts_active_assignee st = Some a \<longrightarrow> can_assignee_respond s t a \<and>
             (s_semantics_rev s \<ge> PERSONAL_DECLINE_REV \<longrightarrow> a \<notin> tr_assignee ` set (ts_rejections st))) \<and>
          (\<forall>r. ts_terminal_report st = Some r \<longrightarrow> can_assignee_respond s t (report_author r)) \<and>
          (\<forall>r \<in> set (ts_rejections st). can_assignee_respond s t (tr_assignee r)))"

lemma default_task_inv: "task_inv s default_TaskState"
  by (simp add: task_inv_def default_TaskState_def)

lemma task_persist_Inr: "persist x h = Inr r \<longleftrightarrow> (\<exists>st. h = Inr st \<and> r = PersistState (tx_encode_state x st))"
  by (auto simp: persist_def res_simps)

lemma task_request_inv:
  "handle_request x s env st = Inr st' \<Longrightarrow> task_inv s st \<Longrightarrow> task_inv s st'"
  by (auto simp: handle_request_def res_simps task_inv_def default_TaskState_def split: option.splits)

lemma handle_accept_inv:
  "handle_accept x s env st = Inr st' \<Longrightarrow> task_inv s st \<Longrightarrow> task_inv s st'"
  by (auto simp: handle_accept_def res_simps Let_def task_inv_def list_ex_iff split: option.splits)

lemma handle_reject_inv:
  assumes h: "handle_reject x s env st = Inr st'" and inv: "task_inv s st"
  shows "task_inv s st'"
proof -
  obtain p t where pt: "tx_decode_reject x (e_payload env) = Some p" "ts_task st = Some t"
    using h by (auto simp: handle_reject_def res_simps)
  have fresh: "e_sender env \<notin> tr_assignee ` set (ts_rejections st)"
    and resp: "ts_active_assignee st = None \<Longrightarrow> can_assignee_respond s t (e_sender env)"
    and act: "\<And>a. ts_active_assignee st = Some a \<Longrightarrow> a = e_sender env"
    using h pt by (auto simp: handle_reject_def res_simps Let_def list_ex_iff split: option.splits if_splits)
  have st': "st' = st\<lparr>ts_active_assignee := None, ts_rejections := ts_rejections st @
      [\<lparr>tr_task_id = trp_task_id p, tr_assignee = e_sender env, tr_reason = trp_reason p,
        tr_while_assigned = (ts_active_assignee st = Some (e_sender env))\<rparr>]\<rparr>"
    using h pt act by (cases "ts_active_assignee st") (auto simp: handle_reject_def res_simps Let_def)
  have "can_assignee_respond s t (e_sender env)"
    using resp act inv pt(2) by (cases "ts_active_assignee st") (auto simp: task_inv_def)
  then show ?thesis using inv fresh pt(2) unfolding st' by (auto simp: task_inv_def)
qed

lemma handle_update_inv:
  assumes "handle_update x s env st = Inr st'" "task_inv s st"
  shows "task_inv s st'"
  using assms by (auto simp: handle_update_def res_simps task_inv_def split: option.splits)

lemma handle_report_inv:
  assumes "handle_complete x s env st = Inr st' \<or> handle_fail x s env st = Inr st'" "task_inv s st"
  shows "task_inv s st'"
  using assms
  by (auto simp: handle_complete_def handle_fail_def res_simps task_inv_def report_author_def
      split: option.splits)

lemma task_message_inv:
  assumes m: "task_on_message x s env = Inr r"
    and ld: "load (tx_decode_state x) default_TaskState s = Some st" and inv: "task_inv s st"
  shows "\<exists>st'. response_state r = Some (tx_encode_state x st') \<and> task_inv s st'"
proof -
  consider (h) st' where "r = PersistState (tx_encode_state x st')"
      "handle_request x s env st = Inr st' \<or> handle_accept x s env st = Inr st' \<or>
       handle_reject x s env st = Inr st' \<or> handle_update x s env st = Inr st' \<or>
       handle_complete x s env st = Inr st' \<or> handle_fail x s env st = Inr st'"
    | (c) "handle_commitment x s env st = Inr r"
    using m by (auto simp: task_on_message_def load_result ld res_simps task_persist_Inr split: if_splits)
  then show ?thesis
  proof cases
    case h
    then have "task_inv s st'"
      using task_request_inv handle_accept_inv handle_reject_inv handle_update_inv
        handle_report_inv inv by metis
    then show ?thesis using h(1) by auto
  next
    case c
    then have "response_state r = Some (tx_encode_state x st)"
      by (auto simp: handle_commitment_def Let_def res_simps)
    then show ?thesis using inv by blast
  qed
qed

lemma task_inv_frame:
  assumes "bound_fields s' = bound_fields s"
  shows "task_inv s' st = task_inv s st"
proof -
  have f: "s_participants s' = s_participants s" "s_initiator_sender s' = s_initiator_sender s"
    "s_semantics_rev s' = s_semantics_rev s"
    using assms by (simp_all add: bound_fields_def)
  show ?thesis unfolding task_inv_def can_assignee_respond_def f by (rule refl)
qed

text \<open>What the mode relies on: \<^verbatim>\<open>serde_json\<close> reads back a state whose numbers are finite; it
  writes any other number as null, and refuses null where an \<^verbatim>\<open>f64\<close> is expected.\<close>

definition finite_updates :: "TaskState \<Rightarrow> bool" where
  "finite_updates st \<longleftrightarrow> list_all (\<lambda>u. is_finite (tu_progress u)) (ts_updates st)"

definition task_codec_law :: "task_ext \<Rightarrow> bool" where
  "task_codec_law x \<longleftrightarrow>
     (\<forall>st. tx_encode_state x st \<noteq> [] \<and>
        tx_decode_state x (tx_encode_state x st) = (if finite_updates st then Some st else None))"

lemma task_unreadable:
  "load (tx_decode_state x) default_TaskState s = None \<Longrightarrow> task_on_message x s env = Inl InvalidModeState"
  by (simp add: task_on_message_def load_result)

locale task_codec =
  fixes x :: task_ext
  assumes codec_law: "task_codec_law x"

sublocale task_codec \<subseteq> task_state: lossy_mode "TaskMode x" "tx_encode_state x"
  "tx_decode_state x" default_TaskState finite_updates task_inv
proof
  fix st
  show "tx_encode_state x st \<noteq> []"
    "tx_decode_state x (tx_encode_state x st) = (if finite_updates st then Some st else None)"
    using codec_law by (simp_all add: task_codec_law_def)
next
  fix s env ctx
  assume "load (tx_decode_state x) default_TaskState s = None"
  then show "m_on_message_at (TaskMode x) s env ctx = Inl InvalidModeState"
    by (simp add: TaskMode_def default_mode_def task_unreadable)
next
  fix s s' st
  assume "bound_fields s' = bound_fields s" "task_inv s st"
  then show "task_inv s' st" using task_inv_frame [of s' s] by simp
next
  fix s env r
  assume "m_on_session_start (TaskMode x) s env = Inr r"
  then show "r = PersistState (tx_encode_state x default_TaskState) \<and> task_inv s default_TaskState"
    by (simp add: TaskMode_def default_mode_def task_on_session_start_def res_simps default_task_inv)
next
  fix s st env ctx r
  assume "load (tx_decode_state x) default_TaskState s = Some st" "task_inv s st"
    "m_authorize_sender (TaskMode x) s env = Inr ()" "m_on_message_at (TaskMode x) s env ctx = Inr r"
  then show "\<exists>st'. response_state r = Some (tx_encode_state x st') \<and> task_inv s st'"
    using task_message_inv [of x s env r st]
    by (simp add: TaskMode_def default_mode_def)
next
  fix s s' env
  assume "bound_fields s' = bound_fields s"
  then show "m_authorize_sender (TaskMode x) s' env = m_authorize_sender (TaskMode x) s env"
    by (rule task_run.authorize_frame)
qed (simp add: TaskMode_def default_mode_def)

section \<open>Who answers, and how a session can end\<close>

text \<open>The single assignee: an accept only succeeds while nobody is assigned.\<close>

lemma task_accept_facts:
  assumes "handle_accept x s env st = Inr st'"
  shows "ts_active_assignee st = None" "st' = st\<lparr>ts_active_assignee := Some (e_sender env)\<rparr>"
    "\<exists>t. ts_task st = Some t \<and> can_assignee_respond s t (e_sender env)"
    "s_semantics_rev s \<ge> PERSONAL_DECLINE_REV \<Longrightarrow> e_sender env \<notin> tr_assignee ` set (ts_rejections st)"
  using assms by (auto simp: handle_accept_def res_simps Let_def list_ex_iff)

lemma commitment_facts:
  assumes "handle_commitment x s env st = Inr r"
  shows "ts_terminal_report st \<noteq> None \<or> no_eligible_assignee s st"
    "r = PersistAndResolve (tx_encode_state x st) (e_payload env)"
  using assms by (auto simp: handle_commitment_def Let_def res_simps)

text \<open>A named assignee that rejects while assigned leaves a session no message can move: nobody
  else is eligible, the assignee may not accept again, and without a report or a pre-assignment
  decline no Commitment is eligible.\<close>

lemma named_assignee_stuck:
  assumes rev: "s_semantics_rev s \<ge> PERSONAL_DECLINE_REV"
    and ld: "load (tx_decode_state x) default_TaskState s = Some st"
    and inv: "distinct (map tr_assignee (ts_rejections st))"
    and st: "ts_task st = Some t" "tk_requested_assignee t \<noteq> []" "ts_active_assignee st = None"
      "ts_terminal_report st = None"
    and rj: "rj \<in> set (ts_rejections st)" "tr_assignee rj = tk_requested_assignee t"
      "tr_while_assigned rj"
  shows "\<exists>e. task_on_message x s env = Inl e"
proof (cases "task_on_message x s env")
  case (Inr r)
  have only: "tr_while_assigned q" if "q \<in> set (ts_rejections st)" "tr_assignee q = tk_requested_assignee t" for q
    using inv that rj by (metis distinct_map inj_on_eq_iff)
  have "False"
    using Inr st rev rj only
    by (auto simp: task_on_message_def load_result ld task_persist_Inr handle_request_def handle_accept_def
        handle_reject_def handle_update_def handle_complete_def handle_fail_def handle_commitment_def
        no_eligible_assignee_def can_assignee_respond_def Let_def res_simps list_ex_iff split: if_splits)
  then show ?thesis ..
qed simp

text \<open>An update is accepted whatever its progress is, and with a progress that is not finite what is
  written then cannot be read again.\<close>

lemma update_accepted:
  assumes "tx_decode_update x (e_payload env) = Some p"
    and "ts_task st = Some t" "tk_task_id t \<noteq> []" "tup_task_id p = tk_task_id t"
    and "ts_active_assignee st = Some (e_sender env)" "ts_terminal_report st = None"
  shows "handle_update x s env st = Inr (st\<lparr>ts_updates := ts_updates st @
    [\<lparr>tu_task_id = tup_task_id p, tu_status = tup_status p, tu_progress = tup_progress p,
      tu_message = tup_message p, tu_partial_output = tup_partial_output p, tu_sender = e_sender env\<rparr>]\<rparr>)"
  using assms by (simp add: handle_update_def ensure_task_matches_def)

lemma nonfinite_progress_poisons:
  assumes "task_codec_law x" "s_mode_state s' = tx_encode_state x st'" "\<not> finite_updates st'"
  shows "task_on_message x s' env' = Inl InvalidModeState"
  using assms by (intro task_unreadable) (simp add: load_def task_codec_law_def)

section \<open>An instance of the codec\<close>

instance TaskRecord_ext :: (countable) countable
  by (rule countable_classI [of "\<lambda>r. to_nat (tk_task_id r, tk_title r, tk_instructions r,
        tk_requested_assignee r, tk_input r, tk_deadline_unix_ms r, tk_requester r, TaskRecord.more r)"]) simp

instance TaskRejectRecord_ext :: (countable) countable
  by (rule countable_classI [of "\<lambda>r. to_nat (tr_task_id r, tr_assignee r, tr_reason r,
        tr_while_assigned r, TaskRejectRecord.more r)"]) simp

instance TaskUpdateRecord_ext :: (countable) countable
  by (rule countable_classI [of "\<lambda>r. to_nat (tu_task_id r, tu_status r, tu_progress r, tu_message r,
        tu_partial_output r, tu_sender r, TaskUpdateRecord.more r)"]) simp

instance TaskCompleteRecord_ext :: (countable) countable
  by (rule countable_classI [of "\<lambda>r. to_nat (tc_task_id r, tc_assignee r, tc_output r, tc_summary r,
        TaskCompleteRecord.more r)"]) simp

instance TaskFailRecord_ext :: (countable) countable
  by (rule countable_classI [of "\<lambda>r. to_nat (tf_task_id r, tf_assignee r, tf_error_code r,
        tf_reason r, tf_retryable r, TaskFailRecord.more r)"]) simp

instance TaskTerminalReport :: countable
  by countable_datatype

instance TaskState_ext :: (countable) countable
  by (rule countable_classI [of "\<lambda>r. to_nat (ts_task r, ts_active_assignee r, ts_rejections r,
        ts_updates r, ts_terminal_report r, TaskState.more r)"]) simp

definition example_task :: task_ext where
  "example_task =
     \<lparr>x_decode_commitment = (\<lambda>_. None),
      x_rules = no_rules\<lparr>parse_task_rules := (\<lambda>_. Some \<lparr>tpr_assignment =
          \<lparr>tar_allow_reassignment_on_reject = True\<rparr>, tpr_completion = \<lparr>tcr_require_output = False\<rparr>,
          tpr_commitment = default_CommitmentRules\<rparr>)\<rparr>,
      x_evaluator = (\<lambda>_. Allow []),
      tx_decode_request = (\<lambda>b. Some \<lparr>trq_task_id = ''t1'', trq_title = [], trq_instructions = [],
        trq_requested_assignee = b, trq_input = [], trq_deadline_unix_ms = 0\<rparr>),
      tx_decode_accept = (\<lambda>_. Some \<lparr>tap_task_id = ''t1'', tap_assignee = []\<rparr>),
      tx_decode_reject = (\<lambda>_. Some \<lparr>trp_task_id = ''t1'', trp_assignee = [], trp_reason = []\<rparr>),
      tx_decode_update = (\<lambda>b. Some \<lparr>tup_task_id = ''t1'', tup_status = [], tup_progress = (if b = ''nan'' then NaN else Finite (1 / 2)),
        tup_message = [], tup_partial_output = []\<rparr>),
      tx_decode_complete = (\<lambda>_. Some \<lparr>tcp_task_id = ''t1'', tcp_assignee = [], tcp_output = ''out'',
        tcp_summary = []\<rparr>),
      tx_decode_fail = (\<lambda>_. None),
      tx_encode_state = unary_encode, tx_decode_state = lossy_decode finite_updates\<rparr>"

lemma example_task_law: "task_codec_law example_task"
  by (simp add: task_codec_law_def example_task_def)

interpretation unary_task: task_codec example_task
  by unfold_locales (rule example_task_law)

end
