(* ===== verification/Handoff_Mode.thy ===== *)
theory Handoff_Mode
  imports Replay State_Codec
begin

text \<open>
  Handoff mode (\<^verbatim>\<open>macp-modes/src/mode/handoff.rs\<close>): offers, context, accepts, declines, the
  synthetic implicit accept and the terminal Commitment. The protobuf decoders, the encoder of
  \<^verbatim>\<open>HandoffAcceptPayload\<close> and the JSON codec of the mode state are fields of the parameter.
\<close>

section \<open>State and payloads\<close>

definition IMPLICIT_ACCEPT_MESSAGE_ID_PREFIX :: string where
  "IMPLICIT_ACCEPT_MESSAGE_ID_PREFIX = ''implicit-accept:''"

definition IMPLICIT_ACCEPT_REASON :: string where
  "IMPLICIT_ACCEPT_REASON = ''implicit accept (timeout)''"

definition DECLINED_TARGET_BAR_REV :: u32 where "DECLINED_TARGET_BAR_REV = 4"

datatype HandoffDisposition = Offered | Accepted | Declined

record HandoffOfferRecord =
  ho_handoff_id :: string
  ho_target_participant :: string
  ho_scope :: string
  ho_reason :: string
  ho_offered_by :: string
  ho_disposition :: HandoffDisposition
  ho_accepted_by :: "string option"
  ho_declined_by :: "string option"
  ho_outcome_reason :: "string option"
  ho_offered_at_ms :: i64
  ho_suspended_ms_at_offer :: i64

record HandoffContextRecord =
  hc_content_type :: string
  hc_context :: bytes
  hc_sender :: string

record HandoffState =
  hs_offers :: "(string, HandoffOfferRecord) btree"
  hs_contexts :: "(string, HandoffContextRecord list) btree"

definition default_HandoffState :: HandoffState where
  "default_HandoffState = \<lparr>hs_offers = bt_empty, hs_contexts = bt_empty\<rparr>"

record HandoffOfferPayload =
  hop_handoff_id :: string
  hop_target_participant :: string
  hop_scope :: string
  hop_reason :: string

record HandoffContextPayload =
  hcp_handoff_id :: string
  hcp_content_type :: string
  hcp_context :: bytes

record HandoffAcceptPayload =
  hap_handoff_id :: string
  hap_accepted_by :: string
  hap_reason :: string
  hap_implicit :: bool

record HandoffDeclinePayload =
  hdp_handoff_id :: string
  hdp_declined_by :: string
  hdp_reason :: string

record handoff_ext = mode_ext +
  hx_decode_offer :: "bytes \<Rightarrow> HandoffOfferPayload option"
  hx_decode_context :: "bytes \<Rightarrow> HandoffContextPayload option"
  hx_decode_accept :: "bytes \<Rightarrow> HandoffAcceptPayload option"
  hx_encode_accept :: "HandoffAcceptPayload \<Rightarrow> bytes"
  hx_decode_decline :: "bytes \<Rightarrow> HandoffDeclinePayload option"
  hx_encode_state :: "HandoffState \<Rightarrow> bytes"
  hx_decode_state :: "bytes \<Rightarrow> HandoffState option"

section \<open>The implicit-accept clock\<close>

definition rev2_elapsed_ms :: "Session \<Rightarrow> HandoffOfferRecord \<Rightarrow> i64 \<Rightarrow> i64" where
  "rev2_elapsed_ms s offer now_ms =
     (let suspended_since_offer =
            max (sat_sub (s_accumulated_suspended_ms s) (ho_suspended_ms_at_offer offer)) 0
      in sat_sub (sat_sub now_ms (ho_offered_at_ms offer)) suspended_since_offer)"

definition implicit_accept_elapsed_ms :: "Session \<Rightarrow> HandoffOfferRecord \<Rightarrow> i64 \<Rightarrow> i64" where
  "implicit_accept_elapsed_ms s offer now_ms =
     (if s_semantics_rev s \<ge> 2 then rev2_elapsed_ms s offer now_ms
      else wrap_i64 (now_ms - ho_offered_at_ms offer))"

definition handoff_rules :: "handoff_ext \<Rightarrow> PolicyDefinition \<Rightarrow> HandoffPolicyRules" where
  "handoff_rules x policy =
     unwrap_or default_HandoffPolicyRules (parse_handoff_rules (x_rules x) (p_rules policy))"

definition implicit_accept_timeout_ms :: "handoff_ext \<Rightarrow> Session \<Rightarrow> i64" where
  "implicit_accept_timeout_ms x s =
     (case s_policy_definition s of
        None \<Rightarrow> 0
      | Some policy \<Rightarrow>
          wrap_i64 (int (har_implicit_accept_timeout_ms (hpr_acceptance (handoff_rules x policy)))))"

definition commitment_ready :: "HandoffState \<Rightarrow> bool" where
  "commitment_ready st =
     list_ex (\<lambda>offer. ho_disposition offer = Accepted \<or> ho_disposition offer = Declined)
       (bt_values (hs_offers st))"

definition implicit_accept_id :: "string \<Rightarrow> string" where
  "implicit_accept_id handoff_id = IMPLICIT_ACCEPT_MESSAGE_ID_PREFIX @ handoff_id"

section \<open>Client boundary, sender authority, start\<close>

definition handoff_validate_client_envelope ::
    "handoff_ext \<Rightarrow> Session \<Rightarrow> Envelope \<Rightarrow> unit result" where
  "handoff_validate_client_envelope x s env =
     (if s_semantics_rev s < 2 then Ok ()
      else if starts_with (e_message_id env) IMPLICIT_ACCEPT_MESSAGE_ID_PREFIX
      then Err InvalidEnvelope
      else if e_message_type env = ''HandoffAccept'' then
        (case hx_decode_accept x (e_payload env) of
           Some payload \<Rightarrow> if hap_implicit payload then Err InvalidPayload else Ok ()
         | None \<Rightarrow> Ok ())
      else Ok ())"

definition handoff_authorize_sender :: "handoff_ext \<Rightarrow> Session \<Rightarrow> Envelope \<Rightarrow> unit result" where
  "handoff_authorize_sender x s env =
     (if e_message_type env = ''Commitment'' then check_commitment_authority x s (e_sender env)
      else if e_message_type env = ''HandoffOffer'' then
        (if e_sender env = s_initiator_sender s then Ok () else Err Forbidden)
      else if is_declared_participant (s_participants s) (e_sender env) then Ok ()
      else Err Forbidden)"

definition handoff_on_session_start ::
    "handoff_ext \<Rightarrow> Session \<Rightarrow> Envelope \<Rightarrow> ModeResponse result" where
  "handoff_on_session_start x s env =
     (if length (s_participants s) < 2 then Err InvalidPayload
      else if \<not> list_ex (\<lambda>p. p = s_initiator_sender s) (s_participants s)
      then Err InvalidPayload
      else Ok (PersistState (hx_encode_state x default_HandoffState)))"

section \<open>Message handling\<close>

definition handle_offer ::
    "handoff_ext \<Rightarrow> Session \<Rightarrow> Envelope \<Rightarrow> i64 \<Rightarrow> HandoffState \<Rightarrow> ModeResponse result" where
  "handle_offer x s env clock_ms st =
     and_then (ok_or (hx_decode_offer x (e_payload env)) InvalidPayload) (\<lambda>payload.
     if hop_handoff_id payload = [] \<or> hop_target_participant payload = []
        \<or> bt_contains (hs_offers st) (hop_handoff_id payload)
        \<or> \<not> is_declared_participant (s_participants s) (hop_target_participant payload)
        \<or> hop_target_participant payload = e_sender env
        \<or> list_ex (\<lambda>q. ho_disposition q = Offered) (bt_values (hs_offers st))
        \<or> list_ex (\<lambda>q. ho_disposition q = Accepted) (bt_values (hs_offers st))
     then Err InvalidPayload
     else if s_semantics_rev s \<ge> DECLINED_TARGET_BAR_REV
        \<and> list_ex (\<lambda>q. ho_disposition q = Declined
                       \<and> ho_target_participant q = hop_target_participant payload)
            (bt_values (hs_offers st))
     then Err InvalidPayload
     else
       let offer =
         \<lparr>ho_handoff_id = hop_handoff_id payload,
          ho_target_participant = hop_target_participant payload,
          ho_scope = hop_scope payload, ho_reason = hop_reason payload,
          ho_offered_by = e_sender env, ho_disposition = Offered, ho_accepted_by = None,
          ho_declined_by = None, ho_outcome_reason = None,
          ho_offered_at_ms = (if s_semantics_rev s \<ge> 1 then clock_ms else e_timestamp_unix_ms env),
          ho_suspended_ms_at_offer = s_accumulated_suspended_ms s\<rparr>
       in Ok (PersistState (hx_encode_state x
            (st\<lparr>hs_offers := bt_insert (hop_handoff_id payload) offer (hs_offers st)\<rparr>))))"

definition handle_context ::
    "handoff_ext \<Rightarrow> Session \<Rightarrow> Envelope \<Rightarrow> HandoffState \<Rightarrow> ModeResponse result" where
  "handle_context x s env st =
     and_then (ok_or (hx_decode_context x (e_payload env)) InvalidPayload) (\<lambda>payload.
     and_then (ok_or (bt_get (hs_offers st) (hcp_handoff_id payload)) InvalidPayload) (\<lambda>offer.
     if ho_offered_by offer \<noteq> e_sender env then Err Forbidden
     else
       let entry = unwrap_or [] (bt_get (hs_contexts st) (hcp_handoff_id payload));
           rec = \<lparr>hc_content_type = hcp_content_type payload, hc_context = hcp_context payload,
                  hc_sender = e_sender env\<rparr>
       in Ok (PersistState (hx_encode_state x
            (st\<lparr>hs_contexts := bt_insert (hcp_handoff_id payload) (entry @ [rec])
                  (hs_contexts st)\<rparr>)))))"

definition dispatch_implicit_accept ::
    "handoff_ext \<Rightarrow> Session \<Rightarrow> Envelope \<Rightarrow> HandoffAcceptPayload \<Rightarrow> HandoffState
     \<Rightarrow> ModeResponse result" where
  "dispatch_implicit_accept x s env payload st =
     (if s_semantics_rev s < 2 then Err InvalidPayload
      else and_then (ok_or (bt_get (hs_offers st) (hap_handoff_id payload)) InvalidPayload) (\<lambda>offer.
        if ho_target_participant offer \<noteq> e_sender env then Err Forbidden
        else if hap_accepted_by payload \<noteq> ho_target_participant offer then Err InvalidPayload
        else if e_message_id env \<noteq> implicit_accept_id (ho_handoff_id offer)
        then Err InvalidPayload
        else if ho_disposition offer \<noteq> Offered then Err InvalidPayload
        else
          let offer' = offer\<lparr>ho_disposition := Accepted,
                ho_accepted_by := Some (ho_target_participant offer),
                ho_outcome_reason := Some (hap_reason payload)\<rparr>
          in Ok (PersistState (hx_encode_state x
               (st\<lparr>hs_offers := bt_insert (hap_handoff_id payload) offer' (hs_offers st)\<rparr>)))))"

definition handle_accept ::
    "handoff_ext \<Rightarrow> Session \<Rightarrow> Envelope \<Rightarrow> HandoffState \<Rightarrow> ModeResponse result" where
  "handle_accept x s env st =
     and_then (ok_or (hx_decode_accept x (e_payload env)) InvalidPayload) (\<lambda>payload.
     if hap_implicit payload then dispatch_implicit_accept x s env payload st
     else and_then (ok_or (bt_get (hs_offers st) (hap_handoff_id payload)) InvalidPayload) (\<lambda>offer.
       if ho_target_participant offer \<noteq> e_sender env then Err Forbidden
       else if hap_accepted_by payload \<noteq> [] \<and> hap_accepted_by payload \<noteq> e_sender env
       then Err InvalidPayload
       else if ho_disposition offer \<noteq> Offered then Err InvalidPayload
       else
         let offer' = offer\<lparr>ho_disposition := Accepted, ho_accepted_by := Some (e_sender env),
                            ho_outcome_reason := Some (hap_reason payload)\<rparr>
         in Ok (PersistState (hx_encode_state x
              (st\<lparr>hs_offers := bt_insert (hap_handoff_id payload) offer' (hs_offers st)\<rparr>)))))"

definition handle_decline ::
    "handoff_ext \<Rightarrow> Session \<Rightarrow> Envelope \<Rightarrow> HandoffState \<Rightarrow> ModeResponse result" where
  "handle_decline x s env st =
     and_then (ok_or (hx_decode_decline x (e_payload env)) InvalidPayload) (\<lambda>payload.
     and_then (ok_or (bt_get (hs_offers st) (hdp_handoff_id payload)) InvalidPayload) (\<lambda>offer.
       if ho_target_participant offer \<noteq> e_sender env then Err Forbidden
       else if hdp_declined_by payload \<noteq> [] \<and> hdp_declined_by payload \<noteq> e_sender env
       then Err InvalidPayload
       else if ho_disposition offer \<noteq> Offered then Err InvalidPayload
       else
         let offer' = offer\<lparr>ho_disposition := Declined, ho_declined_by := Some (e_sender env),
                            ho_outcome_reason := Some (hdp_reason payload)\<rparr>
         in Ok (PersistState (hx_encode_state x
              (st\<lparr>hs_offers := bt_insert (hdp_handoff_id payload) offer' (hs_offers st)\<rparr>)))))"

definition accept_overdue :: "Session \<Rightarrow> i64 \<Rightarrow> i64 \<Rightarrow> HandoffOfferRecord \<Rightarrow> HandoffOfferRecord" where
  "accept_overdue s now_ms timeout offer =
     (if ho_disposition offer = Offered \<and> ho_offered_at_ms offer > 0
         \<and> implicit_accept_elapsed_ms s offer now_ms \<ge> timeout
      then offer\<lparr>ho_disposition := Accepted,
                 ho_accepted_by := Some (ho_target_participant offer),
                 ho_outcome_reason := Some IMPLICIT_ACCEPT_REASON\<rparr>
      else offer)"

definition interim_implicit_accept ::
    "handoff_ext \<Rightarrow> Session \<Rightarrow> i64 \<Rightarrow> HandoffState \<Rightarrow> HandoffState" where
  "interim_implicit_accept x s clock_ms st =
     (case s_policy_definition s of
        None \<Rightarrow> st
      | Some policy \<Rightarrow>
          (let raw = har_implicit_accept_timeout_ms (hpr_acceptance (handoff_rules x policy)) in
           if raw > 0 \<and> s_semantics_rev s < 2
           then st\<lparr>hs_offers := bt_map_values (accept_overdue s clock_ms (wrap_i64 (int raw)))
                                 (hs_offers st)\<rparr>
           else st))"

definition handle_commitment ::
    "handoff_ext \<Rightarrow> Session \<Rightarrow> Envelope \<Rightarrow> i64 \<Rightarrow> HandoffState \<Rightarrow> ModeResponse result" where
  "handle_commitment x s env clock_ms st0 =
     and_then (validate_commitment_payload_for_session x s (e_payload env)) (\<lambda>commitment.
     let st = interim_implicit_accept x s clock_ms st0 in
     if \<not> commitment_ready st then Err InvalidPayload
     else and_then (enforce_commitment_policy x s CM_Handoff (cp_outcome_positive commitment)) (\<lambda>_.
       Ok (PersistAndResolve (hx_encode_state x st) (e_payload env))))"

definition handle_message ::
    "handoff_ext \<Rightarrow> Session \<Rightarrow> Envelope \<Rightarrow> i64 \<Rightarrow> ModeResponse result" where
  "handle_message x s env clock_ms =
     and_then (if s_mode_state s = [] then Ok default_HandoffState
               else decode_mode_state (hx_decode_state x) (s_mode_state s)) (\<lambda>st.
     if e_message_type env = ''HandoffOffer'' then handle_offer x s env clock_ms st
     else if e_message_type env = ''HandoffContext'' then handle_context x s env st
     else if e_message_type env = ''HandoffAccept'' then handle_accept x s env st
     else if e_message_type env = ''HandoffDecline'' then handle_decline x s env st
     else if e_message_type env = ''Commitment'' then handle_commitment x s env clock_ms st
     else Err InvalidPayload)"

definition handoff_on_message :: "handoff_ext \<Rightarrow> Session \<Rightarrow> Envelope \<Rightarrow> ModeResponse result" where
  "handoff_on_message x s env = handle_message x s env (e_timestamp_unix_ms env)"

definition handoff_on_message_at ::
    "handoff_ext \<Rightarrow> Session \<Rightarrow> Envelope \<Rightarrow> MessageContext \<Rightarrow> ModeResponse result" where
  "handoff_on_message_at x s env ctx =
     handle_message x s env
       (if s_semantics_rev s \<ge> 1 then ctx_accepted_at_ms ctx else e_timestamp_unix_ms env)"

section \<open>The synthetic implicit accept\<close>

definition implicit_accept_envelope ::
    "handoff_ext \<Rightarrow> Session \<Rightarrow> HandoffOfferRecord \<Rightarrow> i64 \<Rightarrow> Envelope" where
  "implicit_accept_envelope x s offer deadline =
     \<lparr>e_macp_version = MACP_VERSION, e_mode = s_mode s, e_message_type = ''HandoffAccept'',
      e_message_id = implicit_accept_id (ho_handoff_id offer),
      e_session_id = s_session_id s, e_sender = ho_target_participant offer,
      e_timestamp_unix_ms = deadline,
      e_payload = hx_encode_accept x
        \<lparr>hap_handoff_id = ho_handoff_id offer, hap_accepted_by = ho_target_participant offer,
         hap_reason = IMPLICIT_ACCEPT_REASON, hap_implicit = True\<rparr>\<rparr>"

definition handoff_due_synthetic_envelope :: "handoff_ext \<Rightarrow> Session \<Rightarrow> i64 \<Rightarrow> Envelope option" where
  "handoff_due_synthetic_envelope x s now_ms =
     (if s_semantics_rev s < 2 then None
      else
        let timeout = implicit_accept_timeout_ms x s in
        if timeout \<le> 0 then None
        else if s_mode_state s = [] then None
        else case hx_decode_state x (s_mode_state s) of
          None \<Rightarrow> None
        | Some st \<Rightarrow>
            (case List.find (\<lambda>offer. ho_disposition offer = Offered) (bt_values (hs_offers st)) of
               None \<Rightarrow> None
             | Some offer \<Rightarrow>
                 if ho_offered_at_ms offer \<le> 0 then None
                 else if implicit_accept_elapsed_ms s offer now_ms < timeout then None
                 else Some (implicit_accept_envelope x s offer
                        (unsuspended_deadline s (ho_offered_at_ms offer) timeout))))"

definition HandoffMode :: "handoff_ext \<Rightarrow> Mode" where
  "HandoffMode x =
     \<lparr>m_on_session_start = handoff_on_session_start x, m_on_message = handoff_on_message x,
      m_on_message_at = handoff_on_message_at x,
      m_validate_client_envelope = handoff_validate_client_envelope x,
      m_due_synthetic_envelope = handoff_due_synthetic_envelope x,
      m_authorize_sender = handoff_authorize_sender x\<rparr>"

section \<open>Invariant\<close>

text \<open>
  Among the offers of a session at most one is outstanding or accepted, and each record's
  disposition agrees with who answered it.
\<close>

definition state_wf :: "HandoffState \<Rightarrow> bool" where
  "state_wf st \<longleftrightarrow> bt_invar (hs_offers st) \<and> bt_invar (hs_contexts st)"

definition offer_ok :: "string \<Rightarrow> HandoffOfferRecord \<Rightarrow> bool" where
  "offer_ok k q \<longleftrightarrow> ho_handoff_id q = k \<and>
     (case ho_disposition q of
        Offered \<Rightarrow> ho_accepted_by q = None \<and> ho_declined_by q = None
      | Accepted \<Rightarrow> ho_accepted_by q = Some (ho_target_participant q) \<and> ho_declined_by q = None
      | Declined \<Rightarrow> ho_declined_by q = Some (ho_target_participant q) \<and> ho_accepted_by q = None)"

definition handoff_state_inv :: "HandoffState \<Rightarrow> bool" where
  "handoff_state_inv st \<longleftrightarrow> state_wf st \<and>
     (\<forall>k q. bt_get (hs_offers st) k = Some q \<longrightarrow> offer_ok k q) \<and>
     (\<forall>j k p q. bt_get (hs_offers st) j = Some p \<and> bt_get (hs_offers st) k = Some q \<and>
        ho_disposition p \<noteq> Declined \<and> ho_disposition q \<noteq> Declined \<longrightarrow> j = k)"

definition load_state :: "handoff_ext \<Rightarrow> Session \<Rightarrow> HandoffState option" where
  "load_state x s = (if s_mode_state s = [] then Some default_HandoffState
                     else hx_decode_state x (s_mode_state s))"

definition handoff_minv :: "handoff_ext \<Rightarrow> Session \<Rightarrow> bool" where
  "handoff_minv x s \<longleftrightarrow> (\<exists>st. load_state x s = Some st \<and> handoff_state_inv st)"

text \<open>The effect of an accepted message on the mode state.\<close>

definition answered :: "HandoffDisposition \<Rightarrow> string \<Rightarrow> string \<Rightarrow> HandoffOfferRecord \<Rightarrow> HandoffOfferRecord" where
  "answered d who why q =
     q\<lparr>ho_disposition := d,
       ho_accepted_by := (if d = Accepted then Some who else ho_accepted_by q),
       ho_declined_by := (if d = Accepted then ho_declined_by q else Some who),
       ho_outcome_reason := Some why\<rparr>"

inductive handoff_effect ::
    "handoff_ext \<Rightarrow> Session \<Rightarrow> Envelope \<Rightarrow> i64 \<Rightarrow> HandoffState \<Rightarrow> HandoffState \<Rightarrow> bool"
  for x s env clock st where
  eff_offer:
    "e_message_type env = ''HandoffOffer'' \<Longrightarrow>
     \<forall>k q. bt_get (hs_offers st) k = Some q \<longrightarrow> ho_disposition q = Declined \<and>
       (s_semantics_rev s \<ge> DECLINED_TARGET_BAR_REV \<longrightarrow>
          ho_target_participant q \<noteq> ho_target_participant offer) \<Longrightarrow>
     bt_get (hs_offers st) (ho_handoff_id offer) = None \<Longrightarrow> ho_disposition offer = Offered \<Longrightarrow>
     ho_accepted_by offer = None \<Longrightarrow> ho_declined_by offer = None \<Longrightarrow>
     ho_target_participant offer \<in> set (s_participants s) \<Longrightarrow>
     ho_target_participant offer \<noteq> e_sender env \<Longrightarrow>
     ho_suspended_ms_at_offer offer = s_accumulated_suspended_ms s \<Longrightarrow>
     (s_semantics_rev s \<ge> 1 \<Longrightarrow> ho_offered_at_ms offer = clock) \<Longrightarrow>
     handoff_effect x s env clock st
       (st\<lparr>hs_offers := bt_insert (ho_handoff_id offer) offer (hs_offers st)\<rparr>)"
| eff_context:
    "e_message_type env = ''HandoffContext'' \<Longrightarrow>
     handoff_effect x s env clock st (st\<lparr>hs_contexts := bt_insert k v (hs_contexts st)\<rparr>)"
| eff_answer:
    "e_message_type env = (if d = Accepted then ''HandoffAccept'' else ''HandoffDecline'') \<Longrightarrow>
     d \<noteq> Offered \<Longrightarrow> bt_get (hs_offers st) k = Some q \<Longrightarrow> ho_disposition q = Offered \<Longrightarrow>
     ho_target_participant q = e_sender env \<Longrightarrow>
     handoff_effect x s env clock st
       (st\<lparr>hs_offers := bt_insert k (answered d (e_sender env) why q) (hs_offers st)\<rparr>)"
| eff_commit:
    "e_message_type env = ''Commitment'' \<Longrightarrow>
     commitment_ready (interim_implicit_accept x s clock st) \<Longrightarrow>
     handoff_effect x s env clock st (interim_implicit_accept x s clock st)"

lemma handle_offer_effect:
  assumes "handle_offer x s env clock st = Inr r" "e_message_type env = ''HandoffOffer''"
  shows "\<exists>st'. r = PersistState (hx_encode_state x st') \<and> handoff_effect x s env clock st st'"
proof -
  from assms(1) obtain p where p: "hx_decode_offer x (e_payload env) = Some p"
    and g: "hop_target_participant p \<in> set (s_participants s)"
      "hop_target_participant p \<noteq> e_sender env" "bt_get (hs_offers st) (hop_handoff_id p) = None"
    and d: "\<forall>q \<in> set (bt_values (hs_offers st)). ho_disposition q \<noteq> Offered \<and>
        ho_disposition q \<noteq> Accepted \<and> (s_semantics_rev s \<ge> DECLINED_TARGET_BAR_REV \<longrightarrow>
        \<not> (ho_disposition q = Declined \<and> ho_target_participant q = hop_target_participant p))"
    by (auto simp: handle_offer_def Let_def res_simps list_ex_iff bt_contains_def)
  define offer where "offer =
      \<lparr>ho_handoff_id = hop_handoff_id p, ho_target_participant = hop_target_participant p,
       ho_scope = hop_scope p, ho_reason = hop_reason p,
       ho_offered_by = e_sender env, ho_disposition = Offered, ho_accepted_by = None,
       ho_declined_by = None, ho_outcome_reason = None,
       ho_offered_at_ms = (if s_semantics_rev s \<ge> 1 then clock else e_timestamp_unix_ms env),
       ho_suspended_ms_at_offer = s_accumulated_suspended_ms s\<rparr>"
  have r: "r = PersistState (hx_encode_state x
      (st\<lparr>hs_offers := bt_insert (ho_handoff_id offer) offer (hs_offers st)\<rparr>))"
    using assms(1) p by (simp add: handle_offer_def Let_def res_simps offer_def)
  have "\<forall>k q. bt_get (hs_offers st) k = Some q \<longrightarrow> ho_disposition q = Declined \<and>
       (s_semantics_rev s \<ge> DECLINED_TARGET_BAR_REV \<longrightarrow>
          ho_target_participant q \<noteq> ho_target_participant offer)"
  proof (intro allI impI)
    fix k q assume "bt_get (hs_offers st) k = Some q"
    then have "q \<in> set (bt_values (hs_offers st))" by (rule bt_get_in_values)
    with d show "ho_disposition q = Declined \<and>
       (s_semantics_rev s \<ge> DECLINED_TARGET_BAR_REV \<longrightarrow>
          ho_target_participant q \<noteq> ho_target_participant offer)"
      by (cases "ho_disposition q") (auto simp: offer_def)
  qed
  then have "handoff_effect x s env clock st
      (st\<lparr>hs_offers := bt_insert (ho_handoff_id offer) offer (hs_offers st)\<rparr>)"
    using assms(2) g by (intro eff_offer) (simp_all add: offer_def)
  with r show ?thesis by blast
qed

lemma answer_effect:
  assumes "bt_get (hs_offers st) k = Some q" "ho_disposition q = Offered"
    "ho_target_participant q = e_sender env"
    and "e_message_type env = (if d = Accepted then ''HandoffAccept'' else ''HandoffDecline'')"
    and "d \<noteq> Offered" "q' = answered d (e_sender env) why q"
  shows "\<exists>st'. PersistState (hx_encode_state x (st\<lparr>hs_offers := bt_insert k q' (hs_offers st)\<rparr>))
      = PersistState (hx_encode_state x st') \<and> handoff_effect x s env clock st st'"
  using eff_answer [OF assms(4,5,1,2,3), of x s clock why] assms(6) by blast

lemma handle_accept_effect:
  assumes "handle_accept x s env st = Inr r" "e_message_type env = ''HandoffAccept''"
  shows "\<exists>st'. r = PersistState (hx_encode_state x st') \<and> handoff_effect x s env clock st st'"
proof -
  obtain p where p: "hx_decode_accept x (e_payload env) = Some p"
    using assms(1) by (auto simp: handle_accept_def res_simps)
  obtain q where q: "bt_get (hs_offers st) (hap_handoff_id p) = Some q"
    "ho_disposition q = Offered" "ho_target_participant q = e_sender env"
    and r: "r = PersistState (hx_encode_state x (st\<lparr>hs_offers := bt_insert (hap_handoff_id p)
      (q\<lparr>ho_disposition := Accepted, ho_accepted_by := Some (e_sender env),
         ho_outcome_reason := Some (hap_reason p)\<rparr>) (hs_offers st)\<rparr>))"
    using assms(1) p
    by (cases "hap_implicit p")
      (auto simp: handle_accept_def dispatch_implicit_accept_def Let_def res_simps)
  show ?thesis unfolding r
    by (rule answer_effect [OF q, where d = Accepted and why = "hap_reason p"])
      (simp_all add: assms(2) answered_def)
qed

lemma handle_decline_effect:
  assumes "handle_decline x s env st = Inr r" "e_message_type env = ''HandoffDecline''"
  shows "\<exists>st'. r = PersistState (hx_encode_state x st') \<and> handoff_effect x s env clock st st'"
proof -
  obtain p where p: "hx_decode_decline x (e_payload env) = Some p"
    using assms(1) by (auto simp: handle_decline_def res_simps)
  obtain q where q: "bt_get (hs_offers st) (hdp_handoff_id p) = Some q"
    "ho_disposition q = Offered" "ho_target_participant q = e_sender env"
    and r: "r = PersistState (hx_encode_state x (st\<lparr>hs_offers := bt_insert (hdp_handoff_id p)
      (q\<lparr>ho_disposition := Declined, ho_declined_by := Some (e_sender env),
         ho_outcome_reason := Some (hdp_reason p)\<rparr>) (hs_offers st)\<rparr>))"
    using assms(1) p by (auto simp: handle_decline_def Let_def res_simps)
  show ?thesis unfolding r
    by (rule answer_effect [OF q, where d = Declined and why = "hdp_reason p"])
      (simp_all add: assms(2) answered_def)
qed

lemma handle_message_effect:
  assumes "handle_message x s env clock = Inr r" "load_state x s = Some st"
  shows "\<exists>st'. response_state r = Some (hx_encode_state x st') \<and> handoff_effect x s env clock st st'
    \<and> (e_message_type env \<noteq> ''Commitment'' \<longrightarrow> r = PersistState (hx_encode_state x st'))"
proof -
  have disp: "if e_message_type env = ''HandoffOffer'' then handle_offer x s env clock st = Inr r
     else if e_message_type env = ''HandoffContext'' then handle_context x s env st = Inr r
     else if e_message_type env = ''HandoffAccept'' then handle_accept x s env st = Inr r
     else if e_message_type env = ''HandoffDecline'' then handle_decline x s env st = Inr r
     else e_message_type env = ''Commitment'' \<and> handle_commitment x s env clock st = Inr r"
    using assms
    by (auto simp: handle_message_def load_state_def decode_mode_state_def split: if_splits)
  consider (o) "e_message_type env = ''HandoffOffer''" "handle_offer x s env clock st = Inr r"
    | (c) "e_message_type env = ''HandoffContext''" "handle_context x s env st = Inr r"
    | (a) "e_message_type env = ''HandoffAccept''" "handle_accept x s env st = Inr r"
    | (d) "e_message_type env = ''HandoffDecline''" "handle_decline x s env st = Inr r"
    | (m) "e_message_type env = ''Commitment''" "handle_commitment x s env clock st = Inr r"
    using disp by metis
  then show ?thesis
  proof cases
    case o
    then show ?thesis using handle_offer_effect [of x s env clock st r] by auto
  next
    case c
    then show ?thesis
      by (auto simp: handle_context_def Let_def res_simps intro: eff_context)
  next
    case a
    then show ?thesis using handle_accept_effect [of x s env st r clock] by auto
  next
    case d
    then show ?thesis using handle_decline_effect [of x s env st r clock] by auto
  next
    case m
    then show ?thesis
      by (auto simp: handle_commitment_def Let_def res_simps intro: eff_commit)
  qed
qed

subsection \<open>The invariant is kept\<close>

lemma default_state_inv: "handoff_state_inv default_HandoffState"
  by (simp add: handoff_state_inv_def state_wf_def default_HandoffState_def)

lemma answered_ok:
  "offer_ok k q \<Longrightarrow> ho_disposition q = Offered \<Longrightarrow> d \<noteq> Offered \<Longrightarrow>
     offer_ok k (answered d (ho_target_participant q) why q)"
  by (cases d) (auto simp: offer_ok_def answered_def)

lemma accept_overdue_ok: "offer_ok k q \<Longrightarrow> offer_ok k (accept_overdue s t timeout q)"
  by (auto simp: offer_ok_def accept_overdue_def)

lemma accept_overdue_declined:
  "ho_disposition (accept_overdue s t timeout q) = Declined \<longleftrightarrow> ho_disposition q = Declined"
  by (auto simp: accept_overdue_def)

lemma map_values_inv:
  assumes inv: "handoff_state_inv st"
    and ok: "\<And>k q. offer_ok k q \<Longrightarrow> offer_ok k (f q)"
    and dec: "\<And>q. ho_disposition (f q) = Declined \<longleftrightarrow> ho_disposition q = Declined"
  shows "handoff_state_inv (st\<lparr>hs_offers := bt_map_values f (hs_offers st)\<rparr>)"
proof -
  have get: "bt_get (bt_map_values f (hs_offers st)) k = map_option f (bt_get (hs_offers st) k)" for k
    by (rule bt_get_map_values)
  have wf: "state_wf (st\<lparr>hs_offers := bt_map_values f (hs_offers st)\<rparr>)"
    using inv by (simp add: handoff_state_inv_def state_wf_def bt_invar_map_values)
  have one: "j = k" if "bt_get (hs_offers st) j = Some p" "bt_get (hs_offers st) k = Some q"
    "ho_disposition p \<noteq> Declined" "ho_disposition q \<noteq> Declined" for j k p q
    using inv that unfolding handoff_state_inv_def by blast
  show ?thesis
    unfolding handoff_state_inv_def
  proof (intro conjI allI impI)
    fix k q assume "bt_get (hs_offers (st\<lparr>hs_offers := bt_map_values f (hs_offers st)\<rparr>)) k = Some q"
    then show "offer_ok k q" using inv ok by (auto simp: get handoff_state_inv_def)
  next
    fix j k p q
    assume "bt_get (hs_offers (st\<lparr>hs_offers := bt_map_values f (hs_offers st)\<rparr>)) j = Some p \<and>
      bt_get (hs_offers (st\<lparr>hs_offers := bt_map_values f (hs_offers st)\<rparr>)) k = Some q \<and>
      ho_disposition p \<noteq> Declined \<and> ho_disposition q \<noteq> Declined"
    then show "j = k" using one dec by (auto simp: get)
  qed (rule wf)
qed

lemma insert_offer_inv:
  assumes inv: "handoff_state_inv st" and ok: "offer_ok k q"
    and others: "\<And>j p. j \<noteq> k \<Longrightarrow> bt_get (hs_offers st) j = Some p \<Longrightarrow> ho_disposition p = Declined"
  shows "handoff_state_inv (st\<lparr>hs_offers := bt_insert k q (hs_offers st)\<rparr>)"
proof -
  have wf: "bt_invar (hs_offers st)" using inv by (simp add: handoff_state_inv_def state_wf_def)
  have get: "bt_get (bt_insert k q (hs_offers st)) j = (if j = k then Some q else bt_get (hs_offers st) j)"
    for j using wf by simp
  show ?thesis
    unfolding handoff_state_inv_def
  proof (intro conjI allI impI)
    show "state_wf (st\<lparr>hs_offers := bt_insert k q (hs_offers st)\<rparr>)"
      using inv wf by (simp add: handoff_state_inv_def state_wf_def bt_invar_insert)
  next
    fix j p assume "bt_get (hs_offers (st\<lparr>hs_offers := bt_insert k q (hs_offers st)\<rparr>)) j = Some p"
    then show "offer_ok j p"
      using inv ok unfolding handoff_state_inv_def by (auto simp: get simp del: bt_get_insert split: if_splits)
  next
    fix i j p r
    assume "bt_get (hs_offers (st\<lparr>hs_offers := bt_insert k q (hs_offers st)\<rparr>)) i = Some p \<and>
      bt_get (hs_offers (st\<lparr>hs_offers := bt_insert k q (hs_offers st)\<rparr>)) j = Some r \<and>
      ho_disposition p \<noteq> Declined \<and> ho_disposition r \<noteq> Declined"
    then have "i = k" "j = k" using others
      by (auto simp: get simp del: bt_get_insert split: if_splits)
    then show "i = j" by simp
  qed
qed

lemma effect_inv:
  assumes "handoff_effect x s env clock st st'" and inv: "handoff_state_inv st"
  shows "handoff_state_inv st'"
  using assms(1)
proof cases
  case (eff_offer offer)
  have "offer_ok (ho_handoff_id offer) offer" using eff_offer by (simp add: offer_ok_def)
  then show ?thesis unfolding eff_offer(1)
    using eff_offer(3) by (intro insert_offer_inv [OF inv]) auto
next
  case (eff_context k v)
  then show ?thesis using inv by (simp add: handoff_state_inv_def state_wf_def bt_invar_insert)
next
  case (eff_answer d k q why)
  have "offer_ok k q" using inv eff_answer(4) by (simp add: handoff_state_inv_def)
  then have ok: "offer_ok k (answered d (e_sender env) why q)"
    using answered_ok [of k q d why] eff_answer by simp
  have "ho_disposition p = Declined" if "j \<noteq> k" "bt_get (hs_offers st) j = Some p" for j p
  proof (rule ccontr)
    assume "ho_disposition p \<noteq> Declined"
    moreover have "ho_disposition q \<noteq> Declined" using eff_answer(5) by simp
    ultimately have "j = k"
      using inv that(2) eff_answer(4) unfolding handoff_state_inv_def by blast
    with that(1) show False by simp
  qed
  then show ?thesis unfolding eff_answer(1) by (rule insert_offer_inv [OF inv ok])
next
  case eff_commit
  then show ?thesis
    using inv map_values_inv [OF inv, of "accept_overdue s clock t" for t]
    by (auto simp: interim_implicit_accept_def Let_def accept_overdue_ok accept_overdue_declined
        split: option.splits)
qed

text \<open>After an accept no offer is outstanding.\<close>

lemma effect_accept_clears:
  assumes "handoff_effect x s env clock st st'" "handoff_state_inv st"
    and "e_message_type env = ''HandoffAccept''"
  shows "\<forall>q \<in> set (bt_values (hs_offers st')). ho_disposition q \<noteq> Offered"
  using assms(1)
proof cases
  case (eff_answer d k q why)
  then have d: "d = Accepted" using assms(3) by (auto split: if_splits)
  have inv': "handoff_state_inv st'" by (rule effect_inv [OF assms(1,2)])
  then have wf: "bt_invar (hs_offers st')" "bt_invar (hs_offers st)"
    using assms(2) by (simp_all add: handoff_state_inv_def state_wf_def)
  have k: "bt_get (hs_offers st') k = Some (answered d (e_sender env) why q)"
    using wf(2) by (simp add: eff_answer(1))
  have nd: "ho_disposition (answered d (e_sender env) why q) = Accepted"
    using d by (simp add: answered_def)
  show ?thesis
  proof
    fix p assume "p \<in> set (bt_values (hs_offers st'))"
    then obtain j where j: "bt_get (hs_offers st') j = Some p"
      using wf(1) by (auto simp: bt_values_iff)
    show "ho_disposition p \<noteq> Offered"
    proof
      assume o: "ho_disposition p = Offered"
      have "\<forall>j k p q. bt_get (hs_offers st') j = Some p \<and> bt_get (hs_offers st') k = Some q \<and>
        ho_disposition p \<noteq> Declined \<and> ho_disposition q \<noteq> Declined \<longrightarrow> j = k"
        using inv' by (simp add: handoff_state_inv_def)
      from this [rule_format, of j p k] have "j = k" using j k nd o by simp
      then show False using j k nd o by simp
    qed
  qed
qed (use assms(3) in auto)

section \<open>The kernel contract\<close>

text \<open>What the mode relies on from the JSON codec of its state: a state it wrote reads back, and
  no state is written as the empty string.\<close>

definition handoff_codec_law :: "handoff_ext \<Rightarrow> bool" where
  "handoff_codec_law x \<longleftrightarrow>
     (\<forall>st. state_wf st \<longrightarrow>
        hx_decode_state x (hx_encode_state x st) = Some st \<and> hx_encode_state x st \<noteq> [])"

lemma load_encoded:
  assumes "handoff_codec_law x" "state_wf st" "s_mode_state s = hx_encode_state x st"
  shows "load_state x s = Some st"
  using assms by (simp add: handoff_codec_law_def load_state_def)

lemma handoff_authorize_frame:
  assumes "bound_fields s' = bound_fields s"
  shows "handoff_authorize_sender x s' env = handoff_authorize_sender x s env"
  unfolding handoff_authorize_sender_def authority_frame [OF assms]
  using assms by (simp add: bound_fields_def)

lemma message_load:
  assumes "handoff_codec_law x" "handoff_minv x s" "handle_message x s env clock = Inr r"
  obtains st st' where "load_state x s = Some st" "handoff_state_inv st"
    "handoff_effect x s env clock st st'" "handoff_state_inv st'"
    "load_state x (apply_mode_response r s) = Some st'"
    "e_message_type env \<noteq> ''Commitment'' \<Longrightarrow> r = PersistState (hx_encode_state x st')"
proof -
  obtain st where st: "load_state x s = Some st" "handoff_state_inv st"
    using assms(2) by (auto simp: handoff_minv_def)
  obtain st' where st': "response_state r = Some (hx_encode_state x st')"
    "handoff_effect x s env clock st st'"
    "e_message_type env \<noteq> ''Commitment'' \<longrightarrow> r = PersistState (hx_encode_state x st')"
    using handle_message_effect [OF assms(3) st(1)] by auto
  have inv': "handoff_state_inv st'" by (rule effect_inv [OF st'(2) st(2)])
  then have "load_state x (apply_mode_response r s) = Some st'"
    using assms(1) response_state_apply [OF st'(1)]
    by (intro load_encoded) (simp_all add: handoff_state_inv_def)
  with that st st'(2,3) inv' show ?thesis by blast
qed

lemma due_facts:
  assumes "handoff_due_synthetic_envelope x s now = Some env"
  obtains st offer where "s_semantics_rev s \<ge> 2" "0 < implicit_accept_timeout_ms x s"
    "s_mode_state s \<noteq> []" "hx_decode_state x (s_mode_state s) = Some st"
    "offer \<in> set (bt_values (hs_offers st))" "ho_disposition offer = Offered"
    "0 < ho_offered_at_ms offer"
    "implicit_accept_timeout_ms x s \<le> rev2_elapsed_ms s offer now"
    "env = implicit_accept_envelope x s offer
       (unsuspended_deadline s (ho_offered_at_ms offer) (implicit_accept_timeout_ms x s))"
proof -
  obtain st offer where so: "hx_decode_state x (s_mode_state s) = Some st"
    "List.find (\<lambda>offer. ho_disposition offer = Offered) (bt_values (hs_offers st)) = Some offer"
    using assms by (auto simp: handoff_due_synthetic_envelope_def Let_def split: if_splits option.splits)
  have "offer \<in> set (bt_values (hs_offers st))" "ho_disposition offer = Offered"
    using so(2) by (auto simp: find_Some_iff)
  then show ?thesis
    using that [of st offer] assms so
    by (auto simp: handoff_due_synthetic_envelope_def Let_def implicit_accept_elapsed_ms_def
        split: if_splits)
qed

locale handoff_codec =
  fixes x :: handoff_ext
  assumes codec_law: "handoff_codec_law x"

sublocale handoff_codec \<subseteq> handoff_run: mode_contract "HandoffMode x" "handoff_minv x"
proof
  fix s env r
  assume "m_on_session_start (HandoffMode x) s env = Inr r"
  then have "r = PersistState (hx_encode_state x default_HandoffState)"
    by (simp add: HandoffMode_def handoff_on_session_start_def res_simps)
  then have "load_state x (apply_mode_response r s) = Some default_HandoffState"
    using default_state_inv
    by (intro load_encoded [OF codec_law]) (simp_all add: handoff_state_inv_def)
  then show "handoff_minv x (apply_mode_response r s)"
    using default_state_inv by (auto simp: handoff_minv_def)
next
  fix s env ctx r
  assume "handoff_minv x s" "m_on_message_at (HandoffMode x) s env ctx = Inr r"
  then show "handoff_minv x (apply_mode_response r s)"
    by (auto simp: HandoffMode_def handoff_on_message_at_def handoff_minv_def [of x "apply_mode_response r s"]
        elim!: message_load [OF codec_law])
next
  fix s s' :: Session
  assume "handoff_minv x s" "s_mode_state s' = s_mode_state s"
  then show "handoff_minv x s'" by (auto simp: handoff_minv_def load_state_def split: if_splits)
next
  fix s s' env
  assume "bound_fields s' = bound_fields s"
  then show "m_authorize_sender (HandoffMode x) s' env = m_authorize_sender (HandoffMode x) s env"
    using handoff_authorize_frame [of s' s x env] by (simp add: HandoffMode_def)
next
  fix s now env
  assume "m_due_synthetic_envelope (HandoffMode x) s now = Some env"
  then show "e_message_id env \<noteq> []"
    by (auto simp: HandoffMode_def implicit_accept_envelope_def implicit_accept_id_def
        IMPLICIT_ACCEPT_MESSAGE_ID_PREFIX_def elim!: due_facts)
next
  fix s now env r
  assume inv: "handoff_minv x s"
    and due: "m_due_synthetic_envelope (HandoffMode x) s now = Some env"
    and r: "m_on_message_at (HandoffMode x) s env (MessageContext_new (e_timestamp_unix_ms env)) = Inr r"
  have ty: "e_message_type env = ''HandoffAccept''"
    using due by (auto simp: HandoffMode_def implicit_accept_envelope_def elim!: due_facts)
  have h: "handle_message x s env (e_timestamp_unix_ms env) = Inr r"
    using r by (simp add: HandoffMode_def handoff_on_message_at_def split: if_splits)
  obtain st st' where st: "load_state x s = Some st" "handoff_state_inv st"
    "handoff_effect x s env (e_timestamp_unix_ms env) st st'" "handoff_state_inv st'"
    "load_state x (apply_mode_response r s) = Some st'" "r = PersistState (hx_encode_state x st')"
    using h ty by (auto elim!: message_load [OF codec_law inv])
  show "s_state (apply_mode_response r s) = s_state s" using st(6) by simp
  fix s' :: Session and now'
  assume ms: "s_mode_state s' = s_mode_state (apply_mode_response r s)"
  have ld: "hx_decode_state x (s_mode_state s') = Some st'"
    using codec_law st(4,6) ms by (simp add: handoff_codec_law_def handoff_state_inv_def)
  have "\<forall>q \<in> set (bt_values (hs_offers st')). ho_disposition q \<noteq> Offered"
    by (rule effect_accept_clears [OF st(3,2) ty])
  then show "m_due_synthetic_envelope (HandoffMode x) s' now' = None"
    using ld by (auto simp: HandoffMode_def elim!: due_facts intro: ccontr)
qed

section \<open>An instance of the codec\<close>

text \<open>The records of the state are countable, so a codec that satisfies the law exists: a state
  is written in unary as its index.\<close>

instance HandoffDisposition :: countable
  by countable_datatype

instance HandoffOfferRecord_ext :: (countable) countable
  by (rule countable_classI [of "\<lambda>r. to_nat (ho_handoff_id r, ho_target_participant r, ho_scope r,
        ho_reason r, ho_offered_by r, ho_disposition r, ho_accepted_by r, ho_declined_by r,
        ho_outcome_reason r, ho_offered_at_ms r, ho_suspended_ms_at_offer r,
        HandoffOfferRecord.more r)"]) simp

instance HandoffContextRecord_ext :: (countable) countable
  by (rule countable_classI [of "\<lambda>r. to_nat (hc_content_type r, hc_context r, hc_sender r,
        HandoffContextRecord.more r)"]) simp

instance HandoffState_ext :: (countable) countable
  by (rule countable_classI [of "\<lambda>r. to_nat (hs_offers r, hs_contexts r, HandoffState.more r)"]) simp

text \<open>Payload decoders that read one fixed payload each, with every other input refused.\<close>

definition example_handoff :: handoff_ext where
  "example_handoff =
     \<lparr>x_decode_commitment = (\<lambda>_. None), x_rules = no_rules, x_evaluator = (\<lambda>_. Allow []),
      hx_decode_offer = (\<lambda>b. if b = ''offer'' then Some \<lparr>hop_handoff_id = ''h1'',
         hop_target_participant = ''bob'', hop_scope = [], hop_reason = []\<rparr> else None),
      hx_decode_context = (\<lambda>_. None),
      hx_decode_accept = (\<lambda>b. if b = ''accept'' then Some \<lparr>hap_handoff_id = ''h1'',
         hap_accepted_by = ''bob'', hap_reason = IMPLICIT_ACCEPT_REASON, hap_implicit = True\<rparr>
         else None),
      hx_encode_accept = (\<lambda>_. ''accept''),
      hx_decode_decline = (\<lambda>b. if b = ''decline'' then Some \<lparr>hdp_handoff_id = ''h1'',
         hdp_declined_by = ''bob'', hdp_reason = []\<rparr> else None),
      hx_encode_state = unary_encode, hx_decode_state = unary_decode\<rparr>"

lemma example_handoff_law: "handoff_codec_law example_handoff"
  by (simp add: handoff_codec_law_def example_handoff_def)

interpretation unary_handoff: handoff_codec example_handoff
  by unfold_locales (rule example_handoff_law)

end
