(* ===== verification/Handoff_Clock.thy ===== *)
theory Handoff_Clock
  imports Handoff_Mode
begin

text \<open>
  The timestamp of the synthetic implicit accept. \<^verbatim>\<open>due_synthetic_envelope\<close> decides with a
  scalar computation and stamps with the interval walk; its debug assertion says that the stamp is
  never in the future of the observation. The assertion is shown to hold on every session driven
  with a clock that does not step back, and the stamp is shown to be the earliest instant at which
  the timeout had elapsed outside the recorded pauses.
\<close>

section \<open>The under-count invariant\<close>

definition outstanding :: "handoff_ext \<Rightarrow> Session \<Rightarrow> HandoffOfferRecord set" where
  "outstanding x s = {q. \<exists>st k. load_state x s = Some st \<and> bt_get (hs_offers st) k = Some q \<and>
     ho_disposition q = Offered}"

definition offer_clock :: "i64 \<Rightarrow> Session \<Rightarrow> HandoffOfferRecord \<Rightarrow> bool" where
  "offer_clock t s q \<longleftrightarrow> 0 \<le> ho_suspended_ms_at_offer q \<and> ho_offered_at_ms q \<le> t \<and>
     pauses_from (ho_offered_at_ms q) (s_suspension_intervals s)
       \<le> s_accumulated_suspended_ms s - ho_suspended_ms_at_offer q \<and>
     (\<forall>p \<in> set (s_suspension_intervals s). snd p \<le> ho_offered_at_ms q \<or> ho_offered_at_ms q \<le> fst p) \<and>
     (\<forall>a. s_state s = Suspended \<longrightarrow> s_suspended_at_ms s = Some a \<longrightarrow> ho_offered_at_ms q \<le> a)"

definition pause_clock :: "i64 \<Rightarrow> Session \<Rightarrow> bool" where
  "pause_clock t s \<longleftrightarrow> 0 \<le> t \<and>
     (\<forall>p \<in> set (s_suspension_intervals s). 0 \<le> fst p \<and> fst p \<le> snd p \<and> snd p \<le> t) \<and>
     (case s_suspended_at_ms s of None \<Rightarrow> True
      | Some a \<Rightarrow> s_accumulated_suspended_ms s \<le> a \<and> a \<le> t) \<and>
     0 \<le> s_accumulated_suspended_ms s \<and> s_accumulated_suspended_ms s \<le> t \<and>
     timeline 0 (s_suspension_intervals s) \<and>
     (\<forall>a. s_state s = Suspended \<longrightarrow> s_suspended_at_ms s = Some a \<longrightarrow>
        (\<forall>p \<in> set (s_suspension_intervals s). snd p \<le> a))"

definition clock_inv :: "handoff_ext \<Rightarrow> i64 \<Rightarrow> Session \<Rightarrow> bool" where
  "clock_inv x t s \<longleftrightarrow> pause_clock t s \<and> (\<forall>q \<in> outstanding x s. offer_clock t s q)"

lemma outstanding_frame: "s_mode_state s' = s_mode_state s \<Longrightarrow> outstanding x s' = outstanding x s"
  by (simp add: outstanding_def load_state_def)

lemma offer_clock_frame:
  assumes "offer_clock t s q" "t \<le> t'" "s_suspension_intervals s' = s_suspension_intervals s"
    "s_accumulated_suspended_ms s' = s_accumulated_suspended_ms s"
    "s_suspended_at_ms s' = s_suspended_at_ms s \<or> s_suspended_at_ms s' = None"
    "s_state s' = Suspended \<Longrightarrow> s_state s = Suspended"
  shows "offer_clock t' s' q"
  using assms by (auto simp: offer_clock_def)

lemma pause_clock_frame:
  assumes "pause_clock t s" "t \<le> t'" "s_suspension_intervals s' = s_suspension_intervals s"
    "s_accumulated_suspended_ms s' = s_accumulated_suspended_ms s"
    "s_suspended_at_ms s' = s_suspended_at_ms s \<or> s_suspended_at_ms s' = None"
    "s_state s' = Suspended \<Longrightarrow> s_state s = Suspended"
  shows "pause_clock t' s'"
  using assms by (cases "s_suspended_at_ms s") (auto simp: pause_clock_def intro: order_trans)

lemma clock_inv_frame:
  assumes "clock_inv x t s" "t \<le> t'" "s_suspension_intervals s' = s_suspension_intervals s"
    "s_accumulated_suspended_ms s' = s_accumulated_suspended_ms s"
    "s_suspended_at_ms s' = s_suspended_at_ms s \<or> s_suspended_at_ms s' = None"
    "s_mode_state s' = s_mode_state s" "s_state s' = Suspended \<Longrightarrow> s_state s = Suspended"
  shows "clock_inv x t' s'"
  using assms pause_clock_frame [of t s t' s'] offer_clock_frame [of t s _ t' s']
    outstanding_frame [of s' s x]
  by (auto simp: clock_inv_def)

lemma pauses_from_past:
  assumes "\<forall>p \<in> set ivs. fst p \<le> snd p \<and> snd p \<le> t"
  shows "pauses_from t ivs = 0"
  using assms
proof (induction ivs)
  case (Cons p ivs)
  then have "fst p \<ge> t \<longrightarrow> pause p = 0" by (auto simp: pause_def)
  moreover have "pauses_from t (p # ivs) = (if fst p \<ge> t then pause p else 0) + pauses_from t ivs"
    by (cases p) (simp add: pauses_from_def)
  ultimately show ?case using Cons by simp
qed (simp add: pauses_from_def)

lemma pauses_from_snoc:
  "pauses_from t (ivs @ [(a, b)]) \<le> pauses_from t ivs + max (b - a) 0"
  by (simp add: pauses_from_def pause_def)

lemma timeline_snoc:
  "timeline t ivs \<Longrightarrow> \<forall>p \<in> set ivs. snd p \<le> a \<Longrightarrow> t \<le> a \<Longrightarrow> a \<le> b \<Longrightarrow> timeline t (ivs @ [(a, b)])"
  by (induction t ivs rule: timeline.induct) auto

lemma timeline_filter: "timeline t ivs \<Longrightarrow> timeline u (filter (\<lambda>(a, _). u \<le> a) ivs)"
proof (induction t ivs rule: timeline.induct)
  case (2 t a b ivs)
  show ?case
  proof (cases "u \<le> a")
    case True
    have "filter (\<lambda>(a, _). u \<le> a) ivs = ivs"
      using timeline_starts [of b ivs] 2(2) True by (intro filter_True) fastforce
    then show ?thesis using True 2(2) by simp
  qed (use 2 in simp)
qed simp

lemma suspended_in_filter:
  assumes "\<forall>p \<in> set ivs. snd p \<le> u \<or> u \<le> fst p"
  shows "suspended_in (filter (\<lambda>(a, _). u \<le> a) ivs) u d = suspended_in ivs u d"
  using assms by (induction ivs) (auto simp: suspended_in_def)

lemma clock_inv_suspend:
  assumes "clock_inv x t s" "t \<le> t'"
  shows "clock_inv x t' (snd (suspend t' s))"
proof (cases "s_state s = Open")
  case False
  then show ?thesis using assms by (auto simp: suspend_def intro: clock_inv_frame)
next
  case True
  have "pause_clock t' s" using assms pause_clock_frame [of t s t' s] by (simp add: clock_inv_def)
  then have "pause_clock t' (snd (suspend t' s))" using True by (simp add: suspend_def pause_clock_def)
  moreover have "offer_clock t' (snd (suspend t' s)) q" if "q \<in> outstanding x s" for q
    using assms that True by (fastforce simp: clock_inv_def suspend_def offer_clock_def)
  moreover have "outstanding x (snd (suspend t' s)) = outstanding x s" by (rule outstanding_frame) simp
  ultimately show ?thesis by (auto simp: clock_inv_def)
qed

lemma clock_inv_resume:
  assumes inv: "clock_inv x t s" and t': "t \<le> t'" "t' \<le> i64_max"
  shows "clock_inv x t' (snd (resume t' s))"
proof (cases "s_state s = Suspended")
  case False
  then show ?thesis using assms by (auto simp: resume_def intro: clock_inv_frame)
next
  case True
  define a where "a = unwrap_or t' (s_suspended_at_ms s)"
  define s' where "s' = snd (resume t' s)"
  have pc: "pause_clock t s" using inv by (simp add: clock_inv_def)
  then have acc0: "0 \<le> s_accumulated_suspended_ms s" "0 \<le> t" by (simp_all add: pause_clock_def)
  have a: "s_accumulated_suspended_ms s \<le> a" "a \<le> t'" "0 \<le> a"
    using pc t' by (auto simp: pause_clock_def a_def unwrap_or_def split: option.splits)
  have banked: "max (wrap_i64 (t' - a)) 0 = t' - a"
    using a t' by (simp add: wrap_i64_id in_i64_def i64_min_def)
  have sum: "sat_add (s_accumulated_suspended_ms s) (t' - a) = s_accumulated_suspended_ms s + (t' - a)"
    using a t' acc0 by (simp add: sat_add_def sat_id in_i64_def i64_min_def)
  have acc: "s_accumulated_suspended_ms s' = s_accumulated_suspended_ms s + (t' - a)"
    and susp: "s_suspended_at_ms s' = None" and ms: "s_mode_state s' = s_mode_state s"
    and ivs: "s_suspension_intervals s' = s_suspension_intervals s \<or>
      s_suspension_intervals s' = s_suspension_intervals s @ [(a, t')]"
    using True banked sum by (auto simp: s'_def resume_def Let_def a_def [symmetric])
  have past: "snd p \<le> a" if "p \<in> set (s_suspension_intervals s)" for p
    using pc that t' True by (cases "s_suspended_at_ms s") (fastforce simp: pause_clock_def a_def unwrap_or_def)+
  have "timeline 0 (s_suspension_intervals s')"
    using ivs timeline_snoc [of 0 "s_suspension_intervals s" a t'] pc past a
    by (auto simp: pause_clock_def)
  then have "pause_clock t' s'"
    using pc ivs a t' acc susp acc0 by (auto simp: pause_clock_def intro: order_trans)
  moreover have "offer_clock t' s' q" if "q \<in> outstanding x s'" for q
  proof -
    have q: "offer_clock t s q" using that inv outstanding_frame [OF ms] by (auto simp: clock_inv_def)
    then have "ho_offered_at_ms q \<le> a"
      using True t' by (cases "s_suspended_at_ms s") (auto simp: offer_clock_def a_def unwrap_or_def)
    moreover have "pauses_from u (s_suspension_intervals s')
        \<le> pauses_from u (s_suspension_intervals s) + (t' - a)" for u
      using ivs pauses_from_snoc [of u "s_suspension_intervals s" a t'] a by auto
    note this [of "ho_offered_at_ms q"]
    ultimately show ?thesis using q ivs susp acc t' by (auto simp: offer_clock_def)
  qed
  ultimately show ?thesis by (simp add: clock_inv_def s'_def)
qed

lemma clock_inv_message:
  assumes inv: "clock_inv x t s" and law: "handoff_codec_law x" and minv: "handoff_minv x s"
    and h: "handle_message x s env clock = Inr r" and rev: "s_semantics_rev s \<ge> 2"
    and t': "t \<le> t'" "clock = t' \<or> e_message_type env = ''HandoffAccept''"
    and live: "s_state s = Open"
  shows "clock_inv x t' (apply_mode_response r s)"
proof -
  obtain st st' where st: "load_state x s = Some st" "handoff_state_inv st"
    "handoff_effect x s env clock st st'" "load_state x (apply_mode_response r s) = Some st'"
    using h by (auto elim!: message_load [OF law minv])
  have wf: "bt_invar (hs_offers st)" using st(2) by (simp add: handoff_state_inv_def state_wf_def)
  have pc: "pause_clock t' s" using inv t'(1) pause_clock_frame by (auto simp: clock_inv_def)
  have fr: "s_suspension_intervals (apply_mode_response r s) = s_suspension_intervals s"
    "s_accumulated_suspended_ms (apply_mode_response r s) = s_accumulated_suspended_ms s"
    "s_suspended_at_ms (apply_mode_response r s) = s_suspended_at_ms s"
    "s_state (apply_mode_response r s) \<noteq> Suspended"
    by (cases r; simp add: live)+
  have old: "offer_clock t' s q" if "bt_get (hs_offers st) k = Some q" "ho_disposition q = Offered"
    for k q
  proof -
    have "q \<in> outstanding x s" using st(1) that by (auto simp: outstanding_def)
    then show ?thesis using inv t'(1) offer_clock_frame by (auto simp: clock_inv_def)
  qed
  have "offer_clock t' s q" if "bt_get (hs_offers st') k = Some q" "ho_disposition q = Offered" for k q
    using st(3)
  proof cases
    case (eff_offer offer)
    have "\<forall>p \<in> set (s_suspension_intervals s). fst p \<le> snd p \<and> snd p \<le> t'"
      using pc by (simp add: pause_clock_def)
    then have "pauses_from t' (s_suspension_intervals s) = 0" by (rule pauses_from_past)
    moreover have "clock = t'" using t'(2) eff_offer(2) by auto
    ultimately have "offer_clock t' s offer"
      using eff_offer rev pc live by (simp add: offer_clock_def pause_clock_def)
    then show ?thesis using that wf eff_offer(1) old by (auto split: if_splits)
  next
    case (eff_context j v)
    then show ?thesis using that old by simp
  next
    case (eff_answer d j p why)
    then have "k \<noteq> j" using that wf by (auto simp: answered_def)
    then show ?thesis using that old wf eff_answer(1) by simp
  next
    case eff_commit
    then have "st' = st" using rev by (simp add: interim_implicit_accept_def Let_def split: option.splits)
    then show ?thesis using that old by simp
  qed
  then have "offer_clock t' (apply_mode_response r s) q"
    if "q \<in> outstanding x (apply_mode_response r s)" for q
    using that st(4) by (auto simp: outstanding_def offer_clock_def fr)
  moreover have "pause_clock t' (apply_mode_response r s)"
    by (rule pause_clock_frame [OF pc]) (simp_all add: fr)
  ultimately show ?thesis by (simp add: clock_inv_def)
qed

section \<open>Sessions driven with a clock that does not step back\<close>

inductive clocked_run :: "handoff_ext \<Rightarrow> i64 \<Rightarrow> Session \<Rightarrow> bool" for x where
  run_start:
    "accept_session_start sx env t (HandoffMode x) policy opts = Ok s \<Longrightarrow> 0 \<le> t \<Longrightarrow> t \<le> i64_max \<Longrightarrow>
       clocked_run x t s"
| run_message:
    "clocked_run x t s \<Longrightarrow> t \<le> t' \<Longrightarrow> t' \<le> i64_max \<Longrightarrow>
       clocked_run x t' (snd (step s env (HandoffMode x) t'))"
| run_tick:
    "clocked_run x t s \<Longrightarrow> t \<le> t' \<Longrightarrow> t' \<le> i64_max \<Longrightarrow>
       clocked_run x t' (snd (advance s (HandoffMode x) t'))"
| run_suspend:
    "clocked_run x t s \<Longrightarrow> t \<le> t' \<Longrightarrow> t' \<le> i64_max \<Longrightarrow> clocked_run x t' (snd (suspend t' s))"
| run_resume:
    "clocked_run x t s \<Longrightarrow> t \<le> t' \<Longrightarrow> t' \<le> i64_max \<Longrightarrow> clocked_run x t' (snd (resume t' s))"
| run_cancel: "clocked_run x t s \<Longrightarrow> clocked_run x t (snd (cancel s))"
| run_expire: "clocked_run x t s \<Longrightarrow> clocked_run x t (snd (expire s))"

definition run_inv :: "handoff_ext \<Rightarrow> i64 \<Rightarrow> Session \<Rightarrow> bool" where
  "run_inv x t s \<longleftrightarrow> clock_inv x t s \<and> handoff_minv x s \<and> s_semantics_rev s \<ge> 2 \<and> t \<le> i64_max"

lemma rev_frame: "bound_fields s' = bound_fields s \<Longrightarrow> s_semantics_rev s' = s_semantics_rev s"
  by (simp add: bound_fields_def)

context handoff_codec
begin

lemma clock_inv_synthetic:
  assumes inv: "run_inv x t s" and t': "t \<le> t'" "t' \<le> i64_max"
    and syn: "next_synthetic s (HandoffMode x) now = Inr (Some syn)"
  shows "run_inv x t' (snd (commit_synthetic s syn))"
proof -
  have inv': "clock_inv x t s" "handoff_minv x s" "s_semantics_rev s \<ge> 2"
    using inv by (simp_all add: run_inv_def)
  note sf = next_synthetic_Some [OF syn]
  let ?e = "syn_envelope syn"
  have ty: "e_message_type ?e = ''HandoffAccept''"
    using sf(2) by (auto simp: HandoffMode_def implicit_accept_envelope_def elim!: due_facts)
  have "handle_message x s ?e (e_timestamp_unix_ms ?e) = Inr (syn_response syn)"
    using sf(5) inv'(3) by (simp add: HandoffMode_def handoff_on_message_at_def split: if_splits)
  then have "clock_inv x t' (apply_mode_response (syn_response syn) s)"
    using inv' t'(1) ty sf(1) by (intro clock_inv_message [OF _ codec_law]) auto
  then have "clock_inv x t' (snd (commit_synthetic s syn))"
    unfolding commit_synthetic_def
    by (elim clock_inv_frame) (cases "syn_response syn"; simp add: consume_id_def)+
  then show ?thesis
    using handoff_run.synthetic_applied(1) [OF inv'(2) syn] inv'(3) t'(2)
      rev_frame [OF handoff_run.synthetic_applied(3) [OF inv'(2) syn]]
    by (simp add: run_inv_def)
qed

lemma run_inv_advance:
  assumes "run_inv x t s" "t \<le> t'" "t' \<le> i64_max"
  shows "run_inv x t' (snd (advance s (HandoffMode x) now))"
proof -
  have m: "handoff_minv x s" using assms(1) by (simp add: run_inv_def)
  have keep: "run_inv x t' s" using assms clock_inv_frame [of x t s t' s] by (simp add: run_inv_def)
  show ?thesis
    using handoff_run.advance_cases [OF m, of now] keep clock_inv_synthetic [OF assms] by auto
qed

lemma run_inv_lifecycle:
  assumes "run_inv x t s"
  shows "t \<le> t' \<Longrightarrow> t' \<le> i64_max \<Longrightarrow> run_inv x t' (snd (suspend t' s))"
    "t \<le> t' \<Longrightarrow> t' \<le> i64_max \<Longrightarrow> run_inv x t' (snd (resume t' s))"
    "run_inv x t (snd (cancel s))" "run_inv x t (snd (expire s))"
proof -
  have i: "clock_inv x t s" "handoff_minv x s" "s_semantics_rev s \<ge> 2" "t \<le> i64_max"
    using assms by (simp_all add: run_inv_def)
  note m = handoff_run.lifecycle_minv [OF i(2)]
  have c: "clock_inv x t (snd (cancel s))" "clock_inv x t (snd (expire s))"
    by (rule clock_inv_frame [OF i(1)]; simp add: cancel_def expire_def split: if_splits)+
  show "t \<le> t' \<Longrightarrow> t' \<le> i64_max \<Longrightarrow> run_inv x t' (snd (suspend t' s))"
    "t \<le> t' \<Longrightarrow> t' \<le> i64_max \<Longrightarrow> run_inv x t' (snd (resume t' s))"
    "run_inv x t (snd (cancel s))" "run_inv x t (snd (expire s))"
    using clock_inv_suspend [OF i(1)] clock_inv_resume [OF i(1)] c m i(3,4)
      rev_frame [OF lifecycle_frame(2)] rev_frame [OF lifecycle_frame(4)]
      rev_frame [OF lifecycle_frame(6)] rev_frame [OF lifecycle_frame(8)]
    by (simp_all add: run_inv_def)
qed

lemma run_inv_step:
  assumes "run_inv x t s" "t \<le> t'" "t' \<le> i64_max"
  shows "run_inv x t' (snd (step s env (HandoffMode x) t'))"
proof -
  obtain r s' where st: "step s env (HandoffMode x) t' = (r, s')"
    by (cases "step s env (HandoffMode x) t'")
  have keep: "run_inv x t' s"
    using assms clock_inv_frame [of x t s t' s] by (simp add: run_inv_def)
  show ?thesis
  proof (cases r)
    case (Inl e)
    then consider "s' = s" | "s' = snd (expire s)" | "s' = snd (advance s (HandoffMode x) t')"
      using step_rejected st by fastforce
    then show ?thesis
      using st keep run_inv_lifecycle(4) [OF keep] run_inv_advance [OF assms] by cases auto
  next
    case (Inr out)
    show ?thesis
    proof (cases out)
      case Duplicate
      with st Inr have "s' = s" by (auto dest: step_duplicate(1))
      then show ?thesis using st keep by simp
    next
      case (Accepted state syns)
      with st Inr obtain s1 resp where acc: "advance s (HandoffMode x) t' = (Inr syns, s1)"
        "dispatch s1 env (HandoffMode x) t' = Inr resp" "s' = snd (commit s1 env resp t')"
        and pc: "check_preconditions s env t' = Inr PcProceed"
        by (auto elim: step_accepted)
      have "handoff_minv x s" using assms(1) by (simp add: run_inv_def)
      then have live: "s_state s1 = Open"
        using handoff_run.advance_minv(2) [of s t'] acc(1) pc preconditions_proceed by simp
      have s1: "run_inv x t' s1" using run_inv_advance [OF assms, of t'] acc(1) by simp
      then have i: "clock_inv x t' s1" "handoff_minv x s1" "s_semantics_rev s1 \<ge> 2"
        by (simp_all add: run_inv_def)
      have "handle_message x s1 env t' = Inr resp"
        using acc(2) i(3) by (simp add: dispatch_def HandoffMode_def handoff_on_message_at_def split: if_splits)
      then have "clock_inv x t' (apply_mode_response resp s1)"
        using i live by (intro clock_inv_message [OF _ codec_law]) auto
      then have "clock_inv x t' s'"
        unfolding acc(3) commit_def Let_def
        by (elim clock_inv_frame)
          (cases resp; simp add: consume_id_def record_participant_activity_def)+
      moreover have "handoff_minv x s'"
        using handoff_run.step_minv [of s env t'] st assms(1) by (simp add: run_inv_def)
      moreover have "bound_fields s' = bound_fields s1"
        unfolding acc(3) by (simp add: commit_def Let_def)
      note rev_frame [OF this]
      ultimately show ?thesis using st i(3) assms(3) by (simp add: run_inv_def)
    qed
  qed
qed

lemma clocked_run_inv: "clocked_run x t s \<Longrightarrow> run_inv x t s"
proof (induction rule: clocked_run.induct)
  case (run_start sx env t policy opts s)
  obtain v s0 r where a: "m_on_session_start (HandoffMode x) s0 env = Inr r"
    "s = apply_mode_response r (consume_id (e_message_id env) s0)"
    "s_suspension_intervals s0 = []" "s_accumulated_suspended_ms s0 = 0"
    "s_suspended_at_ms s0 = None" "s_semantics_rev s0 = CURRENT_SEMANTICS_REV"
    using run_start(1) by (rule accept_facts)
  have r: "r = PersistState (hx_encode_state x default_HandoffState)"
    using a(1) by (simp add: HandoffMode_def handoff_on_session_start_def res_simps)
  have ld: "load_state x s = Some default_HandoffState"
    using default_state_inv r a(2)
    by (intro load_encoded [OF codec_law]) (simp_all add: handoff_state_inv_def consume_id_def)
  then have "outstanding x s = {}" by (simp add: outstanding_def default_HandoffState_def)
  then have "clock_inv x t s"
    using a r run_start(2) by (simp add: clock_inv_def pause_clock_def consume_id_def)
  moreover have "handoff_minv x s" using ld default_state_inv by (auto simp: handoff_minv_def)
  ultimately show ?case
    using a r run_start(3) by (simp add: run_inv_def consume_id_def CURRENT_SEMANTICS_REV_def)
qed (auto intro: run_inv_step run_inv_advance run_inv_lifecycle)

end

section \<open>The stamp is in the past of the observation\<close>

text \<open>The time between two instants that lies outside the recorded pauses.\<close>

definition unsuspended :: "Session \<Rightarrow> i64 \<Rightarrow> i64 \<Rightarrow> i64" where
  "unsuspended s a b = (b - a) - suspended_in (s_suspension_intervals s) a b"

lemma deadline_le_now:
  assumes q: "offer_clock t s q" "pause_clock t s" and el: "timeout \<le> rev2_elapsed_ms s q now"
    and pos: "0 < ho_offered_at_ms q" "0 < timeout" "timeout \<le> i64_max"
    and now: "t \<le> now" "now \<le> i64_max"
  defines "d \<equiv> unsuspended_deadline s (ho_offered_at_ms q) timeout"
  shows "d \<le> now \<and> ho_offered_at_ms q \<le> d \<and>
    (d - ho_offered_at_ms q) - suspended_in (s_suspension_intervals s) (ho_offered_at_ms q) d = timeout \<and>
    (\<forall>u. ho_offered_at_ms q \<le> u \<and> u < d \<longrightarrow>
       (u - ho_offered_at_ms q) - suspended_in (s_suspension_intervals s) (ho_offered_at_ms q) u < timeout)"
proof -
  let ?f = "filter (\<lambda>(a, _). a \<ge> ho_offered_at_ms q) (s_suspension_intervals s)"
  let ?since = "s_accumulated_suspended_ms s - ho_suspended_ms_at_offer q"
  have p0: "0 \<le> pauses_from (ho_offered_at_ms q) (s_suspension_intervals s)"
    by (rule pauses_from_nonneg)
  have off: "ho_offered_at_ms q \<le> t" "0 \<le> ho_suspended_ms_at_offer q"
    "pauses_from (ho_offered_at_ms q) (s_suspension_intervals s) \<le> ?since"
    using q(1) by (simp_all add: offer_clock_def)
  have acc: "0 \<le> s_accumulated_suspended_ms s" "s_accumulated_suspended_ms s \<le> t"
    using q(2) by (simp_all add: pause_clock_def)
  have since: "0 \<le> ?since" "?since \<le> i64_max" using off p0 acc now by linarith+
  have "sat_sub (s_accumulated_suspended_ms s) (ho_suspended_ms_at_offer q) = ?since"
    using since by (simp add: sat_sub_def sat_id in_i64_def i64_min_def)
  moreover have "sat_sub now (ho_offered_at_ms q) = now - ho_offered_at_ms q"
    using off pos(1) now by (simp add: sat_sub_def sat_id in_i64_def i64_min_def)
  ultimately have "timeout \<le> sat (now - ho_offered_at_ms q - ?since)"
    using el since by (simp add: rev2_elapsed_ms_def Let_def sat_sub_def)
  then have elapsed: "ho_offered_at_ms q + timeout + ?since \<le> now"
    using pos(2) by (auto simp: sat_def i64_min_def i64_max_def split: if_splits)
  have ivs: "\<forall>(a, b) \<in> set ?f. in_i64 a \<and> in_i64 b"
    using q(2) now by (auto simp: pause_clock_def in_i64_def i64_min_def dest!: bspec)
  have rng: "in_i64 (ho_offered_at_ms q)" "in_i64 timeout"
    using pos off now by (simp_all add: in_i64_def i64_min_def)
  have "d \<le> sat (ho_offered_at_ms q + timeout + sum_list (map pause ?f))"
    unfolding d_def unsuspended_deadline_def by (rule deadline_walk_le [OF rng ivs])
  moreover have "sum_list (map pause ?f) \<le> ?since" using off(3) by (simp add: pauses_from_def)
  ultimately have "d \<le> sat now" using elapsed sat_mono order_trans by (metis add_left_mono)
  moreover have "sat now = now" using now off pos by (simp add: sat_id in_i64_def i64_min_def)
  ultimately have late: "d \<le> now" by simp
  have "timeline (ho_offered_at_ms q) ?f"
    by (rule timeline_filter [of 0]) (use q(2) in \<open>simp add: pause_clock_def\<close>)
  moreover have "ho_offered_at_ms q + timeout + sum_list (map pause ?f) \<le> i64_max"
    using \<open>sum_list (map pause ?f) \<le> ?since\<close> elapsed now by linarith
  moreover have "\<forall>(a, b) \<in> set ?f. b \<le> i64_max" using ivs by (auto simp: in_i64_def)
  moreover have "suspended_in ?f (ho_offered_at_ms q) u
      = suspended_in (s_suspension_intervals s) (ho_offered_at_ms q) u" for u
    by (rule suspended_in_filter) (use q(1) in \<open>simp add: offer_clock_def\<close>)
  ultimately show ?thesis
    using deadline_walk_earliest [of "ho_offered_at_ms q" ?f timeout] pos late
    by (simp add: d_def unsuspended_deadline_def)
qed

lemma timeout_le_max: "implicit_accept_timeout_ms x s \<le> i64_max"
proof -
  have "in_i64 (wrap_i64 n)" for n by (rule in_i64_wrap)
  then show ?thesis
    by (auto simp: implicit_accept_timeout_ms_def in_i64_def i64_max_def split: option.splits)
qed

lemma synthetic_stamp:
  assumes law: "handoff_codec_law x" and run: "clocked_run x t s" and now: "t \<le> now" "now \<le> i64_max"
    and due: "handoff_due_synthetic_envelope x s now = Some env"
  obtains st k q where "load_state x s = Some st" "bt_get (hs_offers st) k = Some q"
    "ho_disposition q = Offered" "e_sender env = ho_target_participant q"
    "e_message_id env = implicit_accept_id k"
    "e_timestamp_unix_ms env \<le> now" "ho_offered_at_ms q \<le> e_timestamp_unix_ms env"
    "unsuspended s (ho_offered_at_ms q) (e_timestamp_unix_ms env) = implicit_accept_timeout_ms x s"
    "\<forall>u. ho_offered_at_ms q \<le> u \<and> u < e_timestamp_unix_ms env \<longrightarrow>
       unsuspended s (ho_offered_at_ms q) u < implicit_accept_timeout_ms x s"
proof -
  have "handoff_codec x" by unfold_locales (rule law)
  then have inv: "run_inv x t s" using run by (rule handoff_codec.clocked_run_inv)
  obtain st q where d: "s_semantics_rev s \<ge> 2" "0 < implicit_accept_timeout_ms x s"
    "s_mode_state s \<noteq> []" "hx_decode_state x (s_mode_state s) = Some st"
    "q \<in> set (bt_values (hs_offers st))" "ho_disposition q = Offered" "0 < ho_offered_at_ms q"
    "implicit_accept_timeout_ms x s \<le> rev2_elapsed_ms s q now"
    "env = implicit_accept_envelope x s q
       (unsuspended_deadline s (ho_offered_at_ms q) (implicit_accept_timeout_ms x s))"
    using due by (rule due_facts)
  have ld: "load_state x s = Some st" using d(3,4) by (simp add: load_state_def)
  then have si: "handoff_state_inv st" using inv by (auto simp: run_inv_def handoff_minv_def)
  then obtain k where k: "bt_get (hs_offers st) k = Some q"
    using d(5) by (auto simp: bt_values_iff handoff_state_inv_def state_wf_def)
  have "ho_handoff_id q = k" using si k by (auto simp: handoff_state_inv_def offer_ok_def)
  have "q \<in> outstanding x s" using ld k d(6) by (auto simp: outstanding_def)
  then have "offer_clock t s q" "pause_clock t s" using inv by (auto simp: run_inv_def clock_inv_def)
  from deadline_le_now [OF this d(8,7,2) timeout_le_max now]
  show ?thesis
    using that [OF ld k d(6)] d(9) \<open>ho_handoff_id q = k\<close>
    by (simp add: implicit_accept_envelope_def unsuspended_def)
qed

end
