(* ===== verification/Quorum_Mode.thy ===== *)
theory Quorum_Mode
  imports Replay State_Codec
begin

text \<open>
  Quorum mode (\<^verbatim>\<open>macp-modes/src/mode/quorum.rs\<close>): one ApprovalRequest, one ballot per
  participant, and a Commitment once the threshold is met or out of reach. The three ballot
  payloads carry the same two fields and share a record type here.
\<close>

section \<open>State and payloads\<close>

datatype BallotChoice = Approve | Reject | Abstain

record ApprovalRequestRecord =
  ar_request_id :: string
  ar_action :: string
  ar_summary :: string
  ar_details :: bytes
  ar_required_approvals :: u32
  ar_requested_by :: string

record BallotRecord =
  br_request_id :: string
  br_choice :: BallotChoice
  br_sender :: string
  br_reason :: string

record QuorumState =
  qs_request :: "ApprovalRequestRecord option"
  qs_ballots :: "(string, BallotRecord) btree"

definition default_QuorumState :: QuorumState where
  "default_QuorumState = \<lparr>qs_request = None, qs_ballots = bt_empty\<rparr>"

record ApprovalRequestPayload =
  arp_request_id :: string
  arp_action :: string
  arp_summary :: string
  arp_details :: bytes
  arp_required_approvals :: u32

record BallotPayload =
  bp_request_id :: string
  bp_reason :: string

record quorum_ext = mode_ext +
  qx_decode_request :: "bytes \<Rightarrow> ApprovalRequestPayload option"
  qx_decode_approve :: "bytes \<Rightarrow> BallotPayload option"
  qx_decode_reject :: "bytes \<Rightarrow> BallotPayload option"
  qx_decode_abstain :: "bytes \<Rightarrow> BallotPayload option"
  qx_encode_state :: "QuorumState \<Rightarrow> bytes"
  qx_decode_state :: "bytes \<Rightarrow> QuorumState option"

section \<open>Thresholds and readiness\<close>

datatype ApprovalThreshold = Approvals u32 | Unsatisfiable

definition quorum_rules :: "quorum_ext \<Rightarrow> PolicyDefinition \<Rightarrow> QuorumPolicyRules" where
  "quorum_rules x policy =
     unwrap_or default_QuorumPolicyRules (parse_quorum_rules (x_rules x) (p_rules policy))"

definition effective_threshold ::
    "quorum_ext \<Rightarrow> Session \<Rightarrow> ApprovalRequestRecord \<Rightarrow> ApprovalThreshold" where
  "effective_threshold x s request =
     (case s_policy_definition s of
        None \<Rightarrow> Approvals (ar_required_approvals request)
      | Some policy \<Rightarrow>
          (case effective (qpr_threshold (quorum_rules x policy)) (length (s_participants s)) of
             EffectiveThreshold.Inert \<Rightarrow> Approvals (ar_required_approvals request)
           | EffectiveThreshold.Approvals required \<Rightarrow> Approvals required
           | EffectiveThreshold.Unsatisfiable \<Rightarrow> Unsatisfiable))"

definition effective_threshold_for_session ::
    "quorum_ext \<Rightarrow> Session \<Rightarrow> ApprovalThreshold option result" where
  "effective_threshold_for_session x s =
     (if s_mode_state s = [] then Ok None
      else and_then (decode_mode_state (qx_decode_state x) (s_mode_state s)) (\<lambda>st.
        Ok (map_option (effective_threshold x s) (qs_request st))))"

definition count_ballots :: "BallotChoice \<Rightarrow> QuorumState \<Rightarrow> nat" where
  "count_ballots c st = length (filter (\<lambda>b. br_choice b = c) (bt_values (qs_ballots st)))"

definition commitment_ready :: "quorum_ext \<Rightarrow> Session \<Rightarrow> QuorumState \<Rightarrow> bool" where
  "commitment_ready x s st =
     (case qs_request st of
        None \<Rightarrow> False
      | Some request \<Rightarrow>
          (case effective_threshold x s request of
             Unsatisfiable \<Rightarrow> False
           | Approvals required \<Rightarrow>
               (let approvals = as_u32 (count_ballots Approve st);
                    total_eligible = as_u32 (length (s_participants s));
                    counted = as_u32 (length (qs_ballots st));
                    remaining = total_eligible - counted
                in approvals \<ge> required \<or> as_u32 (approvals + remaining) < required)))"

section \<open>The mode\<close>

definition quorum_authorize_sender :: "quorum_ext \<Rightarrow> Session \<Rightarrow> Envelope \<Rightarrow> unit result" where
  "quorum_authorize_sender x s env =
     (if e_message_type env = ''ApprovalRequest'' then
        (if e_sender env = s_initiator_sender s then Ok () else Err Forbidden)
      else if e_message_type env = ''Commitment'' then
        check_commitment_authority x s (e_sender env)
      else if is_declared_participant (s_participants s) (e_sender env) then Ok ()
      else Err Forbidden)"

definition quorum_on_session_start :: "quorum_ext \<Rightarrow> Session \<Rightarrow> Envelope \<Rightarrow> ModeResponse result" where
  "quorum_on_session_start x s env =
     (if s_participants s = [] then Err InvalidPayload
      else Ok (PersistState (qx_encode_state x default_QuorumState)))"

definition handle_request ::
    "quorum_ext \<Rightarrow> Session \<Rightarrow> Envelope \<Rightarrow> QuorumState \<Rightarrow> ModeResponse result" where
  "handle_request x s env st =
     (if e_sender env \<noteq> s_initiator_sender s then Err Forbidden
      else and_then (ok_or (qx_decode_request x (e_payload env)) InvalidPayload) (\<lambda>payload.
        if qs_request st \<noteq> None \<or> arp_request_id payload = []
           \<or> arp_required_approvals payload = 0
           \<or> arp_required_approvals payload > as_u32 (length (s_participants s))
        then Err InvalidPayload
        else
          let record =
            \<lparr>ar_request_id = arp_request_id payload, ar_action = arp_action payload,
             ar_summary = arp_summary payload, ar_details = arp_details payload,
             ar_required_approvals = arp_required_approvals payload,
             ar_requested_by = e_sender env\<rparr>
          in case effective_threshold x s record of
               Approvals _ \<Rightarrow>
                 Ok (PersistState (qx_encode_state x (st\<lparr>qs_request := Some record\<rparr>)))
             | Unsatisfiable \<Rightarrow> Err InvalidPayload))"

definition handle_ballot ::
    "quorum_ext \<Rightarrow> BallotChoice \<Rightarrow> (bytes \<Rightarrow> BallotPayload option) \<Rightarrow> Envelope \<Rightarrow> QuorumState
     \<Rightarrow> ModeResponse result" where
  "handle_ballot x choice decode env st =
     and_then (ok_or (decode (e_payload env)) InvalidPayload) (\<lambda>payload.
     and_then (ok_or (qs_request st) InvalidPayload) (\<lambda>request.
     if bp_request_id payload \<noteq> ar_request_id request
        \<or> bt_contains (qs_ballots st) (e_sender env)
     then Err InvalidPayload
     else
       let ballot = \<lparr>br_request_id = bp_request_id payload, br_choice = choice,
                     br_sender = e_sender env, br_reason = bp_reason payload\<rparr>
       in Ok (PersistState (qx_encode_state x
            (st\<lparr>qs_ballots := bt_insert (e_sender env) ballot (qs_ballots st)\<rparr>)))))"

definition handle_commitment ::
    "quorum_ext \<Rightarrow> Session \<Rightarrow> Envelope \<Rightarrow> QuorumState \<Rightarrow> ModeResponse result" where
  "handle_commitment x s env st =
     and_then (validate_commitment_payload_for_session x s (e_payload env)) (\<lambda>commitment.
     if \<not> commitment_ready x s st then Err InvalidPayload
     else and_then
       (enforce_commitment_policy x s
          (CM_Quorum (count_ballots Approve st) (count_ballots Reject st) (count_ballots Abstain st))
          (cp_outcome_positive commitment)) (\<lambda>_.
       Ok (PersistAndResolve (qx_encode_state x st) (e_payload env))))"

definition quorum_on_message :: "quorum_ext \<Rightarrow> Session \<Rightarrow> Envelope \<Rightarrow> ModeResponse result" where
  "quorum_on_message x s env =
     and_then (if s_mode_state s = [] then Ok default_QuorumState
               else decode_mode_state (qx_decode_state x) (s_mode_state s)) (\<lambda>st.
     if e_message_type env = ''ApprovalRequest'' then handle_request x s env st
     else if e_message_type env = ''Approve'' then
       handle_ballot x Approve (qx_decode_approve x) env st
     else if e_message_type env = ''Reject'' then
       handle_ballot x Reject (qx_decode_reject x) env st
     else if e_message_type env = ''Abstain'' then
       handle_ballot x Abstain (qx_decode_abstain x) env st
     else if e_message_type env = ''Commitment'' then handle_commitment x s env st
     else Err InvalidPayload)"

definition QuorumMode :: "quorum_ext \<Rightarrow> Mode" where
  "QuorumMode x =
     (default_mode (quorum_on_session_start x) (quorum_on_message x))
       \<lparr>m_authorize_sender := quorum_authorize_sender x\<rparr>"

section \<open>The kernel contract\<close>

lemma quorum_authorize_frame:
  assumes "bound_fields s' = bound_fields s"
  shows "quorum_authorize_sender x s' env = quorum_authorize_sender x s env"
  unfolding quorum_authorize_sender_def authority_frame [OF assms]
  using assms by (simp add: bound_fields_def)

interpretation quorum_run: mode_contract "QuorumMode x" "\<lambda>_. True" for x
  unfolding QuorumMode_def by (rule contract_default_mode) (rule quorum_authorize_frame)

section \<open>Ballots\<close>

definition ballot_inv :: "Session \<Rightarrow> QuorumState \<Rightarrow> bool" where
  "ballot_inv s st \<longleftrightarrow> bt_invar (qs_ballots st) \<and>
     (\<forall>k b. bt_get (qs_ballots st) k = Some b \<longrightarrow> br_sender b = k \<and> k \<in> set (s_participants s)) \<and>
     (qs_request st = None \<longrightarrow> qs_ballots st = bt_empty)"

lemma keys_eq: "bt_invar m \<Longrightarrow> fst ` set m = {k. bt_get m k \<noteq> None}"
  by (auto simp: bt_get_None_iff)

lemma ballots_le_participants:
  assumes "ballot_inv s st"
  shows "length (qs_ballots st) \<le> card (set (s_participants s))"
proof -
  have "distinct (map fst (qs_ballots st))"
    using assms by (intro bt.distinct_keys) (simp add: ballot_inv_def)
  then have "length (qs_ballots st) = card (fst ` set (qs_ballots st))"
    by (metis distinct_card length_map set_map)
  also have "\<dots> \<le> card (set (s_participants s))"
    using assms by (intro card_mono) (auto simp: ballot_inv_def keys_eq)
  finally show ?thesis .
qed

lemma count_le_ballots: "count_ballots c st \<le> length (qs_ballots st)"
  by (simp add: count_ballots_def bt_values_def)

lemma count_fresh:
  assumes "bt_invar (qs_ballots st)" "bt_get (qs_ballots st) k = None"
  shows "count_ballots c (st\<lparr>qs_ballots := bt_insert k b (qs_ballots st)\<rparr>)
    = (if br_choice b = c then 1 else 0) + count_ballots c st"
  using bt.count_ins_fresh [OF assms, of "\<lambda>e. br_choice (snd e) = c" b]
  by (simp add: count_ballots_def bt_values_def filter_map comp_def)

section \<open>Readiness, semantically\<close>

text \<open>
  The ballot box can still reach a bar if some completion of it, with further ballots cast by
  declared participants, holds that many approvals.
\<close>

definition extends :: "QuorumState \<Rightarrow> QuorumState \<Rightarrow> bool" where
  "extends st st' \<longleftrightarrow>
     (\<forall>k b. bt_get (qs_ballots st) k = Some b \<longrightarrow> bt_get (qs_ballots st') k = Some b)"

definition can_reach :: "Session \<Rightarrow> QuorumState \<Rightarrow> nat \<Rightarrow> bool" where
  "can_reach s st n \<longleftrightarrow> (\<exists>st'. ballot_inv s st' \<and> extends st st' \<and> n \<le> count_ballots Approve st')"

lemma count_card:
  assumes "bt_invar (qs_ballots st)"
  shows "count_ballots c st = card {k. \<exists>b. bt_get (qs_ballots st) k = Some b \<and> br_choice b = c}"
proof -
  let ?m = "filter (\<lambda>e. br_choice (snd e) = c) (qs_ballots st)"
  have d: "distinct (map fst (qs_ballots st))" by (rule bt.distinct_keys [OF assms])
  then have "distinct (map fst ?m)" by (rule distinct_map_filter)
  then have "length ?m = card (fst ` set ?m)" by (metis distinct_card length_map set_map)
  moreover have "fst ` set ?m = {k. \<exists>b. bt_get (qs_ballots st) k = Some b \<and> br_choice b = c}"
    by (force simp: bt.get_iff [OF assms])
  ultimately show ?thesis by (simp add: count_ballots_def bt_values_def filter_map comp_def)
qed

fun fill :: "string list \<Rightarrow> QuorumState \<Rightarrow> QuorumState" where
  "fill [] st = st"
| "fill (p # ps) st =
     (if bt_contains (qs_ballots st) p then fill ps st
      else fill ps (st\<lparr>qs_ballots := bt_insert p
             \<lparr>br_request_id = [], br_choice = Approve, br_sender = p, br_reason = []\<rparr> (qs_ballots st)\<rparr>))"

lemma fill_spec:
  assumes "ballot_inv s st" "qs_request st \<noteq> None" "distinct ps" "set ps \<subseteq> set (s_participants s)"
  shows "ballot_inv s (fill ps st) \<and> extends st (fill ps st) \<and>
    count_ballots Approve (fill ps st)
      = count_ballots Approve st + length (filter (\<lambda>p. bt_get (qs_ballots st) p = None) ps)"
  using assms
proof (induction ps arbitrary: st)
  case (Cons p ps)
  show ?case
  proof (cases "bt_get (qs_ballots st) p")
    case (Some b)
    then show ?thesis using Cons by (simp add: bt_contains_def)
  next
    case None
    let ?b = "\<lparr>br_request_id = [], br_choice = Approve, br_sender = p, br_reason = []\<rparr>"
    let ?st = "st\<lparr>qs_ballots := bt_insert p ?b (qs_ballots st)\<rparr>"
    have wf: "bt_invar (qs_ballots st)" using Cons.prems(1) by (simp add: ballot_inv_def)
    have inv: "ballot_inv s ?st"
      using Cons.prems by (auto simp: ballot_inv_def bt_invar_insert split: if_splits)
    have IH: "ballot_inv s (fill ps ?st) \<and> extends ?st (fill ps ?st) \<and>
      count_ballots Approve (fill ps ?st)
        = count_ballots Approve ?st + length (filter (\<lambda>q. bt_get (qs_ballots ?st) q = None) ps)"
      using inv Cons.prems by (intro Cons.IH) auto
    have "filter (\<lambda>q. bt_get (qs_ballots ?st) q = None) ps
        = filter (\<lambda>q. bt_get (qs_ballots st) q = None) ps"
      using Cons.prems(3) wf by (intro filter_cong) auto
    moreover have "extends st ?st" using None wf by (auto simp: extends_def)
    ultimately show ?thesis
      using IH None count_fresh [OF wf None, of Approve ?b] wf
      by (auto simp: bt_contains_def extends_def)
  qed
qed (simp add: extends_def)

lemma remaining_count:
  assumes "ballot_inv s st" "distinct (s_participants s)"
  shows "length (filter (\<lambda>p. bt_get (qs_ballots st) p = None) (s_participants s))
    = length (s_participants s) - length (qs_ballots st)"
proof -
  let ?P = "s_participants s" let ?K = "{k. bt_get (qs_ballots st) k \<noteq> None}"
  have K: "?K \<subseteq> set ?P" using assms(1) by (auto simp: ballot_inv_def)
  have wf: "bt_invar (qs_ballots st)" using assms(1) by (simp add: ballot_inv_def)
  have "length (qs_ballots st) = card ?K"
    using bt.distinct_keys [OF wf] keys_eq [OF wf] by (metis distinct_card length_map set_map)
  moreover have "length (filter (\<lambda>p. bt_get (qs_ballots st) p = None) ?P) = card (set ?P - ?K)"
    using assms(2) by (subst distinct_card [symmetric]) (auto intro: arg_cong [of _ _ card])
  moreover have "card (set ?P - ?K) = card (set ?P) - card ?K"
    using K finite_subset by (intro card_Diff_subset) auto
  ultimately show ?thesis using assms(2) by (simp add: distinct_card)
qed

lemma reachable_bound:
  assumes "ballot_inv s st" "ballot_inv s st'" "extends st st'" "distinct (s_participants s)"
  shows "count_ballots Approve st' \<le> count_ballots Approve st
    + (length (s_participants s) - length (qs_ballots st))"
proof -
  let ?A = "\<lambda>st. {k. \<exists>b. bt_get (qs_ballots st) k = Some b \<and> br_choice b = Approve}"
  let ?N = "set (filter (\<lambda>p. bt_get (qs_ballots st) p = None) (s_participants s))"
  have wf: "bt_invar (qs_ballots st)" "bt_invar (qs_ballots st')"
    using assms(1,2) by (simp_all add: ballot_inv_def)
  have fin: "finite (?A st)"
    by (rule finite_subset [of _ "set (s_participants s)"]) (use assms(1) in \<open>auto simp: ballot_inv_def\<close>)
  have "?A st' \<subseteq> ?A st \<union> ?N"
  proof
    fix k assume "k \<in> ?A st'"
    then obtain b where b: "bt_get (qs_ballots st') k = Some b" "br_choice b = Approve" by blast
    show "k \<in> ?A st \<union> ?N"
    proof (cases "bt_get (qs_ballots st) k")
      case None
      then show ?thesis using b(1) assms(2) by (auto simp: ballot_inv_def)
    next
      case (Some c)
      then have "c = b" using assms(3) b(1) by (auto simp: extends_def)
      then show ?thesis using Some b(2) by blast
    qed
  qed
  then have "card (?A st') \<le> card (?A st \<union> ?N)" using fin by (intro card_mono) auto
  also have "\<dots> \<le> card (?A st) + card ?N" by (rule card_Un_le)
  also have "card ?N = length (s_participants s) - length (qs_ballots st)"
    using remaining_count [OF assms(1,4)] distinct_card [OF distinct_filter [OF assms(4)]] by metis
  finally show ?thesis by (simp add: count_card wf)
qed

lemma can_reach_iff:
  assumes "ballot_inv s st" "qs_request st \<noteq> None" "distinct (s_participants s)"
  shows "can_reach s st n \<longleftrightarrow>
    n \<le> count_ballots Approve st + (length (s_participants s) - length (qs_ballots st))"
proof
  assume "can_reach s st n"
  then show "n \<le> count_ballots Approve st + (length (s_participants s) - length (qs_ballots st))"
    unfolding can_reach_def using reachable_bound [OF assms(1) _ _ assms(3)] by (meson order_trans)
next
  assume "n \<le> count_ballots Approve st + (length (s_participants s) - length (qs_ballots st))"
  then have "ballot_inv s (fill (s_participants s) st) \<and> extends st (fill (s_participants s) st)
    \<and> n \<le> count_ballots Approve (fill (s_participants s) st)"
    using fill_spec [OF assms(1,2,3) order_refl] remaining_count [OF assms(1,3)] by simp
  then show "can_reach s st n" unfolding can_reach_def by blast
qed

lemma ready_iff:
  assumes "ballot_inv s st" "distinct (s_participants s)" "length (s_participants s) < 2 ^ 32"
    and "qs_request st = Some request" "effective_threshold x s request = Approvals n"
  shows "commitment_ready x s st \<longleftrightarrow> n \<le> count_ballots Approve st \<or> \<not> can_reach s st n"
proof -
  have b: "length (qs_ballots st) \<le> length (s_participants s)"
    using ballots_le_participants [OF assms(1)] card_length order_trans by blast
  have c: "count_ballots Approve st \<le> length (qs_ballots st)" by (rule count_le_ballots)
  have "commitment_ready x s st \<longleftrightarrow> n \<le> count_ballots Approve st \<or>
      count_ballots Approve st + (length (s_participants s) - length (qs_ballots st)) < n"
    using assms(3-5) b c by (simp add: commitment_ready_def Let_def as_u32_id)
  then show ?thesis using can_reach_iff [OF assms(1) _ assms(2), of n] assms(4) by auto
qed

section \<open>The ballot invariant along a session\<close>

definition request_inv :: "quorum_ext \<Rightarrow> Session \<Rightarrow> QuorumState \<Rightarrow> bool" where
  "request_inv x s st \<longleftrightarrow> (\<forall>request. qs_request st = Some request \<longrightarrow>
     1 \<le> ar_required_approvals request \<and>
     ar_required_approvals request \<le> length (s_participants s) \<and>
     ar_requested_by request = s_initiator_sender s \<and>
     (\<exists>n \<ge> 1. effective_threshold x s request = Approvals n))"

definition quorum_inv :: "quorum_ext \<Rightarrow> Session \<Rightarrow> QuorumState \<Rightarrow> bool" where
  "quorum_inv x s st \<longleftrightarrow> ballot_inv s st \<and> request_inv x s st"

definition quorum_codec_law :: "quorum_ext \<Rightarrow> bool" where
  "quorum_codec_law x \<longleftrightarrow>
     (\<forall>st. bt_invar (qs_ballots st) \<longrightarrow>
        qx_decode_state x (qx_encode_state x st) = Some st \<and> qx_encode_state x st \<noteq> [])"

lemma inv_frame:
  assumes "bound_fields s' = bound_fields s"
  shows "ballot_inv s' st = ballot_inv s st" "request_inv x s' st = request_inv x s st"
proof -
  have f: "s_participants s' = s_participants s" "s_initiator_sender s' = s_initiator_sender s"
    "s_policy_definition s' = s_policy_definition s"
    using assms by (simp_all add: bound_fields_def)
  have "effective_threshold x s' = effective_threshold x s"
    unfolding effective_threshold_def f by (rule refl)
  then show "ballot_inv s' st = ballot_inv s st" "request_inv x s' st = request_inv x s st"
    unfolding ballot_inv_def request_inv_def f by simp_all
qed

lemma effective_threshold_pos:
  assumes "effective_threshold x s request = Approvals n" "1 \<le> ar_required_approvals request"
  shows "1 \<le> n"
  using assms effective_Approvals_bounds
  by (auto simp: effective_threshold_def split: option.splits EffectiveThreshold.splits)

lemma quorum_request_inv:
  assumes "handle_request x s env st = Inr r" "ballot_inv s st" "request_inv x s st"
  shows "\<exists>st'. response_state r = Some (qx_encode_state x st') \<and> ballot_inv s st' \<and> request_inv x s st'"
proof -
  obtain p where p: "qx_decode_request x (e_payload env) = Some p"
    using assms(1) by (auto simp: handle_request_def res_simps)
  define rc where "rc = \<lparr>ar_request_id = arp_request_id p, ar_action = arp_action p,
     ar_summary = arp_summary p, ar_details = arp_details p,
     ar_required_approvals = arp_required_approvals p, ar_requested_by = e_sender env\<rparr>"
  have g: "e_sender env = s_initiator_sender s" "qs_request st = None" "1 \<le> arp_required_approvals p"
    "arp_required_approvals p \<le> as_u32 (length (s_participants s))"
    using assms(1) p by (auto simp: handle_request_def res_simps)
  obtain n where n: "effective_threshold x s rc = Approvals n"
    "r = PersistState (qx_encode_state x (st\<lparr>qs_request := Some rc\<rparr>))"
    using assms(1) p
    by (auto simp: handle_request_def res_simps Let_def rc_def split: ApprovalThreshold.splits)
  have "as_u32 (length (s_participants s)) \<le> length (s_participants s)" by (simp add: as_u32_def)
  then have "request_inv x s (st\<lparr>qs_request := Some rc\<rparr>)"
    using g n effective_threshold_pos [OF n(1)] by (auto simp: request_inv_def rc_def)
  moreover have "ballot_inv s (st\<lparr>qs_request := Some rc\<rparr>)"
    using assms(2) by (simp add: ballot_inv_def)
  ultimately show ?thesis using n(2) by auto
qed

lemma handle_ballot_inv:
  assumes "handle_ballot x c dec env st = Inr r" "ballot_inv s st" "request_inv x s st"
    "e_sender env \<in> set (s_participants s)"
  shows "\<exists>st'. response_state r = Some (qx_encode_state x st') \<and> ballot_inv s st' \<and> request_inv x s st'"
proof -
  obtain b where b: "r = PersistState (qx_encode_state x
      (st\<lparr>qs_ballots := bt_insert (e_sender env) b (qs_ballots st)\<rparr>))"
    "br_sender b = e_sender env" "qs_request st \<noteq> None"
    using assms(1) by (auto simp: handle_ballot_def res_simps Let_def)
  have "ballot_inv s (st\<lparr>qs_ballots := bt_insert (e_sender env) b (qs_ballots st)\<rparr>)"
    using assms(2,4) b by (auto simp: ballot_inv_def bt_invar_insert split: if_splits)
  then show ?thesis using b(1) assms(3) by (auto simp: request_inv_def)
qed

lemma quorum_message_inv:
  assumes m: "quorum_on_message x s env = Inr r"
    and ld: "load (qx_decode_state x) default_QuorumState s = Some st"
    and inv: "ballot_inv s st" "request_inv x s st"
    and au: "quorum_authorize_sender x s env = Inr ()"
  shows "\<exists>st'. response_state r = Some (qx_encode_state x st') \<and> ballot_inv s st' \<and> request_inv x s st'"
proof -
  consider (q) "handle_request x s env st = Inr r"
    | (b) c dec where "handle_ballot x c dec env st = Inr r" "e_sender env \<in> set (s_participants s)"
    | (c) "handle_commitment x s env st = Inr r"
    using m au
    by (auto simp: quorum_on_message_def load_result ld quorum_authorize_sender_def split: if_splits)
  then show ?thesis
  proof cases
    case q
    then show ?thesis using quorum_request_inv inv by blast
  next
    case b
    then show ?thesis using handle_ballot_inv inv by blast
  next
    case c
    then have "response_state r = Some (qx_encode_state x st)"
      by (auto simp: handle_commitment_def res_simps)
    then show ?thesis using inv by blast
  qed
qed

locale quorum_codec =
  fixes x :: quorum_ext
  assumes codec_law: "quorum_codec_law x"

sublocale quorum_codec \<subseteq> quorum_state: stateful_mode "QuorumMode x" "qx_encode_state x"
  "qx_decode_state x" default_QuorumState "quorum_inv x"
proof
  fix s st
  assume "quorum_inv x s st"
  then show "qx_decode_state x (qx_encode_state x st) = Some st \<and> qx_encode_state x st \<noteq> []"
    using codec_law by (simp add: quorum_inv_def ballot_inv_def quorum_codec_law_def)
next
  fix s s' st
  assume "bound_fields s' = bound_fields s" "quorum_inv x s st"
  then show "quorum_inv x s' st" using inv_frame [of s' s] by (simp add: quorum_inv_def)
next
  fix s env r
  assume "m_on_session_start (QuorumMode x) s env = Inr r"
  then show "r = PersistState (qx_encode_state x default_QuorumState) \<and> quorum_inv x s default_QuorumState"
    by (simp add: QuorumMode_def default_mode_def quorum_on_session_start_def res_simps
        quorum_inv_def ballot_inv_def request_inv_def default_QuorumState_def)
next
  fix s st env ctx r
  assume "load (qx_decode_state x) default_QuorumState s = Some st" "quorum_inv x s st"
    "m_authorize_sender (QuorumMode x) s env = Inr ()" "m_on_message_at (QuorumMode x) s env ctx = Inr r"
  then show "\<exists>st'. response_state r = Some (qx_encode_state x st') \<and> quorum_inv x s st'"
    using quorum_message_inv [of x s env r st] by (simp add: QuorumMode_def default_mode_def quorum_inv_def)
next
  fix s s' env
  assume "bound_fields s' = bound_fields s"
  then show "m_authorize_sender (QuorumMode x) s' env = m_authorize_sender (QuorumMode x) s env"
    by (rule quorum_run.authorize_frame)
qed (simp add: QuorumMode_def default_mode_def)

section \<open>An instance of the codec\<close>

instance BallotChoice :: countable
  by countable_datatype

instance ApprovalRequestRecord_ext :: (countable) countable
  by (rule countable_classI [of "\<lambda>r. to_nat (ar_request_id r, ar_action r, ar_summary r, ar_details r,
        ar_required_approvals r, ar_requested_by r, ApprovalRequestRecord.more r)"]) simp

instance BallotRecord_ext :: (countable) countable
  by (rule countable_classI [of "\<lambda>r. to_nat (br_request_id r, br_choice r, br_sender r, br_reason r,
        BallotRecord.more r)"]) simp

instance QuorumState_ext :: (countable) countable
  by (rule countable_classI [of "\<lambda>r. to_nat (qs_request r, qs_ballots r, QuorumState.more r)"]) simp

text \<open>Two participants, no policy, ballots and commitments as fixed payloads.\<close>

definition example_commitment :: "bool \<Rightarrow> CommitmentPayload" where
  "example_commitment positive =
     \<lparr>cp_commitment_id = ''c1'', cp_action = ''deploy'', cp_authority_scope = ''team'',
      cp_reason = ''done'', cp_mode_version = ''1'', cp_policy_version = [],
      cp_configuration_version = ''c'', cp_outcome_positive = positive, cp_supersedes = None\<rparr>"

definition example_quorum :: quorum_ext where
  "example_quorum =
     \<lparr>x_decode_commitment = (\<lambda>b. if b = ''yes'' then Some (example_commitment True)
         else if b = ''no'' then Some (example_commitment False) else None),
      x_rules = no_rules, x_evaluator = (\<lambda>_. Allow []),
      qx_decode_request = (\<lambda>b. if b = ''request'' then Some \<lparr>arp_request_id = ''r1'',
         arp_action = ''deploy'', arp_summary = [], arp_details = [], arp_required_approvals = 2\<rparr>
         else None),
      qx_decode_approve = (\<lambda>_. Some \<lparr>bp_request_id = ''r1'', bp_reason = []\<rparr>),
      qx_decode_reject = (\<lambda>_. Some \<lparr>bp_request_id = ''r1'', bp_reason = []\<rparr>),
      qx_decode_abstain = (\<lambda>_. Some \<lparr>bp_request_id = ''r1'', bp_reason = []\<rparr>),
      qx_encode_state = unary_encode, qx_decode_state = unary_decode\<rparr>"

lemma example_quorum_law: "quorum_codec_law example_quorum"
  by (simp add: quorum_codec_law_def example_quorum_def)

interpretation unary_quorum: quorum_codec example_quorum
  by unfold_locales (rule example_quorum_law)

end
