(* ===== verification/Wire_Text.thy ===== *)
theory Wire_Text
  imports Prelude
begin

text \<open>
  Two facts about text the components share: which byte strings are UTF-8, as checked by
  \<^verbatim>\<open>from_utf8\<close> and \<^verbatim>\<open>read_to_string\<close>, and how far a text can be the JSON text of an object or an
  array.
\<close>

section \<open>UTF-8\<close>

definition between :: "nat \<Rightarrow> nat \<Rightarrow> char \<Rightarrow> bool" where
  "between lo hi c \<longleftrightarrow> lo \<le> of_char c \<and> of_char c \<le> hi"

text \<open>Well-formed sequences, no overlong forms, no surrogates, nothing above U+10FFFF.\<close>

fun utf8_ok :: "bytes \<Rightarrow> bool" where
  "utf8_ok [] = True"
| "utf8_ok (a # cs) =
     (if between 0 0x7F a then utf8_ok cs
      else (case cs of
        [] \<Rightarrow> False
      | b # cs1 \<Rightarrow>
          if between 0xC2 0xDF a then between 0x80 0xBF b \<and> utf8_ok cs1
          else (case cs1 of
            [] \<Rightarrow> False
          | c # cs2 \<Rightarrow>
              if between 0xE0 0xEF a then
                (if between 0xE0 0xE0 a then between 0xA0 0xBF b
                 else if between 0xED 0xED a then between 0x80 0x9F b
                 else between 0x80 0xBF b) \<and> between 0x80 0xBF c \<and> utf8_ok cs2
              else (case cs2 of
                [] \<Rightarrow> False
              | d # cs3 \<Rightarrow>
                  between 0xF0 0xF4 a \<and>
                  (if between 0xF0 0xF0 a then between 0x90 0xBF b
                   else if between 0xF4 0xF4 a then between 0x80 0x8F b
                   else between 0x80 0xBF b) \<and> between 0x80 0xBF c \<and> between 0x80 0xBF d \<and> utf8_ok cs3))))"

lemma utf8_ascii: "list_all (between 0 0x7F) xs \<Longrightarrow> utf8_ok (xs @ ys) = utf8_ok ys"
  by (induction xs) (auto split: list.splits)

text \<open>An ASCII character starts afresh: no sequence goes on over it.\<close>

lemma ascii_no_continuation:
  assumes "between 0 0x7F a"
  shows "\<not> between 0x80 hi a" "\<not> between 0xA0 hi a" "\<not> between 0x90 hi a"
  using assms by (simp_all add: between_def)

lemma utf8_split:
  assumes "between 0 0x7F a"
  shows "utf8_ok (xs @ a # ys) \<longleftrightarrow> utf8_ok xs \<and> utf8_ok ys"
proof (induction xs rule: utf8_ok.induct)
  case 1
  then show ?case using assms by simp
next
  case (2 b cs)
  show ?case
  proof (cases "between 0 0x7F b")
    case True
    then show ?thesis using 2(1) by simp
  next
    case False
    note b = this
    show ?thesis
    proof (cases cs)
      case Nil
      then show ?thesis using b assms ascii_no_continuation [OF assms] by (auto split: list.splits)
    next
      case c: (Cons c cs1)
      show ?thesis
      proof (cases cs1)
        case Nil
        then show ?thesis
          using c b 2(2) assms ascii_no_continuation [OF assms] by (auto split: list.splits)
      next
        case d: (Cons d cs2)
        show ?thesis
          using c d b 2(2-) assms ascii_no_continuation [OF assms]
          by (cases cs2) (auto split: list.splits)
      qed
    qed
  qed
qed

section \<open>JSON text\<close>

text \<open>
  A scanner that follows strings, escapes and brackets and skips over the rest, for a text whose
  value is an object or an array. The number is how many brackets are open besides the outermost
  one. It accepts every such JSON text; it does not try to reject every other text.
\<close>

datatype json_pos =
    JBefore
  | JInside nat
  | JString nat
  | JEscape nat
  | JValue nat
  | JDone
  | JBad

definition json_space :: "char \<Rightarrow> bool" where
  "json_space c \<longleftrightarrow> c \<in> {CHR 0x20, CHR 0x09, CHR 0x0A, CHR 0x0D}"

definition json_close :: "nat \<Rightarrow> json_pos" where
  "json_close d = (case d of 0 \<Rightarrow> JDone | Suc n \<Rightarrow> JValue n)"

fun json_step :: "json_pos \<Rightarrow> char \<Rightarrow> json_pos" where
  "json_step JBefore c =
     (if json_space c then JBefore else if c \<in> {CHR ''{'', CHR ''[''} then JInside 0 else JBad)"
| "json_step (JInside d) c =
     (if c = CHR 0x22 then JString d
      else if c \<in> {CHR ''{'', CHR ''[''} then JInside (Suc d)
      else if c \<in> {CHR ''}'', CHR '']''} then json_close d
      else JInside d)"
| "json_step (JString d) c =
     (if c = CHR 0x22 then JValue d else if c = CHR 0x5C then JEscape d else JString d)"
| "json_step (JEscape d) c =
     (if c \<in> {CHR 0x22, CHR 0x5C, CHR ''/'', CHR ''b'', CHR ''f'', CHR ''n'', CHR ''r'', CHR ''t'', CHR ''u''}
      then JString d else JBad)"
| "json_step (JValue d) c =
     (if json_space c then JValue d
      else if c \<in> {CHR '','', CHR '':''} then JInside d
      else if c \<in> {CHR ''}'', CHR '']''} then json_close d
      else JBad)"
| "json_step JDone c = (if json_space c then JDone else JBad)"
| "json_step JBad c = JBad"

abbreviation json_scan :: "json_pos \<Rightarrow> string \<Rightarrow> json_pos" where
  "json_scan \<equiv> foldl json_step"

definition json_document :: "string \<Rightarrow> bool" where
  "json_document cs \<longleftrightarrow> json_scan JBefore cs = JDone"

lemma scan_bad [simp]: "json_scan JBad cs = JBad"
  by (induction cs) simp_all

lemma scan_done: "json_scan JDone cs = (if list_all json_space cs then JDone else JBad)"
  by (induction cs) simp_all

lemma step_not_before: "p \<noteq> JBefore \<Longrightarrow> json_step p c \<noteq> JBefore"
  by (cases p) (simp_all add: json_close_def split: nat.splits)

lemma scan_not_before: "p \<noteq> JBefore \<Longrightarrow> json_scan p cs \<noteq> JBefore"
  by (induction cs arbitrary: p) (simp_all add: step_not_before)

text \<open>The same text inside more brackets: it ends as a value there.\<close>

fun deeper :: "nat \<Rightarrow> json_pos \<Rightarrow> json_pos" where
  "deeper k JBefore = JBefore"
| "deeper k (JInside d) = JInside (d + Suc k)"
| "deeper k (JString d) = JString (d + Suc k)"
| "deeper k (JEscape d) = JEscape (d + Suc k)"
| "deeper k (JValue d) = JValue (d + Suc k)"
| "deeper k JDone = JValue k"
| "deeper k JBad = JBad"

lemma deeper_close: "deeper k (json_close d) = json_close (d + Suc k)"
  by (cases d) (simp_all add: json_close_def)

lemma deeper_step:
  "p \<noteq> JBefore \<Longrightarrow> json_step p c \<noteq> JBad \<Longrightarrow> json_step (deeper k p) c = deeper k (json_step p c)"
  by (cases p) (auto simp: deeper_close split: if_splits)

lemma deeper_scan:
  assumes "p \<noteq> JBefore" "json_scan p cs \<noteq> JBad"
  shows "json_scan (deeper k p) cs = deeper k (json_scan p cs)"
  using assms
proof (induction cs arbitrary: p)
  case (Cons c cs)
  have "json_step p c \<noteq> JBad" using Cons.prems(2) by auto
  then show ?case using Cons step_not_before [OF Cons.prems(1)] by (simp add: deeper_step)
qed simp

text \<open>A document that ends in a closing bracket is no document without its end.\<close>

lemma cut_document:
  assumes "json_document (cs @ rest)" "rest \<noteq> []" "last rest = CHR ''}''"
  shows "\<not> json_document cs"
proof
  assume "json_document cs"
  then have "list_all json_space rest"
    using assms(1) by (simp add: json_document_def scan_done split: if_splits)
  then have "json_space (last rest)" using assms(2) by (simp add: list_all_iff)
  then show False using assms(3) by (simp add: json_space_def)
qed

text \<open>A nonempty beginning of an object, wherever it was cut, is no document together with a whole
  object after it whose first key starts with the letter m.\<close>

lemma joined_document:
  assumes "cs \<noteq> []" "hd cs = CHR ''{''"
    and doc: "json_document (CHR ''{'' # CHR 0x22 # CHR ''m'' # ds)"
  shows "\<not> json_document (cs @ CHR ''{'' # CHR 0x22 # CHR ''m'' # ds)"
proof -
  let ?o = "CHR ''{'' # CHR 0x22 # CHR ''m'' # ds"
  obtain cs' where cs: "cs = CHR ''{'' # cs'" using assms(1,2) by (cases cs) auto
  have "json_scan JBefore cs = json_scan (JInside 0) cs'" by (simp add: cs json_space_def)
  then have nb: "json_scan JBefore cs \<noteq> JBefore" by (simp add: scan_not_before)
  have inner: "json_scan (JInside 0) (tl ?o) = JDone" using doc by (simp add: json_document_def json_space_def)
  have "json_scan (JInside d) ?o \<noteq> JDone" for d
  proof -
    have "json_scan (JInside d) ?o = json_scan (deeper d (JInside 0)) (tl ?o)" by simp
    also have "\<dots> = deeper d JDone" using deeper_scan [of "JInside 0" "tl ?o" d] unfolding inner by simp
    finally show ?thesis by simp
  qed
  then have "json_scan p ?o \<noteq> JDone" if "p \<noteq> JBefore" for p
    using that by (cases p) (simp_all add: json_space_def)
  then show ?thesis using nb by (simp add: json_document_def del: foldl_Cons)
qed

end
