(* ===== verification/Multi_Round_Mode.thy ===== *)
theory Multi_Round_Mode
  imports Replay State_Codec Wire_Text
begin

text \<open>
  The two extension modes: multi-round convergence (\<^verbatim>\<open>macp-modes/src/mode/multi_round.rs\<close>) and
  the passthrough handler of dynamically registered modes (\<^verbatim>\<open>macp-modes/src/mode/passthrough.rs\<close>).
  The protobuf codec of \<^verbatim>\<open>ContributePayload\<close>, the JSON reader of the legacy Contribute shape and
  the JSON writers of the state and of the resolutions are parameters.
\<close>

section \<open>State and payloads\<close>

record MultiRoundState =
  mr_round :: u64
  mr_participants :: "string list"
  mr_contributions :: "(string, string) btree"
  mr_convergence_type :: string
  mr_converged :: bool

record ResolutionPayload =
  rp_converged_value :: string
  rp_round :: u64
  rp_final :: "(string, string) btree"

record multi_round_ext = mode_ext +
  mx_decode_contribute :: "bytes \<Rightarrow> string option"
  mx_encode_contribute :: "string \<Rightarrow> bytes"
  mx_contribute_json :: "bytes \<Rightarrow> string option"
  mx_encode_resolution :: "ResolutionPayload \<Rightarrow> bytes"
  mx_encode_state :: "MultiRoundState \<Rightarrow> bytes"
  mx_decode_state :: "bytes \<Rightarrow> MultiRoundState option"

definition parse_contribute_value :: "multi_round_ext \<Rightarrow> bytes \<Rightarrow> u32 \<Rightarrow> string result" where
  "parse_contribute_value x payload semantics_rev =
     (if payload = [] then Err InvalidPayload
      else
        let proto_decoded = mx_decode_contribute x payload;
            trust_proto = (semantics_rev \<ge> 3 \<and>
              (case proto_decoded of None \<Rightarrow> False | Some m \<Rightarrow> mx_encode_contribute x m = payload));
            json = (if utf8_ok payload then mx_contribute_json x payload else None)
        in case json of
             Some v \<Rightarrow> if \<not> trust_proto then Ok v else ok_or proto_decoded InvalidPayload
           | None \<Rightarrow> ok_or proto_decoded InvalidPayload)"

definition check_convergence :: "MultiRoundState \<Rightarrow> bool" where
  "check_convergence st =
     (let all_contributed = list_all (\<lambda>p. bt_contains (mr_contributions st) p) (mr_participants st);
          values = bt_values (mr_contributions st)
      in all_contributed \<and> list_all (\<lambda>(a, b). a = b) (zip values (tl values)))"

section \<open>Multi-round mode\<close>

definition multi_round_on_session_start ::
    "multi_round_ext \<Rightarrow> Session \<Rightarrow> Envelope \<Rightarrow> ModeResponse result" where
  "multi_round_on_session_start x s env =
     (if s_participants s = [] then Err InvalidPayload
      else Ok (PersistState (mx_encode_state x
        \<lparr>mr_round = 0, mr_participants = s_participants s, mr_contributions = bt_empty,
         mr_convergence_type = ''all_equal'', mr_converged = False\<rparr>)))"

definition contribute :: "string \<Rightarrow> string \<Rightarrow> MultiRoundState \<Rightarrow> MultiRoundState" where
  "contribute sender v st =
     (let value_changed =
            (case bt_get (mr_contributions st) sender of None \<Rightarrow> True | Some prev \<Rightarrow> prev \<noteq> v);
          st1 = (if value_changed
                 then st\<lparr>mr_round := (mr_round st + 1) mod 2 ^ 64,
                         mr_contributions := bt_insert sender v (mr_contributions st)\<rparr>
                 else st)
      in if check_convergence st1 then st1\<lparr>mr_converged := True\<rparr> else st1)"

definition handle_contribute ::
    "multi_round_ext \<Rightarrow> Session \<Rightarrow> Envelope \<Rightarrow> ModeResponse result" where
  "handle_contribute x s env =
     and_then (decode_mode_state (mx_decode_state x) (s_mode_state s)) (\<lambda>st.
     if mr_converged st then Err InvalidPayload
     else and_then (parse_contribute_value x (e_payload env) (s_semantics_rev s)) (\<lambda>v.
       Ok (PersistState (mx_encode_state x (contribute (e_sender env) v st)))))"

definition handle_commitment ::
    "multi_round_ext \<Rightarrow> Session \<Rightarrow> Envelope \<Rightarrow> ModeResponse result" where
  "handle_commitment x s env =
     and_then (decode_mode_state (mx_decode_state x) (s_mode_state s)) (\<lambda>st.
     if \<not> mr_converged st then Err InvalidPayload
     else and_then (validate_commitment_payload_for_session x s (e_payload env)) (\<lambda>_.
       Ok (PersistAndResolve (mx_encode_state x st) (mx_encode_resolution x
         \<lparr>rp_converged_value = (case bt_values (mr_contributions st) of [] \<Rightarrow> [] | v # _ \<Rightarrow> v),
          rp_round = mr_round st, rp_final = mr_contributions st\<rparr>))))"

definition multi_round_on_message ::
    "multi_round_ext \<Rightarrow> Session \<Rightarrow> Envelope \<Rightarrow> ModeResponse result" where
  "multi_round_on_message x s env =
     (if e_message_type env = ''Contribute'' then handle_contribute x s env
      else if e_message_type env = ''Commitment'' then handle_commitment x s env
      else Err InvalidPayload)"

definition multi_round_authorize_sender :: "Session \<Rightarrow> Envelope \<Rightarrow> unit result" where
  "multi_round_authorize_sender s env =
     (if e_message_type env = ''Commitment'' then
        (if e_sender env \<noteq> s_initiator_sender s then Err Forbidden else Ok ())
      else if s_participants s \<noteq> [] \<and> e_sender env \<notin> set (s_participants s) then Err Forbidden
      else Ok ())"

definition MultiRoundMode :: "multi_round_ext \<Rightarrow> Mode" where
  "MultiRoundMode x =
     (default_mode (multi_round_on_session_start x) (multi_round_on_message x))
       \<lparr>m_authorize_sender := multi_round_authorize_sender\<rparr>"

section \<open>Passthrough mode\<close>

record passthrough_ext = mode_ext +
  pt_encode_resolution :: "string \<Rightarrow> string \<Rightarrow> bytes"

definition passthrough_on_session_start :: "Session \<Rightarrow> Envelope \<Rightarrow> ModeResponse result" where
  "passthrough_on_session_start s env = Ok NoOp"

definition passthrough_on_message ::
    "passthrough_ext \<Rightarrow> string list \<Rightarrow> Session \<Rightarrow> Envelope \<Rightarrow> ModeResponse result" where
  "passthrough_on_message x allowed_message_types s env =
     (if allowed_message_types \<noteq> [] \<and> \<not> list_ex (\<lambda>t. t = e_message_type env) allowed_message_types
      then Err InvalidPayload
      else if e_message_type env = ''Commitment'' then
        and_then (validate_commitment_payload_for_session x s (e_payload env)) (\<lambda>commitment.
          Ok (Resolve (pt_encode_resolution x (cp_action commitment) (cp_commitment_id commitment))))
      else Ok (PersistState (e_payload env)))"

definition passthrough_authorize_sender :: "Session \<Rightarrow> Envelope \<Rightarrow> unit result" where
  "passthrough_authorize_sender s env =
     (if e_message_type env = ''Commitment'' then
        (if e_sender env \<noteq> s_initiator_sender s then Err Forbidden else Ok ())
      else if s_participants s \<noteq> [] \<and> e_sender env \<notin> set (s_participants s) then Err Forbidden
      else Ok ())"

definition PassthroughMode :: "passthrough_ext \<Rightarrow> string list \<Rightarrow> Mode" where
  "PassthroughMode x allowed_message_types =
     (default_mode passthrough_on_session_start (passthrough_on_message x allowed_message_types))
       \<lparr>m_authorize_sender := passthrough_authorize_sender\<rparr>"

section \<open>The kernel contract\<close>

lemma extension_authorize_frame:
  assumes "bound_fields s' = bound_fields s"
  shows "multi_round_authorize_sender s' env = multi_round_authorize_sender s env"
    "passthrough_authorize_sender s' env = passthrough_authorize_sender s env"
  using assms
  by (simp_all add: multi_round_authorize_sender_def passthrough_authorize_sender_def bound_fields_def)

interpretation multi_round_run: mode_contract "MultiRoundMode x" "\<lambda>_. True" for x
  unfolding MultiRoundMode_def by (rule contract_default_mode) (rule extension_authorize_frame)

interpretation passthrough_run: mode_contract "PassthroughMode x allowed" "\<lambda>_. True" for x allowed
  unfolding PassthroughMode_def by (rule contract_default_mode) (rule extension_authorize_frame)

section \<open>Convergence\<close>

text \<open>The contributions belong to participants and the flag says what the check says.\<close>

definition multi_round_inv :: "Session \<Rightarrow> MultiRoundState \<Rightarrow> bool" where
  "multi_round_inv s st \<longleftrightarrow>
     mr_participants st = s_participants s \<and> s_participants s \<noteq> [] \<and>
     bt_invar (mr_contributions st) \<and>
     (\<forall>k v. bt_get (mr_contributions st) k = Some v \<longrightarrow> k \<in> set (s_participants s)) \<and>
     mr_converged st = check_convergence st"

lemma adjacent_equal: "list_all (\<lambda>(a, b). a = b) (zip xs (tl xs)) \<longleftrightarrow> (\<forall>x \<in> set xs. x = hd xs)"
proof (induction xs)
  case (Cons x xs)
  then show ?case by (cases xs) auto
qed simp

lemma check_convergence_iff:
  assumes "bt_invar (mr_contributions st)" "mr_participants st \<noteq> []"
    and "\<And>k v. bt_get (mr_contributions st) k = Some v \<Longrightarrow> k \<in> set (mr_participants st)"
  shows "check_convergence st \<longleftrightarrow>
    (\<exists>v. \<forall>p \<in> set (mr_participants st). bt_get (mr_contributions st) p = Some v)"
proof
  let ?vs = "bt_values (mr_contributions st)"
  assume c: "check_convergence st"
  have eq: "\<forall>v \<in> set ?vs. v = hd ?vs"
    using c by (simp add: check_convergence_def Let_def adjacent_equal)
  have "bt_get (mr_contributions st) p = Some (hd ?vs)" if p: "p \<in> set (mr_participants st)" for p
  proof -
    obtain v where v: "bt_get (mr_contributions st) p = Some v"
      using c p by (auto simp: check_convergence_def Let_def list_all_iff bt_contains_def)
    then show ?thesis using eq bt_get_in_values by fastforce
  qed
  then show "\<exists>v. \<forall>p \<in> set (mr_participants st). bt_get (mr_contributions st) p = Some v" by blast
next
  assume "\<exists>v. \<forall>p \<in> set (mr_participants st). bt_get (mr_contributions st) p = Some v"
  then obtain v where v: "\<forall>p \<in> set (mr_participants st). bt_get (mr_contributions st) p = Some v" ..
  have "w = v" if "w \<in> set (bt_values (mr_contributions st))" for w
    using that v assms(3) by (fastforce simp: bt_values_iff [OF assms(1)])
  then have "\<forall>w \<in> set (bt_values (mr_contributions st)). w = hd (bt_values (mr_contributions st))"
    by (metis list.set_sel(1) empty_iff empty_set)
  then show "check_convergence st"
    using v unfolding check_convergence_def Let_def adjacent_equal by (simp add: list_all_iff bt_contains_def)
qed

lemma contribute_inv:
  assumes inv: "multi_round_inv s st" and open_st: "\<not> mr_converged st" and p: "a \<in> set (s_participants s)"
  shows "multi_round_inv s (contribute a v st)"
proof -
  define st1 where "st1 = (if (case bt_get (mr_contributions st) a of None \<Rightarrow> True | Some prev \<Rightarrow> prev \<noteq> v)
    then st\<lparr>mr_round := (mr_round st + 1) mod 2 ^ 64,
            mr_contributions := bt_insert a v (mr_contributions st)\<rparr> else st)"
  have eq: "contribute a v st = (if check_convergence st1 then st1\<lparr>mr_converged := True\<rparr> else st1)"
    by (simp add: contribute_def st1_def)
  have f: "mr_participants st1 = mr_participants st" "\<not> mr_converged st1"
    using open_st by (simp_all add: st1_def)
  have b: "bt_invar (mr_contributions st1)"
    using inv by (simp add: st1_def multi_round_inv_def bt_invar_insert)
  have k: "k \<in> set (s_participants s)" if "bt_get (mr_contributions st1) k = Some w" for k w
    using that inv p by (auto simp: st1_def multi_round_inv_def split: if_splits)
  have c: "check_convergence (st1\<lparr>mr_converged := True\<rparr>) = check_convergence st1"
    by (simp add: check_convergence_def)
  show ?thesis
  proof (cases "check_convergence st1")
    case True
    then show ?thesis using inv f b k c unfolding eq by (simp add: multi_round_inv_def)
  next
    case False
    then show ?thesis using inv f b k unfolding eq by (simp add: multi_round_inv_def)
  qed
qed

definition multi_round_codec_law :: "multi_round_ext \<Rightarrow> bool" where
  "multi_round_codec_law x \<longleftrightarrow>
     (\<forall>st. bt_invar (mr_contributions st) \<longrightarrow> mx_decode_state x (mx_encode_state x st) = Some st)"

definition multi_round_minv :: "multi_round_ext \<Rightarrow> Session \<Rightarrow> bool" where
  "multi_round_minv x s \<longleftrightarrow> (\<exists>st. mx_decode_state x (s_mode_state s) = Some st \<and> multi_round_inv s st)"

lemma multi_round_inv_frame:
  assumes "bound_fields s' = bound_fields s"
  shows "multi_round_inv s' st = multi_round_inv s st"
  using assms by (simp add: multi_round_inv_def bound_fields_def)

lemma empty_contributions: "mr_contributions st = bt_empty \<Longrightarrow> mr_participants st \<noteq> [] \<Longrightarrow> \<not> check_convergence st"
  by (cases "mr_participants st") (auto simp: check_convergence_def bt_contains_def)

locale multi_round_codec =
  fixes x :: multi_round_ext
  assumes codec_law: "multi_round_codec_law x"
begin

lemma read_back:
  assumes "response_state r = Some (mx_encode_state x st)" "multi_round_inv s st"
  shows "multi_round_minv x (apply_mode_response r s)"
proof -
  have "bound_fields (apply_mode_response r s) = bound_fields s" by simp
  then have "multi_round_inv (apply_mode_response r s) st"
    using assms(2) multi_round_inv_frame by blast
  moreover have "mx_decode_state x (s_mode_state (apply_mode_response r s)) = Some st"
    using response_state_apply [OF assms(1)] assms(2) codec_law
    by (simp add: multi_round_codec_law_def multi_round_inv_def)
  ultimately show ?thesis unfolding multi_round_minv_def by blast
qed

end

sublocale multi_round_codec \<subseteq> multi_round_state: mode_contract "MultiRoundMode x" "multi_round_minv x"
proof
  fix s env r
  assume "m_on_session_start (MultiRoundMode x) s env = Inr r"
  then obtain st where "r = PersistState (mx_encode_state x st)" "multi_round_inv s st"
    using empty_contributions
    by (fastforce simp: MultiRoundMode_def default_mode_def multi_round_on_session_start_def res_simps
        multi_round_inv_def)
  then show "multi_round_minv x (apply_mode_response r s)" by (intro read_back) simp_all
next
  fix s env ctx r
  assume inv: "multi_round_minv x s" and au: "m_authorize_sender (MultiRoundMode x) s env = Inr ()"
    and m: "m_on_message_at (MultiRoundMode x) s env ctx = Inr r"
  obtain st where st: "mx_decode_state x (s_mode_state s) = Some st" "multi_round_inv s st"
    using inv unfolding multi_round_minv_def by blast
  consider (c) v where "\<not> mr_converged st" "e_message_type env = ''Contribute''"
      "r = PersistState (mx_encode_state x (contribute (e_sender env) v st))"
    | (k) "response_state r = Some (mx_encode_state x st)"
    using m st(1)
    by (auto simp: MultiRoundMode_def default_mode_def multi_round_on_message_def handle_contribute_def
        handle_commitment_def decode_mode_state_def res_simps split: if_splits)
  then show "multi_round_minv x (apply_mode_response r s)"
  proof cases
    case c
    have "e_sender env \<in> set (s_participants s)"
      using au c(2) st(2)
      by (auto simp: MultiRoundMode_def multi_round_authorize_sender_def multi_round_inv_def split: if_splits)
    then have "multi_round_inv s (contribute (e_sender env) v st)" by (rule contribute_inv [OF st(2) c(1)])
    then show ?thesis by (rule read_back [rotated]) (simp add: c(3))
  next
    case k
    then show ?thesis using st(2) by (rule read_back)
  qed
next
  fix s s' :: Session and env
  assume b: "bound_fields s' = bound_fields s"
  show "m_authorize_sender (MultiRoundMode x) s' env = m_authorize_sender (MultiRoundMode x) s env"
    by (rule multi_round_run.authorize_frame [OF b])
  assume "multi_round_minv x s" "s_mode_state s' = s_mode_state s"
  then show "multi_round_minv x s'" using multi_round_inv_frame [OF b] by (simp add: multi_round_minv_def)
qed (simp_all add: MultiRoundMode_def default_mode_def default_due_synthetic_envelope_def)

text \<open>A Commitment is accepted exactly when every participant holds the same value, which is the
  value it records.\<close>

lemma commitment_unanimous:
  assumes inv: "multi_round_inv s st" and ld: "mx_decode_state x (s_mode_state s) = Some st"
    and h: "handle_commitment x s env = Inr r"
  obtains v where "\<forall>p \<in> set (s_participants s). bt_get (mr_contributions st) p = Some v"
    "r = PersistAndResolve (mx_encode_state x st) (mx_encode_resolution x
       \<lparr>rp_converged_value = v, rp_round = mr_round st, rp_final = mr_contributions st\<rparr>)"
proof -
  have c: "mr_converged st"
    and r: "r = PersistAndResolve (mx_encode_state x st) (mx_encode_resolution x
       \<lparr>rp_converged_value = (case bt_values (mr_contributions st) of [] \<Rightarrow> [] | v # _ \<Rightarrow> v),
        rp_round = mr_round st, rp_final = mr_contributions st\<rparr>)"
    using h ld by (auto simp: handle_commitment_def decode_mode_state_def res_simps)
  have pc: "mr_participants st = s_participants s" "s_participants s \<noteq> []"
    "check_convergence st" using inv c by (simp_all add: multi_round_inv_def)
  then obtain v where v: "\<forall>p \<in> set (s_participants s). bt_get (mr_contributions st) p = Some v"
    using check_convergence_iff [of st] inv by (auto simp: multi_round_inv_def)
  let ?vs = "bt_values (mr_contributions st)"
  have same: "w = v" if "w \<in> set ?vs" for w
    using that v inv by (fastforce simp: bt_values_iff multi_round_inv_def)
  have "hd (s_participants s) \<in> set (s_participants s)" using pc(2) by simp
  with v have "bt_get (mr_contributions st) (hd (s_participants s)) = Some v" by blast
  then have "?vs \<noteq> []" using bt_get_in_values by fastforce
  then obtain w ws where ws: "?vs = w # ws" by (cases ?vs) simp_all
  have "w = v" by (rule same) (simp add: ws)
  then have "(case ?vs of [] \<Rightarrow> [] | v # _ \<Rightarrow> v) = v" by (simp add: ws)
  then show thesis using that [OF v] r by simp
qed

section \<open>An instance of the codec\<close>

instance MultiRoundState_ext :: (countable) countable
  by (rule countable_classI [of "\<lambda>r. to_nat (mr_round r, mr_participants r, mr_contributions r,
        mr_convergence_type r, mr_converged r, MultiRoundState.more r)"]) simp

definition example_multi_round :: multi_round_ext where
  "example_multi_round =
     \<lparr>x_decode_commitment = (\<lambda>_. None), x_rules = no_rules, x_evaluator = (\<lambda>_. Allow []),
      mx_decode_contribute = (\<lambda>b. Some b), mx_encode_contribute = (\<lambda>v. v),
      mx_contribute_json = (\<lambda>_. None), mx_encode_resolution = rp_converged_value,
      mx_encode_state = unary_encode, mx_decode_state = unary_decode\<rparr>"

lemma example_multi_round_law: "multi_round_codec_law example_multi_round"
  by (simp add: multi_round_codec_law_def example_multi_round_def)

interpretation unary_multi_round: multi_round_codec example_multi_round
  by unfold_locales (rule example_multi_round_law)

end
