(* ===== verification/Shipped_Modes.thy ===== *)
theory Shipped_Modes
  imports Kernel_Runs Decision_Mode Proposal_Mode Task_Mode Handoff_Clock Quorum_Mode Multi_Round_Mode
begin

text \<open>
  The modes the runtime ships, as one family: the five standard modes, multi-round and passthrough.
  Each keeps the kernel contract, and each resolves a session only through a Commitment.
\<close>

text \<open>\<open>standard_mode b M\<close>: \<open>M\<close> is a standard mode over the decoders, rule parsers and evaluator \<open>b\<close>.
  The Handoff mode reads its state back when it synthesizes an accept, so its codec is asked to
  be faithful.\<close>

inductive standard_mode :: "mode_ext \<Rightarrow> Mode \<Rightarrow> bool" where
  std_decision: "standard_mode (mode_ext.truncate x) (DecisionMode x)"
| std_proposal: "standard_mode (mode_ext.truncate x) (ProposalMode x)"
| std_task: "standard_mode (mode_ext.truncate x) (TaskMode x)"
| std_handoff: "handoff_codec_law x \<Longrightarrow> standard_mode (mode_ext.truncate x) (HandoffMode x)"
| std_quorum: "standard_mode (mode_ext.truncate x) (QuorumMode x)"

inductive extension_mode :: "mode_ext \<Rightarrow> Mode \<Rightarrow> bool" where
  ext_multi_round: "extension_mode (mode_ext.truncate x) (MultiRoundMode x)"
| ext_passthrough: "extension_mode (mode_ext.truncate x) (PassthroughMode x allowed)"

definition shipped_mode :: "Mode \<Rightarrow> bool" where
  "shipped_mode M \<longleftrightarrow> (\<exists>b. standard_mode b M \<or> extension_mode b M)"

context handoff_codec
begin

lemma contract: "mode_contract (HandoffMode x) (handoff_minv x)"
  by (rule handoff_run.mode_contract_axioms)

end

lemma shipped_contract:
  assumes "shipped_mode M"
  obtains minv where "mode_contract M minv"
proof -
  obtain b where "standard_mode b M \<or> extension_mode b M" using assms by (auto simp: shipped_mode_def)
  then have "\<exists>minv. mode_contract M minv"
  proof
    assume "standard_mode b M"
    then show ?thesis
    proof cases
      case (std_handoff x)
      have "handoff_codec x" by unfold_locales (rule std_handoff(3))
      then have "mode_contract M (handoff_minv x)"
        unfolding std_handoff(2) by (rule handoff_codec.contract)
      then show ?thesis by (rule exI [of _ "handoff_minv x"])
    qed (simp; rule exI, rule decision_run.mode_contract_axioms proposal_run.mode_contract_axioms
        task_run.mode_contract_axioms quorum_run.mode_contract_axioms)+
  next
    assume "extension_mode b M"
    then show ?thesis
      by cases (simp; rule exI, rule multi_round_run.mode_contract_axioms
          passthrough_run.mode_contract_axioms)+
  qed
  then show thesis using that by blast
qed

section \<open>How a session resolves\<close>

fun resolves :: "ModeResponse \<Rightarrow> bool" where
  "resolves (Resolve _) = True"
| "resolves (PersistAndResolve _ _) = True"
| "resolves _ = False"

text \<open>What a mode checked before it resolved: the payload against the session, and the policy.\<close>

definition commitment_checked :: "'z mode_ext_scheme \<Rightarrow> Session \<Rightarrow> bytes \<Rightarrow> bool" where
  "commitment_checked x s payload \<longleftrightarrow>
     (\<exists>c cm. validate_commitment_payload_for_session x s payload = Ok c \<and>
        enforce_commitment_policy x s cm (cp_outcome_positive c) = Ok ())"

lemma truncate_fields:
  "x_decode_commitment (mode_ext.truncate x) = x_decode_commitment x"
  "x_rules (mode_ext.truncate x) = x_rules x" "x_evaluator (mode_ext.truncate x) = x_evaluator x"
  by (simp_all add: mode_ext.truncate_def)

lemma truncate_checks [simp]:
  "validate_commitment_payload_for_session (mode_ext.truncate x) s p
     = validate_commitment_payload_for_session x s p"
  "enforce_commitment_policy (mode_ext.truncate x) s cm pos = enforce_commitment_policy x s cm pos"
  "check_commitment_authority (mode_ext.truncate x) s a = check_commitment_authority x s a"
  unfolding validate_commitment_payload_for_session_def decode_commitment_payload_def
    enforce_commitment_policy_def check_commitment_authority_def truncate_fields
  by (rule refl)+

lemma decision_resolves:
  assumes "decision_on_message x s env = Inr r" "resolves r"
  shows "e_message_type env = ''Commitment'' \<and> commitment_checked x s (e_payload env) \<and>
    (\<exists>st. r = PersistAndResolve st (e_payload env))"
  using assms
  by (auto simp: decision_on_message_def res_simps Decision_Mode.persist_def
      Decision_Mode.handle_commitment_def commitment_checked_def split: if_splits)

lemma proposal_resolves:
  assumes "proposal_on_message x s env = Inr r" "resolves r"
  shows "e_message_type env = ''Commitment'' \<and> commitment_checked x s (e_payload env) \<and>
    (\<exists>st. r = PersistAndResolve st (e_payload env))"
  using assms
  by (auto simp: proposal_on_message_def res_simps Proposal_Mode.persist_def
      Proposal_Mode.handle_commitment_def Let_def commitment_checked_def split: if_splits)

lemma task_resolves:
  assumes "task_on_message x s env = Inr r" "resolves r"
  shows "e_message_type env = ''Commitment'' \<and> commitment_checked x s (e_payload env) \<and>
    (\<exists>st. r = PersistAndResolve st (e_payload env))"
  using assms
  by (auto simp: task_on_message_def res_simps Task_Mode.persist_def
      Task_Mode.handle_commitment_def Let_def commitment_checked_def split: if_splits)

lemma quorum_request_open:
  assumes "Quorum_Mode.handle_request x s env st = Inr r"
  shows "\<not> resolves r"
proof -
  obtain p where p: "qx_decode_request x (e_payload env) = Some p"
    using assms by (auto simp: Quorum_Mode.handle_request_def res_simps)
  show ?thesis
    using assms p
    by (cases "effective_threshold x s \<lparr>ar_request_id = arp_request_id p, ar_action = arp_action p,
         ar_summary = arp_summary p, ar_details = arp_details p,
         ar_required_approvals = arp_required_approvals p, ar_requested_by = e_sender env\<rparr>")
      (auto simp: Quorum_Mode.handle_request_def res_simps Let_def)
qed

lemma quorum_resolves:
  assumes "quorum_on_message x s env = Inr r" "resolves r"
  shows "e_message_type env = ''Commitment'' \<and> commitment_checked x s (e_payload env) \<and>
    (\<exists>st. r = PersistAndResolve st (e_payload env))"
  using assms
  by (auto simp: quorum_on_message_def res_simps handle_ballot_def
      Quorum_Mode.handle_commitment_def Let_def commitment_checked_def
      split: if_splits dest: quorum_request_open)

lemma handoff_resolves:
  assumes "handle_message x s env t = Inr r" "resolves r"
  shows "e_message_type env = ''Commitment'' \<and> commitment_checked x s (e_payload env) \<and>
    (\<exists>st. r = PersistAndResolve st (e_payload env))"
proof -
  obtain st where "e_message_type env = ''Commitment'' \<and> Handoff_Mode.handle_commitment x s env t st = Inr r"
    using assms
    by (auto simp: handle_message_def res_simps handle_offer_def handle_context_def
        Handoff_Mode.handle_accept_def handle_decline_def dispatch_implicit_accept_def Let_def
        split: if_splits)
  then show ?thesis
    by (auto simp: Handoff_Mode.handle_commitment_def Let_def res_simps commitment_checked_def)
qed

lemma standard_resolves:
  assumes "standard_mode b M" "m_on_message_at M s env ctx = Inr r" "resolves r"
  shows "e_message_type env = ''Commitment'' \<and> commitment_checked b s (e_payload env) \<and>
    (\<exists>st. r = PersistAndResolve st (e_payload env))"
  using assms
proof cases
  case (std_handoff x)
  then show ?thesis
    using assms(2,3) handoff_resolves [of x s env _ r]
    by (auto simp: HandoffMode_def handoff_on_message_at_def commitment_checked_def)
qed (use assms(2,3) decision_resolves proposal_resolves task_resolves quorum_resolves in
    \<open>fastforce simp: DecisionMode_def ProposalMode_def TaskMode_def QuorumMode_def default_mode_def
       commitment_checked_def\<close>)+

lemma standard_authority:
  assumes "standard_mode b M" "e_message_type env = ''Commitment''"
  shows "m_authorize_sender M s env = check_commitment_authority b s (e_sender env)"
  using assms
  by cases (simp_all add: DecisionMode_def ProposalMode_def TaskMode_def QuorumMode_def HandoffMode_def
      decision_authorize_sender_def proposal_authorize_sender_def task_authorize_sender_def
      quorum_authorize_sender_def handoff_authorize_sender_def)

lemma extension_resolves:
  assumes "extension_mode b M" "m_on_message_at M s env ctx = Inr r" "resolves r"
  shows "e_message_type env = ''Commitment'' \<and>
    (\<exists>c. validate_commitment_payload_for_session b s (e_payload env) = Inr c)"
  using assms
  by cases (auto simp: MultiRoundMode_def PassthroughMode_def default_mode_def multi_round_on_message_def
      handle_contribute_def Multi_Round_Mode.handle_commitment_def passthrough_on_message_def res_simps
      split: if_splits)

lemma extension_authority:
  assumes "extension_mode b M" "e_message_type env = ''Commitment''" "m_authorize_sender M s env = Inr ()"
  shows "e_sender env = s_initiator_sender s"
  using assms
  by cases (auto simp: MultiRoundMode_def PassthroughMode_def multi_round_authorize_sender_def
      passthrough_authorize_sender_def split: if_splits)

lemma checked_frame:
  assumes "bound_fields s' = bound_fields s"
  shows "commitment_checked b s' p = commitment_checked b s p"
proof -
  have f: "s_mode_version s' = s_mode_version s" "s_configuration_version s' = s_configuration_version s"
    "s_policy_version s' = s_policy_version s" "s_policy_definition s' = s_policy_definition s"
    "s_participants s' = s_participants s"
    using assms by (simp_all add: bound_fields_def)
  show ?thesis
    unfolding commitment_checked_def validate_commitment_payload_for_session_def
      enforce_commitment_policy_def f by (rule refl)
qed

lemma start_open:
  assumes "shipped_mode M" "m_on_session_start M s env = Inr r"
  shows "\<not> resolves r"
proof -
  obtain b where "standard_mode b M \<or> extension_mode b M" using assms(1) by (auto simp: shipped_mode_def)
  then show ?thesis
  proof
    assume "standard_mode b M"
    then show ?thesis using assms(2)
      by cases (auto simp: DecisionMode_def ProposalMode_def TaskMode_def QuorumMode_def HandoffMode_def
          default_mode_def decision_on_session_start_def proposal_on_session_start_def
          task_on_session_start_def quorum_on_session_start_def handoff_on_session_start_def res_simps)
  next
    assume "extension_mode b M"
    then show ?thesis using assms(2)
      by cases (auto simp: MultiRoundMode_def PassthroughMode_def default_mode_def
          multi_round_on_session_start_def passthrough_on_session_start_def res_simps)
  qed
qed

end
