(* ===== verification/What_If.thy ===== *)
theory What_If
  imports Replay
begin

text \<open>
  What-if replay (\<^verbatim>\<open>macp-modes/src/what_if.rs\<close>): a recorded history driven side by side under the
  recorded policy and under a candidate. The recorded replay must succeed; a refusal by the
  candidate is reported and skipped.
\<close>

section \<open>The report\<close>

datatype HistoryPoint = SessionStart | Event nat

datatype EntryOutcome =
    Applied SessionState
  | NotOpen
  | Refused string "DenyReason list"
  | NoSession

definition refused :: "MacpError \<Rightarrow> EntryOutcome" where
  "refused err = Refused (error_code err) (deny_reasons err)"

record EntryDiff =
  ed_at :: HistoryPoint
  ed_message_id :: "string option"
  ed_message_type :: "string option"
  ed_recorded :: EntryOutcome
  ed_candidate :: EntryOutcome

definition diverges :: "EntryDiff \<Rightarrow> bool" where
  "diverges d = (ed_recorded d \<noteq> ed_candidate d)"

record ResolvedBy =
  rb_at :: HistoryPoint
  rb_message_id :: string
  rb_message_type :: string

record Outcome =
  oc_state :: "SessionState option"
  oc_resolution :: "bytes option"
  oc_resolved_by :: "ResolvedBy option"

definition Outcome_of :: "Session option \<Rightarrow> ResolvedBy option \<Rightarrow> Outcome" where
  "Outcome_of session resolved_by =
     \<lparr>oc_state = map_option s_state session, oc_resolution = Option.bind session s_resolution,
      oc_resolved_by = resolved_by\<rparr>"

record Denial =
  dn_at :: HistoryPoint
  dn_message_id :: "string option"
  dn_reasons :: "DenyReason list"

record WhatIfReport =
  wr_candidate_policy_id :: string
  wr_recorded_policy_id :: "string option"
  wr_recorded :: Outcome
  wr_candidate :: Outcome
  wr_first_divergence :: "HistoryPoint option"
  wr_denials :: "Denial list"
  wr_entries :: "EntryDiff list"
  wr_candidate_session :: "Session option"

definition outcome_changed :: "WhatIfReport \<Rightarrow> bool" where
  "outcome_changed r = (wr_recorded r \<noteq> wr_candidate r)"

section \<open>The side-by-side replay\<close>

fun event_envelope :: "ReplayEvent \<Rightarrow> Envelope option" where
  "event_envelope (EvMessage env _) = Some env"
| "event_envelope (EvSynthetic env) = Some env"
| "event_envelope _ = None"

definition what_if_step ::
    "Session \<Rightarrow> ReplayEvent \<Rightarrow> Mode \<Rightarrow> ReplayOptions \<Rightarrow> EntryOutcome result \<times> Session" where
  "what_if_step s event mode opts =
     (let is_envelope = (event_envelope event \<noteq> None);
          not_open = (is_envelope \<and> s_state s \<noteq> Open)
      in case apply_event s event mode opts of
           (Inl e, s') \<Rightarrow> (Inl e, s')
         | (Inr _, s') \<Rightarrow> (Ok (if not_open then NotOpen else Applied (s_state s')), s'))"

definition note_resolution ::
    "Session \<Rightarrow> EntryOutcome \<Rightarrow> HistoryPoint \<Rightarrow> Envelope option \<Rightarrow> ResolvedBy option
     \<Rightarrow> ResolvedBy option" where
  "note_resolution s oc at_point envelope resolved_by =
     (if resolved_by \<noteq> None \<or> s_state s \<noteq> Resolved then resolved_by
      else case (oc, envelope) of
             (Applied _, Some env) \<Rightarrow>
               Some \<lparr>rb_at = at_point, rb_message_id = e_message_id env,
                     rb_message_type = e_message_type env\<rparr>
           | _ \<Rightarrow> resolved_by)"

definition push_denial ::
    "Denial list \<Rightarrow> HistoryPoint \<Rightarrow> Envelope \<Rightarrow> MacpError \<Rightarrow> Denial list" where
  "push_denial denials at_point env err =
     (case err of
        PolicyDenied reasons \<Rightarrow>
          denials @ [\<lparr>dn_at = at_point, dn_message_id = Some (e_message_id env), dn_reasons = reasons\<rparr>]
      | _ \<Rightarrow> denials)"

text \<open>What the loop over the events carries.\<close>

record what_if_state =
  wi_recorded :: Session
  wi_cand :: "Session option"
  wi_recorded_by :: "ResolvedBy option"
  wi_cand_by :: "ResolvedBy option"
  wi_denials :: "Denial list"
  wi_entries :: "EntryDiff list"

definition what_if_event ::
    "nat \<Rightarrow> ReplayEvent \<Rightarrow> Mode \<Rightarrow> ReplayOptions \<Rightarrow> what_if_state \<Rightarrow> what_if_state result" where
  "what_if_event index event mode opts w =
     (let at_point = Event index; envelope = event_envelope event
      in case what_if_step (wi_recorded w) event mode opts of
           (Inl e, _) \<Rightarrow> Inl e
         | (Inr rec_outcome, recorded) \<Rightarrow>
             (let recorded_by = note_resolution recorded rec_outcome at_point envelope (wi_recorded_by w);
                  (cand_outcome, cand, cand_by, denials) =
                    (case wi_cand w of
                       None \<Rightarrow> (NoSession, None, wi_cand_by w, wi_denials w)
                     | Some session \<Rightarrow>
                         (case what_if_step session event mode opts of
                            (Inr oc, session') \<Rightarrow>
                              (oc, Some session',
                               note_resolution session' oc at_point envelope (wi_cand_by w),
                               wi_denials w)
                          | (Inl err, session') \<Rightarrow>
                              (refused err, Some session', wi_cand_by w,
                               (case envelope of
                                  Some env \<Rightarrow> push_denial (wi_denials w) at_point env err
                                | None \<Rightarrow> wi_denials w))))
              in Ok \<lparr>wi_recorded = recorded, wi_cand = cand, wi_recorded_by = recorded_by,
                     wi_cand_by = cand_by, wi_denials = denials,
                     wi_entries = wi_entries w @
                       [\<lparr>ed_at = at_point, ed_message_id = map_option e_message_id envelope,
                         ed_message_type = map_option e_message_type envelope,
                         ed_recorded = rec_outcome, ed_candidate = cand_outcome\<rparr>]\<rparr>))"

fun what_if_events ::
    "nat \<Rightarrow> ReplayEvent list \<Rightarrow> Mode \<Rightarrow> ReplayOptions \<Rightarrow> what_if_state \<Rightarrow> what_if_state result" where
  "what_if_events index [] mode opts w = Ok w"
| "what_if_events index (event # events) mode opts w =
     and_then (what_if_event index event mode opts w) (what_if_events (Suc index) events mode opts)"

definition what_if_start ::
    "start_ext \<Rightarrow> RecordedStart \<Rightarrow> Mode \<Rightarrow> PolicyDefinition \<Rightarrow> what_if_state result" where
  "what_if_start sx start mode candidate =
     and_then (replay_start sx start mode) (\<lambda>recorded.
     let env = rs_envelope start;
         entry = (\<lambda>oc. \<lparr>ed_at = SessionStart, ed_message_id = Some (e_message_id env),
                    ed_message_type = Some (e_message_type env),
                    ed_recorded = Applied (s_state recorded), ed_candidate = oc\<rparr>)
     in case replay_start sx (start\<lparr>rs_policy := Some candidate\<rparr>) mode of
          Inr session \<Rightarrow>
            Ok \<lparr>wi_recorded = recorded,
                wi_cand = Some (session\<lparr>s_policy_version := s_policy_version recorded\<rparr>),
                wi_recorded_by = None, wi_cand_by = None, wi_denials = [],
                wi_entries = [entry (Applied (s_state session))]\<rparr>
        | Inl err \<Rightarrow>
            Ok \<lparr>wi_recorded = recorded, wi_cand = None, wi_recorded_by = None, wi_cand_by = None,
                wi_denials = push_denial [] SessionStart env err,
                wi_entries = [entry (refused err)]\<rparr>)"

definition replay_under_policy ::
    "start_ext \<Rightarrow> RecordedStart \<Rightarrow> ReplayEvent list \<Rightarrow> Mode \<Rightarrow> ReplayOptions \<Rightarrow> PolicyDefinition
     \<Rightarrow> WhatIfReport result" where
  "replay_under_policy sx start events mode opts candidate =
     and_then (what_if_start sx start mode candidate) (\<lambda>w0.
     and_then (what_if_events 0 events mode opts w0) (\<lambda>w.
     Ok \<lparr>wr_candidate_policy_id = p_policy_id candidate,
         wr_recorded_policy_id = map_option p_policy_id (rs_policy start),
         wr_recorded = Outcome_of (Some (wi_recorded w)) (wi_recorded_by w),
         wr_candidate = Outcome_of (wi_cand w) (wi_cand_by w),
         wr_first_divergence = map_option ed_at (find diverges (wi_entries w)),
         wr_denials = wi_denials w, wr_entries = wi_entries w,
         wr_candidate_session = wi_cand w\<rparr>))"

section \<open>The recorded side is the replay\<close>

lemma what_if_step_simp:
  "what_if_step s ev M opts =
     (case apply_event s ev M opts of
        (Inl e, s') \<Rightarrow> (Inl e, s')
      | (Inr _, s') \<Rightarrow> (Inr (if event_envelope ev \<noteq> None \<and> s_state s \<noteq> Open then NotOpen
                            else Applied (s_state s')), s'))"
  by (simp only: what_if_step_def Let_def)

lemma what_if_event_recorded:
  "map_sum id wi_recorded (what_if_event i ev M opts w)
     = (case apply_event (wi_recorded w) ev M opts of (Inl e, _) \<Rightarrow> Inl e | (Inr _, s') \<Rightarrow> Inr s')"
  by (auto simp: what_if_event_def what_if_step_simp Let_def split: prod.splits sum.splits option.splits)

lemma what_if_events_recorded:
  "map_sum id wi_recorded (what_if_events i evs M opts w) = replay_events (wi_recorded w) evs M opts"
proof (induction evs arbitrary: i w)
  case (Cons ev evs)
  show ?case
  proof (cases "what_if_event i ev M opts w")
    case (Inl e)
    then show ?thesis using what_if_event_recorded [of i ev M opts w]
      by (auto split: prod.splits sum.splits)
  next
    case (Inr w')
    then show ?thesis using what_if_event_recorded [of i ev M opts w] Cons.IH [of "Suc i" w']
      by (auto split: prod.splits sum.splits)
  qed
qed simp

lemma what_if_start_recorded:
  "map_sum id wi_recorded (what_if_start sx start M c) = replay_start sx start M"
  by (cases "replay_start sx start M")
    (auto simp: what_if_start_def Let_def split: sum.splits)

lemma what_if_events_result:
  assumes "what_if_start sx start M c = Inr w0"
  shows "replay sx start evs M opts = map_sum id wi_recorded (what_if_events 0 evs M opts w0)"
  using assms what_if_start_recorded [of sx start M c]
  by (simp add: replay_def what_if_events_recorded) (metis and_then_simps(2) map_sum.simps(2))

lemma replay_under_policy_ok:
  assumes "replay_under_policy sx start evs M opts c = Inr rep"
  obtains w0 w where "what_if_start sx start M c = Inr w0" "what_if_events 0 evs M opts w0 = Inr w"
    "wr_recorded rep = Outcome_of (Some (wi_recorded w)) (wi_recorded_by w)"
    "wr_candidate rep = Outcome_of (wi_cand w) (wi_cand_by w)"
    "wr_first_divergence rep = map_option ed_at (find diverges (wi_entries w))"
    "wr_denials rep = wi_denials w" "wr_entries rep = wi_entries w" "wr_candidate_session rep = wi_cand w"
  using assms by (auto simp: replay_under_policy_def res_simps)

lemma replay_under_policy_errors:
  "replay_under_policy sx start evs M opts c = Inl e \<longleftrightarrow> replay sx start evs M opts = Inl e"
proof (cases "what_if_start sx start M c")
  case (Inl err)
  then have "replay_start sx start M = Inl err" using what_if_start_recorded [of sx start M c] by simp
  then show ?thesis using Inl by (simp add: replay_under_policy_def replay_def)
next
  case (Inr w0)
  note r = what_if_events_result [OF Inr, of evs opts]
  show ?thesis
    using Inr r by (cases "what_if_events 0 evs M opts w0") (auto simp: replay_under_policy_def)
qed

section \<open>A candidate that is handled alike\<close>

text \<open>Entries that do not diverge keep the two sessions in the same state and agree on the
  envelope that resolved them.\<close>

definition aligned :: "what_if_state \<Rightarrow> bool" where
  "aligned w \<longleftrightarrow> (\<exists>c. wi_cand w = Some c \<and> s_state c = s_state (wi_recorded w)) \<and>
     wi_cand_by w = wi_recorded_by w"

lemma apply_event_not_open:
  assumes "event_envelope ev \<noteq> None" "s_state s \<noteq> Open"
  shows "fst (apply_event s ev M opts) = Inr () \<and> s_state (snd (apply_event s ev M opts)) = s_state s"
  using assms by (cases ev) (auto simp: apply_envelope_event_def)

lemma what_if_event_entries:
  "what_if_event i ev M opts w = Inr w' \<Longrightarrow> \<exists>d. wi_entries w' = wi_entries w @ [d] \<and> ed_at d = Event i"
  by (auto simp: what_if_event_def Let_def split: prod.splits sum.splits option.splits)

lemma what_if_events_entries:
  "what_if_events i evs M opts w = Inr w' \<Longrightarrow>
     \<exists>ds. wi_entries w' = wi_entries w @ ds \<and> map ed_at ds = map Event [i ..< i + length evs]"
proof (induction evs arbitrary: i w)
  case (Cons ev evs)
  then obtain w1 where w1: "what_if_event i ev M opts w = Inr w1"
    "what_if_events (Suc i) evs M opts w1 = Inr w'" by (auto simp: res_simps)
  obtain d where "wi_entries w1 = wi_entries w @ [d]" "ed_at d = Event i"
    using what_if_event_entries [OF w1(1)] by blast
  moreover obtain ds where "wi_entries w' = wi_entries w1 @ ds"
    "map ed_at ds = map Event [Suc i ..< Suc i + length evs]" using Cons.IH [OF w1(2)] by blast
  moreover have "[i ..< i + length (ev # evs)] = i # [Suc i ..< Suc i + length evs]"
    by (subst upt_conv_Cons) simp_all
  ultimately have "wi_entries w' = wi_entries w @ (d # ds) \<and>
      map ed_at (d # ds) = map Event [i ..< i + length (ev # evs)]"
    by (simp del: upt_Suc)
  then show ?case by blast
qed simp

lemma what_if_event_run:
  assumes "what_if_event i ev M opts w = Inr w'" "wi_cand w = Some c"
  obtains ro r' where "what_if_step (wi_recorded w) ev M opts = (Inr ro, r')" "wi_recorded w' = r'"
    "wi_recorded_by w' = note_resolution r' ro (Event i) (event_envelope ev) (wi_recorded_by w)"
    "\<And>co c'. what_if_step c ev M opts = (Inr co, c') \<Longrightarrow> wi_cand w' = Some c' \<and>
       wi_cand_by w' = note_resolution c' co (Event i) (event_envelope ev) (wi_cand_by w) \<and>
       wi_denials w' = wi_denials w \<and> (\<exists>d. wi_entries w' = wi_entries w @ [d] \<and> ed_recorded d = ro \<and> ed_candidate d = co)"
    "\<And>e c'. what_if_step c ev M opts = (Inl e, c') \<Longrightarrow>
       (\<exists>d. wi_entries w' = wi_entries w @ [d] \<and> ed_recorded d = ro \<and> ed_candidate d = refused e)"
proof -
  obtain ro r' where r: "what_if_step (wi_recorded w) ev M opts = (Inr ro, r')"
    using assms(1) by (auto simp: what_if_event_def Let_def split: prod.splits sum.splits)
  show thesis
    by (rule that [OF r]; use assms r in \<open>auto simp: what_if_event_def Let_def split: prod.splits\<close>)
qed

lemma step_outcome:
  assumes "what_if_step s ev M opts = (Inr oc, s')"
  shows "oc = NotOpen \<and> s_state s' = s_state s \<or> oc = Applied (s_state s')"
  using assms apply_event_not_open [of ev s M opts]
  by (auto simp: what_if_step_simp split: prod.splits sum.splits if_splits)

lemma event_aligned:
  assumes al: "aligned w" and ev: "what_if_event i ev M opts w = Inr w'"
    and nd: "\<forall>d \<in> set (wi_entries w'). \<not> diverges d"
  shows "aligned w'"
proof -
  obtain c where c: "wi_cand w = Some c" "s_state c = s_state (wi_recorded w)"
    "wi_cand_by w = wi_recorded_by w" using al by (auto simp: aligned_def)
  obtain ro r' where r: "what_if_step (wi_recorded w) ev M opts = (Inr ro, r')" "wi_recorded w' = r'"
    "wi_recorded_by w' = note_resolution r' ro (Event i) (event_envelope ev) (wi_recorded_by w)"
    and co: "\<And>co c'. what_if_step c ev M opts = (Inr co, c') \<Longrightarrow> wi_cand w' = Some c' \<and>
       wi_cand_by w' = note_resolution c' co (Event i) (event_envelope ev) (wi_cand_by w) \<and>
       wi_denials w' = wi_denials w \<and> (\<exists>d. wi_entries w' = wi_entries w @ [d] \<and> ed_recorded d = ro \<and> ed_candidate d = co)"
    and er: "\<And>e c'. what_if_step c ev M opts = (Inl e, c') \<Longrightarrow>
       (\<exists>d. wi_entries w' = wi_entries w @ [d] \<and> ed_recorded d = ro \<and> ed_candidate d = refused e)"
    by (rule what_if_event_run [OF ev c(1)]) (rule that)
  note ro = step_outcome [OF r(1)]
  obtain cr c' where cs: "what_if_step c ev M opts = (cr, c')" by (cases "what_if_step c ev M opts")
  show ?thesis
  proof (cases cr)
    case (Inl e)
    then have "ro = refused e" using er [of e c'] cs nd by (auto simp: diverges_def)
    then show ?thesis using ro by (auto simp: refused_def)
  next
    case (Inr oc)
    then have w': "wi_cand w' = Some c'" "oc = ro"
      "wi_cand_by w' = note_resolution c' ro (Event i) (event_envelope ev) (wi_recorded_by w)"
      using co [of oc c'] cs nd c(3) by (auto simp: diverges_def)
    have "s_state c' = s_state r'"
      using step_outcome [of c ev M opts oc c'] cs Inr ro w'(2) c(2) by auto
    then show ?thesis using w' r(2,3) by (simp add: aligned_def note_resolution_def)
  qed
qed

lemma events_aligned:
  "aligned w \<Longrightarrow> what_if_events i evs M opts w = Inr w' \<Longrightarrow> \<forall>d \<in> set (wi_entries w'). \<not> diverges d \<Longrightarrow>
     aligned w'"
proof (induction evs arbitrary: i w)
  case (Cons ev evs)
  then obtain w1 where w1: "what_if_event i ev M opts w = Inr w1"
    "what_if_events (Suc i) evs M opts w1 = Inr w'" by (auto simp: res_simps)
  have "\<forall>d \<in> set (wi_entries w1). \<not> diverges d"
    using what_if_events_entries [OF w1(2)] Cons.prems(3) by auto
  then have "aligned w1" using event_aligned Cons.prems(1) w1(1) by blast
  then show ?case using Cons.IH w1(2) Cons.prems(3) by blast
qed simp

text \<open>The recorded policy as its own candidate.\<close>

definition identical :: "what_if_state \<Rightarrow> bool" where
  "identical w \<longleftrightarrow> wi_cand w = Some (wi_recorded w) \<and> wi_cand_by w = wi_recorded_by w \<and>
     wi_denials w = [] \<and> (\<forall>d \<in> set (wi_entries w). \<not> diverges d)"

lemma event_identical:
  assumes "identical w" "what_if_event i ev M opts w = Inr w'"
  shows "identical w'"
proof -
  have c: "wi_cand w = Some (wi_recorded w)" using assms(1) by (simp add: identical_def)
  obtain ro r' where r: "what_if_step (wi_recorded w) ev M opts = (Inr ro, r')" "wi_recorded w' = r'"
    "wi_recorded_by w' = note_resolution r' ro (Event i) (event_envelope ev) (wi_recorded_by w)"
    and co: "\<And>co c'. what_if_step (wi_recorded w) ev M opts = (Inr co, c') \<Longrightarrow> wi_cand w' = Some c' \<and>
       wi_cand_by w' = note_resolution c' co (Event i) (event_envelope ev) (wi_cand_by w) \<and>
       wi_denials w' = wi_denials w \<and> (\<exists>d. wi_entries w' = wi_entries w @ [d] \<and> ed_recorded d = ro \<and> ed_candidate d = co)"
    by (rule what_if_event_run [OF assms(2) c]) (rule that)
  show ?thesis using co [OF r(1)] r(2,3) assms(1) by (auto simp: identical_def diverges_def)
qed

lemma events_identical:
  "identical w \<Longrightarrow> what_if_events i evs M opts w = Inr w' \<Longrightarrow> identical w'"
proof (induction evs arbitrary: i w)
  case (Cons ev evs)
  then show ?case using event_identical by (fastforce simp: res_simps)
qed simp

lemma start_identical:
  assumes "rs_policy start = Some c" "what_if_start sx start M c = Inr w0"
  shows "identical w0"
proof -
  have "start\<lparr>rs_policy := Some c\<rparr> = start" using assms(1) by simp
  then show ?thesis
    using assms(2) by (auto simp: what_if_start_def Let_def res_simps identical_def diverges_def)
qed

lemma start_aligned:
  assumes "what_if_start sx start M c = Inr w0" "\<forall>d \<in> set (wi_entries w0). \<not> diverges d"
  shows "aligned w0"
proof -
  obtain r where r: "replay_start sx start M = Inr r"
    using assms(1) by (auto simp: what_if_start_def res_simps)
  show ?thesis
    using assms r
    by (cases "replay_start sx (start\<lparr>rs_policy := Some c\<rparr>) M")
      (auto simp: what_if_start_def Let_def aligned_def diverges_def refused_def)
qed

lemma find_None_all: "find P xs = None \<Longrightarrow> \<forall>x \<in> set xs. \<not> P x"
  by (auto simp: find_None_iff)

lemma start_entries: "what_if_start sx start M c = Inr w0 \<Longrightarrow> map ed_at (wi_entries w0) = [SessionStart]"
  by (cases "replay_start sx (start\<lparr>rs_policy := Some c\<rparr>) M")
    (auto simp: what_if_start_def Let_def res_simps)

end
