(* ===== verification/Examples.thy ===== *)
theory Examples
  imports Shipped_Modes What_If
begin

text \<open>
  Concrete sessions: a SessionStart of two participants, accepted under each mode, and the first
  messages of each. They show that the hypotheses of the properties can be met together.
\<close>

section \<open>A SessionStart and its session\<close>

definition example_payload :: SessionStartPayload where
  "example_payload =
     \<lparr>ssp_intent = [], ssp_participants = [''alice'', ''bob''], ssp_mode_version = ''1'',
      ssp_configuration_version = ''c'', ssp_policy_version = [], ssp_ttl_ms = 60000,
      ssp_context_id = [], ssp_extensions = Map.empty, ssp_roots = [], ssp_max_suspend_ms = 0\<rparr>"

definition example_sx :: start_ext where
  "example_sx = \<lparr>sx_decode_start = (\<lambda>_. Some example_payload), sx_parse_uuid = (\<lambda>_. None)\<rparr>"

definition message :: "string \<Rightarrow> string \<Rightarrow> string \<Rightarrow> string \<Rightarrow> bytes \<Rightarrow> Envelope" where
  "message mode ty i sender payload =
     \<lparr>e_macp_version = ''1.0'', e_mode = mode, e_message_type = ty, e_message_id = i,
      e_session_id = ''session-0000000000000001'', e_sender = sender, e_timestamp_unix_ms = 1000,
      e_payload = payload\<rparr>"

definition start_message :: "string \<Rightarrow> Envelope" where
  "start_message mode = message mode ''SessionStart'' ''m0'' ''alice'' ''start''"

definition example_validated :: ValidatedStart where
  "example_validated =
     \<lparr>vs_payload = example_payload, vs_bound_mode_version = None, vs_ttl_ms = 60000,
      vs_ttl_expiry = 61000, vs_max_suspend_ms = MAX_SUSPEND_MS, vs_accepted_at_ms = 1000\<rparr>"

definition fresh :: "PolicyDefinition option \<Rightarrow> string \<Rightarrow> Session" where
  "fresh policy mode =
     (Session_builder ''session-0000000000000001'' mode ''alice'')
       \<lparr>s_ttl_expiry := 61000, s_ttl_ms := 60000, s_max_suspend_ms := MAX_SUSPEND_MS,
        s_started_at_unix_ms := 1000, s_participants := [''alice'', ''bob''],
        s_mode_version := ''1'', s_configuration_version := ''c'',
        s_policy_version := (case policy of None \<Rightarrow> [] | Some p \<Rightarrow> p_policy_id p),
        s_policy_definition := policy\<rparr>"

definition opened :: "PolicyDefinition option \<Rightarrow> string \<Rightarrow> bytes \<Rightarrow> Session" where
  "opened policy mode ms =
     (fresh policy mode)\<lparr>s_seen_message_ids := {''m0''}, s_mode_state := ms\<rparr>"

lemma trim_names [simp]: "trim ''alice'' = ''alice''" "trim ''bob'' = ''bob''"
  by (simp_all add: trim_printable)

lemma not_blank_examples [simp]:
  "\<not> blank ''1''" "\<not> blank ''c''" "\<not> blank ''p1''" "\<not> blank ''yes''" "\<not> blank ''c1''"
  "\<not> blank ''deploy''" "\<not> blank ''team''" "\<not> blank ''done''"
  "\<not> blank ''macp.mode.decision.v1''" "\<not> blank ''macp.mode.proposal.v1''"
  "\<not> blank ''macp.mode.task.v1''" "\<not> blank ''macp.mode.handoff.v1''"
  "\<not> blank ''macp.mode.quorum.v1''" "\<not> blank ''ext.multi_round.v1''"
  by (simp_all add: printable_not_blank)

lemma example_fields [simp]:
  "ssp_participants example_payload = [''alice'', ''bob'']" "ssp_mode_version example_payload = ''1''"
  "ssp_configuration_version example_payload = ''c''" "ssp_policy_version example_payload = []"
  "ssp_ttl_ms example_payload = 60000" "ssp_max_suspend_ms example_payload = 0"
  "ssp_intent example_payload = []" "ssp_context_id example_payload = []"
  "ssp_extensions example_payload = Map.empty" "ssp_roots example_payload = []"
  by (simp_all add: example_payload_def)

lemma session_id_ok: "validate_session_id_for_acceptance (\<lambda>_. None) ''session-0000000000000001'' = Ok ()"
  by (simp add: validate_session_id_for_acceptance_def MAX_SESSION_ID_BYTES_def is_ascii_alphanumeric_def)

lemma example_canonical:
  "validate_canonical_session_start_payload_for_mode mode example_payload = Ok ()"
  by (simp add: validate_canonical_session_start_payload_for_mode_def validate_canonical_start_def
      extract_ttl_ms_def MAX_TTL_MS_def MAX_PARTICIPANTS_def Let_def)

lemma example_validate:
  assumes "\<not> blank mode"
  shows "validate_session_start example_sx (start_message mode) 1000 default_StartOptions
    = Ok example_validated"
  using assms
  by (simp add: validate_session_start_def start_message_def message_def check_envelope_shape_def
      MACP_VERSION_def default_StartOptions_def example_sx_def parse_session_start_payload_def
      session_id_ok example_canonical example_validated_def unwrap_or_def extract_ttl_ms_def
      MAX_TTL_MS_def resolve_max_suspend_ms_def sat_add_def sat_def i64_min_def
      i64_max_def Let_def)

lemma example_accept_start:
  assumes "m_on_session_start M (fresh policy mode) (start_message mode) = Ok (PersistState ms)"
    and "m_validate_client_envelope M (fresh policy mode) (start_message mode) = Ok ()"
    and "case policy of None \<Rightarrow> True | Some p \<Rightarrow> p_mode p = ''*''"
  shows "ValidatedStart_accept example_validated (start_message mode) M policy
    = Ok (opened policy mode ms)"
proof -
  let ?e = "start_message mode"
  have v: "ssp_policy_version (vs_payload example_validated) = []"
    by (simp add: example_validated_def)
  have s: "(Session_builder (e_session_id ?e) (e_mode ?e) (e_sender ?e))
      \<lparr>s_ttl_expiry := vs_ttl_expiry example_validated, s_ttl_ms := vs_ttl_ms example_validated,
       s_max_suspend_ms := vs_max_suspend_ms example_validated,
       s_started_at_unix_ms := vs_accepted_at_ms example_validated,
       s_participants := ssp_participants (vs_payload example_validated),
       s_intent := ssp_intent (vs_payload example_validated),
       s_mode_version := unwrap_or (ssp_mode_version (vs_payload example_validated))
         (vs_bound_mode_version example_validated),
       s_configuration_version := ssp_configuration_version (vs_payload example_validated),
       s_policy_version := (case policy of None \<Rightarrow> [] | Some p \<Rightarrow> p_policy_id p),
       s_context_id := ssp_context_id (vs_payload example_validated),
       s_extensions := ssp_extensions (vs_payload example_validated),
       s_roots := ssp_roots (vs_payload example_validated),
       s_policy_definition := policy, s_semantics_rev := CURRENT_SEMANTICS_REV\<rparr> = fresh policy mode"
    by (simp add: example_validated_def fresh_def Session_builder_def
        start_message_def message_def unwrap_or_def)
  have i: "e_message_id ?e = ''m0''" by (simp add: start_message_def message_def)
  have seen: "s_seen_message_ids (fresh policy mode) = {}"
    by (simp add: fresh_def Session_builder_def)
  have p: "resolve_policy_version [] policy = Ok (case policy of None \<Rightarrow> [] | Some p \<Rightarrow> p_policy_id p)"
    by (simp add: resolve_policy_version_def split: option.split)
  have q: "\<not> (case policy of None \<Rightarrow> False | Some p \<Rightarrow> p_mode p \<noteq> ''*'' \<and> p_mode p \<noteq> e_mode ?e)"
    using assms(3) by (simp split: option.splits)
  show ?thesis
    unfolding ValidatedStart_accept_def v p and_then_simps Let_def s assms(1,2) i
    using q by (simp add: opened_def consume_id_def seen)
qed

lemma example_accept:
  assumes "\<not> blank mode"
    and "m_on_session_start M (fresh policy mode) (start_message mode) = Ok (PersistState ms)"
    and "m_validate_client_envelope M (fresh policy mode) (start_message mode) = Ok ()"
    and "case policy of None \<Rightarrow> True | Some p \<Rightarrow> p_mode p = ''*''"
  shows "accept_session_start example_sx (start_message mode) 1000 M policy default_StartOptions
    = Ok (opened policy mode ms)"
  by (simp add: accept_session_start_def example_validate [OF assms(1)]
      example_accept_start [OF assms(2-4)])

section \<open>Messages on an open session\<close>

definition after :: "Session \<Rightarrow> string \<Rightarrow> string \<Rightarrow> i64 \<Rightarrow> bytes \<Rightarrow> Session" where
  "after s i sender now ms =
     (record_participant_activity sender now (consume_id i s))\<lparr>s_mode_state := ms\<rparr>"

lemma after_simps [simp]:
  "s_state (after s i a t ms) = s_state s" "s_mode_state (after s i a t ms) = ms"
  "s_mode (after s i a t ms) = s_mode s" "s_session_id (after s i a t ms) = s_session_id s"
  "s_ttl_expiry (after s i a t ms) = s_ttl_expiry s"
  "s_participants (after s i a t ms) = s_participants s"
  "s_initiator_sender (after s i a t ms) = s_initiator_sender s"
  "s_semantics_rev (after s i a t ms) = s_semantics_rev s"
  "s_policy_definition (after s i a t ms) = s_policy_definition s"
  "s_policy_version (after s i a t ms) = s_policy_version s"
  "s_mode_version (after s i a t ms) = s_mode_version s"
  "s_configuration_version (after s i a t ms) = s_configuration_version s"
  "s_suspension_intervals (after s i a t ms) = s_suspension_intervals s"
  "s_accumulated_suspended_ms (after s i a t ms) = s_accumulated_suspended_ms s"
  "s_seen_message_ids (after s i a t ms) = insert i (s_seen_message_ids s)"
  "s_resolution (after s i a t ms) = s_resolution s"
  by (simp_all add: after_def consume_id_def record_participant_activity_def)

lemma opened_simps [simp]:
  "s_state (opened p m ms) = Open" "s_mode_state (opened p m ms) = ms"
  "s_mode (opened p m ms) = m" "s_session_id (opened p m ms) = ''session-0000000000000001''"
  "s_ttl_expiry (opened p m ms) = 61000" "s_participants (opened p m ms) = [''alice'', ''bob'']"
  "s_initiator_sender (opened p m ms) = ''alice''"
  "s_semantics_rev (opened p m ms) = CURRENT_SEMANTICS_REV"
  "s_policy_definition (opened p m ms) = p" "s_mode_version (opened p m ms) = ''1''"
  "s_configuration_version (opened p m ms) = ''c''"
  "s_policy_version (opened p m ms) = (case p of None \<Rightarrow> [] | Some q \<Rightarrow> p_policy_id q)"
  "s_suspension_intervals (opened p m ms) = []" "s_accumulated_suspended_ms (opened p m ms) = 0"
  "s_seen_message_ids (opened p m ms) = {''m0''}" "s_resolution (opened p m ms) = None"
  by (simp_all add: opened_def fresh_def Session_builder_def)

lemma fresh_simps [simp]:
  "s_participants (fresh p m) = [''alice'', ''bob'']" "s_initiator_sender (fresh p m) = ''alice''"
  "s_semantics_rev (fresh p m) = CURRENT_SEMANTICS_REV"
  by (simp_all add: fresh_def Session_builder_def)

lemma message_simps [simp]:
  "e_message_type (message m ty i a b) = ty" "e_message_id (message m ty i a b) = i"
  "e_sender (message m ty i a b) = a" "e_payload (message m ty i a b) = b"
  "e_mode (message m ty i a b) = m" "e_timestamp_unix_ms (message m ty i a b) = 1000"
  "e_session_id (message m ty i a b) = ''session-0000000000000001''"
  "e_macp_version (message m ty i a b) = ''1.0''"
  by (simp_all add: message_def)

lemma start_message_simps [simp]:
  "e_message_id (start_message m) = ''m0''" "e_message_type (start_message m) = ''SessionStart''"
  "e_sender (start_message m) = ''alice''" "e_mode (start_message m) = m"
  by (simp_all add: start_message_def)

lemma example_step:
  assumes "s_state s = Open" "now \<le> s_ttl_expiry s" "s_mode s = m"
    and "s_session_id s = ''session-0000000000000001''" "i \<notin> s_seen_message_ids s"
    and "ty \<noteq> []" "i \<noteq> []" "a \<noteq> []"
    and "m_authorize_sender M s (message m ty i a b) = Ok ()" "m_validate_client_envelope M s (message m ty i a b) = Ok ()"
    and "m_due_synthetic_envelope M s now = None"
    and "m_on_message_at M s (message m ty i a b) (MessageContext_new now) = Ok (PersistState ms)"
  shows "step s (message m ty i a b) M now = (Ok (StepOutcome.Accepted Open []), after s i a now ms)"
proof -
  have p: "check_preconditions s (message m ty i a b) now = Ok PcProceed"
    using assms(1-8)
    by (simp add: preconditions_proceed shape_ok_iff MACP_VERSION_def deadline_passed_def)
  have "next_synthetic s M now = Ok None" using assms(11) by (simp add: next_synthetic_def)
  then have ad: "advance s M now = (Ok [], s)"
    by (simp add: advance_def advance_loop.simps [of MAX_SYNTHETIC_PER_STEP])
  show ?thesis
    using assms(1,9,10,12)
    by (simp add: step_def p ad admit_def dispatch_def commit_def Let_def after_def
        consume_id_def record_participant_activity_def)
qed

definition resolved :: "bytes \<Rightarrow> Session \<Rightarrow> Session" where
  "resolved resolution s = s\<lparr>s_state := Resolved, s_resolution := Some resolution\<rparr>"

lemma example_step_resolve:
  assumes "s_state s = Open" "now \<le> s_ttl_expiry s" "s_mode s = m"
    and "s_session_id s = ''session-0000000000000001''" "i \<notin> s_seen_message_ids s"
    and "ty \<noteq> []" "i \<noteq> []" "a \<noteq> []"
    and "m_authorize_sender M s (message m ty i a b) = Ok ()"
    and "m_validate_client_envelope M s (message m ty i a b) = Ok ()"
    and "m_due_synthetic_envelope M s now = None"
    and "m_on_message_at M s (message m ty i a b) (MessageContext_new now)
      = Ok (PersistAndResolve ms res)"
  shows "step s (message m ty i a b) M now
    = (Ok (StepOutcome.Accepted Resolved []), resolved res (after s i a now ms))"
proof -
  have p: "check_preconditions s (message m ty i a b) now = Ok PcProceed"
    using assms(1-8)
    by (simp add: preconditions_proceed shape_ok_iff MACP_VERSION_def deadline_passed_def)
  have "next_synthetic s M now = Ok None" using assms(11) by (simp add: next_synthetic_def)
  then have ad: "advance s M now = (Ok [], s)"
    by (simp add: advance_def advance_loop.simps [of MAX_SYNTHETIC_PER_STEP])
  show ?thesis
    using assms(1,9,10,12)
    by (simp add: step_def p ad admit_def dispatch_def commit_def Let_def after_def
        consume_id_def record_participant_activity_def resolved_def)
qed

lemma driven_step:
  "driven M s \<Longrightarrow> step s e M now = (r, s') \<Longrightarrow> driven M s'"
  using driven_op op_step by (metis snd_conv)

text \<open>Decision mode: a proposal, then a vote on it.\<close>

definition decision_s0 :: Session where
  "decision_s0 = opened None ''macp.mode.decision.v1'' (unary_encode default_state)"

definition decision_m1 :: Envelope where
  "decision_m1 = message ''macp.mode.decision.v1'' ''Proposal'' ''m1'' ''alice'' ''p1''"

definition decision_m2 :: Envelope where
  "decision_m2 = message ''macp.mode.decision.v1'' ''Vote'' ''m2'' ''bob'' ''p1''"

definition decision_st1 :: DecisionState where
  "decision_st1 = default_state\<lparr>ds_proposals := [(''p1'', \<lparr>pr_proposal_id = ''p1'', pr_option = ''yes'',
     pr_rationale = [], pr_sender = ''alice''\<rparr>)], ds_phase := DecisionPhase.Evaluation\<rparr>"

definition decision_st2 :: DecisionState where
  "decision_st2 = decision_st1\<lparr>ds_votes := [(''p1'', [(''bob'', \<lparr>vo_proposal_id = ''p1'',
     vo_vote = ''APPROVE'', vo_reason = [], vo_sender = ''bob''\<rparr>)])], ds_phase := Voting\<rparr>"

lemma decision_finite [simp]:
  "finite_confidences default_state" "finite_confidences decision_st1" "finite_confidences decision_st2"
  "finite_confidences \<lparr>ds_proposals = ps, ds_evaluations = [], ds_objections = os, ds_votes = vs, ds_phase = ph\<rparr>"
  by (simp_all add: finite_confidences_def decision_st2_def decision_st1_def default_state_def)

definition decision_s1 :: Session where
  "decision_s1 = after decision_s0 ''m1'' ''alice'' 2000 (unary_encode decision_st1)"

definition decision_s2 :: Session where
  "decision_s2 = after decision_s1 ''m2'' ''bob'' 3000 (unary_encode decision_st2)"

lemma decision_accept:
  "accept_session_start example_sx (start_message ''macp.mode.decision.v1'') 1000
     (DecisionMode example_decision) None default_StartOptions = Ok decision_s0"
  unfolding decision_s0_def
  by (rule example_accept)
    (simp_all add: DecisionMode_def default_mode_def decision_on_session_start_def
      default_validate_client_envelope_def example_decision_def)

lemma decision_step1:
  "step decision_s0 decision_m1 (DecisionMode example_decision) 2000 = (Ok (StepOutcome.Accepted Open []), decision_s1)"
  unfolding decision_m1_def decision_s1_def
  by (rule example_step)
    (simp_all add: decision_s0_def DecisionMode_def default_mode_def default_validate_client_envelope_def
      default_due_synthetic_envelope_def decision_authorize_sender_def decision_on_message_def
      decode_mode_state_def example_decision_def ensure_not_committed_def default_state_def
      Decision_Mode.handle_proposal_def ensure_can_propose_def Decision_Mode.persist_def bt_contains_def
      bt_empty_def decision_st1_def)

lemma decision_step2:
  "step decision_s1 decision_m2 (DecisionMode example_decision) 3000 = (Ok (StepOutcome.Accepted Open []), decision_s2)"
  unfolding decision_m2_def decision_s2_def
  by (rule example_step)
    (simp_all add: decision_s1_def decision_s0_def DecisionMode_def default_mode_def default_validate_client_envelope_def
      default_due_synthetic_envelope_def decision_authorize_sender_def decision_on_message_def
      decode_mode_state_def example_decision_def ensure_not_committed_def default_state_def
      handle_vote_def ensure_can_vote_def ensure_known_proposal_def Decision_Mode.persist_def bt_contains_def
      bt_empty_def decision_st1_def decision_st2_def wire_enum_def STRICT_WIRE_ENUMS_REV_def
      CURRENT_SEMANTICS_REV_def Let_def)

lemma decision_driven: "driven (DecisionMode example_decision) decision_s0"
  "driven (DecisionMode example_decision) decision_s1" "driven (DecisionMode example_decision) decision_s2"
proof -
  show 0: "driven (DecisionMode example_decision) decision_s0"
    by (rule driven_accepted, rule accepted_start, rule decision_accept)
  show 1: "driven (DecisionMode example_decision) decision_s1" by (rule driven_step [OF 0 decision_step1])
  show "driven (DecisionMode example_decision) decision_s2" by (rule driven_step [OF 1 decision_step2])
qed

end
