(* ===== verification/Example_Runs.thy ===== *)
theory Example_Runs
  imports Examples
begin

text \<open>Short runs of the Quorum, Handoff, Proposal, Task and multi-round modes.\<close>

section \<open>Quorum\<close>

abbreviation "Q \<equiv> QuorumMode example_quorum"
abbreviation "qmode \<equiv> ''macp.mode.quorum.v1''"

definition quorum_request :: ApprovalRequestRecord where
  "quorum_request = \<lparr>ar_request_id = ''r1'', ar_action = ''deploy'', ar_summary = [], ar_details = [],
     ar_required_approvals = 2, ar_requested_by = ''alice''\<rparr>"

definition ballot :: "BallotChoice \<Rightarrow> string \<Rightarrow> BallotRecord" where
  "ballot c a = \<lparr>br_request_id = ''r1'', br_choice = c, br_sender = a, br_reason = []\<rparr>"

definition quorum_st :: "(string \<times> BallotRecord) list \<Rightarrow> QuorumState" where
  "quorum_st bs = \<lparr>qs_request = Some quorum_request, qs_ballots = bs\<rparr>"

definition quorum_s0 :: Session where
  "quorum_s0 = opened None qmode (unary_encode default_QuorumState)"

definition quorum_s1 :: Session where
  "quorum_s1 = after quorum_s0 ''m1'' ''alice'' 2000 (unary_encode (quorum_st []))"

definition quorum_s2 :: Session where
  "quorum_s2 = after quorum_s1 ''m2'' ''alice'' 2000
     (unary_encode (quorum_st [(''alice'', ballot Approve ''alice'')]))"

definition quorum_s3 :: Session where
  "quorum_s3 = after quorum_s2 ''m3'' ''bob'' 2000
     (unary_encode (quorum_st [(''alice'', ballot Approve ''alice''), (''bob'', ballot Approve ''bob'')]))"

definition quorum_s4 :: Session where
  "quorum_s4 = resolved ''yes'' (after quorum_s3 ''m4'' ''alice'' 2000
     (unary_encode (quorum_st [(''alice'', ballot Approve ''alice''), (''bob'', ballot Approve ''bob'')])))"

lemmas quorum_eval = QuorumMode_def default_mode_def default_validate_client_envelope_def
  default_due_synthetic_envelope_def quorum_authorize_sender_def quorum_on_message_def
  quorum_on_session_start_def decode_mode_state_def example_quorum_def default_QuorumState_def
  Quorum_Mode.handle_request_def handle_ballot_def Quorum_Mode.handle_commitment_def
  Quorum_Mode.commitment_ready_def effective_threshold_def count_ballots_def bt_values_def
  bt_contains_def bt_empty_def as_u32_def Let_def check_commitment_authority_def
  validate_commitment_payload_for_session_def decode_commitment_payload_def example_commitment_def
  enforce_commitment_policy_def

lemma outcome_deploy:
  "validate_outcome_positive (example_commitment b) = Ok ()"
  by (simp add: validate_outcome_positive_def example_commitment_def negative_actions_def
      positive_actions_def ends_with_def starts_with_def)

lemma quorum_accept:
  "accept_session_start example_sx (start_message qmode) 1000 Q None default_StartOptions = Ok quorum_s0"
  unfolding quorum_s0_def by (rule example_accept) (simp_all add: quorum_eval)

lemma quorum_step1:
  "step quorum_s0 (message qmode ''ApprovalRequest'' ''m1'' ''alice'' ''request'') Q 2000
     = (Ok (StepOutcome.Accepted Open []), quorum_s1)"
  unfolding quorum_s1_def
  by (rule example_step) (simp_all add: quorum_s0_def quorum_eval quorum_st_def quorum_request_def)

lemma quorum_step2:
  "step quorum_s1 (message qmode ''Approve'' ''m2'' ''alice'' []) Q 2000
     = (Ok (StepOutcome.Accepted Open []), quorum_s2)"
  unfolding quorum_s2_def
  by (rule example_step)
    (simp_all add: quorum_s1_def quorum_s0_def quorum_eval quorum_st_def quorum_request_def ballot_def)

lemma quorum_step3:
  "step quorum_s2 (message qmode ''Approve'' ''m3'' ''bob'' []) Q 2000
     = (Ok (StepOutcome.Accepted Open []), quorum_s3)"
  unfolding quorum_s3_def
  by (rule example_step)
    (simp_all add: quorum_s2_def quorum_s1_def quorum_s0_def quorum_eval quorum_st_def quorum_request_def
      ballot_def)

lemma quorum_step4:
  "step quorum_s3 (message qmode ''Commitment'' ''m4'' ''alice'' ''yes'') Q 2000
     = (Ok (StepOutcome.Accepted Resolved []), quorum_s4)"
  unfolding quorum_s4_def
  by (rule example_step_resolve)
    (simp_all add: quorum_s3_def quorum_s2_def quorum_s1_def quorum_s0_def quorum_eval quorum_st_def
      quorum_request_def ballot_def outcome_deploy [unfolded example_commitment_def])

lemma quorum_driven: "driven Q quorum_s0" "driven Q quorum_s1" "driven Q quorum_s2" "driven Q quorum_s3"
  "driven Q quorum_s4"
proof -
  show 0: "driven Q quorum_s0" by (rule driven_accepted, rule accepted_start, rule quorum_accept)
  show 1: "driven Q quorum_s1" by (rule driven_step [OF 0 quorum_step1])
  show 2: "driven Q quorum_s2" by (rule driven_step [OF 1 quorum_step2])
  show 3: "driven Q quorum_s3" by (rule driven_step [OF 2 quorum_step3])
  show "driven Q quorum_s4" by (rule driven_step [OF 3 quorum_step4])
qed

text \<open>One rejection makes two approvals of two participants unreachable.\<close>

definition quorum_r2 :: Session where
  "quorum_r2 = after quorum_s1 ''m2'' ''bob'' 2000
     (unary_encode (quorum_st [(''bob'', ballot Reject ''bob'')]))"

lemma quorum_reject:
  "step quorum_s1 (message qmode ''Reject'' ''m2'' ''bob'' []) Q 2000
     = (Ok (StepOutcome.Accepted Open []), quorum_r2)"
  unfolding quorum_r2_def
  by (rule example_step)
    (simp_all add: quorum_s1_def quorum_s0_def quorum_eval quorum_st_def quorum_request_def ballot_def)

section \<open>Handoff\<close>

abbreviation "H \<equiv> HandoffMode example_handoff"
abbreviation "hmode \<equiv> ''macp.mode.handoff.v1''"

definition timeout_policy :: PolicyDefinition where
  "timeout_policy = \<lparr>p_policy_id = ''pol'', p_mode = ''*'', p_description = [],
     p_rules = JNumber (PosInt 500), p_schema_version = 1\<rparr>"

definition handoff_offer :: HandoffOfferRecord where
  "handoff_offer = \<lparr>ho_handoff_id = ''h1'', ho_target_participant = ''bob'', ho_scope = [],
     ho_reason = [], ho_offered_by = ''alice'', ho_disposition = Offered, ho_accepted_by = None,
     ho_declined_by = None, ho_outcome_reason = None, ho_offered_at_ms = 2000,
     ho_suspended_ms_at_offer = 0\<rparr>"

definition handoff_st1 :: HandoffState where
  "handoff_st1 = \<lparr>hs_offers = [(''h1'', handoff_offer)], hs_contexts = []\<rparr>"

definition handoff_s0 :: Session where
  "handoff_s0 = opened (Some timeout_policy) hmode (unary_encode default_HandoffState)"

definition handoff_s1 :: Session where
  "handoff_s1 = after handoff_s0 ''m1'' ''alice'' 2000 (unary_encode handoff_st1)"

lemmas handoff_eval = HandoffMode_def handoff_on_session_start_def handoff_validate_client_envelope_def
  handoff_authorize_sender_def handoff_on_message_at_def handle_message_def decode_mode_state_def
  example_handoff_def default_HandoffState_def handle_offer_def bt_contains_def bt_values_def bt_empty_def
  IMPLICIT_ACCEPT_MESSAGE_ID_PREFIX_def starts_with_def handoff_due_synthetic_envelope_def
  implicit_accept_timeout_ms_def handoff_rules_def no_rules_def timeout_policy_def wrap_i64_def
  CURRENT_SEMANTICS_REV_def Let_def DECLINED_TARGET_BAR_REV_def

lemma handoff_accept:
  "accept_session_start example_sx (start_message hmode) 1000 H (Some timeout_policy) default_StartOptions
     = Ok handoff_s0"
  unfolding handoff_s0_def by (rule example_accept) (simp_all add: handoff_eval)

lemma handoff_step1:
  "step handoff_s0 (message hmode ''HandoffOffer'' ''m1'' ''alice'' ''offer'') H 2000
     = (Ok (StepOutcome.Accepted Open []), handoff_s1)"
  unfolding handoff_s1_def
  by (rule example_step)
    (simp_all add: handoff_s0_def handoff_eval handoff_st1_def handoff_offer_def)

lemma handoff_driven: "driven H handoff_s0" "driven H handoff_s1"
proof -
  show 0: "driven H handoff_s0" by (rule driven_accepted, rule accepted_start, rule handoff_accept)
  show "driven H handoff_s1" by (rule driven_step [OF 0 handoff_step1])
qed

lemma handoff_clocked: "clocked_run example_handoff 1000 handoff_s0" "clocked_run example_handoff 2000 handoff_s1"
proof -
  show 0: "clocked_run example_handoff 1000 handoff_s0"
    by (rule run_start [OF handoff_accept]) (simp_all add: i64_max_def)
  have "clocked_run example_handoff 2000
      (snd (step handoff_s0 (message hmode ''HandoffOffer'' ''m1'' ''alice'' ''offer'') H 2000))"
    by (rule run_message [OF 0]) (simp_all add: i64_max_def)
  then show "clocked_run example_handoff 2000 handoff_s1" by (simp add: handoff_step1)
qed

lemma handoff_due:
  "handoff_due_synthetic_envelope example_handoff handoff_s1 3000
     = Some (implicit_accept_envelope example_handoff handoff_s1 handoff_offer 2500)"
  by (simp add: handoff_s1_def handoff_s0_def handoff_st1_def handoff_eval unwrap_or_def)
    (simp add: handoff_offer_def implicit_accept_elapsed_ms_def rev2_elapsed_ms_def Let_def
      sat_sub_def sat_def i64_min_def i64_max_def unsuspended_deadline_def sat_add_def CURRENT_SEMANTICS_REV_def)

section \<open>Proposal\<close>

abbreviation "P \<equiv> ProposalMode example_proposal"
abbreviation "pmode \<equiv> ''macp.mode.proposal.v1''"

definition offered_proposal :: ProposalRecord where
  "offered_proposal = \<lparr>prr_proposal_id = ''p1'', prr_title = [], prr_summary = [], prr_details = [],
     prr_tags = [], prr_proposer = ''alice'', prr_supersedes_proposal_id = None,
     prr_disposition = Live\<rparr>"

definition proposal_st :: "(string \<times> string) list \<Rightarrow> ProposalPhase \<Rightarrow> ProposalState" where
  "proposal_st accs ph = \<lparr>ps_proposals = [(''p1'', offered_proposal)], ps_accepts = accs,
     ps_terminal_rejections = [], ps_rejections = [], ps_phase = ph\<rparr>"

definition proposal_s0 :: Session where
  "proposal_s0 = opened None pmode (unary_encode default_ProposalState)"

definition proposal_s1 :: Session where
  "proposal_s1 = after proposal_s0 ''m1'' ''alice'' 2000 (unary_encode (proposal_st [] Negotiating))"

definition proposal_s2 :: Session where
  "proposal_s2 = after proposal_s1 ''m2'' ''alice'' 2000
     (unary_encode (proposal_st [(''alice'', ''p1'')] Negotiating))"

definition proposal_s3 :: Session where
  "proposal_s3 = after proposal_s2 ''m3'' ''bob'' 2000
     (unary_encode (proposal_st [(''alice'', ''p1''), (''bob'', ''p1'')] Converged))"

lemmas proposal_eval = ProposalMode_def default_mode_def default_validate_client_envelope_def
  default_due_synthetic_envelope_def proposal_authorize_sender_def proposal_on_message_def
  proposal_on_session_start_def decode_mode_state_def example_proposal_def default_ProposalState_def
  Proposal_Mode.handle_proposal_def Proposal_Mode.handle_accept_def Proposal_Mode.persist_def
  ensure_mutable_def refresh_phase_def criterion_of_def check_acceptance_criterion_def
  participants_all_accept_def live_proposal_def bt_contains_def bt_values_def bt_empty_def Let_def
  proposal_st_def offered_proposal_def

lemma proposal_accept:
  "accept_session_start example_sx (start_message pmode) 1000 P None default_StartOptions = Ok proposal_s0"
  unfolding proposal_s0_def by (rule example_accept) (simp_all add: proposal_eval)

lemma proposal_step1:
  "step proposal_s0 (message pmode ''Proposal'' ''m1'' ''alice'' ''p1'') P 2000
     = (Ok (StepOutcome.Accepted Open []), proposal_s1)"
  unfolding proposal_s1_def by (rule example_step) (simp_all add: proposal_s0_def proposal_eval)

lemma proposal_step2:
  "step proposal_s1 (message pmode ''Accept'' ''m2'' ''alice'' ''p1'') P 2000
     = (Ok (StepOutcome.Accepted Open []), proposal_s2)"
  unfolding proposal_s2_def
  by (rule example_step) (simp_all add: proposal_s1_def proposal_s0_def proposal_eval)

lemma proposal_step3:
  "step proposal_s2 (message pmode ''Accept'' ''m3'' ''bob'' ''p1'') P 2000
     = (Ok (StepOutcome.Accepted Open []), proposal_s3)"
  unfolding proposal_s3_def
  by (rule example_step) (simp_all add: proposal_s2_def proposal_s1_def proposal_s0_def proposal_eval)

lemma proposal_driven: "driven P proposal_s3"
  by (rule driven_step [OF _ proposal_step3], rule driven_step [OF _ proposal_step2],
      rule driven_step [OF _ proposal_step1], rule driven_accepted, rule accepted_start,
      rule proposal_accept)

section \<open>Task\<close>

text \<open>A named assignee accepts, then rejects while assigned: no message moves the session again.\<close>

abbreviation "T \<equiv> TaskMode example_task"
abbreviation "tmode \<equiv> ''macp.mode.task.v1''"

definition task_policy :: PolicyDefinition where
  "task_policy = \<lparr>p_policy_id = ''pol'', p_mode = ''*'', p_description = [], p_rules = JNull,
     p_schema_version = 1\<rparr>"

definition named_task :: TaskRecord where
  "named_task = \<lparr>tk_task_id = ''t1'', tk_title = [], tk_instructions = [],
     tk_requested_assignee = ''bob'', tk_input = [], tk_deadline_unix_ms = 0, tk_requester = ''alice''\<rparr>"

definition task_st :: "string option \<Rightarrow> TaskRejectRecord list \<Rightarrow> TaskState" where
  "task_st active rjs = \<lparr>ts_task = Some named_task, ts_active_assignee = active, ts_rejections = rjs,
     ts_updates = [], ts_terminal_report = None\<rparr>"

lemma task_finite [simp]: "finite_updates default_TaskState" "finite_updates (task_st active rjs)"
  "finite_updates \<lparr>ts_task = t, ts_active_assignee = a, ts_rejections = rjs, ts_updates = [],
     ts_terminal_report = r\<rparr>"
  by (simp_all add: finite_updates_def default_TaskState_def task_st_def)

definition assigned_reject :: TaskRejectRecord where
  "assigned_reject = \<lparr>tr_task_id = ''t1'', tr_assignee = ''bob'', tr_reason = [], tr_while_assigned = True\<rparr>"

definition task_s0 :: Session where
  "task_s0 = opened (Some task_policy) tmode (unary_encode default_TaskState)"

definition task_s1 :: Session where
  "task_s1 = after task_s0 ''m1'' ''alice'' 2000 (unary_encode (task_st None []))"

definition task_s2 :: Session where
  "task_s2 = after task_s1 ''m2'' ''bob'' 2000 (unary_encode (task_st (Some ''bob'') []))"

definition task_s3 :: Session where
  "task_s3 = after task_s2 ''m3'' ''bob'' 2000 (unary_encode (task_st None [assigned_reject]))"

lemmas task_eval = TaskMode_def default_mode_def default_validate_client_envelope_def
  default_due_synthetic_envelope_def task_authorize_sender_def task_on_message_def
  task_on_session_start_def decode_mode_state_def example_task_def default_TaskState_def
  Task_Mode.handle_request_def Task_Mode.handle_accept_def Task_Mode.handle_reject_def
  Task_Mode.persist_def ensure_task_matches_def can_assignee_respond_def reassignment_allowed_def
  PERSONAL_DECLINE_REV_def task_policy_def unwrap_or_def Let_def task_st_def named_task_def
  assigned_reject_def

lemma task_accept:
  "accept_session_start example_sx (start_message tmode) 1000 T (Some task_policy) default_StartOptions
     = Ok task_s0"
  unfolding task_s0_def by (rule example_accept) (simp_all add: task_eval)

lemma task_step1:
  "step task_s0 (message tmode ''TaskRequest'' ''m1'' ''alice'' ''bob'') T 2000
     = (Ok (StepOutcome.Accepted Open []), task_s1)"
  unfolding task_s1_def by (rule example_step) (simp_all add: task_s0_def task_eval)

lemma task_step2:
  "step task_s1 (message tmode ''TaskAccept'' ''m2'' ''bob'' []) T 2000
     = (Ok (StepOutcome.Accepted Open []), task_s2)"
  unfolding task_s2_def by (rule example_step) (simp_all add: task_s1_def task_s0_def task_eval)

lemma task_step3:
  "step task_s2 (message tmode ''TaskReject'' ''m3'' ''bob'' []) T 2000
     = (Ok (StepOutcome.Accepted Open []), task_s3)"
  unfolding task_s3_def
  by (rule example_step) (simp_all add: task_s2_def task_s1_def task_s0_def task_eval)

lemma task_driven: "driven T task_s2" "driven T task_s3"
proof -
  show 2: "driven T task_s2"
    by (rule driven_step [OF _ task_step2], rule driven_step [OF _ task_step1], rule driven_accepted,
        rule accepted_start, rule task_accept)
  show "driven T task_s3" by (rule driven_step [OF 2 task_step3])
qed

section \<open>Multi-round\<close>

abbreviation "R \<equiv> MultiRoundMode example_multi_round"
abbreviation "rmode \<equiv> ''ext.multi_round.v1''"

definition round_st :: "u64 \<Rightarrow> (string \<times> string) list \<Rightarrow> bool \<Rightarrow> MultiRoundState" where
  "round_st n cs conv = \<lparr>mr_round = n, mr_participants = [''alice'', ''bob''], mr_contributions = cs,
     mr_convergence_type = ''all_equal'', mr_converged = conv\<rparr>"

definition round_s0 :: Session where
  "round_s0 = opened None rmode (unary_encode (round_st 0 [] False))"

definition round_s1 :: Session where
  "round_s1 = after round_s0 ''m1'' ''alice'' 2000 (unary_encode (round_st 1 [(''alice'', ''7'')] False))"

definition round_s2 :: Session where
  "round_s2 = after round_s1 ''m2'' ''bob'' 2000
     (unary_encode (round_st 2 [(''alice'', ''7''), (''bob'', ''7'')] True))"

lemmas round_eval = MultiRoundMode_def default_mode_def default_validate_client_envelope_def
  default_due_synthetic_envelope_def multi_round_authorize_sender_def multi_round_on_message_def
  multi_round_on_session_start_def decode_mode_state_def example_multi_round_def
  handle_contribute_def contribute_def check_convergence_def parse_contribute_value_def
  bt_contains_def bt_values_def bt_empty_def Let_def round_st_def

lemma round_accept:
  "accept_session_start example_sx (start_message rmode) 1000 R None default_StartOptions = Ok round_s0"
  unfolding round_s0_def by (rule example_accept) (simp_all add: round_eval)

lemma round_step1:
  "step round_s0 (message rmode ''Contribute'' ''m1'' ''alice'' ''7'') R 2000
     = (Ok (StepOutcome.Accepted Open []), round_s1)"
  unfolding round_s1_def by (rule example_step) (simp_all add: round_s0_def round_eval)

lemma round_step2:
  "step round_s1 (message rmode ''Contribute'' ''m2'' ''bob'' ''7'') R 2000
     = (Ok (StepOutcome.Accepted Open []), round_s2)"
  unfolding round_s2_def
  by (rule example_step) (simp_all add: round_s1_def round_s0_def round_eval numeral_2_eq_2 [symmetric])

lemma round_driven: "driven R round_s2"
  by (rule driven_step [OF _ round_step2], rule driven_step [OF _ round_step1], rule driven_accepted,
      rule accepted_start, rule round_accept)

text \<open>The same run over a decoder that reads Commitments.\<close>

definition committing_round :: multi_round_ext where
  "committing_round = example_multi_round\<lparr>x_decode_commitment := (\<lambda>_. Some (example_commitment True))\<rparr>"

lemma committing_driven: "driven (MultiRoundMode committing_round) round_s2"
proof -
  let ?M = "MultiRoundMode committing_round"
  note ev = round_eval committing_round_def
  have 0: "accept_session_start example_sx (start_message rmode) 1000 ?M None default_StartOptions = Ok round_s0"
    unfolding round_s0_def by (rule example_accept) (simp_all add: ev)
  have 1: "step round_s0 (message rmode ''Contribute'' ''m1'' ''alice'' ''7'') ?M 2000
      = (Ok (StepOutcome.Accepted Open []), round_s1)"
    unfolding round_s1_def by (rule example_step) (simp_all add: round_s0_def ev)
  have 2: "step round_s1 (message rmode ''Contribute'' ''m2'' ''bob'' ''7'') ?M 2000
      = (Ok (StepOutcome.Accepted Open []), round_s2)"
    unfolding round_s2_def
    by (rule example_step) (simp_all add: round_s1_def round_s0_def ev numeral_2_eq_2 [symmetric])
  show ?thesis
    by (rule driven_step [OF _ 2], rule driven_step [OF _ 1], rule driven_accepted, rule accepted_start,
        rule 0)
qed

end
