(* ===== verification/Session_Properties.thy ===== *)
theory Session_Properties
  imports Example_Runs
begin

text \<open>Properties of the session, its lifecycle and its clock, and of the error registry.\<close>

section \<open>Suspension and expiry\<close>

text \<open>Suspending an open session and resuming it within the suspension cap gives back the
  session with the pause added to the TTL deadline, to the banked total and to the list of
  intervals, and with nothing else changed.\<close>

theorem suspend_then_resume:
  assumes "s_state s = Open" "session_inv s"
    and "0 \<le> t0" "t0 \<le> t1" "t1 \<le> i64_max"
    and "s_accumulated_suspended_ms s + (t1 - t0) \<le> effective_max_suspend_ms s"
    and "effective_max_suspend_ms s \<le> i64_max"
    and "length (s_suspension_intervals s) < MAX_SUSPENSION_CYCLES"
    and "s_ttl_expiry s + (t1 - t0) \<le> i64_max"
  shows "resume t1 (snd (suspend t0 s)) =
    (Ok (), s\<lparr>s_ttl_expiry := s_ttl_expiry s + (t1 - t0),
              s_accumulated_suspended_ms := s_accumulated_suspended_ms s + (t1 - t0),
              s_suspension_intervals := s_suspension_intervals s @ [(t0, t1)]\<rparr>)"
  using assms by (rule suspend_resume)

lemma opened_inv: "session_inv (opened p m ms)"
  by (simp add: session_inv_def opened_def fresh_def Session_builder_def in_i64_def i64_min_def
      i64_max_def effective_max_suspend_ms_def MAX_SUSPEND_MS_def)

lemma opened_cap: "effective_max_suspend_ms (opened p m ms) = MAX_SUSPEND_MS"
  by (simp add: effective_max_suspend_ms_def opened_def fresh_def Session_builder_def MAX_SUSPEND_MS_def)

theorem suspend_then_resume_witness:
  "resume 5000 (snd (suspend 2000 decision_s0)) =
    (Ok (), decision_s0\<lparr>s_ttl_expiry := 64000, s_accumulated_suspended_ms := 3000,
              s_suspension_intervals := [(2000, 5000)]\<rparr>)"
  using suspend_then_resume [of decision_s0 2000 5000] opened_inv opened_cap
  by (simp add: decision_s0_def i64_max_def MAX_SUSPEND_MS_def MAX_SUSPENSION_CYCLES_def)

text \<open>On a suspended session with a free suspension slot, the lazy expiry test and the
  outcome of a resume agree at every instant: the deadline has passed exactly when resuming would
  end the session as expired, and otherwise resuming reopens it.\<close>

theorem expiry_agrees_with_resume:
  assumes "s_state s = Suspended" "session_inv s"
    and "s_semantics_rev s \<ge> 2 \<longrightarrow> length (s_suspension_intervals s) < MAX_SUSPENSION_CYCLES"
  shows "if deadline_passed now s
    then fst (resume now s) = Err TtlExpired \<and> s_state (snd (resume now s)) = Expired
    else fst (resume now s) = Ok () \<and> s_state (snd (resume now s)) = Open"
proof -
  obtain t where t: "s_suspended_at_ms s = Some t" using assms(1,2) by (auto simp: session_inv_def)
  show ?thesis
    using assms t
    by (auto simp: deadline_passed_def suspend_cap_exceeded_def resume_def Let_def unwrap_or_def
        effective_max_suspend_ms_def)
qed

theorem expiry_agrees_with_resume_witness:
  "fst (resume (MAX_SUSPEND_MS + 2001) (snd (suspend 2000 decision_s0))) = Err TtlExpired"
proof -
  let ?s = "snd (suspend 2000 decision_s0)"
  have f: "s_state ?s = Suspended" "s_suspended_at_ms ?s = Some 2000" "s_suspension_intervals ?s = []"
    "s_accumulated_suspended_ms ?s = 0" "s_max_suspend_ms ?s = MAX_SUSPEND_MS"
    by (simp_all add: suspend_def decision_s0_def opened_def fresh_def Session_builder_def)
  have "session_inv ?s" by (rule suspend_inv) (simp add: decision_s0_def opened_inv)
  moreover have "deadline_passed (MAX_SUSPEND_MS + 2001) ?s"
    using f by (simp add: deadline_passed_def suspend_cap_exceeded_def effective_max_suspend_ms_def
        MAX_SUSPEND_MS_def wrap_i64_def sat_add_def sat_def i64_min_def i64_max_def)
  ultimately show ?thesis
    using expiry_agrees_with_resume [of ?s "MAX_SUSPEND_MS + 2001"] f
    by (simp add: MAX_SUSPENSION_CYCLES_def)
qed

section \<open>The deadline that skips suspensions\<close>

text \<open>Claim C23. On a timeline of ordered pauses that fits the integer range, the walk returns the
  earliest instant by which the requested amount of unsuspended time has elapsed: exactly that
  amount at the deadline, less at every earlier instant.\<close>

theorem deadline_is_earliest:
  assumes "timeline from_ms ivs" "0 \<le> from_ms" "0 \<le> duration_ms"
    and "from_ms + duration_ms + sum_list (map pause ivs) \<le> i64_max"
    and "\<forall>(a, b) \<in> set ivs. b \<le> i64_max"
  defines "d \<equiv> deadline_walk ivs from_ms duration_ms"
  shows "from_ms \<le> d \<and> (d - from_ms) - suspended_in ivs from_ms d = duration_ms
    \<and> (\<forall>u. from_ms \<le> u \<and> u < d \<longrightarrow> (u - from_ms) - suspended_in ivs from_ms u < duration_ms)"
  unfolding d_def by (rule deadline_walk_earliest [OF assms(1-5)])

theorem deadline_is_earliest_witness:
  "deadline_walk [(1500, 1800)] 1000 600 = 1900 \<and>
   (1900 - 1000) - suspended_in [(1500, 1800)] 1000 1900 = 600"
proof -
  have d: "deadline_walk [(1500, 1800)] 1000 600 = 1900"
    by (simp add: deadline_walk.simps Let_def sat_add_def sat_sub_def sat_def i64_min_def i64_max_def)
  show ?thesis
    using deadline_is_earliest [of 1000 "[(1500, 1800)]" 600] d
    by (simp add: pause_def i64_max_def)
qed

text \<open>The suspension-corrected deadline is stable: pauses recorded later, which start at
  or after it, never move it. A deadline that has been stamped on an envelope stays the deadline
  a replay computes.\<close>

theorem deadline_is_stable:
  assumes "s_suspension_intervals s' = s_suspension_intervals s @ later"
    and "in_i64 from_ms" "in_i64 duration_ms" "0 \<le> duration_ms"
    and "\<forall>(a, b) \<in> set (s_suspension_intervals s @ later). in_i64 a \<and> in_i64 b"
    and "\<forall>(a, b) \<in> set later. unsuspended_deadline s from_ms duration_ms \<le> a"
  shows "unsuspended_deadline s' from_ms duration_ms = unsuspended_deadline s from_ms duration_ms"
proof -
  let ?f = "filter (\<lambda>(a, _). a \<ge> from_ms)"
  have "deadline_walk (?f (s_suspension_intervals s) @ ?f later) from_ms duration_ms
      = deadline_walk (?f (s_suspension_intervals s)) from_ms duration_ms"
    using assms(2-6) by (intro deadline_walk_append) (auto simp: unsuspended_deadline_def)
  then show ?thesis by (simp add: unsuspended_deadline_def assms(1))
qed

theorem deadline_is_stable_witness:
  "unsuspended_deadline (decision_s0\<lparr>s_suspension_intervals := [(1500, 1800), (1900, 2500)]\<rparr>) 1000 600
     = unsuspended_deadline (decision_s0\<lparr>s_suspension_intervals := [(1500, 1800)]\<rparr>) 1000 600"
proof -
  have d: "deadline_walk [(1500, 1800)] 1000 600 = 1900"
    by (simp add: deadline_walk.simps Let_def sat_add_def sat_sub_def sat_def i64_min_def i64_max_def)
  show ?thesis
    by (rule deadline_is_stable [of _ _ "[(1900, 2500)]"])
      (simp_all add: in_i64_def i64_min_def i64_max_def unsuspended_deadline_def d)
qed

text \<open>Whatever pairs were recorded, overlapping and backwards ones included, the
  suspension-corrected deadline lies between the uncorrected deadline and that deadline plus all
  pauses, both computed with saturation.\<close>

theorem deadline_bounds:
  assumes "in_i64 from_ms" "in_i64 duration_ms"
    and "\<forall>(a, b) \<in> set (s_suspension_intervals s). in_i64 a \<and> in_i64 b"
  shows "sat_add from_ms duration_ms \<le> unsuspended_deadline s from_ms duration_ms
    \<and> unsuspended_deadline s from_ms duration_ms
        \<le> sat (from_ms + duration_ms + pauses_from from_ms (s_suspension_intervals s))"
proof -
  have "\<forall>(a, b) \<in> set (filter (\<lambda>(a, _). a \<ge> from_ms) (s_suspension_intervals s)). in_i64 a \<and> in_i64 b"
    using assms(3) by auto
  then show ?thesis
    unfolding unsuspended_deadline_def pauses_from_def
    by (intro conjI deadline_walk_ge deadline_walk_le assms(1,2))
qed

theorem deadline_bounds_witness:
  "sat_add 1000 600 \<le> unsuspended_deadline (decision_s0\<lparr>s_suspension_intervals := [(1800, 1500)]\<rparr>) 1000 600"
  using deadline_bounds [of 1000 600 "decision_s0\<lparr>s_suspension_intervals := [(1800, 1500)]\<rparr>"]
  by (simp add: in_i64_def i64_min_def i64_max_def)

section \<open>Errors\<close>

text \<open>Every protocol error has exactly one row in the error-code registry, and that row
  gives its transport and HTTP status: the registry lookup that would panic never fails.\<close>

theorem error_registry_total:
  "(\<exists>!row. row \<in> set ERROR_CODE_REGISTRY \<and> re_code row = error_code e) \<and>
   (\<exists>st. transport_status e = Some st) \<and> (\<exists>n. http_status e = Some n \<and> 400 \<le> n \<and> n < 600)"
proof -
  obtain row where row: "registry_row e = Some row" "re_code row = error_code e"
    using registry_row_total by blast
  then have mem: "row \<in> set ERROR_CODE_REGISTRY"
    by (auto simp: registry_row_def registry_entry_def find_Some_iff)
  have "row' = row" if "row' \<in> set ERROR_CODE_REGISTRY" "re_code row' = error_code e" for row'
    using that mem row(2) registry_codes_distinct by (metis distinct_map inj_on_eq_iff)
  then have u: "\<exists>!row. row \<in> set ERROR_CODE_REGISTRY \<and> re_code row = error_code e"
    using mem row(2) by blast
  have h: "\<forall>r \<in> set ERROR_CODE_REGISTRY. 400 \<le> re_http r \<and> re_http r < 600"
    by (simp add: ERROR_CODE_REGISTRY_def)
  have st: "transport_status e = Some (re_grpc row)" and ht: "http_status e = Some (re_http row)"
    by (simp_all add: transport_status_def http_status_def row(1))
  from h mem have "400 \<le> re_http row \<and> re_http row < 600" by blast
  with ht have "\<exists>n. http_status e = Some n \<and> 400 \<le> n \<and> n < 600" by blast
  with u st show ?thesis by blast
qed

end
