(* ===== verification/Kernel_Properties.thy ===== *)
theory Kernel_Properties
  imports Example_Runs
begin

text \<open>Properties of the kernel that hold for every mode the runtime ships: replay, lifecycle,
  deduplication, acceptance, resolution, and what-if replay.\<close>

lemma shipped_examples:
  "shipped_mode (DecisionMode example_decision)" "shipped_mode H" "shipped_mode Q"
  using std_decision [of example_decision] std_handoff [OF example_handoff_law] std_quorum [of example_quorum]
  by (auto simp: shipped_mode_def)

section \<open>Replay\<close>

text \<open>Claim C1. Replaying the recorded SessionStart and the recorded events of any live session of a
  shipped mode succeeds and rebuilds that session, field by field; the one field that may differ
  is \<^verbatim>\<open>suspended_at_ms\<close> of an expired session.\<close>

theorem replay_rebuilds_session:
  assumes "shipped_mode M" and v: "validate_session_start sx env now opts = Ok v"
    and a: "ValidatedStart_accept v env M policy = Ok s0" and "live M s0 evs s"
  shows "\<exists>r. replay sx (recorded_start env s0 v opts) evs M default_ReplayOptions = Ok r \<and>
    forget_pause r = forget_pause s"
proof -
  obtain minv where c: "mode_contract M minv" using assms(1) by (rule shipped_contract)
  have "accept_session_start sx env now M policy opts = Inr s0"
    using v a by (simp add: accept_session_start_def)
  then have "minv s0" by (rule mode_contract.accepted_minv [OF c])
  then obtain r where "replay_events s0 evs M default_ReplayOptions = Inr r"
    "forget_pause r = forget_pause s" using mode_contract.live_replay [OF c assms(4)] by blast
  then show ?thesis by (simp add: replay_def replay_recorded_start [OF v a])
qed

lemma decision_recorded:
  "ValidatedStart_accept example_validated (start_message ''macp.mode.decision.v1'')
     (DecisionMode example_decision) None = Ok decision_s0"
  using decision_accept example_validate [of "''macp.mode.decision.v1''"]
  by (simp add: accept_session_start_def)

lemma decision_live:
  "live (DecisionMode example_decision) decision_s0
     [EvMessage decision_m1 2000, EvMessage decision_m2 3000] decision_s2"
proof -
  have "live (DecisionMode example_decision) decision_s0
      ([] @ map EvSynthetic [] @ [EvMessage decision_m1 2000]) decision_s1"
    by (rule live_accept [OF live_start decision_step1])
  then have "live (DecisionMode example_decision) decision_s0
      (([] @ map EvSynthetic [] @ [EvMessage decision_m1 2000]) @ map EvSynthetic [] @
        [EvMessage decision_m2 3000]) decision_s2"
    by (rule live_accept [OF _ decision_step2])
  then show ?thesis by simp
qed

theorem replay_rebuilds_session_witness:
  "replay example_sx
     (recorded_start (start_message ''macp.mode.decision.v1'') decision_s0 example_validated default_StartOptions)
     [EvMessage decision_m1 2000, EvMessage decision_m2 3000] (DecisionMode example_decision)
     default_ReplayOptions = Ok decision_s2"
proof -
  obtain r where r: "replay example_sx
      (recorded_start (start_message ''macp.mode.decision.v1'') decision_s0 example_validated default_StartOptions)
      [EvMessage decision_m1 2000, EvMessage decision_m2 3000] (DecisionMode example_decision)
      default_ReplayOptions = Ok r" "forget_pause r = forget_pause decision_s2"
    using replay_rebuilds_session [OF shipped_examples(1) example_validate decision_recorded decision_live]
    by auto
  moreover have "s_state decision_s2 = Open" by (simp add: decision_s2_def decision_s1_def decision_s0_def)
  ultimately show ?thesis using forget_pause_eq [of r decision_s2] by simp
qed

section \<open>Lifecycle\<close>




text \<open>Claim C31. A terminal session is final: no sequence of kernel calls changes its state, its
  resolution or its mode state, and everything bound at SessionStart stays as it was.\<close>

theorem terminal_is_final:
  assumes "shipped_mode M" "driven M s" "is_terminal (s_state s)" "(kernel_op M)\<^sup>*\<^sup>* s s'"
  shows "s_state s' = s_state s \<and> s_resolution s' = s_resolution s \<and>
    s_mode_state s' = s_mode_state s \<and> bound_fields s' = bound_fields s"
proof -
  obtain minv where c: "mode_contract M minv" using assms(1) by (rule shipped_contract)
  have "session_step\<^sup>*\<^sup>* s s'"
    by (rule mode_contract.ops_reach [OF c assms(4) mode_contract.driven_minv [OF c assms(2)]])
  from session_steps_terminal [OF this assms(3)] session_steps_bound [OF this]
  show ?thesis by (simp add: outcome_def)
qed

theorem terminal_is_final_witness:
  "s_resolution (snd (step quorum_s4 (message qmode ''Commitment'' ''m9'' ''alice'' ''no'') Q 2000))
     = Some ''yes''"
proof -
  have t: "is_terminal (s_state quorum_s4)" by (simp add: quorum_s4_def resolved_def)
  have "(kernel_op Q)\<^sup>*\<^sup>* quorum_s4 (snd (step quorum_s4 (message qmode ''Commitment'' ''m9'' ''alice'' ''no'') Q 2000))"
    by (rule r_into_rtranclp, rule op_step)
  from terminal_is_final [OF shipped_examples(3) quorum_driven(5) t this]
  show ?thesis by (simp add: quorum_s4_def resolved_def)
qed

text \<open>What SessionStart binds is immutable: participants, initiator, policy, versions, TTL,
  suspension cap, semantics revision and identifiers are the same in every later state.\<close>

theorem bindings_immutable:
  assumes "shipped_mode M" "driven M s" "(kernel_op M)\<^sup>*\<^sup>* s s'"
  shows "bound_fields s' = bound_fields s"
proof -
  obtain minv where c: "mode_contract M minv" using assms(1) by (rule shipped_contract)
  have "session_step\<^sup>*\<^sup>* s s'"
    by (rule mode_contract.ops_reach [OF c assms(3) mode_contract.driven_minv [OF c assms(2)]])
  then show ?thesis by (rule session_steps_bound)
qed

theorem bindings_immutable_witness: "bound_fields (snd (suspend 5000 quorum_s3)) = bound_fields quorum_s3"
  by (rule bindings_immutable [OF shipped_examples(3) quorum_driven(4) r_into_rtranclp, OF op_suspend])

section \<open>Messages\<close>

text \<open>Claim C11. A message is applied at most once: after it has been accepted, any well-formed
  envelope that carries its message id is reported as a duplicate and changes nothing, in every
  later state of the session, terminal states included.\<close>

theorem accepted_once:
  assumes "shipped_mode M" "driven M s" "step s env M now = (Ok (StepOutcome.Accepted st syns), s')"
    and "(kernel_op M)\<^sup>*\<^sup>* s' t" "e_message_id env' = e_message_id env"
    and "check_envelope_shape env' = Ok ()"
  shows "step t env' M later = (Ok Duplicate, t)"
proof -
  obtain minv where c: "mode_contract M minv" using assms(1) by (rule shipped_contract)
  show ?thesis by (rule mode_contract.resend_duplicate [OF c assms(2-6)])
qed

theorem accepted_once_witness:
  "step quorum_s4 (message qmode ''Reject'' ''m4'' ''bob'' []) Q 2000 = (Ok Duplicate, quorum_s4)"
  by (rule accepted_once [OF shipped_examples(3) quorum_driven(4) quorum_step4])
    (simp_all add: check_envelope_shape_def MACP_VERSION_def)

text \<open>A rejected message leaves no trace of itself: the session is unchanged, or has
  expired because its deadline had passed, or carries only the runtime's own overdue envelope.\<close>

theorem rejected_leaves_no_trace:
  assumes "step s env M now = (Err e, s')"
  shows "s' = s \<or> (e = TtlExpired \<and> deadline_passed now s \<and> s' = s\<lparr>s_state := Expired, s_suspended_at_ms := None\<rparr>)
    \<or> (s_state s = Open \<and> s' = snd (advance s M now))"
  using step_rejected [OF assms]
  by (auto simp: preconditions_expired preconditions_proceed expire_def split: if_splits)

theorem rejected_leaves_no_trace_witness:
  "snd (step quorum_s1 (message qmode ''Approve'' ''m2'' ''eve'' []) Q 2000) = quorum_s1"
proof -
  let ?e = "message qmode ''Approve'' ''m2'' ''eve'' []"
  have p: "check_preconditions quorum_s1 ?e 2000 = Ok PcProceed"
    by (simp add: preconditions_proceed shape_ok_iff MACP_VERSION_def deadline_passed_def quorum_s1_def
        quorum_s0_def)
  have "step quorum_s1 ?e Q 2000 = (Err Forbidden, quorum_s1)"
    by (simp add: step_def p admit_def)
      (simp add: quorum_s1_def quorum_s0_def QuorumMode_def quorum_authorize_sender_def)
  from rejected_leaves_no_trace [OF this] this show ?thesis by simp
qed

text \<open>The phases compose: when nothing synthetic is due, a message is accepted by the
  one-call kernel step exactly when its preconditions hold and validation succeeds, and the
  step commits what validation returned.\<close>

theorem phases_compose:
  assumes "next_synthetic s M now = Ok None"
  shows "step s env M now = (Ok (StepOutcome.Accepted st syns), s') \<longleftrightarrow>
    check_preconditions s env now = Ok PcProceed \<and> syns = [] \<and>
    (\<exists>r. validate_message s env M now = Ok r \<and> (st, s') = commit s env r now)"
proof -
  have "advance s M now = (Ok [], s)"
    using assms by (simp add: advance_def advance_loop.simps [of MAX_SYNTHETIC_PER_STEP])
  then show ?thesis
    by (auto simp: step_def validate_message_def admit_def expire_def Let_def
        split: sum.splits Precheck.splits prod.splits if_splits)
qed

theorem phases_compose_witness:
  "validate_message quorum_s0 (message qmode ''ApprovalRequest'' ''m1'' ''alice'' ''request'') Q 2000
     = Ok (PersistState (unary_encode (quorum_st [])))
   \<and> (\<exists>r. validate_message quorum_s0 (message qmode ''ApprovalRequest'' ''m1'' ''alice'' ''request'') Q 2000
        = Ok r \<and> (Open, quorum_s1)
        = commit quorum_s0 (message qmode ''ApprovalRequest'' ''m1'' ''alice'' ''request'') r 2000)"
proof -
  let ?e = "message qmode ''ApprovalRequest'' ''m1'' ''alice'' ''request''"
  have "next_synthetic quorum_s0 Q 2000 = Ok None"
    by (simp add: next_synthetic_def quorum_s0_def QuorumMode_def default_mode_def default_due_synthetic_envelope_def)
  from phases_compose [OF this] quorum_step1
  have "\<exists>r. validate_message quorum_s0 ?e Q 2000 = Ok r \<and> (Open, quorum_s1) = commit quorum_s0 ?e r 2000"
    by simp
  moreover have "validate_message quorum_s0 ?e Q 2000 = Ok (PersistState (unary_encode (quorum_st [])))"
    by (simp add: validate_message_def admit_def dispatch_def quorum_s0_def quorum_eval quorum_st_def
        quorum_request_def)
  ultimately show ?thesis by blast
qed

text \<open>Claim C27. Observing the clock settles at once: on any session of a shipped mode, one
  \<^verbatim>\<open>advance\<close> emits at most one runtime-originated envelope, the bound on emissions is never
  what stops it, and after an emission no later observation emits again until a message changes
  the session.\<close>

theorem advance_settles_at_once:
  assumes "shipped_mode M" "driven M s"
  shows "(\<exists>e. next_synthetic s M now = Err e \<and> advance s M now = (Err e, s)) \<or>
    (\<exists>es s'. advance s M now = (Ok es, s') \<and> length es \<le> 1 \<and>
       (es \<noteq> [] \<longrightarrow> advance s' M later = (Ok [], s')))"
proof -
  obtain minv where c: "mode_contract M minv" using assms(1) by (rule shipped_contract)
  have m: "minv s" by (rule mode_contract.driven_minv [OF c assms(2)])
  from mode_contract.advance_cases [OF c m, of now] show ?thesis
  proof (elim disjE)
    assume "\<exists>syn. next_synthetic s M now = Ok (Some syn) \<and>
      advance s M now = (Ok [syn_envelope syn], snd (commit_synthetic s syn))"
    then obtain syn where syn: "next_synthetic s M now = Ok (Some syn)"
      "advance s M now = (Ok [syn_envelope syn], snd (commit_synthetic s syn))" by blast
    have "next_synthetic (snd (commit_synthetic s syn)) M later = Ok None"
      by (rule mode_contract.synthetic_applied(4) [OF c m syn(1)])
    then have "advance (snd (commit_synthetic s syn)) M later = (Ok [], snd (commit_synthetic s syn))"
      by (simp add: advance_def advance_loop.simps [of MAX_SYNTHETIC_PER_STEP])
    then show ?thesis using syn(2) by simp
  qed (auto simp: advance_def advance_loop.simps [of MAX_SYNTHETIC_PER_STEP])
qed

theorem advance_settles_at_once_witness:
  "\<exists>es s'. advance handoff_s1 H 3000 = (Ok es, s') \<and> length es \<le> 1 \<and>
     (es \<noteq> [] \<longrightarrow> advance s' H 9000 = (Ok [], s'))"
proof -
  have "next_synthetic handoff_s1 H 3000 \<noteq> Err e" for e
    using handoff_due
    by (auto simp: next_synthetic_def HandoffMode_def handoff_authorize_sender_def implicit_accept_envelope_def
        handoff_offer_def handoff_s1_def handoff_s0_def handoff_on_message_at_def handle_message_def
        decode_mode_state_def example_handoff_def Handoff_Mode.handle_accept_def
        dispatch_implicit_accept_def handoff_st1_def implicit_accept_id_def CURRENT_SEMANTICS_REV_def
        Let_def)
  then show ?thesis using advance_settles_at_once [OF shipped_examples(2) handoff_driven(2), of 3000 9000]
    by blast
qed

section \<open>Acceptance and resolution\<close>

text \<open>Claim C28. An accepted SessionStart opens a session that is bound to its envelope, payload and
  policy: open, unresolved, owned by the sender, deduplicating exactly the start message, with a TTL
  between one millisecond and a day, the deadline counted from the envelope's timestamp (or the
  acceptance clock), the current semantics revision and a policy admissible for the mode.\<close>

theorem accepted_session_is_bound:
  assumes m: "shipped_mode M" and a: "accept_session_start sx env now M policy opts = Ok s"
  shows "\<exists>v. validate_session_start sx env now opts = Ok v \<and>
    s_state s = Open \<and> s_resolution s = None \<and> s_seen_message_ids s = {e_message_id env} \<and>
    s_initiator_sender s = e_sender env \<and> s_mode s = e_mode env \<and> s_session_id s = e_session_id env \<and>
    s_participants s = ssp_participants (vs_payload v) \<and>
    1 \<le> s_ttl_ms s \<and> s_ttl_ms s \<le> MAX_TTL_MS \<and>
    s_ttl_expiry s = sat_add (if e_timestamp_unix_ms env > 0 then e_timestamp_unix_ms env else now) (s_ttl_ms s) \<and>
    s_semantics_rev s = CURRENT_SEMANTICS_REV \<and> s_policy_definition s = policy \<and>
    resolve_policy_version (ssp_policy_version (vs_payload v)) policy = Ok (s_policy_version s) \<and>
    (\<forall>p. policy = Some p \<longrightarrow> p_mode p = ''*'' \<or> p_mode p = e_mode env)"
proof -
  obtain v s0 r where f: "validate_session_start sx env now opts = Inr v"
    "m_on_session_start M s0 env = Inr r"
    "s = apply_mode_response r (consume_id (e_message_id env) s0)"
    "s_state s0 = Open" "s_semantics_rev s0 = CURRENT_SEMANTICS_REV"
    "s_resolution s0 = None" "s_seen_message_ids s0 = {}"
    "s_participants s0 = ssp_participants (vs_payload v)" "s_ttl_expiry s0 = vs_ttl_expiry v"
    "s_policy_definition s0 = policy" "s_initiator_sender s0 = e_sender env" "s_mode s0 = e_mode env"
    "s_session_id s0 = e_session_id env"
    "resolve_policy_version (ssp_policy_version (vs_payload v)) policy = Inr (s_policy_version s0)"
    "s_ttl_ms s0 = vs_ttl_ms v" "\<forall>p. policy = Some p \<longrightarrow> p_mode p = ''*'' \<or> p_mode p = e_mode env"
    using a by (rule accept_facts)
  have "\<not> resolves r" by (rule start_open [OF m f(2)])
  then have st: "s_state s = s_state s0" "s_resolution s = s_resolution s0"
    by (cases r; simp add: f(3))+
  have "bound_fields s = bound_fields s0" unfolding f(3) by simp
  then have b: "s_initiator_sender s = s_initiator_sender s0" "s_mode s = s_mode s0"
    "s_session_id s = s_session_id s0" "s_participants s = s_participants s0" "s_ttl_ms s = s_ttl_ms s0"
    "s_semantics_rev s = s_semantics_rev s0" "s_policy_definition s = s_policy_definition s0"
    "s_policy_version s = s_policy_version s0"
    by (simp_all add: bound_fields_def)
  have t: "s_ttl_expiry s = s_ttl_expiry s0" "s_seen_message_ids s = {e_message_id env}"
    using f(7) unfolding f(3) by (simp_all add: consume_id_def)
  show ?thesis
    using f b st t ttl_range [OF f(1)] validate_start_facts(5) [OF f(1)] by (intro exI [of _ v]) simp
qed

theorem accepted_session_is_bound_witness:
  "s_state quorum_s0 = Open \<and> s_ttl_expiry quorum_s0 = 61000 \<and>
   (\<exists>v. validate_session_start example_sx (start_message qmode) 1000 default_StartOptions = Ok v \<and>
        s_participants quorum_s0 = ssp_participants (vs_payload v))"
  using accepted_session_is_bound [OF shipped_examples(3) quorum_accept] by (auto simp: quorum_s0_def)

text \<open>Claim C4. A session of a standard mode resolves only through a Commitment: whenever a message
  moves it to Resolved, the message is a Commitment, its sender passes the authority rule of the
  bound policy, its payload validates against the bound versions, the policy evaluator allowed it,
  and the recorded resolution is that payload.\<close>

theorem resolved_by_authorized_commitment:
  assumes m: "standard_mode b M" and d: "driven M s"
    and st: "step s env M now = (Ok (StepOutcome.Accepted Resolved syns), s')"
  shows "e_message_type env = ''Commitment'' \<and>
    check_commitment_authority b s (e_sender env) = Ok () \<and>
    commitment_checked b s (e_payload env) \<and> s_resolution s' = Some (e_payload env)"
proof -
  have "shipped_mode M" using m by (auto simp: shipped_mode_def)
  then obtain minv where c: "mode_contract M minv" by (rule shipped_contract)
  obtain s1 r where acc: "check_preconditions s env now = Inr PcProceed" "admit s env M = Inr ()"
    "advance s M now = (Inr syns, s1)" "dispatch s1 env M now = Inr r"
    "s' = snd (commit s1 env r now)" "Resolved = s_state s'"
    using st by (rule step_accepted)
  have s1: "s_state s1 = Open" "bound_fields s1 = bound_fields s"
    using mode_contract.advance_minv(2) [OF c mode_contract.driven_minv [OF c d], of now]
      advance_frame(1) [of s M now] acc(1,3) by (simp_all add: preconditions_proceed)
  have "resolves r" using acc(5,6) s1(1) by (cases r) (simp_all add: commit_def Let_def)
  then have r: "e_message_type env = ''Commitment''" "commitment_checked b s1 (e_payload env)"
    "\<exists>st. r = PersistAndResolve st (e_payload env)"
    using standard_resolves [OF m] acc(4) unfolding dispatch_def by blast+
  have "check_commitment_authority b s (e_sender env) = Ok ()"
    using acc(2) standard_authority [OF m r(1), of s] by (auto simp: admit_def res_simps)
  moreover have "s_resolution s' = Some (e_payload env)"
    using r(3) acc(5) by (auto simp: commit_def Let_def)
  ultimately show ?thesis using r(1,2) checked_frame [OF s1(2), of b] by simp
qed

theorem resolved_by_authorized_commitment_witness:
  "check_commitment_authority (mode_ext.truncate example_quorum) quorum_s3 ''alice'' = Ok () \<and>
   commitment_checked (mode_ext.truncate example_quorum) quorum_s3 ''yes''"
  using resolved_by_authorized_commitment [OF std_quorum quorum_driven(4) quorum_step4] by simp

section \<open>What-if replay\<close>

text \<open>Claim C33. A what-if replay fails exactly when the plain replay of the history fails, with the
  same error; otherwise the recorded side of its report is the outcome of that replay, and the
  report lists the SessionStart and every event once, in order.\<close>

theorem what_if_recorded_side:
  "(replay_under_policy sx start evs M opts c = Err e \<longleftrightarrow> replay sx start evs M opts = Err e) \<and>
   (replay_under_policy sx start evs M opts c = Ok rep \<longrightarrow>
      (\<exists>s. replay sx start evs M opts = Ok s \<and> oc_state (wr_recorded rep) = Some (s_state s) \<and>
           oc_resolution (wr_recorded rep) = s_resolution s) \<and>
      map ed_at (wr_entries rep) = SessionStart # map Event [0 ..< length evs])"
proof (intro conjI impI)
  show "replay_under_policy sx start evs M opts c = Err e \<longleftrightarrow> replay sx start evs M opts = Err e"
    by (rule replay_under_policy_errors)
next
  assume "replay_under_policy sx start evs M opts c = Ok rep"
  then obtain w0 w where w: "what_if_start sx start M c = Ok w0" "what_if_events 0 evs M opts w0 = Ok w"
    "wr_recorded rep = Outcome_of (Some (wi_recorded w)) (wi_recorded_by w)" "wr_entries rep = wi_entries w"
    by (rule replay_under_policy_ok)
  have "replay sx start evs M opts = Ok (wi_recorded w)"
    using what_if_events_result [OF w(1), of evs opts] w(2) by simp
  then show "\<exists>s. replay sx start evs M opts = Ok s \<and> oc_state (wr_recorded rep) = Some (s_state s) \<and>
      oc_resolution (wr_recorded rep) = s_resolution s"
    by (simp add: w(3) Outcome_of_def)
  show "map ed_at (wr_entries rep) = SessionStart # map Event [0 ..< length evs]"
    using what_if_events_entries [OF w(2)] start_entries [OF w(1)] w(4) by auto
qed

theorem what_if_recorded_side_witness:
  "\<exists>rep. replay_under_policy example_sx
     (recorded_start (start_message ''macp.mode.decision.v1'') decision_s0 example_validated default_StartOptions)
     [EvMessage decision_m1 2000, EvMessage decision_m2 3000] (DecisionMode example_decision)
     default_ReplayOptions task_policy = Ok rep \<and> oc_state (wr_recorded rep) = Some Open"
proof -
  let ?r = "replay_under_policy example_sx
     (recorded_start (start_message ''macp.mode.decision.v1'') decision_s0 example_validated default_StartOptions)
     [EvMessage decision_m1 2000, EvMessage decision_m2 3000] (DecisionMode example_decision)
     default_ReplayOptions task_policy"
  let ?p = "replay example_sx
     (recorded_start (start_message ''macp.mode.decision.v1'') decision_s0 example_validated default_StartOptions)
     [EvMessage decision_m1 2000, EvMessage decision_m2 3000] (DecisionMode example_decision)
     default_ReplayOptions"
  have "replay_start example_sx (recorded_start (start_message ''macp.mode.decision.v1'') decision_s0
      example_validated default_StartOptions) (DecisionMode example_decision) = Ok decision_s0"
    by (rule replay_recorded_start [OF example_validate decision_recorded]) simp
  moreover have "\<exists>r. replay_events decision_s0 [EvMessage decision_m1 2000, EvMessage decision_m2 3000]
      (DecisionMode example_decision) default_ReplayOptions = Ok r \<and> forget_pause r = forget_pause decision_s2"
    by (rule mode_contract.live_replay [OF decision_run.mode_contract_axioms decision_live]) simp
  moreover have o: "s_state decision_s2 = Open" by (simp add: decision_s2_def decision_s1_def decision_s0_def)
  ultimately have p: "?p = Ok decision_s2"
    using forget_pause_eq [of _ decision_s2] by (auto simp: replay_def)
  show ?thesis
  proof (cases ?r)
    case (Inl e)
    then show ?thesis using what_if_recorded_side [of example_sx _ _ _ _ task_policy e] p by simp
  next
    case (Inr rep)
    then show ?thesis
      using what_if_recorded_side [of example_sx _ _ _ _ task_policy undefined rep] p o by fastforce
  qed
qed

text \<open>A policy is its own null candidate: a what-if replay under the policy the session was
  bound to reports no divergence, no denial and no change, and ends with the replayed session.\<close>

theorem what_if_same_policy:
  assumes "rs_policy start = Some c" "replay_under_policy sx start evs M opts c = Ok rep"
  shows "wr_first_divergence rep = None \<and> wr_denials rep = [] \<and> \<not> outcome_changed rep \<and>
    (\<exists>s. replay sx start evs M opts = Ok s \<and> wr_candidate_session rep = Some s)"
proof -
  obtain w0 w where w: "what_if_start sx start M c = Ok w0" "what_if_events 0 evs M opts w0 = Ok w"
    "wr_recorded rep = Outcome_of (Some (wi_recorded w)) (wi_recorded_by w)"
    "wr_candidate rep = Outcome_of (wi_cand w) (wi_cand_by w)"
    "wr_first_divergence rep = map_option ed_at (find diverges (wi_entries w))"
    "wr_denials rep = wi_denials w" "wr_candidate_session rep = wi_cand w"
    using assms(2) by (rule replay_under_policy_ok)
  have i: "identical w" by (rule events_identical [OF start_identical [OF assms(1) w(1)] w(2)])
  then have "find diverges (wi_entries w) = None" by (simp add: identical_def find_None_iff)
  moreover have "replay sx start evs M opts = Ok (wi_recorded w)"
    using what_if_events_result [OF w(1), of evs opts] w(2) by simp
  ultimately show ?thesis using i w(3-7) by (simp add: identical_def outcome_changed_def)
qed

lemma handoff_record_complete:
  "ValidatedStart_accept example_validated (start_message hmode) H (Some timeout_policy) = Ok handoff_s0"
  using handoff_accept example_validate [of hmode] by (simp add: accept_session_start_def)

theorem what_if_same_policy_witness:
  "\<exists>rep. replay_under_policy example_sx
     (recorded_start (start_message hmode) handoff_s0 example_validated default_StartOptions) [] H
     default_ReplayOptions timeout_policy = Ok rep \<and> wr_first_divergence rep = None"
proof -
  let ?st = "recorded_start (start_message hmode) handoff_s0 example_validated default_StartOptions"
  have r: "replay_start example_sx ?st H = Ok handoff_s0"
    by (rule replay_recorded_start [OF example_validate handoff_record_complete]) simp
  have p: "rs_policy ?st = Some timeout_policy"
    by (simp add: recorded_start_def RecordedStart_from_session_def handoff_s0_def)
  show ?thesis
  proof (cases "replay_under_policy example_sx ?st [] H default_ReplayOptions timeout_policy")
    case (Inl e)
    then show ?thesis using r by (simp add: replay_under_policy_errors replay_def)
  next
    case (Inr rep)
    then show ?thesis using what_if_same_policy [OF p Inr] by blast
  qed
qed

text \<open>A report without a divergence means what it says: if no entry was handled
  differently, both replays end in the same state and were resolved by the same envelope.\<close>

theorem what_if_no_divergence:
  assumes "replay_under_policy sx start evs M opts c = Ok rep" "wr_first_divergence rep = None"
  shows "oc_state (wr_candidate rep) = oc_state (wr_recorded rep) \<and>
    oc_resolved_by (wr_candidate rep) = oc_resolved_by (wr_recorded rep)"
proof -
  obtain w0 w where w: "what_if_start sx start M c = Ok w0" "what_if_events 0 evs M opts w0 = Ok w"
    "wr_recorded rep = Outcome_of (Some (wi_recorded w)) (wi_recorded_by w)"
    "wr_candidate rep = Outcome_of (wi_cand w) (wi_cand_by w)"
    "wr_first_divergence rep = map_option ed_at (find diverges (wi_entries w))"
    using assms(1) by (rule replay_under_policy_ok)
  have nd: "\<forall>d \<in> set (wi_entries w). \<not> diverges d"
    using assms(2) w(5) find_None_all by auto
  then have "\<forall>d \<in> set (wi_entries w0). \<not> diverges d"
    using what_if_events_entries [OF w(2)] by auto
  then have "aligned w" using events_aligned [OF start_aligned [OF w(1)] w(2) nd] by simp
  then show ?thesis by (auto simp: w(3,4) aligned_def Outcome_of_def)
qed

theorem what_if_no_divergence_witness:
  "\<exists>rep. replay_under_policy example_sx
     (recorded_start (start_message hmode) handoff_s0 example_validated default_StartOptions) [] H
     default_ReplayOptions task_policy = Ok rep \<and> oc_state (wr_candidate rep) = oc_state (wr_recorded rep)"
proof -
  let ?st = "recorded_start (start_message hmode) handoff_s0 example_validated default_StartOptions"
  let ?c = "opened (Some task_policy) hmode (unary_encode default_HandoffState)"
  have r: "replay_start example_sx ?st H = Ok handoff_s0"
    by (rule replay_recorded_start [OF example_validate handoff_record_complete]) simp
  have "ValidatedStart_accept example_validated (start_message hmode) H (Some task_policy) = Ok ?c"
    by (rule example_accept_start) (simp_all add: handoff_eval task_policy_def)
  then have "replay_start example_sx
      (recorded_start (start_message hmode) ?c example_validated default_StartOptions) H = Ok ?c"
    by (intro replay_recorded_start [OF example_validate]) simp
  moreover have "recorded_start (start_message hmode) ?c example_validated default_StartOptions
      = ?st\<lparr>rs_policy := Some task_policy\<rparr>"
    by (simp add: recorded_start_def RecordedStart_from_session_def handoff_s0_def opened_def fresh_def
        Session_builder_def)
  ultimately have c: "replay_start example_sx (?st\<lparr>rs_policy := Some task_policy\<rparr>) H = Ok ?c" by simp
  have "\<exists>rep. replay_under_policy example_sx ?st [] H default_ReplayOptions task_policy = Ok rep \<and>
      wr_first_divergence rep = None"
    using r c by (simp add: replay_under_policy_def what_if_start_def Let_def diverges_def handoff_s0_def)
  then show ?thesis using what_if_no_divergence by blast
qed

end
