(* ===== verification/Mode_Properties.thy ===== *)
theory Mode_Properties
  imports Example_Runs
begin

text \<open>Properties of the coordination modes on the sessions the kernel drives.\<close>

section \<open>The mode invariants along a session\<close>

context handoff_codec
begin

lemma driven_state: "driven (HandoffMode x) s \<Longrightarrow> handoff_minv x s"
  by (rule mode_contract.driven_minv [OF contract])

end

context quorum_codec
begin

lemma driven_state:
  assumes "driven (QuorumMode x) s"
  shows "\<exists>st. load (qx_decode_state x) default_QuorumState s = Some st \<and> quorum_inv x s st"
  using mode_contract.driven_minv [OF quorum_state.kernel.mode_contract_axioms assms]
  unfolding quorum_state.holds_def .

end

context proposal_codec
begin

lemma driven_state:
  assumes "driven (ProposalMode x) s"
  shows "\<exists>st. load (px_decode_state x) default_ProposalState s = Some st \<and> proposal_inv x s st"
  using mode_contract.driven_minv [OF proposal_state.kernel.mode_contract_axioms assms]
  unfolding proposal_state.holds_def .

end

context task_codec
begin

lemma driven_state:
  assumes "driven (TaskMode x) s"
  shows "\<exists>st. s_mode_state s = tx_encode_state x st \<and> task_inv s st \<and>
    load (tx_decode_state x) default_TaskState s = (if finite_updates st then Some st else None)"
  using mode_contract.driven_minv [OF task_state.kernel.mode_contract_axioms assms]
  by (rule task_state.written_load)

end

context decision_codec
begin

lemma driven_state:
  assumes "driven (DecisionMode x) s"
  shows "\<exists>st. s_mode_state s = dx_encode_state x st \<and> decision_inv s st \<and>
    load (dx_decode_state x) default_state s = (if finite_confidences st then Some st else None)"
  using mode_contract.driven_minv [OF decision_state.kernel.mode_contract_axioms assms]
  by (rule decision_state.written_load)

lemma loaded_inv:
  assumes "driven (DecisionMode x) s" "load (dx_decode_state x) default_state s = Some st"
  shows "decision_inv s st"
  using driven_state [OF assms(1)] assms(2) by (auto split: if_splits)

end

context multi_round_codec
begin

lemma driven_state: "driven (MultiRoundMode x) s \<Longrightarrow> multi_round_minv x s"
  by (rule mode_contract.driven_minv [OF multi_round_state.mode_contract_axioms])

end

section \<open>One message without synthesis\<close>

lemma step_plain:
  assumes "check_preconditions s env now = Ok PcProceed" "admit s env M = Ok ()"
    and "m_due_synthetic_envelope M = default_due_synthetic_envelope" "dispatch s env M now = Ok r"
  shows "step s env M now = (Ok (StepOutcome.Accepted (s_state (apply_mode_response r s)) []),
    snd (commit s env r now))"
proof -
  have "next_synthetic s M now = Ok None"
    using assms(3) by (simp add: next_synthetic_def default_due_synthetic_envelope_def)
  then have "advance s M now = (Ok [], s)"
    by (simp add: advance_def advance_loop.simps [of MAX_SYNTHETIC_PER_STEP])
  then show ?thesis
    using assms(1,2,4) by (cases r)
      (simp_all add: step_def commit_def Let_def consume_id_def record_participant_activity_def)
qed

lemma step_plain_open:
  assumes "check_preconditions s env now = Ok PcProceed" "admit s env M = Ok ()"
    and "m_due_synthetic_envelope M = default_due_synthetic_envelope"
    and "dispatch s env M now = Ok (PersistState b)"
  shows "step s env M now = (Ok (StepOutcome.Accepted Open []), snd (commit s env (PersistState b) now))"
  using step_plain [OF assms] assms(1) by (simp add: preconditions_proceed)

section \<open>Handoff\<close>

text \<open>Claim C8. The runtime's implicit accept is stamped with the exact instant the offer's unsuspended
  timeout ran out. On a session started under the current revision and driven with a clock that
  does not step back, a due envelope answers an outstanding offer on behalf of its target, and its
  timestamp is the earliest instant at which the time since the offer, less the pauses recorded in
  that time, equals the policy's timeout; that instant is never later than the observation.\<close>

theorem implicit_accept_stamp:
  assumes "handoff_codec_law x" "clocked_run x t s" "t \<le> now" "now \<le> i64_max"
    and "handoff_due_synthetic_envelope x s now = Some env"
  shows "\<exists>st k q. load_state x s = Some st \<and> bt_get (hs_offers st) k = Some q \<and>
    ho_disposition q = Offered \<and> e_sender env = ho_target_participant q \<and>
    e_message_id env = implicit_accept_id k \<and>
    e_timestamp_unix_ms env \<le> now \<and> ho_offered_at_ms q \<le> e_timestamp_unix_ms env \<and>
    unsuspended s (ho_offered_at_ms q) (e_timestamp_unix_ms env) = implicit_accept_timeout_ms x s \<and>
    (\<forall>u. ho_offered_at_ms q \<le> u \<and> u < e_timestamp_unix_ms env \<longrightarrow>
       unsuspended s (ho_offered_at_ms q) u < implicit_accept_timeout_ms x s)"
  using synthetic_stamp [OF assms] by metis

theorem implicit_accept_stamp_witness:
  "\<exists>env. handoff_due_synthetic_envelope example_handoff handoff_s1 3000 = Some env \<and>
     e_timestamp_unix_ms env \<le> 3000"
  using implicit_accept_stamp [OF example_handoff_law handoff_clocked(2) _ _ handoff_due]
    handoff_due by (auto simp: i64_max_def)

text \<open>Claim C26. A Handoff session never has two responsible parties: at any time at most one offer is
  outstanding or accepted, and every record names its target as the one who answered it.\<close>

theorem one_live_offer:
  assumes "handoff_codec_law x" "driven (HandoffMode x) s"
  shows "\<exists>st. load_state x s = Some st \<and>
    (\<forall>j k p q. bt_get (hs_offers st) j = Some p \<and> bt_get (hs_offers st) k = Some q \<and>
       ho_disposition p \<noteq> Declined \<and> ho_disposition q \<noteq> Declined \<longrightarrow> j = k) \<and>
    (\<forall>k q. bt_get (hs_offers st) k = Some q \<longrightarrow> offer_ok k q)"
proof -
  have "handoff_codec x" by unfold_locales (rule assms(1))
  then have "handoff_minv x s" using assms(2) by (rule handoff_codec.driven_state)
  then show ?thesis by (auto simp: handoff_minv_def handoff_state_inv_def)
qed

theorem one_live_offer_witness:
  "\<exists>st. load_state example_handoff handoff_s1 = Some st \<and> bt_get (hs_offers st) ''h1'' = Some handoff_offer \<and>
     offer_ok ''h1'' handoff_offer"
proof -
  have "load_state example_handoff handoff_s1 = Some handoff_st1"
    by (simp add: load_state_def handoff_s1_def example_handoff_def)
  then show ?thesis
    using one_live_offer [OF example_handoff_law handoff_driven(2)] by (simp add: handoff_st1_def)
qed

text \<open>A client cannot speak for the runtime: a message the kernel accepts in a Handoff
  session of the current revision has an id outside the reserved prefix and is not an implicit
  accept.\<close>

theorem implicit_accept_is_reserved:
  assumes "s_semantics_rev s \<ge> 2"
    and "step s env (HandoffMode x) now = (Ok (StepOutcome.Accepted st syns), s')"
  shows "\<not> starts_with (e_message_id env) IMPLICIT_ACCEPT_MESSAGE_ID_PREFIX \<and>
    (e_message_type env = ''HandoffAccept'' \<longrightarrow>
       (\<forall>p. hx_decode_accept x (e_payload env) = Some p \<longrightarrow> \<not> hap_implicit p))"
proof -
  have "admit s env (HandoffMode x) = Inr ()" using assms(2) by (rule step_accepted)
  then show ?thesis
    using assms(1)
    by (auto simp: admit_def res_simps HandoffMode_def handoff_validate_client_envelope_def
        split: if_splits option.splits)
qed

theorem implicit_accept_is_reserved_witness:
  "\<not> starts_with (e_message_id (message hmode ''HandoffOffer'' ''m1'' ''alice'' ''offer''))
     IMPLICIT_ACCEPT_MESSAGE_ID_PREFIX"
  using implicit_accept_is_reserved [OF _ handoff_step1]
  by (simp add: handoff_s0_def CURRENT_SEMANTICS_REV_def)

section \<open>Quorum\<close>

text \<open>Claim C6. A Quorum session becomes ready for a Commitment exactly when it should: with a
  threshold of n approvals, readiness holds if and only if n approvals are in, or no completion of
  the ballot by the remaining participants can reach n.\<close>

theorem quorum_ready_iff_decided:
  assumes "quorum_codec_law x" "driven (QuorumMode x) s"
    and "distinct (s_participants s)" "length (s_participants s) < 2 ^ 32"
    and "load (qx_decode_state x) default_QuorumState s = Some st"
    and "qs_request st = Some request" "effective_threshold x s request = ApprovalThreshold.Approvals n"
  shows "Quorum_Mode.commitment_ready x s st \<longleftrightarrow>
    n \<le> count_ballots Approve st \<or> \<not> can_reach s st n"
proof -
  have "quorum_codec x" by unfold_locales (rule assms(1))
  then have "quorum_inv x s st" using quorum_codec.driven_state [OF _ assms(2)] assms(5) by auto
  then show ?thesis using ready_iff [OF _ assms(3,4,6,7)] by (simp add: quorum_inv_def)
qed

lemma quorum_load:
  "load (qx_decode_state example_quorum) default_QuorumState quorum_s2
     = Some (quorum_st [(''alice'', ballot Approve ''alice'')])"
  "load (qx_decode_state example_quorum) default_QuorumState quorum_s3
     = Some (quorum_st [(''alice'', ballot Approve ''alice''), (''bob'', ballot Approve ''bob'')])"
  by (simp_all add: load_def quorum_s2_def quorum_s3_def example_quorum_def)

theorem quorum_ready_iff_decided_witness:
  "Quorum_Mode.commitment_ready example_quorum quorum_s3
     (quorum_st [(''alice'', ballot Approve ''alice''), (''bob'', ballot Approve ''bob'')])"
  using quorum_ready_iff_decided [OF example_quorum_law quorum_driven(4) _ _ quorum_load(2), of quorum_request 2]
  by (simp add: quorum_s3_def quorum_s2_def quorum_s1_def quorum_s0_def quorum_st_def quorum_request_def
      effective_threshold_def count_ballots_def ballot_def bt_values_def)

text \<open>The ballot box of a Quorum session is sound at all times: one ballot per participant
  and none by anyone else, so ballots never outnumber the participants; a request comes from the
  initiator, asks for between one and all participants, and has a positive threshold.\<close>

theorem quorum_ballots_sound:
  assumes "quorum_codec_law x" "driven (QuorumMode x) s"
  shows "\<exists>st. load (qx_decode_state x) default_QuorumState s = Some st \<and> ballot_inv s st \<and>
    request_inv x s st \<and> length (qs_ballots st) \<le> card (set (s_participants s))"
proof -
  have "quorum_codec x" by unfold_locales (rule assms(1))
  then obtain st where "load (qx_decode_state x) default_QuorumState s = Some st" "quorum_inv x s st"
    using quorum_codec.driven_state [OF _ assms(2)] by blast
  then show ?thesis using ballots_le_participants by (auto simp: quorum_inv_def)
qed

theorem quorum_ballots_sound_witness:
  "ballot_inv quorum_s2 (quorum_st [(''alice'', ballot Approve ''alice'')])"
  using quorum_ballots_sound [OF example_quorum_law quorum_driven(3)] quorum_load(1) by auto

text \<open>A whole-number percentage threshold is exact: v percent of n participants is the
  ceiling of v n / 100, computed without rounding error.\<close>

theorem percentage_threshold_exact:
  assumes "qt_threshold_type t = ''percentage''" "qt_value t = Finite (of_nat v)"
    and "0 < v" "0 < n" "v * n \<le> 100 * (2 ^ 32 - 1)"
  shows "\<exists>k. effective t n = EffectiveThreshold.Approvals k \<and> 100 * (k - 1) < v * n \<and> v * n \<le> 100 * k"
proof -
  have e: "effective t n = EffectiveThreshold.Approvals ((v * n + 99) div 100)"
    by (rule effective_percentage [OF assms])
  have "v * n \<le> 100 * ((v * n + 99) div 100)" by linarith
  moreover have "100 * ((v * n + 99) div 100 - 1) < v * n"
  proof -
    have "0 < v * n" using assms(3,4) by simp
    then show ?thesis by linarith
  qed
  ultimately show ?thesis using e by blast
qed

theorem percentage_threshold_exact_witness:
  "effective \<lparr>qt_threshold_type = ''percentage'', qt_value = Finite 58\<rparr> 50 = EffectiveThreshold.Approvals 29"
proof -
  let ?t = "\<lparr>qt_threshold_type = ''percentage'', qt_value = Finite 58\<rparr>"
  obtain k where k: "effective ?t 50 = EffectiveThreshold.Approvals k" "100 * (k - 1) < 58 * 50"
    "58 * 50 \<le> 100 * k"
    using percentage_threshold_exact [of ?t 58 50] by auto
  have "k = 29" using k(2,3) by linarith
  then show ?thesis using k(1) by simp
qed

section \<open>Proposal\<close>

text \<open>Claim C24. A Proposal session has converged exactly when nothing was terminally rejected and some
  live proposal satisfies the acceptance criterion of the bound policy; accepts only come from
  participants and only point at live proposals, and a policy's limit on counter-proposals holds.\<close>

theorem proposal_convergence:
  assumes "proposal_codec_law x" "driven (ProposalMode x) s"
  shows "\<exists>st. load (px_decode_state x) default_ProposalState s = Some st \<and>
    (ps_phase st \<noteq> ProposalPhase.Committed \<longrightarrow>
      (ps_phase st = Converged \<longleftrightarrow> ps_terminal_rejections st = [] \<and>
        (\<exists>pid p. live_proposal st pid = Some p \<and>
           check_acceptance_criterion (criterion_of x s) s st pid (prr_proposer p)))) \<and>
    (\<forall>a pid. bt_get (ps_accepts st) a = Some pid \<longrightarrow>
       a \<in> set (s_participants s) \<and> live_proposal st pid \<noteq> None) \<and>
    (\<forall>p. s_policy_definition s = Some p \<longrightarrow>
       0 < cpr_max_rounds (ppr_counter_proposal (proposal_rules x p)) \<longrightarrow>
       counter_count st \<le> cpr_max_rounds (ppr_counter_proposal (proposal_rules x p)))"
proof -
  have "proposal_codec x" by unfold_locales (rule assms(1))
  then obtain st where st: "load (px_decode_state x) default_ProposalState s = Some st" "proposal_inv x s st"
    using proposal_codec.driven_state [OF _ assms(2)] by blast
  have core: "core_inv x s st" using st(2) by (simp add: proposal_inv_def)
  have a: "\<forall>a pid. bt_get (ps_accepts st) a = Some pid \<longrightarrow>
       a \<in> set (s_participants s) \<and> live_proposal st pid \<noteq> None"
    and b: "\<forall>p. s_policy_definition s = Some p \<longrightarrow>
       0 < cpr_max_rounds (ppr_counter_proposal (proposal_rules x p)) \<longrightarrow>
       counter_count st \<le> cpr_max_rounds (ppr_counter_proposal (proposal_rules x p))"
    using core unfolding core_inv_def by blast+
  show ?thesis using st(1) converged_iff [OF st(2)] a b by blast
qed

lemma proposal_load:
  "load (px_decode_state example_proposal) default_ProposalState proposal_s3
     = Some (proposal_st [(''alice'', ''p1''), (''bob'', ''p1'')] Converged)"
  by (simp add: load_def proposal_s3_def example_proposal_def)

theorem proposal_convergence_witness:
  "ps_terminal_rejections (proposal_st [(''alice'', ''p1''), (''bob'', ''p1'')] Converged) = [] \<and>
   (\<exists>pid p. live_proposal (proposal_st [(''alice'', ''p1''), (''bob'', ''p1'')] Converged) pid = Some p \<and>
      check_acceptance_criterion (criterion_of example_proposal proposal_s3) proposal_s3
        (proposal_st [(''alice'', ''p1''), (''bob'', ''p1'')] Converged) pid (prr_proposer p))"
proof -
  have "ps_phase (proposal_st [(''alice'', ''p1''), (''bob'', ''p1'')] Converged) = Converged"
    by (simp add: proposal_st_def)
  then show ?thesis
    using proposal_convergence [OF example_proposal_law proposal_driven] proposal_load by auto
qed

section \<open>Task\<close>



text \<open>Claim C37. A named assignee that rejects while assigned strands the session. In a Task session
  of revision 4 or later whose request names an assignee, where that assignee's recorded rejection
  was made while assigned, nobody is assigned, nobody is recorded as rejecting twice and no
  terminal report is recorded, the mode refuses every message of every sender; the session can
  then only be cancelled or expire.\<close>

theorem named_assignee_strands_session:
  assumes "s_semantics_rev s \<ge> PERSONAL_DECLINE_REV"
    and "load (tx_decode_state x) default_TaskState s = Some st"
    and "distinct (map tr_assignee (ts_rejections st))"
    and "ts_task st = Some t" "tk_requested_assignee t \<noteq> []" "ts_active_assignee st = None"
    and "ts_terminal_report st = None"
    and "rj \<in> set (ts_rejections st)" "tr_assignee rj = tk_requested_assignee t" "tr_while_assigned rj"
  shows "\<exists>e. task_on_message x s env = Err e"
  by (rule named_assignee_stuck [OF assms])

theorem named_assignee_strands_session_witness:
  "driven T task_s3 \<and> (\<forall>env. \<exists>e. task_on_message example_task task_s3 env = Err e)"
proof (intro conjI allI)
  show "driven T task_s3" by (rule task_driven)
  fix env
  show "\<exists>e. task_on_message example_task task_s3 env = Err e"
    by (rule named_assignee_strands_session
        [of _ _ "task_st None [assigned_reject]" named_task assigned_reject])
      (simp_all add: load_def task_s3_def task_s2_def task_s1_def task_s0_def example_task_def
        task_st_def assigned_reject_def named_task_def PERSONAL_DECLINE_REV_def CURRENT_SEMANTICS_REV_def)
qed

text \<open>Claim C38. One non-finite progress value poisons a Task session: the active assignee's update
  with a NaN or infinite progress is accepted by the kernel like any other, before any terminal
  report, and in the session it leaves open every message is refused because the state no longer
  decodes.\<close>

theorem nonfinite_progress_poisons_session:
  assumes law: "task_codec_law x" and run: "driven (TaskMode x) s"
    and ld: "load (tx_decode_state x) default_TaskState s = Some st"
    and st: "ts_task st = Some t" "ts_active_assignee st = Some (e_sender env)" "ts_terminal_report st = None"
    and pc: "check_preconditions s env now = Ok PcProceed" "e_sender env \<in> set (s_participants s)"
    and env: "e_message_type env = ''TaskUpdate''" "tx_decode_update x (e_payload env) = Some p"
      "tup_task_id p = tk_task_id t" "\<not> is_finite (tup_progress p)"
  shows "\<exists>s'. step s env (TaskMode x) now = (Ok (StepOutcome.Accepted Open []), s') \<and>
    (\<forall>env'. task_on_message x s' env' = Err InvalidModeState)"
proof -
  have "task_codec x" by unfold_locales (rule law)
  then have "task_inv s st" using task_codec.driven_state [OF _ run] ld by (auto split: if_splits)
  then have "tk_task_id t \<noteq> []" using st(1) by (simp add: task_inv_def)
  note up = update_accepted [OF env(2) st(1) this env(3) st(2,3), of s]
  obtain st' where st': "Task_Mode.handle_update x s env st = Ok st'" "\<not> finite_updates st'"
    using up env(4) by (simp add: finite_updates_def)
  have "task_on_message x s env = Ok (PersistState (tx_encode_state x st'))"
    using st'(1) env(1) by (simp add: task_on_message_def load_result ld Task_Mode.persist_def)
  then have "step s env (TaskMode x) now = (Ok (StepOutcome.Accepted Open []),
      snd (commit s env (PersistState (tx_encode_state x st')) now))"
    using pc env(1) by (intro step_plain_open)
      (simp_all add: TaskMode_def default_mode_def admit_def dispatch_def task_authorize_sender_def
        is_declared_participant_def default_validate_client_envelope_def)
  moreover have "s_mode_state (snd (commit s env (PersistState (tx_encode_state x st')) now))
      = tx_encode_state x st'" by (simp add: commit_def Let_def)
  ultimately show ?thesis using nonfinite_progress_poisons [OF law _ st'(2)] by blast
qed

theorem nonfinite_progress_poisons_session_witness:
  "\<exists>s'. step task_s2 (message tmode ''TaskUpdate'' ''m3'' ''bob'' ''nan'') T 2000
       = (Ok (StepOutcome.Accepted Open []), s') \<and>
     (\<forall>env'. task_on_message example_task s' env' = Err InvalidModeState)"
  by (rule nonfinite_progress_poisons_session [OF example_task_law task_driven(1),
        where st = "task_st (Some ''bob'') []" and t = named_task
        and p = "\<lparr>tup_task_id = ''t1'', tup_status = [], tup_progress = NaN, tup_message = [],
          tup_partial_output = []\<rparr>"])
    (simp_all add: load_def task_s2_def task_s1_def task_s0_def example_task_def task_st_def named_task_def
      preconditions_proceed shape_ok_iff MACP_VERSION_def deadline_passed_def)

section \<open>Decision\<close>



text \<open>Votes are final and the phases only move forward: an accepted Decision message keeps
  every recorded vote, evaluation and objection, a vote closes the floor for proposals and
  deliberation, and a committed state accepts nothing.\<close>

theorem decision_only_grows:
  assumes "driven (DecisionMode x) s" "decision_codec_law x"
    and "load (dx_decode_state x) default_state s = Some st"
    and "decision_on_message x s env = Ok r"
  shows "\<exists>st'. response_state r = Some (dx_encode_state x st') \<and> grows st st' \<and>
    ds_phase st \<noteq> DecisionPhase.Committed"
proof -
  have "decision_codec x" by unfold_locales (rule assms(2))
  then have "decision_inv s st" using assms(1,3) by (rule decision_codec.loaded_inv)
  then show ?thesis by (rule message_grows [OF assms(4,3)])
qed

theorem decision_only_grows_witness:
  "\<exists>r st'. decision_on_message example_decision decision_s1 decision_m2 = Ok r \<and>
     response_state r = Some (unary_encode st') \<and> grows decision_st1 st'"
proof -
  have l: "load (dx_decode_state example_decision) default_state decision_s1 = Some decision_st1"
    by (simp add: load_def decision_s1_def example_decision_def)
  obtain s1 r where "advance decision_s1 (DecisionMode example_decision) 3000 = (Inr [], s1)"
    "dispatch s1 decision_m2 (DecisionMode example_decision) 3000 = Inr r"
    using decision_step2 by (rule step_accepted)
  moreover have "next_synthetic decision_s1 (DecisionMode example_decision) 3000 = Ok None"
    by (simp add: next_synthetic_def DecisionMode_def default_mode_def default_due_synthetic_envelope_def)
  ultimately have "decision_on_message example_decision decision_s1 decision_m2 = Ok r"
    by (auto simp: advance_def advance_loop.simps [of MAX_SYNTHETIC_PER_STEP] dispatch_def
        DecisionMode_def default_mode_def)
  from decision_only_grows [OF decision_driven(2) example_decision_law l this] this show ?thesis
    by (auto simp: example_decision_def)
qed

text \<open>Claim C39. One NaN confidence poisons a Decision session: a participant's evaluation of a known
  proposal with a NaN confidence and a recognised recommendation passes the range check and is
  accepted while the session deliberates, and in the session it leaves open every message is
  refused because the state no longer decodes.\<close>

theorem nan_confidence_poisons_session:
  assumes law: "decision_codec_law x"
    and ld: "load (dx_decode_state x) default_state s = Some st"
    and st: "ds_phase st = DecisionPhase.Evaluation" "bt_get (ds_proposals st) (dep_proposal_id p) \<noteq> None"
    and pc: "check_preconditions s env now = Ok PcProceed" "e_sender env \<in> set (s_participants s)"
    and env: "e_message_type env = ''Evaluation''" "dx_decode_evaluation x (e_payload env) = Some p"
      "dep_confidence p = NaN"
    and rec: "wire_enum x s (dep_recommendation p) Upper None = Ok rec"
      "rec \<in> {''APPROVE'', ''REVIEW'', ''BLOCK'', ''REJECT''}"
  shows "\<exists>s'. step s env (DecisionMode x) now = (Ok (StepOutcome.Accepted Open []), s') \<and>
    (\<forall>env'. decision_on_message x s' env' = Err InvalidModeState)"
proof -
  obtain st' where st': "handle_evaluation x s env st = Ok st'" "\<not> finite_confidences st'"
    using nan_confidence_accepted [OF env(2,3) rec st] by (simp add: finite_confidences_def)
  have "decision_on_message x s env = Ok (PersistState (dx_encode_state x st'))"
    using st' st(1) env(1)
    by (simp add: decision_on_message_def load_result ld Decision_Mode.persist_def ensure_not_committed_def)
  then have "step s env (DecisionMode x) now = (Ok (StepOutcome.Accepted Open []),
      snd (commit s env (PersistState (dx_encode_state x st')) now))"
    using pc env(1) by (intro step_plain_open)
      (simp_all add: DecisionMode_def default_mode_def admit_def dispatch_def decision_authorize_sender_def
        is_declared_participant_def default_validate_client_envelope_def)
  moreover have "s_mode_state (snd (commit s env (PersistState (dx_encode_state x st')) now))
      = dx_encode_state x st'" by (simp add: commit_def Let_def)
  ultimately show ?thesis using nan_confidence_poisons [OF law _ st'(2)] by blast
qed

theorem nan_confidence_poisons_session_witness:
  "\<exists>s'. step decision_s1 (message ''macp.mode.decision.v1'' ''Evaluation'' ''m2'' ''bob'' ''nan'')
       (DecisionMode example_decision) 2000 = (Ok (StepOutcome.Accepted Open []), s') \<and>
     (\<forall>env'. decision_on_message example_decision s' env' = Err InvalidModeState)"
  by (rule nan_confidence_poisons_session [OF example_decision_law, where st = decision_st1
        and p = "\<lparr>dep_proposal_id = ''p1'', dep_recommendation = ''APPROVE'', dep_confidence = NaN,
          dep_reason = []\<rparr>" and rec = "''APPROVE''"])
    (simp_all add: load_def decision_s1_def decision_s0_def example_decision_def decision_st1_def
      preconditions_proceed shape_ok_iff MACP_VERSION_def deadline_passed_def wire_enum_def
      STRICT_WIRE_ENUMS_REV_def CURRENT_SEMANTICS_REV_def finite_confidences_def default_state_def)

section \<open>Multi-round\<close>

text \<open>A multi-round session commits to unanimity only: an accepted Commitment means that
  every participant's latest contribution is the same value, and that value is the one recorded in
  the resolution.\<close>

theorem multi_round_commits_unanimity:
  assumes "multi_round_codec_law x" "driven (MultiRoundMode x) s"
    and "Multi_Round_Mode.handle_commitment x s env = Ok r"
  shows "\<exists>st v. mx_decode_state x (s_mode_state s) = Some st \<and>
    (\<forall>p \<in> set (s_participants s). bt_get (mr_contributions st) p = Some v) \<and>
    r = PersistAndResolve (mx_encode_state x st) (mx_encode_resolution x
       \<lparr>rp_converged_value = v, rp_round = mr_round st, rp_final = mr_contributions st\<rparr>)"
proof -
  have "multi_round_codec x" by unfold_locales (rule assms(1))
  then obtain st where st: "mx_decode_state x (s_mode_state s) = Some st" "multi_round_inv s st"
    using multi_round_codec.driven_state [OF _ assms(2)] by (auto simp: multi_round_minv_def)
  show ?thesis using commitment_unanimous [OF st(2,1) assms(3)] st(1) by metis
qed

theorem multi_round_commits_unanimity_witness:
  "\<exists>v. \<forall>p \<in> {''alice'', ''bob''}.
     bt_get (mr_contributions (round_st 2 [(''alice'', ''7''), (''bob'', ''7'')] True)) p = Some v"
proof -
  have "\<exists>r. Multi_Round_Mode.handle_commitment committing_round round_s2
      (message rmode ''Commitment'' ''m3'' ''alice'' ''yes'') = Ok r"
    by (simp add: Multi_Round_Mode.handle_commitment_def committing_round_def example_multi_round_def
        decode_mode_state_def round_s2_def round_s1_def round_s0_def round_st_def
        validate_commitment_Inr_iff res_simps example_commitment_def
        outcome_deploy [unfolded example_commitment_def])
  then obtain r where r: "Multi_Round_Mode.handle_commitment committing_round round_s2
      (message rmode ''Commitment'' ''m3'' ''alice'' ''yes'') = Ok r" ..
  have law: "multi_round_codec_law committing_round"
    by (simp add: multi_round_codec_law_def committing_round_def example_multi_round_def)
  show ?thesis
    using multi_round_commits_unanimity [OF law committing_driven r]
    by (auto simp: committing_round_def example_multi_round_def round_s2_def round_s1_def round_s0_def
        round_st_def)
qed

end
