(* ===== verification/Rule_Keys.thy ===== *)
theory Rule_Keys
  imports Policy_Types
begin

text \<open>
  The key namespaces of a rules object, \<^verbatim>\<open>macp-core/src/policy/keys.rs\<close>: defined keys of the closed
  rule schemas, annotation keys and vendor-extension keys; the walk that reports the first key a
  schema does not define; and equality of rules modulo annotations. A \<^verbatim>\<open>serde_json::Map\<close> is an ordered
  map, kept as the list of its entries in key order.
\<close>

section \<open>Key namespaces\<close>

definition is_annotation_key :: "string \<Rightarrow> bool" where
  "is_annotation_key key \<longleftrightarrow> starts_with key ''_'' \<or> starts_with key ''$''"

text \<open>\<^verbatim>\<open>str::split\<close> at a one-byte separator: always at least one piece.\<close>

fun split_on :: "char \<Rightarrow> string \<Rightarrow> string list" where
  "split_on c [] = [[]]"
| "split_on c (x # xs) =
     (if x = c then [] # split_on c xs
      else case split_on c xs of [] \<Rightarrow> [[x]] | s # ss \<Rightarrow> (x # s) # ss)"

definition strip_prefix :: "string \<Rightarrow> string \<Rightarrow> string option" where
  "strip_prefix s prefix = (if starts_with s prefix then Some (drop (length prefix) s) else None)"

definition is_lower_or_digit :: "char \<Rightarrow> bool" where
  "is_lower_or_digit c \<longleftrightarrow> c \<in> set ''abcdefghijklmnopqrstuvwxyz0123456789''"

definition is_vendor_extension_key :: "string \<Rightarrow> bool" where
  "is_vendor_extension_key key =
     (case strip_prefix key ''x-'' of
        None \<Rightarrow> False
      | Some rest \<Rightarrow>
          (case split_on (CHR ''.'') rest of
             [] \<Rightarrow> False
           | s # segments \<Rightarrow>
               (let first_ok = (s \<noteq> [] \<and> list_all is_lower_or_digit s)
                in list_all (\<lambda>t. t \<noteq> [] \<and> list_all (\<lambda>b. is_lower_or_digit b \<or> b = CHR ''-'') t) segments
                   \<and> first_ok \<and> length segments \<ge> 1)))"

section \<open>Rule shapes\<close>

datatype RuleShape = Closed "(string \<times> RuleShape) list" | OpenMap | Leaf

definition COMMITMENT_COMMON :: RuleShape where
  "COMMITMENT_COMMON = Closed [(''authority'', Leaf), (''designated_roles'', Leaf)]"

definition DECISION_RULES :: RuleShape where
  "DECISION_RULES = Closed
     [(''voting'', Closed
         [(''algorithm'', Leaf), (''threshold'', Leaf),
          (''quorum'', Closed [(''type'', Leaf), (''value'', Leaf)]),
          (''weights'', OpenMap)]),
      (''objection_handling'', Closed
         [(''critical_objection_action'', Leaf), (''critical_severity_vetoes'', Leaf),
          (''veto_threshold'', Leaf)]),
      (''evaluation'', Closed [(''minimum_confidence'', Leaf), (''required_before_voting'', Leaf)]),
      (''commitment'', Closed
         [(''allow_decline_over_approval'', Leaf), (''authority'', Leaf),
          (''designated_roles'', Leaf), (''require_vote_quorum'', Leaf)])]"

definition PROPOSAL_RULES :: RuleShape where
  "PROPOSAL_RULES = Closed
     [(''acceptance'', Closed [(''criterion'', Leaf)]),
      (''counter_proposal'', Closed [(''max_rounds'', Leaf)]),
      (''rejection'', Closed [(''terminal_on_any_reject'', Leaf)]),
      (''commitment'', COMMITMENT_COMMON)]"

definition TASK_RULES :: RuleShape where
  "TASK_RULES = Closed
     [(''assignment'', Closed [(''allow_reassignment_on_reject'', Leaf)]),
      (''completion'', Closed [(''require_output'', Leaf)]),
      (''commitment'', COMMITMENT_COMMON)]"

definition HANDOFF_RULES :: RuleShape where
  "HANDOFF_RULES = Closed
     [(''acceptance'', Closed [(''implicit_accept_timeout_ms'', Leaf)]),
      (''commitment'', COMMITMENT_COMMON)]"

definition QUORUM_RULES :: RuleShape where
  "QUORUM_RULES = Closed
     [(''threshold'', Closed [(''type'', Leaf), (''value'', Leaf)]),
      (''abstention'', Closed [(''counts_toward_quorum'', Leaf), (''interpretation'', Leaf)]),
      (''commitment'', COMMITMENT_COMMON)]"

definition STANDARDS_TRACK_RULE_SHAPES :: "(string \<times> RuleShape) list" where
  "STANDARDS_TRACK_RULE_SHAPES =
     [(''macp.mode.decision.v1'', DECISION_RULES), (''macp.mode.proposal.v1'', PROPOSAL_RULES),
      (''macp.mode.task.v1'', TASK_RULES), (''macp.mode.handoff.v1'', HANDOFF_RULES),
      (''macp.mode.quorum.v1'', QUORUM_RULES)]"

definition rule_shape_for_mode :: "string \<Rightarrow> RuleShape list option" where
  "rule_shape_for_mode mode =
     (if mode = ''*'' then Some (map snd STANDARDS_TRACK_RULE_SHAPES)
      else map_option (\<lambda>(_, s). [s]) (find (\<lambda>(m, _). m = mode) STANDARDS_TRACK_RULE_SHAPES))"

section \<open>The walk over closed objects\<close>

datatype KeyViolation =
    Undefined string
  | NestedVendorExtension string
  | VendorExtensionNotObject string

text \<open>A loop that stops at the first reported value.\<close>

fun find_map :: "('a \<Rightarrow> 'b option) \<Rightarrow> 'a list \<Rightarrow> 'b option" where
  "find_map f [] = None"
| "find_map f (x # xs) = (case f x of Some y \<Rightarrow> Some y | None \<Rightarrow> find_map f xs)"

lemma find_map_cong [fundef_cong]:
  "xs = ys \<Longrightarrow> (\<And>x. x \<in> set ys \<Longrightarrow> f x = g x) \<Longrightarrow> find_map f xs = find_map g ys"
  by (induction ys arbitrary: xs) (auto split: option.splits)

definition closed_of :: "RuleShape list \<Rightarrow> (string \<times> RuleShape) list list" where
  "closed_of shapes = List.map_filter (\<lambda>s. case s of Closed keys \<Rightarrow> Some keys | _ \<Rightarrow> None) shapes"

definition children_of :: "RuleShape list \<Rightarrow> string \<Rightarrow> RuleShape list" where
  "children_of shapes key = map snd (filter (\<lambda>(k, _). k = key) (concat (closed_of shapes)))"

definition child_path :: "string \<Rightarrow> string \<Rightarrow> string" where
  "child_path path key = (if path = [] then key else path @ ''.'' @ key)"

fun is_object :: "json \<Rightarrow> bool" where
  "is_object (JObject _) = True"
| "is_object _ = False"

definition obj_index :: "(string \<times> json) list \<Rightarrow> string \<Rightarrow> json" where
  "obj_index kvs key = unwrap_or JNull (map_of kvs key)"

lemma entry_size [termination_simp]:
  "(k, v) \<in> set kvs \<Longrightarrow> size v < Suc (size_list (size_prod (\<lambda>_. 0) size) kvs)"
  by (induction kvs) auto

lemma obj_index_size:
  "key \<in> fst ` set kvs \<Longrightarrow> size (obj_index kvs key) < Suc (size_list (size_prod (\<lambda>_. 0) size) kvs)"
  by (cases "map_of kvs key")
     (auto simp: obj_index_def unwrap_or_def map_of_eq_None_iff dest!: map_of_SomeD entry_size)

function (sequential) walk :: "json \<Rightarrow> RuleShape list \<Rightarrow> string \<Rightarrow> bool \<Rightarrow> KeyViolation option" where
  "walk (JObject kvs) shapes path toplevel =
     (if closed_of shapes = [] then None
      else find_map (\<lambda>key.
        let child = child_path path key in
        if is_annotation_key key then None
        else if is_vendor_extension_key key then
          (if \<not> toplevel then Some (NestedVendorExtension child)
           else if \<not> is_object (obj_index kvs key) then Some (VendorExtensionNotObject key)
           else None)
        else if children_of shapes key = [] then Some (Undefined child)
        else walk (obj_index kvs key) (children_of shapes key) child False)
        (sort (map fst kvs)))"
| "walk _ shapes path toplevel = None"
  by pat_completeness auto

termination
  by (relation "measure (\<lambda>(v, _). size v)") (auto intro: obj_index_size)

definition closed_key_violation :: "json \<Rightarrow> RuleShape list \<Rightarrow> KeyViolation option" where
  "closed_key_violation rules shapes = walk rules shapes [] True"

fun vendor_extension_keys :: "json \<Rightarrow> string list" where
  "vendor_extension_keys (JObject kvs) = sort (filter is_vendor_extension_key (map fst kvs))"
| "vendor_extension_keys _ = []"

section \<open>Equality modulo annotations\<close>

function (sequential) strip :: "json \<Rightarrow> RuleShape list \<Rightarrow> json" where
  "strip (JObject kvs) shapes =
     (if closed_of shapes = [] then JObject kvs
      else JObject (map (\<lambda>(key, v). (key, strip v (children_of shapes key)))
                     (filter (\<lambda>(key, _). \<not> is_annotation_key key) kvs)))"
| "strip v shapes = v"
  by pat_completeness auto

termination
  by (relation "measure (\<lambda>(v, _). size v)") (auto intro: entry_size)

definition strip_annotations :: "json \<Rightarrow> RuleShape list \<Rightarrow> json" where
  "strip_annotations rules shapes = strip rules shapes"

definition rules_equal :: "string \<Rightarrow> json \<Rightarrow> json \<Rightarrow> bool" where
  "rules_equal mode a b =
     (let shapes = unwrap_or [] (rule_shape_for_mode mode)
      in strip_annotations a shapes = strip_annotations b shapes)"

section \<open>The grammar of vendor-extension keys\<close>

lemma split_on_nonempty [simp]: "split_on c xs \<noteq> []"
  by (cases xs) (auto split: list.splits)

lemma split_on_join:
  "split_on c xs = s # ts \<longleftrightarrow>
     xs = s @ concat (map ((#) c) ts) \<and> c \<notin> set s \<and> (\<forall>t \<in> set ts. c \<notin> set t)"
proof (induction xs arbitrary: s ts)
  case Nil
  show ?case by (cases ts) auto
next
  case (Cons x xs)
  obtain s' ts' where ih: "split_on c xs = s' # ts'" by (metis list.exhaust split_on_nonempty)
  show ?case
  proof (cases "x = c")
    case True
    have "split_on c (x # xs) = s # ts \<longleftrightarrow> s = [] \<and> (\<exists>a as. ts = a # as \<and> split_on c xs = a # as)"
      using True ih by auto
    also have "\<dots> \<longleftrightarrow> x # xs = s @ concat (map ((#) c) ts) \<and> c \<notin> set s \<and> (\<forall>t \<in> set ts. c \<notin> set t)"
      using True by (cases s; cases ts) (auto simp: Cons.IH)
    finally show ?thesis .
  next
    case False
    have "split_on c (x # xs) = s # ts \<longleftrightarrow> (\<exists>s0. s = x # s0 \<and> split_on c xs = s0 # ts)"
      using False ih by auto
    also have "\<dots> \<longleftrightarrow> x # xs = s @ concat (map ((#) c) ts) \<and> c \<notin> set s \<and> (\<forall>t \<in> set ts. c \<notin> set t)"
      using False by (cases ts) (auto simp: Cons.IH Cons_eq_append_conv)
    finally show ?thesis .
  qed
qed

lemma dot_not_lower: "is_lower_or_digit c \<or> c = CHR ''-'' \<Longrightarrow> c \<noteq> CHR ''.''"
  by (auto simp: is_lower_or_digit_def)

lemma vendor_extension_key_iff:
  "is_vendor_extension_key key \<longleftrightarrow>
     (\<exists>s ts. key = ''x-'' @ s @ concat (map ((#) (CHR ''.'')) ts) \<and>
        s \<noteq> [] \<and> (\<forall>c \<in> set s. is_lower_or_digit c) \<and> ts \<noteq> [] \<and>
        (\<forall>t \<in> set ts. t \<noteq> [] \<and> (\<forall>c \<in> set t. is_lower_or_digit c \<or> c = CHR ''-'')))"
  (is "_ \<longleftrightarrow> (\<exists>s ts. ?G s ts)")
proof
  assume v: "is_vendor_extension_key key"
  then obtain rest where rest: "key = ''x-'' @ rest"
    by (auto simp: is_vendor_extension_key_def strip_prefix_def starts_with_iff split: if_splits)
  obtain s ts where st: "split_on (CHR ''.'') rest = s # ts" by (metis list.exhaust split_on_nonempty)
  have "strip_prefix key ''x-'' = Some rest" by (simp add: rest strip_prefix_def starts_with_iff)
  then have "?G s ts" using v st split_on_join [of "CHR ''.''" rest s ts]
    by (auto simp: is_vendor_extension_key_def rest list_all_iff Let_def)
  then show "\<exists>s ts. ?G s ts" by blast
next
  assume "\<exists>s ts. ?G s ts"
  then obtain s ts where G: "?G s ts" by blast
  then have "split_on (CHR ''.'') (s @ concat (map ((#) (CHR ''.'')) ts)) = s # ts"
    unfolding split_on_join using dot_not_lower by blast
  then show "is_vendor_extension_key key"
    using G by (auto simp: is_vendor_extension_key_def strip_prefix_def starts_with_iff list_all_iff
        Let_def Suc_le_eq)
qed

lemma annotation_not_vendor: "is_annotation_key k \<Longrightarrow> \<not> is_vendor_extension_key k"
  by (auto simp: is_annotation_key_def vendor_extension_key_iff starts_with_iff)

section \<open>What the walk admits\<close>

text \<open>JSON values as \<^verbatim>\<open>serde_json\<close> builds them: the keys of an object in order, without repetition.\<close>

fun json_wf :: "json \<Rightarrow> bool" where
  "json_wf (JObject kvs) \<longleftrightarrow> bt_invar kvs \<and> list_all (\<lambda>kv. json_wf (snd kv)) kvs"
| "json_wf (JArray vs) \<longleftrightarrow> list_all json_wf vs"
| "json_wf _ \<longleftrightarrow> True"

text \<open>The rule of the schemas: at a closed position every key is defined there, an annotation, or, at
  the top, a vendor extension whose value is an object; defined keys are closed in turn.\<close>

inductive closed_rules :: "bool \<Rightarrow> RuleShape list \<Rightarrow> json \<Rightarrow> bool" where
  not_object: "\<not> is_object v \<Longrightarrow> closed_rules toplevel shapes v"
| not_closed: "closed_of shapes = [] \<Longrightarrow> closed_rules toplevel shapes v"
| closed_object:
    "(\<And>k v. (k, v) \<in> set kvs \<Longrightarrow> \<not> is_annotation_key k \<Longrightarrow> is_vendor_extension_key k \<Longrightarrow>
        toplevel \<and> is_object v) \<Longrightarrow>
     (\<And>k v. (k, v) \<in> set kvs \<Longrightarrow> \<not> is_annotation_key k \<Longrightarrow> \<not> is_vendor_extension_key k \<Longrightarrow>
        children_of shapes k \<noteq> []) \<Longrightarrow>
     (\<And>k v. (k, v) \<in> set kvs \<Longrightarrow> \<not> is_annotation_key k \<Longrightarrow> \<not> is_vendor_extension_key k \<Longrightarrow>
        closed_rules False (children_of shapes k) v) \<Longrightarrow>
     closed_rules toplevel shapes (JObject kvs)"

inductive_simps closed_rules_object: "closed_rules toplevel shapes (JObject kvs)"

definition key_ok :: "bool \<Rightarrow> RuleShape list \<Rightarrow> string \<times> json \<Rightarrow> bool" where
  "key_ok toplevel shapes kv \<longleftrightarrow> is_annotation_key (fst kv) \<or>
     (if is_vendor_extension_key (fst kv) then toplevel \<and> is_object (snd kv)
      else children_of shapes (fst kv) \<noteq> [] \<and> closed_rules False (children_of shapes (fst kv)) (snd kv))"

lemma closed_rules_iff:
  "closed_rules toplevel shapes (JObject kvs) \<longleftrightarrow>
     closed_of shapes = [] \<or> (\<forall>kv \<in> set kvs. key_ok toplevel shapes kv)"
  unfolding closed_rules_object key_ok_def by (auto split: if_splits)

lemma find_map_None: "find_map f xs = None \<longleftrightarrow> (\<forall>x \<in> set xs. f x = None)"
  by (induction xs) (auto split: option.splits)

lemma find_map_map: "find_map f (map g xs) = find_map (f \<circ> g) xs"
  by (induction xs) (auto split: option.splits)

lemma obj_index_entry: "bt_invar kvs \<Longrightarrow> (k, v) \<in> set kvs \<Longrightarrow> obj_index kvs k = v"
  using map_of_is_SomeI [of kvs k v]
  by (auto simp: obj_index_def unwrap_or_def bt_invar_def strict_sorted_iff)

text \<open>On ordered objects the loop runs over the entries themselves.\<close>

lemma walk_object:
  assumes "bt_invar kvs"
  shows "walk (JObject kvs) shapes path toplevel =
    (if closed_of shapes = [] then None
     else find_map (\<lambda>(key, v).
        if is_annotation_key key then None
        else if is_vendor_extension_key key then
          (if \<not> toplevel then Some (NestedVendorExtension (child_path path key))
           else if \<not> is_object v then Some (VendorExtensionNotObject key)
           else None)
        else if children_of shapes key = [] then Some (Undefined (child_path path key))
        else walk v (children_of shapes key) (child_path path key) False) kvs)"
proof -
  have "sort (map fst kvs) = map fst kvs"
    using assms by (simp add: bt_invar_def sorted_sort_id strict_sorted_imp_sorted)
  then show ?thesis using assms
    by (auto simp: find_map_map Let_def obj_index_entry intro!: find_map_cong)
qed

lemma walk_None_iff:
  "json_wf v \<Longrightarrow> walk v shapes path toplevel = None \<longleftrightarrow> closed_rules toplevel shapes v"
proof (induction v arbitrary: shapes path toplevel)
  case (JObject kvs)
  have ih: "walk v sh p b = None \<longleftrightarrow> closed_rules b sh v" if "(k, v) \<in> set kvs" for k v sh p b
    using JObject.IH [of "(k, v)" v] JObject.prems that by (force simp: list_all_iff)
  have inv: "bt_invar kvs" using JObject.prems by simp
  show ?case
    unfolding walk_object [OF inv] closed_rules_iff
    by (auto simp: find_map_None key_ok_def ih simp del: walk.simps split: if_splits)
qed (auto intro: not_object)

section \<open>The normal form of rules\<close>

lemma is_object_strip [simp]: "is_object (strip v shapes) = is_object v"
  by (cases v) auto

lemma strip_idem: "strip (strip v shapes) shapes = strip v shapes"
proof (induction v arbitrary: shapes)
  case (JObject kvs)
  have ih: "strip (strip (snd kv) sh) sh = strip (snd kv) sh" if "kv \<in> set kvs" for kv sh
    using JObject.IH [of kv "snd kv" sh] that by (cases kv) simp
  show ?case
    by (auto simp: filter_map comp_def case_prod_unfold ih intro!: map_cong)
qed simp_all

lemma bt_invar_filter_map:
  assumes "bt_invar kvs"
  shows "bt_invar (map (\<lambda>(k, v). (k, f k v)) (filter P kvs))"
proof -
  have "map fst (map (\<lambda>(k, v). (k, f k v)) xs) = map fst xs" for xs by (induction xs) auto
  moreover have "sorted_wrt (<) (map fst (filter P kvs))"
    using assms by (induction kvs) (auto simp: bt_invar_def)
  ultimately show ?thesis by (simp only: bt_invar_def)
qed

lemma json_wf_strip: "json_wf v \<Longrightarrow> json_wf (strip v shapes)"
proof (induction v arbitrary: shapes)
  case (JObject kvs)
  have "json_wf (strip v sh)" if "(k, v) \<in> set kvs" for k v sh
    using JObject.IH [of "(k, v)" v sh] JObject.prems that by (force simp: list_all_iff)
  moreover have "bt_invar kvs" "list_all (\<lambda>kv. json_wf (snd kv)) kvs" using JObject.prems by auto
  ultimately show ?case
    using bt_invar_filter_map [of kvs "\<lambda>k v. strip v (children_of shapes k)"]
    by (auto simp: list_all_iff)
qed simp_all

text \<open>Admission of keys does not depend on annotations.\<close>

lemma closed_rules_strip: "closed_rules toplevel shapes (strip v shapes) \<longleftrightarrow> closed_rules toplevel shapes v"
proof (induction v arbitrary: shapes toplevel)
  case (JObject kvs)
  have ih: "closed_rules b sh (strip (snd kv) sh) \<longleftrightarrow> closed_rules b sh (snd kv)"
    if "kv \<in> set kvs" for kv sh b
    using JObject.IH [of kv "snd kv" b sh] that by (cases kv) simp
  show ?case
  proof (cases "closed_of shapes = []")
    case False
    have key: "key_ok toplevel shapes (fst kv, strip (snd kv) (children_of shapes (fst kv))) \<longleftrightarrow>
        key_ok toplevel shapes kv" if "kv \<in> set kvs" for kv
      using ih [OF that] by (simp add: key_ok_def)
    have annotated: "is_annotation_key (fst kv) \<Longrightarrow> key_ok toplevel shapes kv" for kv
      by (simp add: key_ok_def)
    have "(\<forall>kv \<in> set kvs. \<not> is_annotation_key (fst kv) \<longrightarrow>
          key_ok toplevel shapes (fst kv, strip (snd kv) (children_of shapes (fst kv)))) \<longleftrightarrow>
        (\<forall>kv \<in> set kvs. key_ok toplevel shapes kv)"
      using key annotated by blast
    then show ?thesis using False by (auto simp: closed_rules_iff case_prod_unfold)
  qed simp
qed (simp_all add: not_object)

lemma rules_equal_keys:
  assumes "rules_equal mode a b" "rule_shape_for_mode mode = Some shapes" "json_wf a" "json_wf b"
  shows "closed_key_violation a shapes = None \<longleftrightarrow> closed_key_violation b shapes = None"
proof -
  have "strip a shapes = strip b shapes"
    using assms(1,2) by (simp add: rules_equal_def unwrap_or_def strip_annotations_def Let_def)
  then show ?thesis
    unfolding closed_key_violation_def walk_None_iff [OF assms(3)] walk_None_iff [OF assms(4)]
    by (metis closed_rules_strip)
qed

end
