(* ===== verification/Evaluator.thy ===== *)
theory Evaluator
  imports Policy_Types
begin

text \<open>
  The default policy evaluator, \<^verbatim>\<open>macp-policy/src/evaluator.rs\<close> and \<^verbatim>\<open>lib.rs\<close>: whether the bound
  policy allows a Commitment, per mode. The numbered checks of the Decision evaluator are one
  definition each and contribute to a list of denial reasons and a list of approvals, as in the
  code. Reading the rules out of the policy (\<^verbatim>\<open>serde_json::from_value\<close>) and the Unicode case mapping
  \<^verbatim>\<open>str::to_uppercase\<close> are parameters.
\<close>

record evaluator_ext =
  ee_parsers :: rule_parsers
  ee_to_uppercase :: "string \<Rightarrow> string"

abbreviation quote :: string where "quote \<equiv> [CHR 0x27]"

section \<open>Schema version and rule parsing\<close>

definition SUPPORTED_SCHEMA_VERSIONS :: "u32 list" where
  "SUPPORTED_SCHEMA_VERSIONS = [1, 2, 3]"

definition check_schema_version :: "PolicyDefinition \<Rightarrow> PolicyDecision option" where
  "check_schema_version policy =
     (if p_schema_version policy \<notin> set SUPPORTED_SCHEMA_VERSIONS then
        Some (Deny [DenyReason_new UNSUPPORTED_SCHEMA_VERSION
          [Lit ''unsupported policy schema version: '', FmtNat (p_schema_version policy),
           Lit '' (supported: '', FmtDebug SUPPORTED_SCHEMA_VERSIONS, Lit '')'']])
      else None)"

definition parse_rules :: "(json \<Rightarrow> 'r option) \<Rightarrow> PolicyDefinition \<Rightarrow> PolicyDecision + 'r" where
  "parse_rules parse policy =
     (case parse (p_rules policy) of
        Some r \<Rightarrow> Inr r
      | None \<Rightarrow> Inl (Deny [DenyReason_new INVALID_RULES
          [Lit (''policy '' @ quote), FmtStr (p_policy_id policy),
           Lit (quote @ '' rules failed to parse at evaluation time: ''), FmtSerdeError]]))"

text \<open>The value domains that registration and evaluation share (\<^verbatim>\<open>registry.rs\<close>).\<close>

definition decision_value_domain_error :: "DecisionPolicyRules \<Rightarrow> message option" where
  "decision_value_domain_error rules =
     (let veto_threshold = oh_veto_threshold (dr_objection_handling rules);
          confidence = er_minimum_confidence (dr_evaluation rules)
      in if veto_threshold < 1 then
           Some [Lit ''objection_handling.veto_threshold '', FmtNat veto_threshold,
                 Lit '' is out of range: must be >= 1'']
         else if \<not> (f64_le (Finite 0) confidence \<and> f64_le confidence (Finite 1)) then
           Some [Lit ''evaluation.minimum_confidence '', FmtF64 confidence,
                 Lit '' is out of range: must be between 0.0 and 1.0 inclusive'']
         else None)"

section \<open>Votes\<close>

definition all_votes :: "vote_table \<Rightarrow> (string \<times> Vote) list" where
  "all_votes votes = concat (bt_values votes)"

text \<open>Approve, reject, abstain and non-abstain counts over all proposals.\<close>

definition aggregate_votes :: "vote_table \<Rightarrow> nat \<times> nat \<times> nat \<times> nat" where
  "aggregate_votes votes =
     (let (approve, reject, abstain) =
        fold (\<lambda>(_, vote) (approve, reject, abstain).
          if vo_vote vote = ''APPROVE'' then (approve + 1, reject, abstain)
          else if vo_vote vote = ''REJECT'' then (approve, reject + 1, abstain)
          else (approve, reject, abstain + 1)) (all_votes votes) (0, 0, 0)
      in (approve, reject, abstain, approve + reject))"

definition weight_of :: "(string \<rightharpoonup> f64) \<Rightarrow> string \<Rightarrow> f64" where
  "weight_of weights voter = unwrap_or (Finite 0) (weights voter)"

definition count_decisive_rejects :: "string \<Rightarrow> (string \<rightharpoonup> f64) \<Rightarrow> vote_table \<Rightarrow> nat" where
  "count_decisive_rejects algorithm weights votes =
     (if algorithm \<noteq> ''weighted'' then
        (let (_, reject_count, _, _) = aggregate_votes votes in reject_count)
      else length (filter (\<lambda>(voter, vote). vo_vote vote = ''REJECT'' \<and>
             f64_gt (weight_of weights voter) (Finite 0)) (all_votes votes)))"

definition count_unique_voters :: "vote_table \<Rightarrow> nat" where
  "count_unique_voters votes = card (\<Union>pv \<in> set (bt_values votes). fst ` set pv)"

definition compute_weighted_votes :: "vote_table \<Rightarrow> (string \<rightharpoonup> f64) \<Rightarrow> f64 \<times> f64" where
  "compute_weighted_votes votes weights =
     fold (\<lambda>(voter, vote) (weighted_approve, weighted_total).
       if vo_vote vote \<noteq> ''APPROVE'' \<and> vo_vote vote \<noteq> ''REJECT''
       then (weighted_approve, weighted_total)
       else
         (let weight = weight_of weights voter
          in (if vo_vote vote = ''APPROVE'' then f64_add weighted_approve weight
              else weighted_approve,
              f64_add weighted_total weight)))
       (all_votes votes) (Finite 0, Finite 0)"

definition check_quorum :: "string \<Rightarrow> f64 \<Rightarrow> nat \<Rightarrow> nat \<Rightarrow> bool" where
  "check_quorum quorum_type value actual_voters total_participants =
     (if quorum_type = ''count'' \<or> quorum_type = ''n_of_m'' then f64_ge (f64_of_nat actual_voters) value
      else if quorum_type = ''percentage'' then
        (if total_participants = 0 then f64_le value (Finite 0)
         else
           (let pct = f64_mul (f64_div (f64_of_nat actual_voters) (f64_of_nat total_participants))
                        (Finite 100)
            in f64_ge pct value))
      else f64_ge (f64_of_nat actual_voters) value)"

section \<open>Voting algorithms\<close>

datatype VotingResult = Passed message | Failed message | NoVotes

definition hundredfold :: "f64 \<Rightarrow> fmt_piece" where
  "hundredfold r = FmtF64_1 (f64_mul r (Finite 100))"

definition ratio_result :: "string \<Rightarrow> string \<Rightarrow> f64 \<Rightarrow> f64 \<Rightarrow> VotingResult" where
  "ratio_result name kind ratio threshold =
     (if f64_ge ratio threshold then
        Passed [Lit (name @ '' vote passed: ''), hundredfold ratio, Lit (''% '' @ kind @ '' (threshold: ''),
                hundredfold threshold, Lit ''%)'']
      else
        Failed [Lit (name @ '' vote failed: ''), hundredfold ratio, Lit (''% '' @ kind @ '', need >= ''),
                hundredfold threshold, Lit ''%''])"

definition supermajority_threshold :: "f64 \<Rightarrow> f64" where
  "supermajority_threshold threshold =
     (if f64_gt threshold (Finite (1 / 2)) then threshold else f64_div (Finite 2) (Finite 3))"

definition unanimous_result :: "nat \<Rightarrow> nat \<Rightarrow> vote_table \<Rightarrow> string list \<Rightarrow> VotingResult" where
  "unanimous_result approve_count reject_count votes participants =
     (let all_voted = list_all (\<lambda>p. list_ex (\<lambda>pv. case bt_get pv p of
                None \<Rightarrow> False | Some v \<Rightarrow> vo_vote v = ''APPROVE'') (bt_values votes)) participants
      in if all_voted \<and> reject_count = 0 then
           Passed [Lit ''unanimous vote passed: all participants approved'']
         else
           Failed [Lit ''unanimous vote failed: '', FmtNat approve_count, Lit '' approve, '',
                   FmtNat reject_count, Lit '' reject out of '', FmtNat (length participants),
                   Lit '' participants''])"

definition weighted_result :: "f64 \<Rightarrow> (string \<rightharpoonup> f64) \<Rightarrow> vote_table \<Rightarrow> VotingResult" where
  "weighted_result threshold weights votes =
     (let (weighted_approve, weighted_total) = compute_weighted_votes votes weights
      in if f64_lt weighted_total (Finite 0) then
           Failed [Lit ''weighted vote failed: the weights of the votes cast sum to '',
                   FmtF64_1 weighted_total,
                   Lit ''; voting.weights values must be > 0, so no approval ratio is meaningful'']
         else if f64_eq weighted_total (Finite 0) then NoVotes
         else ratio_result ''weighted'' ''weighted approve''
                (f64_div weighted_approve weighted_total) threshold)"

definition plurality_result :: "nat \<Rightarrow> nat \<Rightarrow> VotingResult" where
  "plurality_result approve_count reject_count =
     (let detail = [FmtNat approve_count, Lit '' approve vs '', FmtNat reject_count, Lit '' reject'']
      in if approve_count > reject_count then Passed (Lit ''plurality vote passed: '' # detail)
         else if approve_count = reject_count then Failed (Lit ''plurality vote tied: '' # detail)
         else Failed (Lit ''plurality vote failed: '' # detail))"

definition check_voting_algorithm ::
    "string \<Rightarrow> f64 \<Rightarrow> (string \<rightharpoonup> f64) \<Rightarrow> vote_table \<Rightarrow> string list \<Rightarrow> VotingResult" where
  "check_voting_algorithm algorithm threshold weights votes participants =
     (let (approve_count, reject_count, _, non_abstain_total) = aggregate_votes votes;
          ratio = f64_div (f64_of_nat approve_count) (f64_of_nat non_abstain_total)
      in if non_abstain_total = 0 then NoVotes
         else if algorithm = ''majority'' then ratio_result ''majority'' ''approve'' ratio threshold
         else if algorithm = ''supermajority'' then
           ratio_result ''supermajority'' ''approve'' ratio (supermajority_threshold threshold)
         else if algorithm = ''unanimous'' then
           unanimous_result approve_count reject_count votes participants
         else if algorithm = ''weighted'' then weighted_result threshold weights votes
         else if algorithm = ''plurality'' then plurality_result approve_count reject_count
         else Failed [Lit (''unknown voting algorithm '' @ quote), FmtStr algorithm,
                Lit (quote @ ''; supported: majority, supermajority, unanimous, weighted, plurality, none'')])"

section \<open>Decision mode\<close>

text \<open>Check 0: the standing critical-objection veto, with the objectors.\<close>

definition critical_veto :: "ObjectionHandlingRules \<Rightarrow> DecisionState \<Rightarrow> (message \<times> string list) option" where
  "critical_veto oh st =
     (if oh_critical_severity_vetoes oh then
        (let blocking = map ob_sender (filter (\<lambda>o'. ob_severity o' = ''critical'') (ds_objections st))
         in if length blocking \<ge> oh_veto_threshold oh then
              Some ([FmtNat (length blocking), Lit '' blocking objection(s) (veto threshold: '',
                     FmtNat (oh_veto_threshold oh), Lit '')''], blocking)
            else None)
      else None)"

definition objection_authorized_decline ::
    "ObjectionHandlingRules \<Rightarrow> DecisionState \<Rightarrow> bool \<Rightarrow> bool" where
  "objection_authorized_decline oh st outcome_positive \<longleftrightarrow>
     critical_veto oh st \<noteq> None \<and> \<not> outcome_positive \<and>
     oh_critical_objection_action oh = FinalizeDecline"

text \<open>Check 1: evaluations. REVIEW evaluations never qualify.\<close>

definition qualifying_evaluations :: "evaluator_ext \<Rightarrow> DecisionState \<Rightarrow> Evaluation list" where
  "qualifying_evaluations ee st =
     filter (\<lambda>e. ee_to_uppercase ee (ev_recommendation e) \<noteq> ''REVIEW'') (ds_evaluations st)"

definition evaluation_gate :: "evaluator_ext \<Rightarrow> EvaluationRules \<Rightarrow> DecisionState \<Rightarrow> DenyReason list" where
  "evaluation_gate ee er st =
     (let qualifying = qualifying_evaluations ee st
      in if er_required_before_voting er \<and> f64_gt (er_minimum_confidence er) (Finite 0) then
           (let meets_confidence =
                  list_ex (\<lambda>e. f64_ge (ev_confidence e) (er_minimum_confidence er)) qualifying
            in if qualifying = [] \<or> \<not> meets_confidence then
                 [DenyReason_new CONFIDENCE_BELOW_MINIMUM
                    [Lit ''no qualifying evaluation meets minimum confidence threshold: '',
                     FmtF64_2 (er_minimum_confidence er)]]
               else [])
         else if er_required_before_voting er \<and> qualifying = [] then
           [DenyReason_new EVALUATION_REQUIRED
              [Lit (''evaluations required before voting but none provided '' @
                    ''(REVIEW evaluations are informational only)'')]]
         else [])"

text \<open>Check 2: how a standing veto is resolved: denials and approvals it adds.\<close>

definition veto_gate ::
    "ObjectionHandlingRules \<Rightarrow> DecisionState \<Rightarrow> bool \<Rightarrow> DenyReason list \<times> message list" where
  "veto_gate oh st outcome_positive =
     (case critical_veto oh st of
        None \<Rightarrow> ([], [])
      | Some (detail, objectors) \<Rightarrow>
          (case oh_critical_objection_action oh of
             DenyAction \<Rightarrow>
               ([with_participants (DenyReason_new VETO (Lit ''blocked by '' # detail)) objectors], [])
           | Hold \<Rightarrow>
               ([with_participants (DenyReason_new VETO_HOLD
                   (Lit ''held for escalation by '' # detail @
                    [Lit '' (critical_objection_action=hold)''])) objectors], [])
           | FinalizeDecline \<Rightarrow>
               if outcome_positive then
                 ([with_participants (DenyReason_new VETO
                     (Lit ''veto blocks a positive commitment: '' # detail @
                      [Lit '' (critical_objection_action=finalize_decline)''])) objectors], [])
               else ([], [Lit ''critical-objection veto finalized as a decline: '' # detail])))"

text \<open>Check 4 of the code: the participation floor.\<close>

definition quorum_gate :: "DecisionPolicyRules \<Rightarrow> DecisionState \<Rightarrow> string list \<Rightarrow> DenyReason list" where
  "quorum_gate rules st participants =
     (let total_voters = count_unique_voters (ds_votes st);
          participant_count = length participants;
          quorum = vr_quorum (dr_voting rules);
          quorum_met = check_quorum (qr_quorum_type quorum) (qr_value quorum) total_voters participant_count
      in if cr_require_vote_quorum (dr_commitment rules) \<and> \<not> quorum_met then
           [DenyReason_new QUORUM_NOT_MET
              [Lit ''vote quorum not met: '', FmtNat total_voters, Lit '' voters of '',
               FmtNat participant_count, Lit '' participants (quorum: '', FmtF64 (qr_value quorum),
               Lit '' '', FmtStr (qr_quorum_type quorum), Lit '')'']]
         else [])"

text \<open>Check 5 of the code: the voting result against the requested outcome.\<close>

definition passed_gate ::
    "DecisionPolicyRules \<Rightarrow> bool \<Rightarrow> nat \<Rightarrow> message \<Rightarrow> DenyReason list \<times> message list" where
  "passed_gate rules outcome_positive decisive_reject_count reason =
     (if outcome_positive then ([], [reason])
      else if \<not> cr_allow_decline_over_approval (dr_commitment rules) then
        ([DenyReason_new DECLINE_OVER_APPROVAL
            (Lit (''vote passed the approval threshold but a decline was requested; set '' @
                  ''commitment.allow_decline_over_approval to permit an executive override ('') #
             reason @ [Lit '')''])], [])
      else if decisive_reject_count > 0 then
        ([], [Lit (''decline authorized over a passing approval vote '' @
                   ''(allow_decline_over_approval=true): '') # reason])
      else
        (let detail = (if vr_algorithm (dr_voting rules) = ''weighted'' then
               ''a REJECT from a participant outside voting.weights is non-decisive, '' @
               ''and incomplete participation is not a rejection''
             else
               ''no REJECT was cast; neither an abstention nor a missing ballot is a '' @
               ''rejection'')
         in ([DenyReason_new DECLINE_NOT_BACKED
                (Lit (''allow_decline_over_approval permits a decline over a passing vote, '' @
                      ''but no decisive reject backs it ('' @ detail @ ''): '') # reason)], [])))"

definition failed_gate :: "bool \<Rightarrow> nat \<Rightarrow> message \<Rightarrow> DenyReason list \<times> message list" where
  "failed_gate outcome_positive decisive_reject_count reason =
     (if outcome_positive then ([DenyReason_new THRESHOLD_NOT_MET reason], [])
      else if decisive_reject_count > 0 then
        ([], [Lit ''decline backed by conclusive rejection: '' # reason])
      else
        ([DenyReason_new DECLINE_NOT_BACKED
            (Lit (''approval threshold not met but no decisive reject to justify a decline '' @
                  ''(incomplete participation is not a rejection): '') # reason)], []))"

definition no_votes_gate ::
    "PolicyDefinition \<Rightarrow> DecisionPolicyRules \<Rightarrow> bool \<Rightarrow> DenyReason list \<times> message list" where
  "no_votes_gate policy rules outcome_positive =
     (if outcome_positive then
        (if p_schema_version policy \<ge> 3 then
           ([DenyReason_new NO_VOTES
               [Lit ''no decisive votes cast: under policy schema_version '',
                FmtNat (p_schema_version policy), Lit ('' the '' @ quote),
                FmtStr (vr_algorithm (dr_voting rules)),
                Lit (quote @ '' voting algorithm is binding on an empty tally and does not '' @
                     ''authorize a positive commitment (RFC-MACP-0012 '' @
                     [CHR 0xC2, CHR 0xA7] @ ''4.1)'')]], [])
         else if cr_require_vote_quorum (dr_commitment rules) then
           ([DenyReason_new NO_VOTES [Lit ''no votes cast'']], [])
         else ([], []))
      else
        ([DenyReason_new DECLINE_NOT_BACKED
            [Lit ''no votes cast; a decline requires at least one decisive explicit reject vote'']], []))"

definition voting_gate ::
    "PolicyDefinition \<Rightarrow> DecisionPolicyRules \<Rightarrow> DecisionState \<Rightarrow> string list \<Rightarrow> bool
     \<Rightarrow> DenyReason list \<times> message list" where
  "voting_gate policy rules st participants outcome_positive =
     (let voting = dr_voting rules;
          decisive_reject_count =
            count_decisive_rejects (vr_algorithm voting) (vr_weights voting) (ds_votes st)
      in case check_voting_algorithm (vr_algorithm voting) (vr_threshold voting) (vr_weights voting)
                (ds_votes st) participants of
           Passed reason \<Rightarrow> passed_gate rules outcome_positive decisive_reject_count reason
         | Failed reason \<Rightarrow> failed_gate outcome_positive decisive_reject_count reason
         | NoVotes \<Rightarrow> no_votes_gate policy rules outcome_positive)"

definition conclude :: "DenyReason list \<Rightarrow> message list \<Rightarrow> message \<Rightarrow> PolicyDecision" where
  "conclude deny_reasons allow_reasons satisfied =
     (if deny_reasons = [] then Allow (if allow_reasons = [] then [satisfied] else allow_reasons)
      else Deny deny_reasons)"

definition decide_decision ::
    "evaluator_ext \<Rightarrow> PolicyDefinition \<Rightarrow> DecisionPolicyRules \<Rightarrow> DecisionState \<Rightarrow> string list \<Rightarrow> bool
     \<Rightarrow> PolicyDecision" where
  "decide_decision ee policy rules st participants outcome_positive =
     (let oh = dr_objection_handling rules;
          waived = objection_authorized_decline oh st outcome_positive;
          deny1 = (if waived then [] else evaluation_gate ee (dr_evaluation rules) st);
          (deny2, allow2) = veto_gate oh st outcome_positive;
          deny4 = (if waived then [] else quorum_gate rules st participants);
          (deny5, allow5) =
            (if vr_algorithm (dr_voting rules) = ''none'' then
               ([], [[Lit (''voting algorithm is '' @ quote @ ''none'' @ quote @
                           ''; no vote threshold required'')]])
             else if \<not> waived then voting_gate policy rules st participants outcome_positive
             else ([], []))
      in conclude (deny1 @ deny2 @ deny4 @ deny5) (allow2 @ allow5)
           [Lit ''policy constraints satisfied''])"

definition evaluate_decision_commitment_outcome ::
    "evaluator_ext \<Rightarrow> PolicyDefinition \<Rightarrow> DecisionState \<Rightarrow> string list \<Rightarrow> bool \<Rightarrow> PolicyDecision" where
  "evaluate_decision_commitment_outcome ee policy st participants outcome_positive =
     (case check_schema_version policy of
        Some deny \<Rightarrow> deny
      | None \<Rightarrow>
          (case parse_rules (parse_decision_rules (ee_parsers ee)) policy of
             Inl deny \<Rightarrow> deny
           | Inr rules \<Rightarrow>
               (case decision_value_domain_error rules of
                  Some reason \<Rightarrow>
                    Deny [DenyReason_new INVALID_RULES
                      (Lit (''policy '' @ quote) # FmtStr (p_policy_id policy) #
                       Lit (quote @ '' rules are out of domain at evaluation time: '') # reason)]
                | None \<Rightarrow> decide_decision ee policy rules st participants outcome_positive)))"

definition evaluate_decision_commitment ::
    "evaluator_ext \<Rightarrow> PolicyDefinition \<Rightarrow> DecisionState \<Rightarrow> string list \<Rightarrow> PolicyDecision" where
  "evaluate_decision_commitment ee policy st participants =
     evaluate_decision_commitment_outcome ee policy st participants True"

section \<open>The other modes\<close>

text \<open>The frame every other evaluator shares: schema version first, then the rules.\<close>

definition with_rules ::
    "(json \<Rightarrow> 'r option) \<Rightarrow> PolicyDefinition \<Rightarrow> ('r \<Rightarrow> PolicyDecision) \<Rightarrow> PolicyDecision" where
  "with_rules parse policy k =
     (case check_schema_version policy of
        Some deny \<Rightarrow> deny
      | None \<Rightarrow> (case parse_rules parse policy of Inl deny \<Rightarrow> deny | Inr rules \<Rightarrow> k rules))"

definition evaluate_proposal_commitment_outcome ::
    "evaluator_ext \<Rightarrow> PolicyDefinition \<Rightarrow> nat \<Rightarrow> bool \<Rightarrow> PolicyDecision" where
  "evaluate_proposal_commitment_outcome ee policy counter_proposal_count outcome_positive =
     with_rules (parse_proposal_rules (ee_parsers ee)) policy (\<lambda>rules.
       let max_rounds = cpr_max_rounds (ppr_counter_proposal rules);
           exceeded = (max_rounds > 0 \<and> counter_proposal_count > max_rounds)
       in conclude
            (if exceeded \<and> outcome_positive then
               [DenyReason_new CRITERION_NOT_MET
                  [Lit ''counter-proposal limit exceeded: '', FmtNat counter_proposal_count,
                   Lit '' of '', FmtNat max_rounds, Lit '' allowed'']]
             else [])
            (if exceeded \<and> \<not> outcome_positive then
               [[Lit ''round limit exceeded but outcome is a decline: limit not applicable'']]
             else [])
            [Lit ''proposal policy constraints satisfied''])"

definition evaluate_task_commitment_outcome ::
    "evaluator_ext \<Rightarrow> PolicyDefinition \<Rightarrow> bool \<Rightarrow> bool \<Rightarrow> PolicyDecision" where
  "evaluate_task_commitment_outcome ee policy has_output outcome_positive =
     with_rules (parse_task_rules (ee_parsers ee)) policy (\<lambda>rules.
       let missing = (tcr_require_output (tpr_completion rules) \<and> \<not> has_output)
       in conclude
            (if missing \<and> outcome_positive then
               [DenyReason_new OUTPUT_REQUIRED
                  [Lit ''policy requires task output before commitment'']]
             else [])
            (if missing \<and> \<not> outcome_positive then
               [[Lit ''negative outcome (task failure): output requirement not applicable'']]
             else [])
            [Lit ''task policy constraints satisfied''])"

definition evaluate_handoff_commitment_outcome ::
    "evaluator_ext \<Rightarrow> PolicyDefinition \<Rightarrow> bool \<Rightarrow> PolicyDecision" where
  "evaluate_handoff_commitment_outcome ee policy outcome_positive =
     with_rules (parse_handoff_rules (ee_parsers ee)) policy (\<lambda>_.
       Allow [[Lit ''handoff policy constraints satisfied'']])"

definition threshold_gate ::
    "QuorumThreshold \<Rightarrow> nat \<Rightarrow> nat \<Rightarrow> bool \<Rightarrow> DenyReason list \<times> message list" where
  "threshold_gate t approve_count total_participants outcome_positive =
     (let declined = [Lit ''negative outcome: approval threshold does not gate a decline'']
      in case effective t total_participants of
           Inert \<Rightarrow> ([], [])
         | Approvals required \<Rightarrow>
             if outcome_positive \<and> approve_count < required then
               ([DenyReason_new THRESHOLD_NOT_MET
                   [Lit ''approval threshold not met: '', FmtNat approve_count, Lit '' of '',
                    FmtNat required, Lit '' required approvals ('', FmtF64 (qt_value t), Lit '' '',
                    FmtStr (qt_threshold_type t), Lit '')'']], [])
             else if \<not> outcome_positive then ([], [declined])
             else ([], [])
         | Unsatisfiable \<Rightarrow>
             if outcome_positive then
               ([DenyReason_new THRESHOLD_NOT_MET
                   [Lit (''approval threshold '' @ quote), FmtStr (qt_threshold_type t),
                    Lit (quote @ '' cannot be satisfied by this runtime (''),
                    FmtNat total_participants,
                    Lit '' participants): no positive commitment is possible'']], [])
             else ([], [declined]))"

definition evaluate_quorum_commitment_outcome ::
    "evaluator_ext \<Rightarrow> PolicyDefinition \<Rightarrow> nat \<Rightarrow> nat \<Rightarrow> nat \<Rightarrow> nat \<Rightarrow> bool \<Rightarrow> PolicyDecision" where
  "evaluate_quorum_commitment_outcome ee policy approve_count reject_count abstain_count
      total_participants outcome_positive =
     with_rules (parse_quorum_rules (ee_parsers ee)) policy (\<lambda>rules.
       let (deny, allow) =
             threshold_gate (qpr_threshold rules) approve_count total_participants outcome_positive;
           effective_reject_count =
             (if ab_interpretation (qpr_abstention rules) = ''implicit_reject''
              then reject_count + abstain_count else reject_count)
       in conclude deny
            (allow @
             (if effective_reject_count > reject_count then
                [[Lit ''abstentions interpreted as implicit rejections: '',
                  FmtNat effective_reject_count, Lit '' effective rejections'']]
              else []))
            [Lit ''quorum policy constraints satisfied''])"

definition DefaultPolicyEvaluator :: "evaluator_ext \<Rightarrow> PolicyEvaluator" where
  "DefaultPolicyEvaluator ee ctx =
     (case cc_mode ctx of
        CM_Decision st \<Rightarrow> evaluate_decision_commitment_outcome ee (cc_policy ctx) st
          (cc_participants ctx) (cc_outcome_positive ctx)
      | CM_Proposal counter_proposal_count \<Rightarrow>
          evaluate_proposal_commitment_outcome ee (cc_policy ctx) counter_proposal_count
            (cc_outcome_positive ctx)
      | CM_Task has_output \<Rightarrow>
          evaluate_task_commitment_outcome ee (cc_policy ctx) has_output (cc_outcome_positive ctx)
      | CM_Handoff \<Rightarrow> evaluate_handoff_commitment_outcome ee (cc_policy ctx) (cc_outcome_positive ctx)
      | CM_Quorum approve_count reject_count abstain_count \<Rightarrow>
          evaluate_quorum_commitment_outcome ee (cc_policy ctx) approve_count reject_count
            abstain_count (length (cc_participants ctx)) (cc_outcome_positive ctx))"

section \<open>Facts about tallies\<close>

definition votes_for :: "string \<Rightarrow> vote_table \<Rightarrow> nat" where
  "votes_for v votes = length (filter (\<lambda>(_, vote). vo_vote vote = v) (all_votes votes))"

lemma aggregate_fold:
  "fold (\<lambda>(_, vote) (approve, reject, abstain).
      if vo_vote vote = ''APPROVE'' then (approve + 1, reject, abstain)
      else if vo_vote vote = ''REJECT'' then (approve, reject + 1, abstain)
      else (approve, reject, abstain + 1)) xs (a, r, n) =
   (a + length (filter (\<lambda>(_, vote). vo_vote vote = ''APPROVE'') xs),
    r + length (filter (\<lambda>(_, vote). vo_vote vote = ''REJECT'') xs),
    n + length (filter (\<lambda>(_, vote). vo_vote vote \<notin> {''APPROVE'', ''REJECT''}) xs))"
  by (induction xs arbitrary: a r n) auto

lemma aggregate_votes_counts:
  "\<exists>n. aggregate_votes votes =
     (votes_for ''APPROVE'' votes, votes_for ''REJECT'' votes, n,
      votes_for ''APPROVE'' votes + votes_for ''REJECT'' votes)"
  by (simp add: aggregate_votes_def aggregate_fold votes_for_def)

text \<open>A decisive reject: an explicit REJECT, and under \<^verbatim>\<open>weighted\<close> one with a positive weight.\<close>

definition dissent :: "VotingRules \<Rightarrow> vote_table \<Rightarrow> bool" where
  "dissent vr votes \<longleftrightarrow> (\<exists>(voter, vote) \<in> set (all_votes votes). vo_vote vote = ''REJECT'' \<and>
     (vr_algorithm vr = ''weighted'' \<longrightarrow> f64_gt (weight_of (vr_weights vr) voter) (Finite 0)))"

lemma decisive_rejects_iff:
  "0 < count_decisive_rejects (vr_algorithm vr) (vr_weights vr) votes \<longleftrightarrow> dissent vr votes"
proof -
  have count: "(let (_, reject_count, _, _) = aggregate_votes votes in reject_count)
      = votes_for ''REJECT'' votes"
    using aggregate_votes_counts [of votes] by (auto simp: Let_def split: prod.splits)
  show ?thesis
    by (auto simp: count_decisive_rejects_def count votes_for_def dissent_def filter_empty_conv
        split: prod.splits)
qed

text \<open>The result a voting algorithm reports, without its wording.\<close>

datatype tally = Approved | NotApproved | Empty

fun tally_of :: "VotingResult \<Rightarrow> tally" where
  "tally_of (Passed _) = Approved"
| "tally_of (Failed _) = NotApproved"
| "tally_of NoVotes = Empty"

definition voting_tally :: "VotingRules \<Rightarrow> vote_table \<Rightarrow> string list \<Rightarrow> tally" where
  "voting_tally vr votes participants =
     tally_of (check_voting_algorithm (vr_algorithm vr) (vr_threshold vr) (vr_weights vr) votes
       participants)"

lemma ratio_result_tally [simp]:
  "tally_of (ratio_result name kind ratio threshold) =
     (if f64_ge ratio threshold then Approved else NotApproved)"
  by (simp add: ratio_result_def)

lemma check_voting_cases:
  fixes votes :: vote_table
  defines "a \<equiv> votes_for ''APPROVE'' votes" and "r \<equiv> votes_for ''REJECT'' votes"
  assumes "0 < a + r"
  shows "check_voting_algorithm ''majority'' t w votes ps =
      ratio_result ''majority'' ''approve'' (f64_div (f64_of_nat a) (f64_of_nat (a + r))) t"
    and "check_voting_algorithm ''supermajority'' t w votes ps =
      ratio_result ''supermajority'' ''approve'' (f64_div (f64_of_nat a) (f64_of_nat (a + r)))
        (supermajority_threshold t)"
    and "check_voting_algorithm ''unanimous'' t w votes ps = unanimous_result a r votes ps"
    and "check_voting_algorithm ''weighted'' t w votes ps = weighted_result t w votes"
    and "check_voting_algorithm ''plurality'' t w votes ps = plurality_result a r"
proof -
  obtain n where n: "aggregate_votes votes = (a, r, n, a + r)"
    using aggregate_votes_counts [of votes] by (auto simp: a_def r_def)
  have pos: "\<not> (a + r = 0)" using assms by simp
  show "check_voting_algorithm ''majority'' t w votes ps =
      ratio_result ''majority'' ''approve'' (f64_div (f64_of_nat a) (f64_of_nat (a + r))) t"
    and "check_voting_algorithm ''supermajority'' t w votes ps =
      ratio_result ''supermajority'' ''approve'' (f64_div (f64_of_nat a) (f64_of_nat (a + r)))
        (supermajority_threshold t)"
    and "check_voting_algorithm ''unanimous'' t w votes ps = unanimous_result a r votes ps"
    and "check_voting_algorithm ''weighted'' t w votes ps = weighted_result t w votes"
    and "check_voting_algorithm ''plurality'' t w votes ps = plurality_result a r"
    unfolding check_voting_algorithm_def n Let_def prod.case if_not_P [OF pos] by simp_all
qed

lemma check_voting_empty:
  "votes_for ''APPROVE'' votes + votes_for ''REJECT'' votes = 0 \<Longrightarrow>
     check_voting_algorithm alg t w votes ps = NoVotes"
  using aggregate_votes_counts [of votes] by (auto simp: check_voting_algorithm_def)

lemma majority_tally:
  fixes votes :: vote_table
  defines "a \<equiv> votes_for ''APPROVE'' votes" and "r \<equiv> votes_for ''REJECT'' votes"
  assumes "vr_algorithm vr = ''majority'' \<and> bar = vr_threshold vr \<or>
      vr_algorithm vr = ''supermajority'' \<and> bar = supermajority_threshold (vr_threshold vr)"
    and "bar = f64_round (of_nat p / of_nat d)" "0 < p" "p \<le> d" "0 < a + r" "(a + r) * d < 2 ^ 53"
  shows "voting_tally vr votes participants = (if p * (a + r) \<le> d * a then Approved else NotApproved)"
proof -
  have "voting_tally vr votes participants =
      (if f64_ge (f64_div (f64_of_nat a) (f64_of_nat (a + r))) bar then Approved else NotApproved)"
    using assms(3,7) unfolding a_def r_def
    by (elim disjE conjE) (simp_all add: voting_tally_def check_voting_cases)
  then show ?thesis using f64_ratio_exact [of a "a + r" p d] assms(4-8) by simp
qed

lemma unanimous_tally:
  fixes votes :: vote_table
  assumes "vr_algorithm vr = ''unanimous''"
  shows "voting_tally vr votes participants = Approved \<longleftrightarrow>
    votes_for ''REJECT'' votes = 0 \<and> 0 < votes_for ''APPROVE'' votes \<and>
    (\<forall>p \<in> set participants. \<exists>pv \<in> set (bt_values votes).
       \<exists>v. bt_get pv p = Some v \<and> vo_vote v = ''APPROVE'')"
proof -
  have get: "(case o' of None \<Rightarrow> False | Some v \<Rightarrow> vo_vote v = c) \<longleftrightarrow> (\<exists>v. o' = Some v \<and> vo_vote v = c)"
    for o' :: "Vote option" and c by (cases o') simp_all
  show ?thesis
  proof (cases "votes_for ''APPROVE'' votes + votes_for ''REJECT'' votes = 0")
    case True
    then show ?thesis by (simp add: voting_tally_def check_voting_empty assms)
  next
    case False
    then show ?thesis
      by (auto simp: voting_tally_def check_voting_cases assms unanimous_result_def Let_def get
          list_all_iff list_ex_iff)
  qed
qed

section \<open>What the Decision evaluator decides\<close>

definition standing_veto :: "ObjectionHandlingRules \<Rightarrow> DecisionState \<Rightarrow> bool" where
  "standing_veto oh st \<longleftrightarrow> oh_critical_severity_vetoes oh \<and>
     oh_veto_threshold oh \<le> length (filter (\<lambda>o'. ob_severity o' = ''critical'') (ds_objections st))"

definition evaluated :: "evaluator_ext \<Rightarrow> EvaluationRules \<Rightarrow> DecisionState \<Rightarrow> bool" where
  "evaluated ee er st \<longleftrightarrow> (er_required_before_voting er \<longrightarrow>
     (\<exists>e \<in> set (ds_evaluations st). ee_to_uppercase ee (ev_recommendation e) \<noteq> ''REVIEW'' \<and>
        (f64_gt (er_minimum_confidence er) (Finite 0) \<longrightarrow>
           f64_ge (ev_confidence e) (er_minimum_confidence er))))"

definition participation :: "DecisionPolicyRules \<Rightarrow> DecisionState \<Rightarrow> string list \<Rightarrow> bool" where
  "participation rules st participants \<longleftrightarrow> (cr_require_vote_quorum (dr_commitment rules) \<longrightarrow>
     check_quorum (qr_quorum_type (vr_quorum (dr_voting rules))) (qr_value (vr_quorum (dr_voting rules)))
       (count_unique_voters (ds_votes st)) (length participants))"

text \<open>The table of the evaluator's documentation: which outcome a tally supports.\<close>

fun supports :: "PolicyDefinition \<Rightarrow> CommitmentRules \<Rightarrow> bool \<Rightarrow> bool \<Rightarrow> tally \<Rightarrow> bool" where
  "supports policy cr outcome_positive reject Approved \<longleftrightarrow>
     outcome_positive \<or> cr_allow_decline_over_approval cr \<and> reject"
| "supports policy cr outcome_positive reject NotApproved \<longleftrightarrow> \<not> outcome_positive \<and> reject"
| "supports policy cr outcome_positive reject Empty \<longleftrightarrow>
     outcome_positive \<and> p_schema_version policy < 3 \<and> \<not> cr_require_vote_quorum cr"

definition authorized ::
    "evaluator_ext \<Rightarrow> PolicyDefinition \<Rightarrow> DecisionPolicyRules \<Rightarrow> DecisionState \<Rightarrow> string list \<Rightarrow> bool \<Rightarrow> bool" where
  "authorized ee policy rules st participants outcome_positive \<longleftrightarrow>
     (if standing_veto (dr_objection_handling rules) st then
        \<not> outcome_positive \<and>
        oh_critical_objection_action (dr_objection_handling rules) = FinalizeDecline
      else
        evaluated ee (dr_evaluation rules) st \<and> participation rules st participants \<and>
        (vr_algorithm (dr_voting rules) \<noteq> ''none'' \<longrightarrow>
           supports policy (dr_commitment rules) outcome_positive
             (dissent (dr_voting rules) (ds_votes st))
             (voting_tally (dr_voting rules) (ds_votes st) participants)))"

lemma conclude_allow: "(\<exists>rs. conclude d a m = Allow rs) \<longleftrightarrow> d = []"
  by (simp add: conclude_def)

lemma veto_None: "critical_veto oh st = None \<longleftrightarrow> \<not> standing_veto oh st"
  by (simp add: critical_veto_def standing_veto_def Let_def)

lemma evaluation_gate_Nil: "evaluation_gate ee er st = [] \<longleftrightarrow> evaluated ee er st"
  by (auto simp: evaluation_gate_def evaluated_def qualifying_evaluations_def Let_def
      filter_empty_conv list_ex_iff)

lemma quorum_gate_Nil: "quorum_gate rules st participants = [] \<longleftrightarrow> participation rules st participants"
  by (simp add: quorum_gate_def participation_def Let_def)

lemma veto_gate_Nil:
  "fst (veto_gate oh st outcome_positive) = [] \<longleftrightarrow>
     (standing_veto oh st \<longrightarrow>
        \<not> outcome_positive \<and> oh_critical_objection_action oh = FinalizeDecline)"
  using veto_None [of oh st]
  by (cases "critical_veto oh st"; cases "oh_critical_objection_action oh")
     (auto simp: veto_gate_def)

lemma voting_gate_Nil:
  "fst (voting_gate policy rules st participants outcome_positive) = [] \<longleftrightarrow>
     supports policy (dr_commitment rules) outcome_positive
       (dissent (dr_voting rules) (ds_votes st))
       (voting_tally (dr_voting rules) (ds_votes st) participants)"
  using decisive_rejects_iff [of "dr_voting rules" "ds_votes st"]
  by (cases "check_voting_algorithm (vr_algorithm (dr_voting rules)) (vr_threshold (dr_voting rules))
        (vr_weights (dr_voting rules)) (ds_votes st) participants")
     (auto simp: voting_gate_def voting_tally_def passed_gate_def failed_gate_def no_votes_gate_def
        Let_def)

lemma decide_decision_iff:
  "(\<exists>rs. decide_decision ee policy rules st participants outcome_positive = Allow rs) \<longleftrightarrow>
     authorized ee policy rules st participants outcome_positive"
  unfolding decide_decision_def Let_def split_beta conclude_allow append_is_Nil_conv
    if_distrib [of fst] fst_conv veto_gate_Nil authorized_def objection_authorized_decline_def
  by (simp add: evaluation_gate_Nil quorum_gate_Nil voting_gate_Nil veto_None)

lemma evaluate_decision_iff:
  "(\<exists>rs. evaluate_decision_commitment_outcome ee policy st participants outcome_positive = Allow rs) \<longleftrightarrow>
     (\<exists>rules. p_schema_version policy \<in> {1, 2, 3} \<and>
        parse_decision_rules (ee_parsers ee) (p_rules policy) = Some rules \<and>
        decision_value_domain_error rules = None \<and>
        authorized ee policy rules st participants outcome_positive)"
proof (cases "p_schema_version policy \<in> {1, 2, 3}")
  case False
  then show ?thesis
    by (simp add: evaluate_decision_commitment_outcome_def check_schema_version_def
        SUPPORTED_SCHEMA_VERSIONS_def)
next
  case True
  then have "check_schema_version policy = None"
    by (auto simp: check_schema_version_def SUPPORTED_SCHEMA_VERSIONS_def)
  then show ?thesis using True
    by (cases "parse_decision_rules (ee_parsers ee) (p_rules policy)")
       (auto simp: evaluate_decision_commitment_outcome_def parse_rules_def decide_decision_iff
          split: option.splits)
qed

text \<open>A decline never rests on silence: under a real algorithm it has a decisive reject behind it,
  or a recorded critical objection that the policy lets finalize.\<close>

lemma decline_backed:
  assumes "authorized ee policy rules st participants False" "decision_value_domain_error rules = None"
    and "vr_algorithm (dr_voting rules) \<noteq> ''none''"
  shows "dissent (dr_voting rules) (ds_votes st) \<or>
    oh_critical_objection_action (dr_objection_handling rules) = FinalizeDecline \<and>
    (\<exists>o' \<in> set (ds_objections st). ob_severity o' = ''critical'')"
proof (cases "standing_veto (dr_objection_handling rules) st")
  case True
  have "1 \<le> oh_veto_threshold (dr_objection_handling rules)"
    using assms(2) by (auto simp: decision_value_domain_error_def Let_def split: if_splits)
  then have "filter (\<lambda>o'. ob_severity o' = ''critical'') (ds_objections st) \<noteq> []"
    using True by (auto simp: standing_veto_def)
  then show ?thesis using True assms(1) by (auto simp: authorized_def filter_empty_conv)
next
  case False
  then show ?thesis using assms(1,3)
    by (cases "voting_tally (dr_voting rules) (ds_votes st) participants") (auto simp: authorized_def)
qed

text \<open>A positive commitment is never allowed over a standing veto.\<close>

lemma veto_blocks_approval:
  "authorized ee policy rules st participants True \<Longrightarrow> \<not> standing_veto (dr_objection_handling rules) st"
  by (auto simp: authorized_def split: if_splits)

lemma approval_backed:
  assumes "authorized ee policy rules st participants True" "vr_algorithm (dr_voting rules) \<noteq> ''none''"
  shows "voting_tally (dr_voting rules) (ds_votes st) participants = Approved \<or>
    voting_tally (dr_voting rules) (ds_votes st) participants = Empty \<and> p_schema_version policy < 3"
  using assms
  by (cases "voting_tally (dr_voting rules) (ds_votes st) participants")
     (auto simp: authorized_def split: if_splits)

section \<open>What the other evaluators decide\<close>

lemma with_rules_allow:
  "(\<exists>rs. with_rules parse policy k = Allow rs) \<longleftrightarrow>
     (\<exists>rules rs. p_schema_version policy \<in> {1, 2, 3} \<and> parse (p_rules policy) = Some rules \<and>
        k rules = Allow rs)"
  by (auto simp: with_rules_def check_schema_version_def SUPPORTED_SCHEMA_VERSIONS_def parse_rules_def
      split: option.splits)

lemma evaluate_proposal_iff:
  "(\<exists>rs. evaluate_proposal_commitment_outcome ee policy n outcome_positive = Allow rs) \<longleftrightarrow>
     (\<exists>rules. p_schema_version policy \<in> {1, 2, 3} \<and>
        parse_proposal_rules (ee_parsers ee) (p_rules policy) = Some rules \<and>
        (outcome_positive \<and> 0 < cpr_max_rounds (ppr_counter_proposal rules) \<longrightarrow>
           n \<le> cpr_max_rounds (ppr_counter_proposal rules)))"
  unfolding evaluate_proposal_commitment_outcome_def with_rules_allow
  by (cases "parse_proposal_rules (ee_parsers ee) (p_rules policy)") (auto simp: Let_def conclude_def)

lemma evaluate_task_iff:
  "(\<exists>rs. evaluate_task_commitment_outcome ee policy has_output outcome_positive = Allow rs) \<longleftrightarrow>
     (\<exists>rules. p_schema_version policy \<in> {1, 2, 3} \<and>
        parse_task_rules (ee_parsers ee) (p_rules policy) = Some rules \<and>
        (outcome_positive \<and> tcr_require_output (tpr_completion rules) \<longrightarrow> has_output))"
  unfolding evaluate_task_commitment_outcome_def with_rules_allow
  by (cases "parse_task_rules (ee_parsers ee) (p_rules policy)") (auto simp: Let_def conclude_def)

lemma evaluate_quorum_iff:
  "(\<exists>rs. evaluate_quorum_commitment_outcome ee policy a r n m outcome_positive = Allow rs) \<longleftrightarrow>
     (\<exists>rules. p_schema_version policy \<in> {1, 2, 3} \<and>
        parse_quorum_rules (ee_parsers ee) (p_rules policy) = Some rules \<and>
        (outcome_positive \<longrightarrow> (case effective (qpr_threshold rules) m of
           Inert \<Rightarrow> True | Approvals k \<Rightarrow> k \<le> a | Unsatisfiable \<Rightarrow> False)))"
proof (cases "parse_quorum_rules (ee_parsers ee) (p_rules policy)")
  case None
  then show ?thesis unfolding evaluate_quorum_commitment_outcome_def with_rules_allow by simp
next
  case (Some rules)
  show ?thesis unfolding evaluate_quorum_commitment_outcome_def with_rules_allow
    by (cases "effective (qpr_threshold rules) m")
       (auto simp: Some Let_def split_beta threshold_gate_def conclude_def)
qed

end
