(* ===== verification/Policy_Registry.thy ===== *)
theory Policy_Registry
  imports Rule_Keys Evaluator
begin

text \<open>
  The policy registry, \<^verbatim>\<open>macp-policy/src/registry.rs\<close>, with the built-in policies of \<^verbatim>\<open>defaults.rs\<close>:
  what a definition has to satisfy to be registered, and the registry's operations. The entries
  behind the lock are a map; the change notification channel and the loading of files are not
  modelled. Typed parsing and serialization of rules (\<^verbatim>\<open>serde_json\<close>) are parameters. An error is the
  text the operation returns.
\<close>

type_synonym 'a checked = "message + 'a"

type_synonym RuleExtension = "json \<Rightarrow> unit checked"

record registry_ext =
  rx_parsers :: rule_parsers
  rx_decision_to_value :: "DecisionPolicyRules \<Rightarrow> json option"

record PolicyRegistry =
  pg_entries :: "string \<rightharpoonup> PolicyDefinition"
  pg_rule_extensions :: "(string, RuleExtension) btree"

definition check_then :: "'a checked \<Rightarrow> ('a \<Rightarrow> 'b checked) \<Rightarrow> 'b checked" where
  "check_then r k = (case r of Inl e \<Rightarrow> Inl e | Inr a \<Rightarrow> k a)"

definition refuse_if :: "bool \<Rightarrow> message \<Rightarrow> unit checked" where
  "refuse_if c e = (if c then Inl e else Inr ())"

abbreviation INVALID :: "string \<Rightarrow> fmt_piece" where
  "INVALID m \<equiv> Lit (''INVALID_POLICY_DEFINITION: '' @ m)"

definition join :: "string \<Rightarrow> string list \<Rightarrow> string" where
  "join sep xs = concat (case xs of [] \<Rightarrow> [] | y # ys \<Rightarrow> y # map (\<lambda>z. sep @ z) ys)"

section \<open>Built-in policies\<close>

abbreviation em_dash :: string where "em_dash \<equiv> [CHR 0xE2, CHR 0x80, CHR 0x94]"

definition DEFAULT_POLICY_ID :: string where "DEFAULT_POLICY_ID = ''policy.default''"
definition STD_POLICY_PREFIX :: string where "STD_POLICY_PREFIX = ''policy.std.''"
definition STD_MAJORITY_POLICY_ID :: string where "STD_MAJORITY_POLICY_ID = ''policy.std.majority''"
definition STD_SUPERMAJORITY_POLICY_ID :: string where
  "STD_SUPERMAJORITY_POLICY_ID = ''policy.std.supermajority''"
definition STD_UNANIMOUS_POLICY_ID :: string where "STD_UNANIMOUS_POLICY_ID = ''policy.std.unanimous''"

definition default_policy :: PolicyDefinition where
  "default_policy =
     \<lparr>p_policy_id = ''policy.default'', p_mode = ''*'',
      p_description = ''Default policy '' @ em_dash @
        '' mode built-in rules apply with no additional governance constraints'',
      p_rules = JObject
        [(''commitment'', JObject [(''authority'', JString ''initiator_only''),
            (''designated_roles'', JArray []), (''require_vote_quorum'', JBool False)]),
         (''evaluation'', JObject [(''minimum_confidence'', JNumber (Float (Finite 0))),
            (''required_before_voting'', JBool False)]),
         (''objection_handling'', JObject [(''critical_severity_vetoes'', JBool False),
            (''veto_threshold'', JNumber (PosInt 1))]),
         (''voting'', JObject [(''algorithm'', JString ''none''),
            (''quorum'', JObject [(''type'', JString ''count''), (''value'', JNumber (PosInt 0))])])],
      p_schema_version = 1\<rparr>"

definition std_rules :: "(string \<times> json) list \<Rightarrow> nat \<Rightarrow> json" where
  "std_rules algorithm quorum = JObject
     [(''commitment'', JObject [(''require_vote_quorum'', JBool True)]),
      (''voting'', JObject
         (bt_insert ''quorum'' (JObject [(''type'', JString ''count''), (''value'', JNumber (PosInt quorum))])
            algorithm))]"

definition std_majority_policy :: PolicyDefinition where
  "std_majority_policy =
     \<lparr>p_policy_id = STD_MAJORITY_POLICY_ID, p_mode = ''macp.mode.decision.v1'',
      p_description = ''Simple majority '' @ em_dash @ '' at least half of the decisive votes approve'',
      p_rules = std_rules [(''algorithm'', JString ''majority''),
        (''threshold'', JNumber (Float (Finite (1 / 2))))] 1,
      p_schema_version = 1\<rparr>"

definition std_supermajority_policy :: PolicyDefinition where
  "std_supermajority_policy =
     \<lparr>p_policy_id = STD_SUPERMAJORITY_POLICY_ID, p_mode = ''macp.mode.decision.v1'',
      p_description = ''Two-thirds supermajority with a minimum of two voters'',
      p_rules = std_rules [(''algorithm'', JString ''supermajority''),
        (''threshold'', JNumber (Float (f64_round (6666666666666666 / 10 ^ 16))))] 2,
      p_schema_version = 1\<rparr>"

definition std_unanimous_policy :: PolicyDefinition where
  "std_unanimous_policy =
     \<lparr>p_policy_id = STD_UNANIMOUS_POLICY_ID, p_mode = ''macp.mode.decision.v1'',
      p_description = ''Unanimous '' @ em_dash @
        '' every declared participant approves and no reject is cast'',
      p_rules = std_rules [(''algorithm'', JString ''unanimous'')] 1,
      p_schema_version = 1\<rparr>"

definition std_policies :: "PolicyDefinition list" where
  "std_policies = [std_majority_policy, std_supermajority_policy, std_unanimous_policy]"

definition canonical_std_policy :: "string \<Rightarrow> PolicyDefinition option" where
  "canonical_std_policy policy_id =
     (if policy_id = STD_MAJORITY_POLICY_ID then Some std_majority_policy
      else if policy_id = STD_SUPERMAJORITY_POLICY_ID then Some std_supermajority_policy
      else if policy_id = STD_UNANIMOUS_POLICY_ID then Some std_unanimous_policy
      else None)"

section \<open>Reading raw rules\<close>

definition DECISION_VOTING_ALGORITHMS :: "string list" where
  "DECISION_VOTING_ALGORITHMS =
     [''none'', ''majority'', ''supermajority'', ''unanimous'', ''weighted'', ''plurality'']"

definition DECISION_VOTING_QUORUM_TYPES :: "string list" where
  "DECISION_VOTING_QUORUM_TYPES = [''count'', ''percentage'']"

definition QUORUM_THRESHOLD_TYPES :: "string list" where
  "QUORUM_THRESHOLD_TYPES = [''n_of_m'', ''percentage'', ''count'']"

definition COMMITMENT_AUTHORITIES :: "string list" where
  "COMMITMENT_AUTHORITIES = [''initiator_only'', ''any_participant'', ''designated_role'']"

definition PROPOSAL_ACCEPTANCE_CRITERIA :: "string list" where
  "PROPOSAL_ACCEPTANCE_CRITERIA = [''all_parties'', ''counterparty'', ''initiator'']"

definition QUORUM_ABSTENTION_INTERPRETATIONS :: "string list" where
  "QUORUM_ABSTENTION_INTERPRETATIONS = [''neutral'', ''implicit_reject'', ''ignored'']"

definition UNIT_ENUM_POSITIONS :: "(string \<times> string) list" where
  "UNIT_ENUM_POSITIONS =
     [(''macp.mode.decision.v1'', ''voting.algorithm''),
      (''macp.mode.decision.v1'', ''voting.quorum.type''),
      (''macp.mode.decision.v1'', ''objection_handling.critical_objection_action''),
      (''macp.mode.decision.v1'', ''commitment.authority''),
      (''macp.mode.proposal.v1'', ''acceptance.criterion''),
      (''macp.mode.proposal.v1'', ''commitment.authority''),
      (''macp.mode.task.v1'', ''commitment.authority''),
      (''macp.mode.handoff.v1'', ''commitment.authority''),
      (''macp.mode.quorum.v1'', ''threshold.type''),
      (''macp.mode.quorum.v1'', ''abstention.interpretation''),
      (''macp.mode.quorum.v1'', ''commitment.authority'')]"

fun json_kind :: "json \<Rightarrow> string" where
  "json_kind JNull = ''null''"
| "json_kind (JBool _) = ''a boolean''"
| "json_kind (JNumber _) = ''a number''"
| "json_kind (JString _) = ''a string''"
| "json_kind (JArray _) = ''an array''"
| "json_kind (JObject _) = ''an object''"

definition not_an_object :: "string \<Rightarrow> json \<Rightarrow> message" where
  "not_an_object path v =
     [INVALID ''rules.'', FmtStr path, Lit '' must be a JSON object, not '', Lit (json_kind v)]"

fun present_at_from :: "json \<Rightarrow> string list \<Rightarrow> string list \<Rightarrow> json option checked" where
  "present_at_from node seen [] = Inr (Some node)"
| "present_at_from node seen (segment # rest) =
     (case node of
        JObject entries \<Rightarrow>
          (case map_of entries segment of
             Some child \<Rightarrow> present_at_from child (seen @ [segment]) rest
           | None \<Rightarrow> Inr None)
      | _ \<Rightarrow> Inl (not_an_object (join ''.'' seen) node))"

definition present_at :: "json \<Rightarrow> string list \<Rightarrow> json option checked" where
  "present_at rules path = present_at_from rules [] path"

definition present_object :: "json \<Rightarrow> string list \<Rightarrow> (string \<times> json) list option checked" where
  "present_object rules path =
     check_then (present_at rules path) (\<lambda>found.
       case found of
         None \<Rightarrow> Inr None
       | Some (JObject entries) \<Rightarrow> Inr (Some entries)
       | Some v \<Rightarrow> Inl (not_an_object (join ''.'' path) v))"

fun number_as_f64 :: "json_number \<Rightarrow> f64" where
  "number_as_f64 (PosInt n) = f64_of_nat n"
| "number_as_f64 (NegInt i) = f64_round (of_int i)"
| "number_as_f64 (Float f) = f"

definition present_number :: "json \<Rightarrow> string list \<Rightarrow> f64 option checked" where
  "present_number rules path =
     check_then (present_at rules path) (\<lambda>found.
       case found of
         None \<Rightarrow> Inr None
       | Some (JNumber n) \<Rightarrow> Inr (Some (number_as_f64 n))
       | Some v \<Rightarrow> Inl [INVALID ''rules.'', FmtStr (join ''.'' path), Lit '' must be a number, not '',
                        Lit (json_kind v)])"

section \<open>Admission\<close>

abbreviation section_sign :: string where "section_sign \<equiv> [CHR 0xC2, CHR 0xA7]"

fun violation_text :: "KeyViolation \<Rightarrow> message" where
  "violation_text (Undefined path) =
     [Lit ''rules.'', FmtStr path,
      Lit ('' is not a defined key (RFC-MACP-0012 '' @ section_sign @
           ''4: rule objects are closed; annotation keys must match ^[_$])'')]"
| "violation_text (NestedVendorExtension path) =
     [Lit ''rules.'', FmtStr path,
      Lit '': vendor-extension keys are legal only at the top level of rules'']"
| "violation_text (VendorExtensionNotObject key) =
     [Lit ''rules.'', FmtStr key, Lit '': a vendor-extension value must be a JSON object'']"

definition rule_extension_names :: "PolicyRegistry \<Rightarrow> string list" where
  "rule_extension_names reg = map fst (pg_rule_extensions reg)"

fun json_index :: "json \<Rightarrow> string \<Rightarrow> json" where
  "json_index (JObject kvs) key = obj_index kvs key"
| "json_index _ key = JNull"

fun validate_extensions :: "PolicyRegistry \<Rightarrow> json \<Rightarrow> string list \<Rightarrow> unit checked" where
  "validate_extensions reg rules [] = Inr ()"
| "validate_extensions reg rules (key # keys) =
     (case bt_get (pg_rule_extensions reg) key of
        None \<Rightarrow>
          Inl (INVALID [] # violation_text (Undefined key) @
               [Lit (''; this runtime implements no vendor extension '' @ quote), FmtStr key,
                Lit (quote @ '' (implemented: ''), FmtDebugStrs (rule_extension_names reg), Lit '')''])
      | Some extension \<Rightarrow>
          (case extension (json_index rules key) of
             Inl reason \<Rightarrow>
               Inl ([INVALID ''rules.'', FmtStr key, Lit '' rejected by its extension: ''] @ reason)
           | Inr _ \<Rightarrow> validate_extensions reg rules keys))"

definition validate_rule_keys :: "PolicyRegistry \<Rightarrow> string \<Rightarrow> json \<Rightarrow> unit checked" where
  "validate_rule_keys reg mode rules =
     (case rule_shape_for_mode mode of
        None \<Rightarrow> Inr ()
      | Some shapes \<Rightarrow>
          (case closed_key_violation rules shapes of
             Some violation \<Rightarrow> Inl (INVALID [] # violation_text violation)
           | None \<Rightarrow> validate_extensions reg rules (vendor_extension_keys rules)))"

fun is_string :: "json \<Rightarrow> bool" where
  "is_string (JString _) = True"
| "is_string _ = False"

definition object_position :: "RuleShape list \<Rightarrow> bool" where
  "object_position shapes \<longleftrightarrow> shapes \<noteq> [] \<and> Leaf \<notin> set shapes"

definition shown_path :: "string \<Rightarrow> string" where
  "shown_path path = (if path = [] then ''rules'' else ''rules.'' @ path)"

function (sequential) walk_rule_shapes ::
    "json \<Rightarrow> RuleShape list \<Rightarrow> string \<Rightarrow> string list \<Rightarrow> message option" where
  "walk_rule_shapes (JObject kvs) shapes path enums =
     (if \<not> object_position shapes then
        (if path \<in> set enums then
           Some [FmtStr (shown_path path),
                 Lit ('' must be a string (a value of the schema'' @ quote @ ''s enum), not ''),
                 Lit (json_kind (JObject kvs))]
         else None)
      else
        find_map (\<lambda>key.
          if children_of shapes key = [] then None
          else walk_rule_shapes (obj_index kvs key) (children_of shapes key) (child_path path key) enums)
          (sort (map fst kvs)))"
| "walk_rule_shapes value shapes path enums =
     (if \<not> object_position shapes then
        (if path \<in> set enums \<and> \<not> is_string value then
           Some [FmtStr (shown_path path),
                 Lit ('' must be a string (a value of the schema'' @ quote @ ''s enum), not ''),
                 Lit (json_kind value)]
         else None)
      else Some [FmtStr (shown_path path), Lit '' must be a JSON object, not '', Lit (json_kind value)])"
  by pat_completeness auto

termination
  by (relation "measure (\<lambda>(v, _). size v)") (auto intro: obj_index_size)

definition rule_shape_violation :: "string \<Rightarrow> json \<Rightarrow> message option" where
  "rule_shape_violation mode rules =
     (case rule_shape_for_mode mode of
        None \<Rightarrow> None
      | Some shapes \<Rightarrow>
          walk_rule_shapes rules shapes []
            (map snd (filter (\<lambda>(m, _). mode = ''*'' \<or> m = mode) UNIT_ENUM_POSITIONS)))"

definition vendor_extensions_of :: "json \<Rightarrow> (string \<times> json) list" where
  "vendor_extensions_of rules = map (\<lambda>k. (k, json_index rules k)) (vendor_extension_keys rules)"

definition resolves_to_same_rules :: "registry_ext \<Rightarrow> PolicyDefinition \<Rightarrow> PolicyDefinition \<Rightarrow> bool" where
  "resolves_to_same_rules rx candidate canonical =
     (if p_mode candidate \<noteq> p_mode canonical \<or> p_schema_version candidate \<noteq> p_schema_version canonical
      then False
      else if vendor_extensions_of (p_rules candidate) \<noteq> vendor_extensions_of (p_rules canonical)
      then False
      else
        (let resolve = (\<lambda>rules. Option.bind (parse_decision_rules (rx_parsers rx) rules)
                          (rx_decision_to_value rx))
         in case (resolve (p_rules candidate), resolve (p_rules canonical)) of
              (Some a, Some b) \<Rightarrow> a = b
            | _ \<Rightarrow> False))"

definition validate_reserved_namespace :: "registry_ext \<Rightarrow> PolicyDefinition \<Rightarrow> unit checked" where
  "validate_reserved_namespace rx definition' =
     (if \<not> starts_with (p_policy_id definition') STD_POLICY_PREFIX then Inr ()
      else
        (case canonical_std_policy (p_policy_id definition') of
           None \<Rightarrow>
             Inl [INVALID (''policy_id '' @ quote), FmtStr (p_policy_id definition'),
                  Lit (quote @ '' is in the reserved '' @ quote), Lit STD_POLICY_PREFIX,
                  Lit (quote @ '' namespace but is not a governance profile assigned by RFC-MACP-0012 ''
                       @ section_sign @ ''5.2'')]
         | Some canonical \<Rightarrow>
             refuse_if (\<not> resolves_to_same_rules rx definition' canonical)
               [INVALID (''policy_id '' @ quote), FmtStr (p_policy_id definition'),
                Lit (quote @ '' is reserved by RFC-MACP-0012 '' @ section_sign @
                     ''2.2; a registration under it must be the canonical '' @ section_sign @
                     ''5.2 definition verbatim'')]))"

definition STANDARDS_TRACK_POLICY_MODES :: "string list" where
  "STANDARDS_TRACK_POLICY_MODES =
     [''macp.mode.decision.v1'', ''macp.mode.proposal.v1'', ''macp.mode.task.v1'',
      ''macp.mode.handoff.v1'', ''macp.mode.quorum.v1'']"

definition validate_rules_for_named_mode :: "registry_ext \<Rightarrow> string \<Rightarrow> json \<Rightarrow> unit checked" where
  "validate_rules_for_named_mode rx mode rules =
     (let rp = rx_parsers rx;
          parsed =
            (if mode = ''macp.mode.decision.v1'' then parse_decision_rules rp rules \<noteq> None
             else if mode = ''macp.mode.proposal.v1'' then parse_proposal_rules rp rules \<noteq> None
             else if mode = ''macp.mode.task.v1'' then parse_task_rules rp rules \<noteq> None
             else if mode = ''macp.mode.handoff.v1'' then parse_handoff_rules rp rules \<noteq> None
             else if mode = ''macp.mode.quorum.v1'' then parse_quorum_rules rp rules \<noteq> None
             else True)
      in refuse_if (\<not> parsed)
           [INVALID (''rules do not match schema for mode '' @ quote), FmtStr mode,
            Lit (quote @ '': ''), FmtSerdeError])"

fun try_for_each :: "('a \<Rightarrow> unit checked) \<Rightarrow> 'a list \<Rightarrow> unit checked" where
  "try_for_each f [] = Inr ()"
| "try_for_each f (x # xs) = check_then (f x) (\<lambda>_. try_for_each f xs)"

definition validate_rules_for_mode :: "registry_ext \<Rightarrow> string \<Rightarrow> json \<Rightarrow> unit checked" where
  "validate_rules_for_mode rx mode rules =
     (if mode = ''*''
      then try_for_each (\<lambda>m. validate_rules_for_named_mode rx m rules) STANDARDS_TRACK_POLICY_MODES
      else validate_rules_for_named_mode rx mode rules)"

definition non_positive_weights :: "VotingRules \<Rightarrow> string set" where
  "non_positive_weights voting =
     {k \<in> dom (vr_weights voting). case vr_weights voting k of
        None \<Rightarrow> False | Some w \<Rightarrow> f64_le w (Finite 0) \<or> w = NaN}"

definition validate_decision_voting :: "VotingRules \<Rightarrow> unit checked" where
  "validate_decision_voting voting =
     check_then (refuse_if (vr_algorithm voting \<notin> set DECISION_VOTING_ALGORITHMS)
       [INVALID (''voting.algorithm '' @ quote), FmtStr (vr_algorithm voting),
        Lit (quote @ '' is not one of: '' @ join '', '' DECISION_VOTING_ALGORITHMS)]) (\<lambda>_.
     check_then (refuse_if (\<not> (f64_gt (vr_threshold voting) (Finite 0) \<and>
                                f64_le (vr_threshold voting) (Finite 1)))
       [INVALID ''voting.threshold '', FmtF64 (vr_threshold voting),
        Lit '' is out of range: must be greater than 0.0 and at most 1.0'']) (\<lambda>_.
     check_then (refuse_if (non_positive_weights voting \<noteq> {})
       [INVALID ''voting.weights has non-positive values for: '',
        Lit (join '', '' (map (\<lambda>k. quote @ k @ quote)
               (sorted_list_of_set (non_positive_weights voting)))),
        Lit ('' '' @ em_dash @ '' every weight must be > 0'')]) (\<lambda>_.
     check_then (refuse_if (qr_quorum_type (vr_quorum voting) \<notin> set DECISION_VOTING_QUORUM_TYPES)
       [INVALID (''voting.quorum.type '' @ quote), FmtStr (qr_quorum_type (vr_quorum voting)),
        Lit (quote @ '' is not one of: '' @ join '', '' DECISION_VOTING_QUORUM_TYPES)]) (\<lambda>_.
     refuse_if (f64_lt (qr_value (vr_quorum voting)) (Finite 0) \<or> qr_value (vr_quorum voting) = NaN)
       [INVALID ''voting.quorum.value '', FmtF64 (qr_value (vr_quorum voting)),
        Lit '' is out of range: must be >= 0'']))))"

definition validate_quorum_threshold :: "QuorumThreshold \<Rightarrow> unit checked" where
  "validate_quorum_threshold threshold =
     check_then (refuse_if (qt_threshold_type threshold \<notin> set QUORUM_THRESHOLD_TYPES)
       [INVALID (''threshold.type '' @ quote), FmtStr (qt_threshold_type threshold),
        Lit (quote @ '' is not one of: '' @ join '', '' QUORUM_THRESHOLD_TYPES)]) (\<lambda>_.
     check_then (refuse_if (\<not> f64_fract_is_zero (qt_value threshold))
       [INVALID ''threshold.value '', FmtF64 (qt_value threshold), Lit '' must be an integer'']) (\<lambda>_.
     refuse_if (qt_threshold_type threshold = ''percentage'' \<and> f64_gt (qt_value threshold) (Finite 100))
       [INVALID ''threshold.value '', FmtF64 (qt_value threshold),
        Lit ('' is out of range: must be <= 100 when threshold.type is '' @ quote @ ''percentage'' @
             quote)]))"

text \<open>The blocks of \<^verbatim>\<open>validate_conditional_constraints\<close>, in order.\<close>

definition decision_constraints :: "registry_ext \<Rightarrow> json \<Rightarrow> unit checked" where
  "decision_constraints rx rules =
     (case parse_decision_rules (rx_parsers rx) rules of
        None \<Rightarrow> Inr ()
      | Some decision \<Rightarrow>
          (let voting = dr_voting decision in
           check_then (validate_decision_voting voting) (\<lambda>_.
           check_then (case decision_value_domain_error decision of
               Some reason \<Rightarrow> Inl (INVALID [] # reason) | None \<Rightarrow> Inr ()) (\<lambda>_.
           check_then (refuse_if (vr_algorithm voting = ''weighted'' \<and> vr_weights voting = Map.empty)
             [INVALID (''voting.algorithm '' @ quote @ ''weighted'' @ quote @
                       '' requires non-empty voting.weights'')]) (\<lambda>_.
           check_then (present_object rules [''voting'', ''weights'']) (\<lambda>weights.
           check_then (refuse_if (weights = Some [])
             [INVALID ''voting.weights must be non-empty when supplied'']) (\<lambda>_.
           check_then (refuse_if (vr_algorithm voting = ''supermajority'' \<and>
                                  f64_le (vr_threshold voting) (Finite (1 / 2)))
             [INVALID (''voting.algorithm '' @ quote @ ''supermajority'' @ quote @
                       '' requires voting.threshold > 0.5'')]) (\<lambda>_.
           refuse_if (vr_algorithm voting = ''majority'' \<and> f64_lt (vr_threshold voting) (Finite (1 / 2)))
             [INVALID (''voting.algorithm '' @ quote @ ''majority'' @ quote @
                       '' requires voting.threshold >= 0.5'')]))))))))"

definition quorum_constraints :: "registry_ext \<Rightarrow> json \<Rightarrow> unit checked" where
  "quorum_constraints rx rules =
     (case parse_quorum_rules (rx_parsers rx) rules of
        None \<Rightarrow> Inr ()
      | Some quorum \<Rightarrow>
          check_then (validate_quorum_threshold (qpr_threshold quorum)) (\<lambda>_.
          check_then (present_number rules [''threshold'', ''value'']) (\<lambda>value.
          refuse_if (case value of None \<Rightarrow> False | Some v \<Rightarrow> \<not> f64_gt v (Finite 0))
            [INVALID ''threshold.value '', FmtF64 (qt_value (qpr_threshold quorum)),
             Lit ('' is out of range: must be greater than 0 (RFC-MACP-0011 '' @ section_sign @
                  ''5 rule 2)'')])))"

definition proposal_constraints :: "registry_ext \<Rightarrow> json \<Rightarrow> unit checked" where
  "proposal_constraints rx rules =
     (case parse_proposal_rules (rx_parsers rx) rules of
        None \<Rightarrow> Inr ()
      | Some proposal \<Rightarrow>
          refuse_if (par_criterion (ppr_acceptance proposal) \<notin> set PROPOSAL_ACCEPTANCE_CRITERIA)
            [INVALID (''acceptance.criterion '' @ quote), FmtStr (par_criterion (ppr_acceptance proposal)),
             Lit (quote @ '' is not one of: '' @ join '', '' PROPOSAL_ACCEPTANCE_CRITERIA)])"

definition abstention_constraints :: "registry_ext \<Rightarrow> json \<Rightarrow> unit checked" where
  "abstention_constraints rx rules =
     (case parse_quorum_rules (rx_parsers rx) rules of
        None \<Rightarrow> Inr ()
      | Some quorum \<Rightarrow>
          refuse_if (ab_interpretation (qpr_abstention quorum) \<notin> set QUORUM_ABSTENTION_INTERPRETATIONS)
            [INVALID (''abstention.interpretation '' @ quote),
             FmtStr (ab_interpretation (qpr_abstention quorum)),
             Lit (quote @ '' is not one of: '' @ join '', '' QUORUM_ABSTENTION_INTERPRETATIONS)])"

definition commitment_constraints :: "registry_ext \<Rightarrow> json \<Rightarrow> unit checked" where
  "commitment_constraints rx rules =
     (case Option.bind (json_get rules ''commitment'') (parse_commitment_rules (rx_parsers rx)) of
        None \<Rightarrow> Inr ()
      | Some cr \<Rightarrow>
          check_then (refuse_if (cr_authority cr \<notin> set COMMITMENT_AUTHORITIES)
            [INVALID (''commitment.authority '' @ quote), FmtStr (cr_authority cr),
             Lit (quote @ '' is not one of: '' @ join '', '' COMMITMENT_AUTHORITIES)]) (\<lambda>_.
          refuse_if (cr_authority cr = ''designated_role'' \<and> cr_designated_roles cr = [])
            [INVALID (''commitment.authority '' @ quote @ ''designated_role'' @ quote @
                      '' requires non-empty commitment.designated_roles'')]))"

definition applies_to :: "string \<Rightarrow> string \<Rightarrow> bool" where
  "applies_to standard mode \<longleftrightarrow> mode = standard \<or> mode = ''*''"

definition validate_conditional_constraints :: "registry_ext \<Rightarrow> string \<Rightarrow> json \<Rightarrow> unit checked" where
  "validate_conditional_constraints rx mode rules =
     check_then (if applies_to ''macp.mode.decision.v1'' mode then decision_constraints rx rules
                 else Inr ()) (\<lambda>_.
     check_then (if applies_to ''macp.mode.quorum.v1'' mode then quorum_constraints rx rules
                 else Inr ()) (\<lambda>_.
     check_then (if applies_to ''macp.mode.proposal.v1'' mode then proposal_constraints rx rules
                 else Inr ()) (\<lambda>_.
     check_then (if applies_to ''macp.mode.quorum.v1'' mode then abstention_constraints rx rules
                 else Inr ()) (\<lambda>_.
     commitment_constraints rx rules))))"

definition validate_content ::
    "registry_ext \<Rightarrow> PolicyRegistry \<Rightarrow> PolicyDefinition \<Rightarrow> bool \<Rightarrow> unit checked" where
  "validate_content rx reg definition' reserved_namespace =
     check_then (refuse_if (p_schema_version definition' = 0)
       [INVALID ''schema_version must be > 0'']) (\<lambda>_.
     check_then (refuse_if (p_schema_version definition' \<notin> set SUPPORTED_SCHEMA_VERSIONS)
       [INVALID ''schema_version '', FmtNat (p_schema_version definition'),
        Lit '' is not supported (supported: '', FmtDebug SUPPORTED_SCHEMA_VERSIONS, Lit '')'']) (\<lambda>_.
     check_then (refuse_if (\<not> is_object (p_rules definition'))
       [INVALID ''rules must be a JSON object'']) (\<lambda>_.
     check_then (validate_rule_keys reg (p_mode definition') (p_rules definition')) (\<lambda>_.
     check_then (case rule_shape_violation (p_mode definition') (p_rules definition') of
         Some violation \<Rightarrow> Inl (INVALID [] # violation) | None \<Rightarrow> Inr ()) (\<lambda>_.
     check_then (if reserved_namespace then validate_reserved_namespace rx definition' else Inr ()) (\<lambda>_.
     check_then (validate_rules_for_mode rx (p_mode definition') (p_rules definition')) (\<lambda>_.
     validate_conditional_constraints rx (p_mode definition') (p_rules definition'))))))))"

definition validate_definition ::
    "registry_ext \<Rightarrow> PolicyRegistry \<Rightarrow> PolicyDefinition \<Rightarrow> unit checked" where
  "validate_definition rx reg definition' =
     check_then (refuse_if (blank (p_policy_id definition'))
       [INVALID ''policy_id must not be empty'']) (\<lambda>_.
     check_then (refuse_if (p_policy_id definition' = DEFAULT_POLICY_ID)
       [INVALID (''cannot register with reserved policy_id '' @ quote), Lit DEFAULT_POLICY_ID,
        Lit quote]) (\<lambda>_.
     validate_content rx reg definition' True))"

definition validate_candidate :: "registry_ext \<Rightarrow> PolicyRegistry \<Rightarrow> PolicyDefinition \<Rightarrow> unit checked" where
  "validate_candidate rx reg definition' = validate_content rx reg definition' False"

section \<open>The registry\<close>

definition PolicyRegistry_new :: PolicyRegistry where
  "PolicyRegistry_new =
     \<lparr>pg_entries = fold (\<lambda>p m. m(p_policy_id p \<mapsto> p)) std_policies
        [p_policy_id default_policy \<mapsto> default_policy],
      pg_rule_extensions = bt_empty\<rparr>"

fun with_rule_extensions ::
    "PolicyRegistry \<Rightarrow> (string \<times> RuleExtension) list \<Rightarrow> PolicyRegistry checked" where
  "with_rule_extensions reg [] = Inr reg"
| "with_rule_extensions reg ((key, extension) # rest) =
     (if \<not> is_vendor_extension_key key then
        Inl [Lit (''rule extension key '' @ quote), FmtStr key,
             Lit (quote @ '' does not match ^x-[a-z0-9]+('' @ [CHR 0x5C] @ ''.[a-z0-9-]+)+$'')]
      else if bt_contains (pg_rule_extensions reg) key then
        Inl [Lit (''rule extension key '' @ quote), FmtStr key, Lit (quote @ '' supplied twice'')]
      else with_rule_extensions
        (reg\<lparr>pg_rule_extensions := bt_insert key extension (pg_rule_extensions reg)\<rparr>) rest)"

definition register ::
    "registry_ext \<Rightarrow> PolicyRegistry \<Rightarrow> PolicyDefinition \<Rightarrow> unit checked \<times> PolicyRegistry" where
  "register rx reg definition' =
     (case validate_definition rx reg definition' of
        Inl e \<Rightarrow> (Inl e, reg)
      | Inr _ \<Rightarrow>
          if pg_entries reg (p_policy_id definition') \<noteq> None then
            (Inl [Lit (''policy '' @ quote), FmtStr (p_policy_id definition'),
                  Lit (quote @ '' is already registered'')], reg)
          else (Inr (), reg\<lparr>pg_entries := (pg_entries reg)(p_policy_id definition' \<mapsto> definition')\<rparr>))"

definition unregister :: "PolicyRegistry \<Rightarrow> string \<Rightarrow> unit checked \<times> PolicyRegistry" where
  "unregister reg policy_id =
     (if policy_id = DEFAULT_POLICY_ID then
        (Inl [Lit ''cannot unregister the built-in default policy''], reg)
      else if starts_with policy_id STD_POLICY_PREFIX \<and> pg_entries reg policy_id \<noteq> None then
        (Inl [Lit (''cannot unregister the built-in reserved policy '' @ quote), FmtStr policy_id,
              Lit (quote @ '' (RFC-MACP-0012 '' @ section_sign @ ''2.2)'')], reg)
      else if pg_entries reg policy_id = None then
        (Inl [Lit (''policy '' @ quote), FmtStr policy_id, Lit (quote @ '' not found'')], reg)
      else (Inr (), reg\<lparr>pg_entries := (pg_entries reg)(policy_id := None)\<rparr>))"

text \<open>\<^verbatim>\<open>PolicyError::UnknownPolicy\<close> carries the identifier that was looked up.\<close>

definition resolve :: "PolicyRegistry \<Rightarrow> string \<Rightarrow> string + PolicyDefinition" where
  "resolve reg policy_version =
     (let policy_id = (if policy_version = [] then DEFAULT_POLICY_ID else policy_version)
      in case pg_entries reg policy_id of Some p \<Rightarrow> Inr p | None \<Rightarrow> Inl policy_id)"

definition list_policies :: "PolicyRegistry \<Rightarrow> string option \<Rightarrow> PolicyDefinition list" where
  "list_policies reg mode_filter =
     sort_key p_policy_id
       (filter (\<lambda>p. case mode_filter of Some mode \<Rightarrow> p_mode p = mode \<or> p_mode p = ''*'' | None \<Rightarrow> True)
          (map (the \<circ> pg_entries reg) (sorted_list_of_set (dom (pg_entries reg)))))"

section \<open>What admission guarantees\<close>

named_theorems checked_simps

lemma check_then_Inr [checked_simps]:
  "check_then r k = Inr b \<longleftrightarrow> (\<exists>a. r = Inr a \<and> k a = Inr b)"
  by (cases r) (auto simp: check_then_def)

lemma refuse_if_Inr [checked_simps]: "refuse_if c e = Inr u \<longleftrightarrow> \<not> c"
  by (simp add: refuse_if_def)

lemma try_for_each_Inr [checked_simps]: "try_for_each f xs = Inr u \<longleftrightarrow> (\<forall>x \<in> set xs. f x = Inr ())"
  by (induction xs) (auto simp: checked_simps)

lemma validate_definition_frame:
  "validate_definition rx (reg\<lparr>pg_entries := m\<rparr>) p = validate_definition rx reg p"
proof -
  have "validate_extensions (reg\<lparr>pg_entries := m\<rparr>) rules keys = validate_extensions reg rules keys"
    for rules keys
    by (induction keys) (auto simp: rule_extension_names_def split: option.splits sum.splits)
  then have "validate_rule_keys (reg\<lparr>pg_entries := m\<rparr>) mode rules = validate_rule_keys reg mode rules"
    for mode rules
    by (simp only: validate_rule_keys_def)
  then show ?thesis by (simp only: validate_definition_def validate_content_def)
qed

lemma validated_schema:
  assumes "validate_content rx reg p b = Inr ()"
  shows "p_schema_version p \<in> {1, 2, 3}" "is_object (p_rules p)"
    "validate_rules_for_mode rx (p_mode p) (p_rules p) = Inr ()"
    "validate_conditional_constraints rx (p_mode p) (p_rules p) = Inr ()"
  using assms by (auto simp: validate_content_def checked_simps SUPPORTED_SCHEMA_VERSIONS_def)

lemma validated_parses:
  assumes "validate_rules_for_mode rx mode rules = Inr ()"
  shows "applies_to ''macp.mode.decision.v1'' mode \<Longrightarrow> parse_decision_rules (rx_parsers rx) rules \<noteq> None"
    and "applies_to ''macp.mode.proposal.v1'' mode \<Longrightarrow> parse_proposal_rules (rx_parsers rx) rules \<noteq> None"
    and "applies_to ''macp.mode.task.v1'' mode \<Longrightarrow> parse_task_rules (rx_parsers rx) rules \<noteq> None"
    and "applies_to ''macp.mode.handoff.v1'' mode \<Longrightarrow> parse_handoff_rules (rx_parsers rx) rules \<noteq> None"
    and "applies_to ''macp.mode.quorum.v1'' mode \<Longrightarrow> parse_quorum_rules (rx_parsers rx) rules \<noteq> None"
proof -
  have named: "validate_rules_for_named_mode rx m rules = Inr ()"
    if "applies_to m mode" "m \<in> set STANDARDS_TRACK_POLICY_MODES" for m
    using assms that
    by (cases "mode = ''*''") (auto simp: validate_rules_for_mode_def checked_simps applies_to_def)
  have std: "set STANDARDS_TRACK_POLICY_MODES = {''macp.mode.decision.v1'', ''macp.mode.proposal.v1'',
      ''macp.mode.task.v1'', ''macp.mode.handoff.v1'', ''macp.mode.quorum.v1''}"
    by (simp add: STANDARDS_TRACK_POLICY_MODES_def)
  note parse = validate_rules_for_named_mode_def Let_def refuse_if_Inr
  show "applies_to ''macp.mode.decision.v1'' mode \<Longrightarrow> parse_decision_rules (rx_parsers rx) rules \<noteq> None"
    using named [of "''macp.mode.decision.v1''"] by (simp add: parse std)
  show "applies_to ''macp.mode.proposal.v1'' mode \<Longrightarrow> parse_proposal_rules (rx_parsers rx) rules \<noteq> None"
    using named [of "''macp.mode.proposal.v1''"] by (simp add: parse std)
  show "applies_to ''macp.mode.task.v1'' mode \<Longrightarrow> parse_task_rules (rx_parsers rx) rules \<noteq> None"
    using named [of "''macp.mode.task.v1''"] by (simp add: parse std)
  show "applies_to ''macp.mode.handoff.v1'' mode \<Longrightarrow> parse_handoff_rules (rx_parsers rx) rules \<noteq> None"
    using named [of "''macp.mode.handoff.v1''"] by (simp add: parse std)
  show "applies_to ''macp.mode.quorum.v1'' mode \<Longrightarrow> parse_quorum_rules (rx_parsers rx) rules \<noteq> None"
    using named [of "''macp.mode.quorum.v1''"] by (simp add: parse std)
qed

text \<open>The domains a Decision policy's parsed rules lie in once admitted.\<close>

definition sound_voting :: "VotingRules \<Rightarrow> bool" where
  "sound_voting vr \<longleftrightarrow> vr_algorithm vr \<in> set DECISION_VOTING_ALGORITHMS \<and>
     f64_gt (vr_threshold vr) (Finite 0) \<and> f64_le (vr_threshold vr) (Finite 1) \<and>
     (\<forall>k w. vr_weights vr k = Some w \<longrightarrow> f64_gt w (Finite 0)) \<and>
     (vr_algorithm vr = ''supermajority'' \<longrightarrow> f64_gt (vr_threshold vr) (Finite (1 / 2))) \<and>
     (vr_algorithm vr = ''majority'' \<longrightarrow> f64_ge (vr_threshold vr) (Finite (1 / 2)))"

lemma f64_not_le: "x \<noteq> NaN \<Longrightarrow> y \<noteq> NaN \<Longrightarrow> \<not> f64_le x y \<Longrightarrow> f64_lt y x"
  using f64_not_nan_total [of x y] by (auto simp: f64_le_def)

lemma f64_not_lt: "x \<noteq> NaN \<Longrightarrow> y \<noteq> NaN \<Longrightarrow> \<not> f64_lt x y \<Longrightarrow> f64_le y x"
  using f64_not_nan_total [of x y] by (cases x; cases y) (auto simp: f64_le_def)

lemma validated_voting:
  assumes "decision_constraints rx rules = Inr ()" "parse_decision_rules (rx_parsers rx) rules = Some d"
  shows "sound_voting (dr_voting d) \<and> decision_value_domain_error d = None"
proof -
  let ?v = "dr_voting d"
  have v: "validate_decision_voting ?v = Inr ()" and dom: "decision_value_domain_error d = None"
    and sup: "vr_algorithm ?v = ''supermajority'' \<Longrightarrow> \<not> f64_le (vr_threshold ?v) (Finite (1 / 2))"
    and maj: "vr_algorithm ?v = ''majority'' \<Longrightarrow> \<not> f64_lt (vr_threshold ?v) (Finite (1 / 2))"
    using assms by (auto simp: decision_constraints_def checked_simps Let_def split: option.splits)
  have t: "f64_gt (vr_threshold ?v) (Finite 0)" "f64_le (vr_threshold ?v) (Finite 1)"
    and w: "non_positive_weights ?v = {}" and a: "vr_algorithm ?v \<in> set DECISION_VOTING_ALGORITHMS"
    using v by (auto simp: validate_decision_voting_def checked_simps)
  have "vr_threshold ?v \<noteq> NaN" using t(1) by auto
  moreover have "f64_gt x (Finite 0)" if "vr_weights ?v k = Some x" for k x
  proof -
    have "k \<notin> non_positive_weights ?v" using w by simp
    then have "\<not> (f64_le x (Finite 0) \<or> x = NaN)" by (simp add: non_positive_weights_def that dom_def)
    then show ?thesis using f64_not_le [of x "Finite 0"] by simp
  qed
  ultimately show ?thesis
    using t a dom sup maj f64_not_le [of "vr_threshold ?v" "Finite (1 / 2)"]
      f64_not_lt [of "vr_threshold ?v" "Finite (1 / 2)"]
    by (auto simp: sound_voting_def)
qed

lemma admitted_decision:
  assumes "validate_content rx reg p b = Inr ()" "applies_to ''macp.mode.decision.v1'' (p_mode p)"
  obtains d where "parse_decision_rules (rx_parsers rx) (p_rules p) = Some d"
    "sound_voting (dr_voting d)" "decision_value_domain_error d = None"
proof -
  obtain d where d: "parse_decision_rules (rx_parsers rx) (p_rules p) = Some d"
    using validated_parses(1) [OF validated_schema(3) [OF assms(1)] assms(2)] by auto
  have "decision_constraints rx (p_rules p) = Inr ()"
    using validated_schema(4) [OF assms(1)] assms(2)
    by (simp add: validate_conditional_constraints_def checked_simps)
  then show ?thesis using validated_voting [OF _ d] d that by blast
qed

section \<open>Registries in use\<close>

text \<open>A registry over fixed extensions, after any sequence of registrations and removals.\<close>

inductive registry_run :: "registry_ext \<Rightarrow> (string \<times> RuleExtension) list \<Rightarrow> PolicyRegistry \<Rightarrow> bool"
  for rx exts where
  run_new: "with_rule_extensions PolicyRegistry_new exts = Inr reg \<Longrightarrow> registry_run rx exts reg"
| run_register: "registry_run rx exts reg \<Longrightarrow> registry_run rx exts (snd (register rx reg p))"
| run_unregister: "registry_run rx exts reg \<Longrightarrow> registry_run rx exts (snd (unregister reg i))"

definition built_in :: "PolicyDefinition \<Rightarrow> bool" where
  "built_in p \<longleftrightarrow> p = default_policy \<or> p \<in> set std_policies"

definition registry_inv :: "registry_ext \<Rightarrow> PolicyRegistry \<Rightarrow> bool" where
  "registry_inv rx reg \<longleftrightarrow>
     (\<forall>p. built_in p \<longrightarrow> pg_entries reg (p_policy_id p) = Some p) \<and>
     (\<forall>i p. pg_entries reg i = Some p \<longrightarrow>
        p_policy_id p = i \<and> (built_in p \<or> validate_definition rx reg p = Inr () \<and>
          \<not> starts_with i STD_POLICY_PREFIX \<and> i \<noteq> DEFAULT_POLICY_ID))"

lemmas policy_ids = DEFAULT_POLICY_ID_def STD_POLICY_PREFIX_def STD_MAJORITY_POLICY_ID_def
  STD_SUPERMAJORITY_POLICY_ID_def STD_UNANIMOUS_POLICY_ID_def

lemma built_in_ids:
  "p_policy_id default_policy = DEFAULT_POLICY_ID"
  "p_policy_id std_majority_policy = STD_MAJORITY_POLICY_ID"
  "p_policy_id std_supermajority_policy = STD_SUPERMAJORITY_POLICY_ID"
  "p_policy_id std_unanimous_policy = STD_UNANIMOUS_POLICY_ID"
  by (simp_all add: default_policy_def std_majority_policy_def std_supermajority_policy_def
      std_unanimous_policy_def DEFAULT_POLICY_ID_def)

lemma built_in_cases:
  assumes "built_in p"
  shows "p_policy_id p = DEFAULT_POLICY_ID \<or> starts_with (p_policy_id p) STD_POLICY_PREFIX"
  using assms
  by (auto simp: built_in_def std_policies_def built_in_ids) (simp_all add: policy_ids starts_with_iff)

lemma canonical_std_built_in: "canonical_std_policy i = Some p \<Longrightarrow> built_in p \<and> p_policy_id p = i"
  by (auto simp: canonical_std_policy_def built_in_def std_policies_def built_in_ids split: if_splits)

lemma new_entries:
  "pg_entries PolicyRegistry_new i =
     (if i = DEFAULT_POLICY_ID then Some default_policy
      else if i = STD_MAJORITY_POLICY_ID then Some std_majority_policy
      else if i = STD_SUPERMAJORITY_POLICY_ID then Some std_supermajority_policy
      else if i = STD_UNANIMOUS_POLICY_ID then Some std_unanimous_policy else None)"
  unfolding PolicyRegistry_new_def
  by (simp add: std_policies_def built_in_ids) (simp add: policy_ids)

lemma with_rule_extensions_entries:
  "with_rule_extensions reg exts = Inr reg' \<Longrightarrow> pg_entries reg' = pg_entries reg"
  by (induction reg exts rule: with_rule_extensions.induct) (auto split: if_splits)

lemma registry_inv_new:
  assumes "pg_entries reg = pg_entries PolicyRegistry_new"
  shows "registry_inv rx reg"
proof -
  have "pg_entries reg (p_policy_id p) = Some p" if "built_in p" for p
    using that unfolding assms new_entries
    by (auto simp: built_in_def std_policies_def built_in_ids) (simp_all add: policy_ids)
  moreover have "p_policy_id p = i \<and> built_in p" if "pg_entries reg i = Some p" for i p
    using that unfolding assms new_entries
    by (auto simp: built_in_def std_policies_def built_in_ids split: if_splits)
  ultimately show ?thesis by (auto simp: registry_inv_def)
qed

lemma register_inv:
  assumes "registry_inv rx reg"
  shows "registry_inv rx (snd (register rx reg p))"
proof (cases "validate_definition rx reg p = Inr () \<and> pg_entries reg (p_policy_id p) = None")
  case True
  let ?m = "(pg_entries reg)(p_policy_id p \<mapsto> p)"
  have reg': "snd (register rx reg p) = reg\<lparr>pg_entries := ?m\<rparr>"
    using True by (simp add: register_def)
  have default: "p_policy_id p \<noteq> DEFAULT_POLICY_ID"
    and ns: "validate_reserved_namespace rx p = Inr ()"
    using True by (auto simp: validate_definition_def validate_content_def checked_simps)
  have "\<not> starts_with (p_policy_id p) STD_POLICY_PREFIX"
  proof
    assume "starts_with (p_policy_id p) STD_POLICY_PREFIX"
    then obtain q where q: "canonical_std_policy (p_policy_id p) = Some q"
      using ns by (auto simp: validate_reserved_namespace_def split: option.splits)
    then have "built_in q" "p_policy_id q = p_policy_id p" using canonical_std_built_in by blast+
    then have "pg_entries reg (p_policy_id p) = Some q"
      using assms unfolding registry_inv_def by metis
    then show False using True by simp
  qed
  then have own: "\<not> starts_with (p_policy_id p) STD_POLICY_PREFIX \<and> p_policy_id p \<noteq> DEFAULT_POLICY_ID"
    using default by simp
  then have other: "p_policy_id q \<noteq> p_policy_id p" if "built_in q" for q
    using built_in_cases [OF that] by metis
  show ?thesis
    using assms True own other unfolding reg' registry_inv_def validate_definition_frame by simp
next
  case False
  then have "snd (register rx reg p) = reg"
    by (auto simp: register_def split: sum.splits if_splits)
  then show ?thesis using assms by simp
qed

lemma unregister_inv:
  assumes "registry_inv rx reg"
  shows "registry_inv rx (snd (unregister reg i))"
proof (cases "i \<noteq> DEFAULT_POLICY_ID \<and> \<not> starts_with i STD_POLICY_PREFIX \<and> pg_entries reg i \<noteq> None")
  case True
  have reg': "snd (unregister reg i) = reg\<lparr>pg_entries := (pg_entries reg)(i := None)\<rparr>"
    using True by (auto simp: unregister_def)
  have "p_policy_id p \<noteq> i" if "built_in p" for p using built_in_cases [OF that] True by metis
  then show ?thesis
    using assms unfolding reg' registry_inv_def validate_definition_frame by simp
next
  case False
  then have "snd (unregister reg i) = reg"
    using assms by (auto simp: unregister_def split: if_splits)
  then show ?thesis using assms by simp
qed

lemma registry_run_inv: "registry_run rx exts reg \<Longrightarrow> registry_inv rx reg"
  by (induction rule: registry_run.induct)
     (auto intro: registry_inv_new with_rule_extensions_entries register_inv unregister_inv)

section \<open>What an admitted voting policy needs\<close>

lemma zero_ratio_fails: "f64_gt t (Finite 0) \<Longrightarrow> \<not> f64_ge (f64_div (Finite 0) d) t"
  by (cases d; cases t) (auto simp: f64_le_def f64_round_def)

lemma f64_of_nat_0 [simp]: "f64_of_nat 0 = Finite 0"
  by (simp add: f64_of_nat_def f64_round_def)

lemma weighted_fold_no_approve:
  "\<forall>(voter, vote) \<in> set xs. vo_vote vote \<noteq> ''APPROVE'' \<Longrightarrow>
   fst (fold (\<lambda>(voter, vote) (weighted_approve, weighted_total).
       if vo_vote vote \<noteq> ''APPROVE'' \<and> vo_vote vote \<noteq> ''REJECT''
       then (weighted_approve, weighted_total)
       else
         (let weight = weight_of weights voter
          in (if vo_vote vote = ''APPROVE'' then f64_add weighted_approve weight
              else weighted_approve,
              f64_add weighted_total weight))) xs (a, t)) = a"
  by (induction xs arbitrary: t) (auto simp: Let_def)

lemma weighted_no_approve:
  assumes "votes_for ''APPROVE'' votes = 0"
  shows "fst (compute_weighted_votes votes weights) = Finite 0"
proof -
  have "\<forall>(voter, vote) \<in> set (all_votes votes). vo_vote vote \<noteq> ''APPROVE''"
    using assms by (auto simp: votes_for_def filter_empty_conv)
  then show ?thesis unfolding compute_weighted_votes_def by (rule weighted_fold_no_approve)
qed

lemma approval_needs_approve:
  assumes "sound_voting vr" "vr_algorithm vr \<noteq> ''none''" "voting_tally vr votes participants = Approved"
  shows "0 < votes_for ''APPROVE'' votes"
proof (rule ccontr)
  assume "\<not> 0 < votes_for ''APPROVE'' votes"
  then have a: "votes_for ''APPROVE'' votes = 0" by simp
  have r: "0 < votes_for ''APPROVE'' votes + votes_for ''REJECT'' votes"
    using assms(3) check_voting_empty by (fastforce simp: voting_tally_def)
  have t: "f64_gt (vr_threshold vr) (Finite 0)" using assms(1) by (simp add: sound_voting_def)
  have "vr_algorithm vr \<in> {''majority'', ''supermajority'', ''unanimous'', ''weighted'', ''plurality''}"
    using assms(1,2) by (auto simp: sound_voting_def DECISION_VOTING_ALGORITHMS_def)
  then consider "vr_algorithm vr = ''majority''" | "vr_algorithm vr = ''supermajority''"
    | "vr_algorithm vr = ''unanimous''" | "vr_algorithm vr = ''weighted''"
    | "vr_algorithm vr = ''plurality''" by blast
  then show False
  proof cases
    case 1
    then show False using assms(3) zero_ratio_fails [OF t]
      by (simp add: voting_tally_def check_voting_cases [OF r] a split: if_splits)
  next
    case 2
    then have "f64_gt (supermajority_threshold (vr_threshold vr)) (Finite 0)"
      using assms(1) t by (simp add: sound_voting_def supermajority_threshold_def)
    then show False using assms(3) zero_ratio_fails 2
      by (simp add: voting_tally_def check_voting_cases [OF r] a split: if_splits)
  next
    case 3
    then show False using assms(3) a by (simp add: unanimous_tally)
  next
    case 4
    then show False using assms(3) zero_ratio_fails [OF t] weighted_no_approve [OF a]
      by (auto simp: voting_tally_def check_voting_cases [OF r] weighted_result_def split_beta
          split: if_splits)
  next
    case 5
    then show False using assms(3) r a
      by (simp add: voting_tally_def check_voting_cases [OF r] plurality_result_def Let_def)
  qed
qed

section \<open>Admission and evaluation agree\<close>

definition malformed_code :: "DenyReason \<Rightarrow> bool" where
  "malformed_code r \<longleftrightarrow> deny_code r = UNSUPPORTED_SCHEMA_VERSION \<or> deny_code r = INVALID_RULES"

lemma deny_code_simps [simp]:
  "deny_code (DenyReason_new c m) = c" "deny_code (with_participants r ps) = deny_code r"
  by (simp_all add: DenyReason_new_def with_participants_def)

lemma gate_codes:
  "r \<in> set (evaluation_gate ee er st) \<Longrightarrow> \<not> malformed_code r"
  "r \<in> set (fst (veto_gate oh st outcome_positive)) \<Longrightarrow> \<not> malformed_code r"
  "r \<in> set (quorum_gate rules st participants) \<Longrightarrow> \<not> malformed_code r"
  "r \<in> set (fst (passed_gate rules outcome_positive n m)) \<Longrightarrow> \<not> malformed_code r"
  "r \<in> set (fst (failed_gate outcome_positive n m)) \<Longrightarrow> \<not> malformed_code r"
  "r \<in> set (fst (no_votes_gate policy rules outcome_positive)) \<Longrightarrow> \<not> malformed_code r"
  "r \<in> set (fst (threshold_gate t a k outcome_positive)) \<Longrightarrow> \<not> malformed_code r"
proof -
  show "r \<in> set (fst (veto_gate oh st outcome_positive)) \<Longrightarrow> \<not> malformed_code r"
    by (cases "critical_veto oh st"; cases "oh_critical_objection_action oh")
       (auto simp: veto_gate_def malformed_code_def split: if_splits)
  show "r \<in> set (fst (threshold_gate t a k outcome_positive)) \<Longrightarrow> \<not> malformed_code r"
    by (cases "effective t k") (auto simp: threshold_gate_def malformed_code_def Let_def split: if_splits)
qed (auto simp: evaluation_gate_def quorum_gate_def passed_gate_def failed_gate_def no_votes_gate_def
      malformed_code_def Let_def split: if_splits)

lemma voting_gate_codes:
  "r \<in> set (fst (voting_gate policy rules st participants outcome_positive)) \<Longrightarrow> \<not> malformed_code r"
  by (cases "check_voting_algorithm (vr_algorithm (dr_voting rules)) (vr_threshold (dr_voting rules))
        (vr_weights (dr_voting rules)) (ds_votes st) participants")
     (auto simp: voting_gate_def Let_def dest: gate_codes)

lemma conclude_Deny: "conclude d a m = Deny rs \<Longrightarrow> rs = d"
  by (simp add: conclude_def split: if_splits)

lemma decide_codes:
  assumes "decide_decision ee policy rules st participants outcome_positive = Deny rs" "r \<in> set rs"
  shows "\<not> malformed_code r"
  using assms(2) conclude_Deny [OF assms(1) [unfolded decide_decision_def Let_def split_beta]]
  by (auto dest: gate_codes voting_gate_codes split: if_splits)

text \<open>The standard mode a commitment context belongs to.\<close>

fun standard_mode_of :: "CommitmentMode \<Rightarrow> string" where
  "standard_mode_of (CM_Decision _) = ''macp.mode.decision.v1''"
| "standard_mode_of (CM_Proposal _) = ''macp.mode.proposal.v1''"
| "standard_mode_of (CM_Task _) = ''macp.mode.task.v1''"
| "standard_mode_of CM_Handoff = ''macp.mode.handoff.v1''"
| "standard_mode_of (CM_Quorum _ _ _) = ''macp.mode.quorum.v1''"

lemma with_rules_codes:
  assumes "p_schema_version policy \<in> {1, 2, 3}" "parse (p_rules policy) \<noteq> None"
    and "\<And>rules rs r. k rules = Deny rs \<Longrightarrow> r \<in> set rs \<Longrightarrow> \<not> malformed_code r"
    and "with_rules parse policy k = Deny rs" "r \<in> set rs"
  shows "\<not> malformed_code r"
proof -
  have "check_schema_version policy = None"
    using assms(1) by (auto simp: check_schema_version_def SUPPORTED_SCHEMA_VERSIONS_def)
  then show ?thesis
    using assms(2-5) by (auto simp: with_rules_def parse_rules_def)
qed

lemma admitted_never_malformed:
  assumes adm: "validate_content rx reg (cc_policy ctx) b = Inr ()"
    and mode: "applies_to (standard_mode_of (cc_mode ctx)) (p_mode (cc_policy ctx))"
    and ee: "ee_parsers ee = rx_parsers rx"
    and deny: "DefaultPolicyEvaluator ee ctx = Deny rs" "r \<in> set rs"
  shows "\<not> malformed_code r"
proof -
  note sv = validated_schema(1) [OF adm] and parses = validated_parses [OF validated_schema(3) [OF adm]]
  show ?thesis
  proof (cases "cc_mode ctx")
    case (CM_Decision st)
    obtain d where d: "parse_decision_rules (ee_parsers ee) (p_rules (cc_policy ctx)) = Some d"
        "decision_value_domain_error d = None"
      using admitted_decision [OF adm] mode CM_Decision ee by (metis standard_mode_of.simps(1))
    have "check_schema_version (cc_policy ctx) = None"
      using sv by (auto simp: check_schema_version_def SUPPORTED_SCHEMA_VERSIONS_def)
    then have "decide_decision ee (cc_policy ctx) d st (cc_participants ctx) (cc_outcome_positive ctx) = Deny rs"
      using deny(1) d
      by (simp add: DefaultPolicyEvaluator_def CM_Decision evaluate_decision_commitment_outcome_def
          parse_rules_def)
    then show ?thesis using deny(2) by (rule decide_codes)
  next
    case (CM_Proposal n)
    show ?thesis
    proof (rule with_rules_codes [OF sv _ _ deny(1) [unfolded DefaultPolicyEvaluator_def CM_Proposal
            CommitmentMode.case evaluate_proposal_commitment_outcome_def] deny(2)])
      show "parse_proposal_rules (ee_parsers ee) (p_rules (cc_policy ctx)) \<noteq> None"
        using parses(2) mode CM_Proposal ee by simp
    qed (auto simp: Let_def malformed_code_def dest!: conclude_Deny split: if_splits)
  next
    case (CM_Task out)
    show ?thesis
    proof (rule with_rules_codes [OF sv _ _ deny(1) [unfolded DefaultPolicyEvaluator_def CM_Task
            CommitmentMode.case evaluate_task_commitment_outcome_def] deny(2)])
      show "parse_task_rules (ee_parsers ee) (p_rules (cc_policy ctx)) \<noteq> None"
        using parses(3) mode CM_Task ee by simp
    qed (auto simp: Let_def malformed_code_def dest!: conclude_Deny split: if_splits)
  next
    case CM_Handoff
    show ?thesis
    proof (rule with_rules_codes [OF sv _ _ deny(1) [unfolded DefaultPolicyEvaluator_def CM_Handoff
            CommitmentMode.case evaluate_handoff_commitment_outcome_def] deny(2)])
      show "parse_handoff_rules (ee_parsers ee) (p_rules (cc_policy ctx)) \<noteq> None"
        using parses(4) mode CM_Handoff ee by simp
    qed auto
  next
    case (CM_Quorum a' r' n')
    show ?thesis
    proof (rule with_rules_codes [OF sv _ _ deny(1) [unfolded DefaultPolicyEvaluator_def CM_Quorum
            CommitmentMode.case evaluate_quorum_commitment_outcome_def] deny(2)])
      show "parse_quorum_rules (ee_parsers ee) (p_rules (cc_policy ctx)) \<noteq> None"
        using parses(5) mode CM_Quorum ee by simp
    qed (auto simp: Let_def split_beta dest!: conclude_Deny dest: gate_codes(7))
  qed
qed

end
