(* ===== verification/Governed_Runs.thy ===== *)
theory Governed_Runs
  imports Policy_Registry Mode_Properties
begin

text \<open>Short runs of the Decision and Quorum modes under a policy that a registry admitted, with the
  default evaluator.\<close>

section \<open>The literals 1/2 and 0.6666666666666666\<close>

lemma two_thirds:
  "f64_round (6666666666666666 / 10000000000000000) = Finite (of_int 6004799503160661 / 2 ^ 53)"
  "f64_round (of_nat 2 / of_nat 3) = Finite (of_int 6004799503160661 / 2 ^ 53)"
  by (rule f64_round_near; simp)+

lemma half_rounds: "Finite (1 / 2) = f64_round (of_nat 1 / of_nat 2)"
  using f64_round_near [of "1 / 2" 4503599627370496] by simp

lemma standard_bar:
  "supermajority_threshold (f64_round (6666666666666666 / 10000000000000000)) = f64_round (of_nat 2 / of_nat 3)"
  unfolding two_thirds supermajority_threshold_def by simp

section \<open>An example: a majority policy for every mode\<close>

definition majority_rules :: DecisionPolicyRules where
  "majority_rules = default_DecisionPolicyRules\<lparr>dr_voting :=
     (dr_voting default_DecisionPolicyRules)\<lparr>vr_algorithm := ''majority''\<rparr>\<rparr>"

definition pair_rules :: QuorumPolicyRules where
  "pair_rules = default_QuorumPolicyRules\<lparr>qpr_threshold := \<lparr>qt_threshold_type = ''n_of_m'', qt_value = Finite 2\<rparr>\<rparr>"

definition example_parsers :: rule_parsers where
  "example_parsers =
     \<lparr>parse_commitment_rules = (\<lambda>_. None), parse_decision_rules = (\<lambda>_. Some majority_rules),
      parse_proposal_rules = (\<lambda>_. Some default_ProposalPolicyRules),
      parse_task_rules = (\<lambda>_. Some default_TaskPolicyRules),
      parse_handoff_rules = (\<lambda>_. Some default_HandoffPolicyRules),
      parse_quorum_rules = (\<lambda>_. Some pair_rules)\<rparr>"

definition example_rx :: registry_ext where
  "example_rx = \<lparr>rx_parsers = example_parsers, rx_decision_to_value = (\<lambda>_. None)\<rparr>"

definition example_ee :: evaluator_ext where
  "example_ee = \<lparr>ee_parsers = example_parsers, ee_to_uppercase = (\<lambda>v. v)\<rparr>"

definition majority_policy :: PolicyDefinition where
  "majority_policy = \<lparr>p_policy_id = ''pol'', p_mode = ''*'', p_description = [],
     p_rules = JObject [], p_schema_version = 3\<rparr>"

definition example_registry :: PolicyRegistry where
  "example_registry = snd (register example_rx PolicyRegistry_new majority_policy)"

lemma majority_admitted: "validate_definition example_rx reg majority_policy = Inr ()"
proof -
  have blank: "\<not> blank ''pol''" by (simp add: printable_not_blank)
  have voting: "decision_constraints example_rx (JObject []) = Inr ()"
    by (simp add: decision_constraints_def example_rx_def example_parsers_def majority_rules_def
        default_DecisionPolicyRules_def validate_decision_voting_def non_positive_weights_def
        decision_value_domain_error_def present_object_def present_at_def checked_simps
        DECISION_VOTING_ALGORITHMS_def DECISION_VOTING_QUORUM_TYPES_def f64_le_def Let_def)
  have quorum: "quorum_constraints example_rx (JObject []) = Inr ()"
    "abstention_constraints example_rx (JObject []) = Inr ()"
    by (simp_all add: quorum_constraints_def abstention_constraints_def example_rx_def
        example_parsers_def pair_rules_def default_QuorumPolicyRules_def validate_quorum_threshold_def
        present_number_def present_at_def checked_simps QUORUM_THRESHOLD_TYPES_def
        QUORUM_ABSTENTION_INTERPRETATIONS_def)
  have proposal: "proposal_constraints example_rx (JObject []) = Inr ()"
    by (simp add: proposal_constraints_def example_rx_def example_parsers_def
        default_ProposalPolicyRules_def checked_simps PROPOSAL_ACCEPTANCE_CRITERIA_def)
  have commitment: "commitment_constraints example_rx (JObject []) = Inr ()"
    by (simp add: commitment_constraints_def example_rx_def example_parsers_def split: option.splits)
  have shapes: "rule_shape_violation ''*'' (JObject []) = None" "validate_rule_keys reg ''*'' (JObject []) = Inr ()"
    by (simp_all add: rule_shape_violation_def validate_rule_keys_def rule_shape_for_mode_def
        closed_key_violation_def STANDARDS_TRACK_RULE_SHAPES_def object_position_def DECISION_RULES_def
        PROPOSAL_RULES_def TASK_RULES_def HANDOFF_RULES_def QUORUM_RULES_def)
  have parse: "validate_rules_for_mode example_rx ''*'' (JObject []) = Inr ()"
    by (simp add: validate_rules_for_mode_def STANDARDS_TRACK_POLICY_MODES_def
        validate_rules_for_named_mode_def example_rx_def example_parsers_def checked_simps)
  show ?thesis
    using blank voting quorum proposal commitment shapes parse
    by (simp add: validate_definition_def validate_content_def majority_policy_def checked_simps
        DEFAULT_POLICY_ID_def SUPPORTED_SCHEMA_VERSIONS_def validate_reserved_namespace_def
        STD_POLICY_PREFIX_def starts_with_def validate_conditional_constraints_def applies_to_def)
qed

lemma example_registry_run: "registry_run example_rx [] example_registry"
  unfolding example_registry_def by (intro run_register run_new) simp

lemma majority_not_built_in: "\<not> built_in majority_policy"
  using built_in_cases [of majority_policy]
  by (auto simp: majority_policy_def DEFAULT_POLICY_ID_def STD_POLICY_PREFIX_def starts_with_def)

lemma majority_resolves: "resolve example_registry ''pol'' = Inr majority_policy"
proof -
  have "pg_entries PolicyRegistry_new ''pol'' = None" unfolding new_entries by (simp add: policy_ids)
  then show ?thesis
    by (simp add: example_registry_def register_def majority_admitted resolve_def)
       (simp add: majority_policy_def)
qed

text \<open>A Decision session under the policy: a proposal, an APPROVE by the other participant and the
  initiator's positive Commitment.\<close>

definition governed_decision :: decision_ext where
  "governed_decision = example_decision\<lparr>
     x_decode_commitment := (\<lambda>b. Some ((example_commitment True)\<lparr>cp_policy_version := ''pol''\<rparr>)),
     x_rules := example_parsers, x_evaluator := DefaultPolicyEvaluator example_ee\<rparr>"

abbreviation "GD \<equiv> DecisionMode governed_decision"
abbreviation "dmode \<equiv> ''macp.mode.decision.v1''"

definition governed_s0 :: Session where
  "governed_s0 = opened (Some majority_policy) dmode (unary_encode default_state)"

definition governed_s1 :: Session where
  "governed_s1 = after governed_s0 ''m1'' ''alice'' 2000 (unary_encode decision_st1)"

definition governed_s2 :: Session where
  "governed_s2 = after governed_s1 ''m2'' ''bob'' 3000 (unary_encode decision_st2)"

definition governed_s3 :: Session where
  "governed_s3 = resolved ''yes'' (after governed_s2 ''m3'' ''alice'' 4000
     (unary_encode (decision_st2\<lparr>ds_phase := DecisionPhase.Committed\<rparr>)))"

lemmas governed_eval = DecisionMode_def default_mode_def default_validate_client_envelope_def
  default_due_synthetic_envelope_def decision_authorize_sender_def decision_on_message_def
  decision_on_session_start_def decode_mode_state_def governed_decision_def example_decision_def
  ensure_not_committed_def default_state_def Decision_Mode.handle_proposal_def ensure_can_propose_def
  Decision_Mode.persist_def bt_contains_def bt_empty_def handle_vote_def ensure_can_vote_def
  ensure_known_proposal_def wire_enum_def STRICT_WIRE_ENUMS_REV_def CURRENT_SEMANTICS_REV_def Let_def

lemma governed_law: "decision_codec_law governed_decision"
  by (simp add: decision_codec_law_def governed_decision_def example_decision_def)

lemma governed_accept:
  "accept_session_start example_sx (start_message dmode) 1000 GD (Some majority_policy) default_StartOptions
     = Ok governed_s0"
  unfolding governed_s0_def
  by (rule example_accept) (simp_all add: governed_eval majority_policy_def)

lemma governed_step1:
  "step governed_s0 decision_m1 GD 2000 = (Ok (StepOutcome.Accepted Open []), governed_s1)"
  unfolding decision_m1_def governed_s1_def
  by (rule example_step) (simp_all add: governed_s0_def governed_eval decision_st1_def)

lemma governed_step2:
  "step governed_s1 decision_m2 GD 3000 = (Ok (StepOutcome.Accepted Open []), governed_s2)"
  unfolding decision_m2_def governed_s2_def
  by (rule example_step)
    (simp_all add: governed_s1_def governed_s0_def governed_eval decision_st1_def decision_st2_def)

lemma majority_tally_example: "voting_tally (dr_voting majority_rules) (ds_votes decision_st2) ps = Approved"
proof -
  have v: "votes_for ''APPROVE'' (ds_votes decision_st2) = 1" "votes_for ''REJECT'' (ds_votes decision_st2) = 0"
    by (simp_all add: votes_for_def all_votes_def bt_values_def decision_st2_def)
  have "vr_algorithm (dr_voting majority_rules) = ''majority''"
    "vr_threshold (dr_voting majority_rules) = Finite (1 / 2)"
    by (simp_all add: majority_rules_def default_DecisionPolicyRules_def)
  then show ?thesis
    using majority_tally [of "dr_voting majority_rules" _ 1 2 "ds_votes decision_st2", unfolded v,
        OF disjI1 [OF conjI], OF _ refl] half_rounds by simp
qed

lemma majority_allows:
  "\<exists>rs. evaluate_decision_commitment_outcome example_ee majority_policy decision_st2
     [''alice'', ''bob''] True = Allow rs"
  unfolding evaluate_decision_iff
  using majority_tally_example [of "[''alice'', ''bob'']"]
  by (simp add: example_ee_def example_parsers_def majority_policy_def)
     (simp add: authorized_def majority_rules_def default_DecisionPolicyRules_def standing_veto_def
        evaluated_def participation_def default_CommitmentRules_def decision_value_domain_error_def
        f64_le_def)

lemma governed_ready:
  "enforce_commitment_policy governed_decision s (CM_Decision decision_st2) True = Ok ()"
  if "s_policy_definition s = Some majority_policy" "s_participants s = [''alice'', ''bob'']"
  using majority_allows that by (simp add: enforce_ok_iff governed_decision_def DefaultPolicyEvaluator_def)

lemma governed_commitment:
  "validate_commitment_payload_for_session governed_decision governed_s2 b
     = Ok ((example_commitment True)\<lparr>cp_policy_version := ''pol''\<rparr>)"
  by (simp add: validate_commitment_payload_for_session_def decode_commitment_payload_def
      governed_decision_def example_decision_def example_commitment_def governed_s2_def governed_s1_def
      governed_s0_def majority_policy_def
      outcome_deploy [of True, unfolded example_commitment_def validate_outcome_positive_def]
      validate_outcome_positive_def negative_actions_def positive_actions_def ends_with_def starts_with_def)

lemma governed_s2_bound:
  "s_policy_definition governed_s2 = Some majority_policy" "s_participants governed_s2 = [''alice'', ''bob'']"
  by (simp_all add: governed_s2_def governed_s1_def governed_s0_def)

lemma governed_resolves:
  "decision_on_message governed_decision governed_s2 (message dmode ''Commitment'' ''m3'' ''alice'' ''yes'')
     = Ok (PersistAndResolve (unary_encode (decision_st2\<lparr>ds_phase := DecisionPhase.Committed\<rparr>)) ''yes'')"
proof -
  have st: "s_mode_state governed_s2 = unary_encode decision_st2" by (simp add: governed_s2_def)
  have c: "ds_proposals decision_st2 \<noteq> []" "ds_phase decision_st2 = Voting"
    by (simp_all add: decision_st2_def decision_st1_def)
  have codec: "dx_encode_state governed_decision = unary_encode" "dx_decode_state governed_decision = lossy_decode finite_confidences"
    by (simp_all add: governed_decision_def example_decision_def)
  show ?thesis
    using c
    by (simp add: decision_on_message_def st codec decode_mode_state_def ensure_not_committed_def
        Decision_Mode.handle_commitment_def Decision_Mode.commitment_ready_def governed_commitment
        governed_ready [OF governed_s2_bound] example_commitment_def)
qed

lemma governed_step3:
  "step governed_s2 (message dmode ''Commitment'' ''m3'' ''alice'' ''yes'') GD 4000
     = (Ok (StepOutcome.Accepted Resolved []), governed_s3)"
  unfolding governed_s3_def
proof (rule example_step_resolve)
  show "m_on_message_at GD governed_s2 (message dmode ''Commitment'' ''m3'' ''alice'' ''yes'')
      (MessageContext_new 4000)
    = Ok (PersistAndResolve (unary_encode (decision_st2\<lparr>ds_phase := DecisionPhase.Committed\<rparr>)) ''yes'')"
    using governed_resolves by (simp add: DecisionMode_def default_mode_def)
qed (simp_all add: governed_s2_def governed_s1_def governed_s0_def DecisionMode_def default_mode_def
      default_validate_client_envelope_def default_due_synthetic_envelope_def
      decision_authorize_sender_def check_commitment_authority_def extract_commitment_rules_def
      majority_policy_def default_CommitmentRules_def unwrap_or_def governed_decision_def
      example_parsers_def example_decision_def CURRENT_SEMANTICS_REV_def)

lemma governed_driven: "driven GD governed_s0" "driven GD governed_s1" "driven GD governed_s2"
proof -
  show 0: "driven GD governed_s0" by (rule driven_accepted, rule accepted_start, rule governed_accept)
  show 1: "driven GD governed_s1" by (rule driven_step [OF 0 governed_step1])
  show "driven GD governed_s2" by (rule driven_step [OF 1 governed_step2])
qed

text \<open>A Quorum session under the policy: a request, two approvals, a positive Commitment.\<close>

definition governed_quorum :: quorum_ext where
  "governed_quorum = example_quorum\<lparr>
     x_decode_commitment := (\<lambda>b. Some ((example_commitment True)\<lparr>cp_policy_version := ''pol''\<rparr>)),
     x_rules := example_parsers, x_evaluator := DefaultPolicyEvaluator example_ee\<rparr>"

abbreviation "GQ \<equiv> QuorumMode governed_quorum"

definition both_approved :: QuorumState where
  "both_approved = quorum_st [(''alice'', ballot Approve ''alice''), (''bob'', ballot Approve ''bob'')]"

definition governed_q0 :: Session where
  "governed_q0 = opened (Some majority_policy) qmode (unary_encode default_QuorumState)"

definition governed_q1 :: Session where
  "governed_q1 = after governed_q0 ''m1'' ''alice'' 2000 (unary_encode (quorum_st []))"

definition governed_q2 :: Session where
  "governed_q2 = after governed_q1 ''m2'' ''alice'' 2000
     (unary_encode (quorum_st [(''alice'', ballot Approve ''alice'')]))"

definition governed_q3 :: Session where
  "governed_q3 = after governed_q2 ''m3'' ''bob'' 2000 (unary_encode both_approved)"

lemma governed_quorum_law: "quorum_codec_law governed_quorum"
  by (simp add: quorum_codec_law_def governed_quorum_def example_quorum_def)

lemma pair_threshold: "effective (qpr_threshold pair_rules) n = EffectiveThreshold.Approvals 2"
  by (simp add: pair_rules_def effective_def)

lemma governed_threshold:
  assumes "s_policy_definition s = Some majority_policy"
  shows "effective_threshold governed_quorum s request = Approvals 2"
  using assms by (simp add: effective_threshold_def quorum_rules_def governed_quorum_def example_parsers_def
      unwrap_or_def pair_threshold)

lemma governed_quorum_fields:
  "qx_decode_request governed_quorum ''request'' = Some \<lparr>arp_request_id = ''r1'',
     arp_action = ''deploy'', arp_summary = [], arp_details = [], arp_required_approvals = 2\<rparr>"
  "qx_decode_approve governed_quorum = (\<lambda>_. Some \<lparr>bp_request_id = ''r1'', bp_reason = []\<rparr>)"
  "qx_encode_state governed_quorum = unary_encode" "qx_decode_state governed_quorum = unary_decode"
  "x_rules governed_quorum = example_parsers" "x_evaluator governed_quorum = DefaultPolicyEvaluator example_ee"
  "x_decode_commitment governed_quorum = (\<lambda>b. Some ((example_commitment True)\<lparr>cp_policy_version := ''pol''\<rparr>))"
  by (simp_all add: governed_quorum_def example_quorum_def)

lemmas governed_q_eval = governed_quorum_fields QuorumMode_def default_mode_def
  default_validate_client_envelope_def default_due_synthetic_envelope_def quorum_authorize_sender_def
  quorum_on_message_def quorum_on_session_start_def decode_mode_state_def default_QuorumState_def
  Quorum_Mode.handle_request_def handle_ballot_def governed_threshold as_u32_def Let_def bt_empty_def
  bt_contains_def quorum_st_def quorum_request_def ballot_def

lemma governed_q_accept:
  "accept_session_start example_sx (start_message qmode) 1000 GQ (Some majority_policy) default_StartOptions
     = Ok governed_q0"
  unfolding governed_q0_def
  by (rule example_accept) (simp_all add: governed_q_eval majority_policy_def)

lemma governed_q_step1:
  "step governed_q0 (message qmode ''ApprovalRequest'' ''m1'' ''alice'' ''request'') GQ 2000
     = (Ok (StepOutcome.Accepted Open []), governed_q1)"
  unfolding governed_q1_def
  by (rule example_step) (simp_all add: governed_q0_def governed_q_eval)

lemma governed_q_step2:
  "step governed_q1 (message qmode ''Approve'' ''m2'' ''alice'' []) GQ 2000
     = (Ok (StepOutcome.Accepted Open []), governed_q2)"
  unfolding governed_q2_def
  by (rule example_step) (simp_all add: governed_q1_def governed_q0_def governed_q_eval)

lemma governed_q_step3:
  "step governed_q2 (message qmode ''Approve'' ''m3'' ''bob'' []) GQ 2000
     = (Ok (StepOutcome.Accepted Open []), governed_q3)"
  unfolding governed_q3_def
  by (rule example_step)
    (simp_all add: governed_q2_def governed_q1_def governed_q0_def governed_q_eval both_approved_def)

lemma governed_q_driven: "driven GQ governed_q3"
proof -
  have 0: "driven GQ governed_q0" by (rule driven_accepted, rule accepted_start, rule governed_q_accept)
  have 1: "driven GQ governed_q1" by (rule driven_step [OF 0 governed_q_step1])
  have 2: "driven GQ governed_q2" by (rule driven_step [OF 1 governed_q_step2])
  show ?thesis by (rule driven_step [OF 2 governed_q_step3])
qed

lemma governed_q3_bound:
  "s_policy_definition governed_q3 = Some majority_policy" "s_participants governed_q3 = [''alice'', ''bob'']"
  "load (qx_decode_state governed_quorum) default_QuorumState governed_q3 = Some both_approved"
  by (simp_all add: governed_q3_def governed_q2_def governed_q1_def governed_q0_def load_def
      governed_quorum_fields)

lemma governed_q_allows:
  "\<exists>rs. evaluate_quorum_commitment_outcome example_ee majority_policy 2 r n 2 True = Allow rs"
  unfolding evaluate_quorum_iff
  by (simp add: example_ee_def example_parsers_def majority_policy_def pair_threshold)

lemma governed_q_commitment:
  "validate_commitment_payload_for_session governed_quorum governed_q3 b
     = Ok ((example_commitment True)\<lparr>cp_policy_version := ''pol''\<rparr>)"
  by (simp add: validate_commitment_payload_for_session_def decode_commitment_payload_def
      governed_quorum_fields example_commitment_def governed_q3_def governed_q2_def governed_q1_def
      governed_q0_def majority_policy_def validate_outcome_positive_def negative_actions_def
      positive_actions_def ends_with_def starts_with_def)

lemma governed_q_resolves:
  "quorum_on_message governed_quorum governed_q3 (message qmode ''Commitment'' ''m4'' ''alice'' ''yes'')
     = Ok (PersistAndResolve (unary_encode both_approved) ''yes'')"
proof -
  have st: "s_mode_state governed_q3 = unary_encode both_approved" by (simp add: governed_q3_def)
  have count: "count_ballots Approve both_approved = 2"
    by (simp add: count_ballots_def both_approved_def quorum_st_def bt_values_def ballot_def)
  then have "Quorum_Mode.commitment_ready governed_quorum governed_q3 both_approved"
    by (simp add: Quorum_Mode.commitment_ready_def both_approved_def quorum_st_def
        governed_threshold [OF governed_q3_bound(1)] as_u32_def)
  moreover obtain rs where "evaluate_quorum_commitment_outcome example_ee majority_policy 2
      (count_ballots Reject both_approved) (count_ballots Abstain both_approved) 2 True = Allow rs"
    using governed_q_allows by blast
  then have "enforce_commitment_policy governed_quorum governed_q3
      (CM_Quorum 2 (count_ballots Reject both_approved) (count_ballots Abstain both_approved)) True = Ok ()"
    by (simp add: enforce_ok_iff governed_q3_bound governed_quorum_fields DefaultPolicyEvaluator_def
        numeral_2_eq_2)
  ultimately show ?thesis
    by (simp add: quorum_on_message_def st governed_quorum_fields decode_mode_state_def count
        Quorum_Mode.handle_commitment_def governed_q_commitment example_commitment_def)
qed

lemma governed_q_step4:
  "step governed_q3 (message qmode ''Commitment'' ''m4'' ''alice'' ''yes'') GQ 2000
     = (Ok (StepOutcome.Accepted Resolved []),
        resolved ''yes'' (after governed_q3 ''m4'' ''alice'' 2000 (unary_encode both_approved)))"
proof (rule example_step_resolve)
  show "m_on_message_at GQ governed_q3 (message qmode ''Commitment'' ''m4'' ''alice'' ''yes'')
      (MessageContext_new 2000) = Ok (PersistAndResolve (unary_encode both_approved) ''yes'')"
    using governed_q_resolves by (simp add: QuorumMode_def default_mode_def)
qed (simp_all add: governed_q3_def governed_q2_def governed_q1_def governed_q0_def governed_q_eval
      check_commitment_authority_def extract_commitment_rules_def majority_policy_def
      default_CommitmentRules_def unwrap_or_def example_parsers_def)

end
