(* ===== verification/Governance.thy ===== *)
theory Governance
  imports Governed_Runs
begin

text \<open>Sessions governed by an admitted policy: the registry that admits it, the default evaluator
  that applies it and the Decision and Quorum modes that consult the evaluator.\<close>

section \<open>A mode without synthetic messages, seen through a step\<close>

lemma step_resolves_plain:
  assumes "m_due_synthetic_envelope M = default_due_synthetic_envelope"
    and "step s env M now = (Ok (StepOutcome.Accepted Resolved syns), s')"
  obtains r where "m_on_message_at M s env (MessageContext_new now) = Ok r" "resolves r"
    "m_authorize_sender M s env = Ok ()"
proof -
  obtain s1 r where acc: "check_preconditions s env now = Inr PcProceed" "admit s env M = Inr ()"
    "advance s M now = (Inr syns, s1)" "dispatch s1 env M now = Inr r"
    "s' = snd (commit s1 env r now)" "Resolved = s_state s'"
    using assms(2) by (rule step_accepted)
  have "next_synthetic s M now = Ok None"
    by (simp add: next_synthetic_def assms(1) default_due_synthetic_envelope_def)
  then have s1: "s1 = s"
    using acc(3) by (simp add: advance_def advance_loop.simps [of MAX_SYNTHETIC_PER_STEP])
  have "s_state s = Open" using acc(1) by (simp add: preconditions_proceed)
  then have "resolves r" using acc(5,6) s1 by (cases r) (simp_all add: commit_def Let_def)
  then show ?thesis using that acc(2,4) s1 by (auto simp: dispatch_def admit_def res_simps)
qed

section \<open>Recorded votes\<close>

lemma recorded_vote:
  assumes "votes_inv s st" "(a, v) \<in> set (all_votes (ds_votes st))"
  shows "a \<in> set (s_participants s) \<and> vote_of st (vo_proposal_id v) a = Some v \<and>
    bt_get (ds_proposals st) (vo_proposal_id v) \<noteq> None"
proof -
  obtain vs where vs: "vs \<in> set (bt_values (ds_votes st))" "(a, v) \<in> set vs"
    using assms(2) by (auto simp: all_votes_def)
  obtain pid where pid: "bt_get (ds_votes st) pid = Some vs"
    using vs(1) assms(1) by (auto simp: votes_inv_def bt_values_iff)
  have inv: "bt_invar vs" "\<And>b w. bt_get vs b = Some w \<Longrightarrow> good_vote s pid b w"
    "bt_get (ds_proposals st) pid \<noteq> None"
    using assms(1) pid by (auto simp: votes_inv_def)
  have "bt_get vs a = Some v" using vs(2) inv(1) by (simp add: bt.get_iff)
  then show ?thesis using inv(2) [of a v] inv(3) pid by (auto simp: good_vote_def vote_of_def)
qed

lemma approve_recorded:
  assumes "votes_inv s st" "0 < votes_for c (ds_votes st)"
  shows "\<exists>a \<in> set (s_participants s). \<exists>pid v. vote_of st pid a = Some v \<and> vo_vote v = c"
proof -
  obtain a v where "(a, v) \<in> set (all_votes (ds_votes st))" "vo_vote v = c"
    using assms(2) by (auto simp: votes_for_def filter_empty_conv)
  then show ?thesis using recorded_vote [OF assms(1)] by blast
qed

lemma dissent_recorded:
  assumes "votes_inv s st" "dissent vr (ds_votes st)"
  shows "\<exists>a \<in> set (s_participants s). \<exists>pid v. vote_of st pid a = Some v \<and> vo_vote v = ''REJECT''"
proof -
  obtain a v where "(a, v) \<in> set (all_votes (ds_votes st))" "vo_vote v = ''REJECT''"
    using assms(2) by (auto simp: dissent_def)
  then show ?thesis using recorded_vote [OF assms(1)] by blast
qed

section \<open>Policies a registry hands out\<close>

lemma resolved_admitted:
  assumes "registry_run rx exts reg" "resolve reg i = Inr p" "\<not> built_in p"
  shows "validate_definition rx reg p = Inr ()"
  using registry_run_inv [OF assms(1)] assms(2,3)
  unfolding registry_inv_def by (auto simp: resolve_def Let_def split: option.splits)

lemma admitted_content: "validate_definition rx reg p = Inr () \<Longrightarrow> validate_content rx reg p True = Inr ()"
  by (auto simp: validate_definition_def checked_simps)

section \<open>The evaluator's table\<close>

text \<open>Claim C16. The default evaluator allows a Decision commitment exactly when the documented table
  does: the policy has a supported schema version, its rules parse and lie in their domains, and
  either a standing veto finalizes a decline, or no veto stands, the evaluation and quorum
  requirements hold and the tally supports the outcome.\<close>

theorem decision_policy_table:
  "(\<exists>rs. DefaultPolicyEvaluator ee \<lparr>cc_policy = policy, cc_participants = participants,
       cc_outcome_positive = outcome_positive, cc_mode = CM_Decision st\<rparr> = Allow rs) \<longleftrightarrow>
   (\<exists>rules. p_schema_version policy \<in> {1, 2, 3} \<and>
      parse_decision_rules (ee_parsers ee) (p_rules policy) = Some rules \<and>
      decision_value_domain_error rules = None \<and>
      authorized ee policy rules st participants outcome_positive)"
  using evaluate_decision_iff [of ee policy st participants outcome_positive]
  by (simp add: DefaultPolicyEvaluator_def)

section \<open>Vote ratios\<close>

text \<open>Claim C20. The floating-point vote ratio decides as the exact fraction does, for fewer than
  2^51 counted votes: the majority of the default threshold 1/2 approves exactly when
  approvals are at least half of the votes that are not abstentions, and the supermajority of the
  standard policy's literal 0.6666666666666666 exactly when they are at least two thirds.\<close>

theorem vote_ratio_exact:
  assumes "votes_for ''APPROVE'' votes = a" "votes_for ''REJECT'' votes = r"
    and "0 < a + r" "a + r < 2 ^ 51"
    and "vr_algorithm vr = ''majority'' \<and> vr_threshold vr = Finite (1 / 2) \<and> k = 1 \<or>
      vr_algorithm vr = ''supermajority'' \<and>
        vr_threshold vr = f64_round (6666666666666666 / 10000000000000000) \<and> k = 2"
  shows "voting_tally vr votes participants = (if k * r \<le> a then Approved else NotApproved)"
  using assms(5)
proof (elim disjE conjE)
  assume v: "vr_algorithm vr = ''majority''" "vr_threshold vr = Finite (1 / 2)" "k = 1"
  have small: "(a + r) * 2 < 2 ^ 53" using assms(4) by simp
  have "voting_tally vr votes participants = (if 1 * (a + r) \<le> 2 * a then Approved else NotApproved)"
    by (rule majority_tally [of vr "Finite (1 / 2)" 1 2 votes participants, unfolded assms(1,2),
          OF _ half_rounds _ _ assms(3) small]) (use v in simp_all)
  then show ?thesis using v(3) by simp
next
  assume v: "vr_algorithm vr = ''supermajority''" "k = 2"
    "vr_threshold vr = f64_round (6666666666666666 / 10000000000000000)"
  have small: "(a + r) * 3 < 2 ^ 53" using assms(4) by simp
  have "voting_tally vr votes participants = (if 2 * (a + r) \<le> 3 * a then Approved else NotApproved)"
    by (rule majority_tally [of vr "f64_round (of_nat 2 / of_nat 3)" 2 3 votes participants,
          unfolded assms(1,2), OF disjI2 refl _ _ assms(3) small])
      (unfold v(1,3) standard_bar, simp_all)
  then show ?thesis using v(2) by simp
qed

theorem vote_ratio_exact_witness:
  "voting_tally (dr_voting majority_rules) (ds_votes decision_st2) [''alice'', ''bob''] = Approved"
  using vote_ratio_exact [of "ds_votes decision_st2" 1 0 "dr_voting majority_rules" 1 "[''alice'', ''bob'']"]
  by (simp add: votes_for_def all_votes_def bt_values_def decision_st2_def majority_rules_def
      default_DecisionPolicyRules_def)

section \<open>Admission and evaluation\<close>

text \<open>Claim C18. Admission and evaluation never disagree about a policy's form: a policy that any
  sequence of registrations and removals leaves in the registry is never denied at commitment time
  for an unsupported schema version or malformed rules, whatever the session recorded.\<close>

theorem admission_agrees_with_evaluation:
  assumes "registry_run rx exts reg" "resolve reg i = Inr (cc_policy ctx)" "\<not> built_in (cc_policy ctx)"
    and "applies_to (standard_mode_of (cc_mode ctx)) (p_mode (cc_policy ctx))"
    and "ee_parsers ee = rx_parsers rx"
    and "DefaultPolicyEvaluator ee ctx = Deny rs" "r \<in> set rs"
  shows "deny_code r \<noteq> UNSUPPORTED_SCHEMA_VERSION \<and> deny_code r \<noteq> INVALID_RULES"
  using admitted_never_malformed [OF admitted_content [OF resolved_admitted [OF assms(1-3)]] assms(4-7)]
  by (simp add: malformed_code_def)

text \<open>A denial under the example policy: nobody voted.\<close>

definition silent_context :: CommitmentContext where
  "silent_context = \<lparr>cc_policy = majority_policy, cc_participants = [''alice'', ''bob''],
     cc_outcome_positive = True, cc_mode = CM_Decision default_state\<rparr>"

lemma silent_denied: "\<exists>r rs. DefaultPolicyEvaluator example_ee silent_context = Deny (r # rs)"
proof -
  have "\<nexists>rs. evaluate_decision_commitment_outcome example_ee majority_policy default_state
      [''alice'', ''bob''] True = Allow rs"
    unfolding evaluate_decision_iff
    by (simp add: example_ee_def example_parsers_def majority_policy_def authorized_def majority_rules_def
        default_DecisionPolicyRules_def standing_veto_def voting_tally_def check_voting_empty votes_for_def
        all_votes_def bt_values_def default_state_def bt_empty_def)
  then obtain rs where deny: "evaluate_decision_commitment_outcome example_ee majority_policy default_state
      [''alice'', ''bob''] True = Deny rs" by (metis PolicyDecision.exhaust)
  moreover have "rs \<noteq> []"
    using deny by (auto simp: evaluate_decision_commitment_outcome_def decide_decision_def conclude_def
        check_schema_version_def parse_rules_def Let_def split_beta
        split: option.splits sum.splits if_splits)
  ultimately show ?thesis
    by (cases rs) (auto simp: DefaultPolicyEvaluator_def silent_context_def)
qed

theorem admission_agrees_with_evaluation_witness:
  "\<exists>r rs. DefaultPolicyEvaluator example_ee silent_context = Deny (r # rs) \<and> deny_code r \<noteq> INVALID_RULES"
proof -
  obtain r rs where d: "DefaultPolicyEvaluator example_ee silent_context = Deny (r # rs)"
    using silent_denied by blast
  have "deny_code r \<noteq> INVALID_RULES"
    using admission_agrees_with_evaluation [OF example_registry_run _ _ _ _ d, of "''pol''" r]
      majority_resolves majority_not_built_in
    by (simp add: silent_context_def example_ee_def example_rx_def majority_policy_def applies_to_def)
  then show ?thesis using d by blast
qed

section \<open>Governed sessions\<close>

lemma decision_policy_consulted:
  assumes "step s env (DecisionMode x) now = (Ok (StepOutcome.Accepted Resolved syns), s')"
    and "load (dx_decode_state x) default_state s = Some st" "s_policy_definition s = Some p"
    and "x_evaluator x = DefaultPolicyEvaluator ee"
  obtains c where "validate_commitment_payload_for_session x s (e_payload env) = Ok c"
    "\<exists>rs. evaluate_decision_commitment_outcome ee p st (s_participants s) (cp_outcome_positive c) = Allow rs"
proof -
  have due: "m_due_synthetic_envelope (DecisionMode x) = default_due_synthetic_envelope"
    by (simp add: DecisionMode_def default_mode_def)
  obtain r where r: "decision_on_message x s env = Ok r" "resolves r"
    using step_resolves_plain [OF due assms(1)] by (auto simp: DecisionMode_def default_mode_def)
  from r(1) assms(2) show ?thesis
  proof (cases rule: decision_dispatch)
    case (handled st')
    then show ?thesis using r(2) by simp
  next
    case committed
    obtain c where c: "validate_commitment_payload_for_session x s (e_payload env) = Inr c"
      "enforce_commitment_policy x s (CM_Decision st) (cp_outcome_positive c) = Inr ()"
      using Decision_Mode.handle_commitment_facts(3) [OF committed(2)] by blast
    then show ?thesis
      using that [OF c(1)] assms(3,4) by (simp add: enforce_ok_iff DefaultPolicyEvaluator_def)
  qed
qed

text \<open>What stands behind an outcome in the record of a Decision session.\<close>

definition voted :: "Session \<Rightarrow> DecisionState \<Rightarrow> string \<Rightarrow> bool" where
  "voted s st c \<longleftrightarrow> (\<exists>a \<in> set (s_participants s). \<exists>pid v. vote_of st pid a = Some v \<and> vo_vote v = c)"

definition backed ::
    "PolicyDefinition \<Rightarrow> DecisionPolicyRules \<Rightarrow> Session \<Rightarrow> DecisionState \<Rightarrow> bool \<Rightarrow> bool" where
  "backed p d s st outcome_positive \<longleftrightarrow>
     (if outcome_positive then
        \<not> standing_veto (dr_objection_handling d) st \<and>
        (p_schema_version p < 3 \<or> voted s st ''APPROVE'')
      else
        voted s st ''REJECT'' \<or>
        oh_critical_objection_action (dr_objection_handling d) = FinalizeDecline \<and>
        (\<exists>o' \<in> set (ds_objections st). ob_severity o' = ''critical'' \<and>
           ob_sender o' \<in> set (s_participants s)))"

lemma authorized_backed:
  assumes auth: "authorized ee p d st (s_participants s) outcome_positive"
    and d: "sound_voting (dr_voting d)" "decision_value_domain_error d = None"
      "vr_algorithm (dr_voting d) \<noteq> ''none''"
    and inv: "deliberation_inv s st" "votes_inv s st"
  shows "backed p d s st outcome_positive"
proof (cases outcome_positive)
  case True
  then have pos: "authorized ee p d st (s_participants s) True" using auth by simp
  have "p_schema_version p < 3 \<or> 0 < votes_for ''APPROVE'' (ds_votes st)"
    using approval_backed [OF pos d(3)] approval_needs_approve [OF d(1,3), of "ds_votes st" "s_participants s"] by argo
  then show ?thesis
    using True veto_blocks_approval [OF pos] approve_recorded [OF inv(2)]
    by (auto simp: backed_def voted_def)
next
  case False
  then have "authorized ee p d st (s_participants s) False" using auth by simp
  then consider "dissent (dr_voting d) (ds_votes st)"
    | o' where "oh_critical_objection_action (dr_objection_handling d) = FinalizeDecline"
      "o' \<in> set (ds_objections st)" "ob_severity o' = ''critical''"
    using decline_backed [OF _ d(2,3)] by blast
  then show ?thesis
    using False dissent_recorded [OF inv(2)] inv(1)
    by cases (auto simp: backed_def voted_def deliberation_inv_def)
qed

lemma decision_resolves_loaded:
  assumes "step s env (DecisionMode x) now = (Ok (StepOutcome.Accepted Resolved syns), s')"
  obtains st where "load (dx_decode_state x) default_state s = Some st"
proof -
  have due: "m_due_synthetic_envelope (DecisionMode x) = default_due_synthetic_envelope"
    by (simp add: DecisionMode_def default_mode_def)
  obtain r where "decision_on_message x s env = Ok r"
    using step_resolves_plain [OF due assms] by (auto simp: DecisionMode_def default_mode_def)
  then have "load (dx_decode_state x) default_state s \<noteq> None"
    using decision_unreadable [of x s env] by auto
  then show thesis using that by blast
qed

text \<open>Claim C17. A Decision session governed by an admitted policy with a voting algorithm resolves
  only on the recorded votes and objections of its participants: a positive commitment means that
  no veto stands and, from schema version 3 on, that a participant's APPROVE is recorded; a
  negative one that a participant's REJECT is recorded or a critical objection finalizes the
  decline.\<close>

theorem governed_decision_is_backed:
  assumes reg: "registry_run rx exts reg" "resolve reg i = Inr p" "\<not> built_in p"
    and mode: "applies_to ''macp.mode.decision.v1'' (p_mode p)"
    and ev: "x_evaluator x = DefaultPolicyEvaluator ee" "ee_parsers ee = rx_parsers rx"
    and codec: "decision_codec_law x"
    and run: "driven (DecisionMode x) s" "s_policy_definition s = Some p"
    and st: "step s env (DecisionMode x) now = (Ok (StepOutcome.Accepted Resolved syns), s')"
  shows "\<exists>st d c. load (dx_decode_state x) default_state s = Some st \<and>
    parse_decision_rules (rx_parsers rx) (p_rules p) = Some d \<and>
    validate_commitment_payload_for_session x s (e_payload env) = Ok c \<and>
    (vr_algorithm (dr_voting d) \<noteq> ''none'' \<longrightarrow> backed p d s st (cp_outcome_positive c))"
proof -
  have "decision_codec x" by unfold_locales (rule codec)
  obtain st where ld: "load (dx_decode_state x) default_state s = Some st"
    by (rule decision_resolves_loaded [OF st])
  have "decision_inv s st" by (rule decision_codec.loaded_inv) fact+
  then have inv: "deliberation_inv s st" "votes_inv s st" by (simp_all add: decision_inv_def)
  obtain c where c: "validate_commitment_payload_for_session x s (e_payload env) = Ok c"
    and allow: "\<exists>rs. evaluate_decision_commitment_outcome ee p st (s_participants s) (cp_outcome_positive c)
      = Allow rs"
    by (rule decision_policy_consulted [OF st ld run(2) ev(1)])
  obtain d where d: "parse_decision_rules (rx_parsers rx) (p_rules p) = Some d" "sound_voting (dr_voting d)"
    using admitted_decision [OF admitted_content [OF resolved_admitted [OF reg]] mode] by blast
  have auth: "authorized ee p d st (s_participants s) (cp_outcome_positive c)"
    and dom: "decision_value_domain_error d = None"
    using allow d(1) ev(2) unfolding evaluate_decision_iff by auto
  show ?thesis using ld c d authorized_backed [OF auth d(2) dom _ inv] by blast
qed

theorem governed_decision_is_backed_witness:
  "backed majority_policy majority_rules governed_s2 decision_st2 True"
proof -
  have "load (dx_decode_state governed_decision) default_state governed_s2 = Some decision_st2"
    by (simp add: load_def governed_s2_def governed_decision_def example_decision_def)
  moreover have "parse_decision_rules (rx_parsers example_rx) (p_rules majority_policy) = Some majority_rules"
    by (simp add: example_rx_def example_parsers_def)
  moreover have "vr_algorithm (dr_voting majority_rules) \<noteq> ''none''" by (simp add: majority_rules_def)
  moreover have "applies_to dmode (p_mode majority_policy)"
    "x_evaluator governed_decision = DefaultPolicyEvaluator example_ee"
    "ee_parsers example_ee = rx_parsers example_rx"
    by (simp_all add: applies_to_def majority_policy_def governed_decision_def example_ee_def example_rx_def)
  ultimately show ?thesis
    using governed_decision_is_backed [OF example_registry_run majority_resolves majority_not_built_in
        _ _ _ governed_law governed_driven(3) governed_s2_bound(1) governed_step3, of example_ee]
    by (auto simp: governed_commitment example_commitment_def)
qed

lemma request_persists:
  assumes "Quorum_Mode.handle_request x s env st = Ok r"
  shows "\<not> resolves r"
  using assms
  by (auto simp: Quorum_Mode.handle_request_def res_simps Let_def
      split: if_splits ApprovalThreshold.splits)
     (metis ApprovalThreshold.exhaust)+

text \<open>Claim C19. A Quorum session governed by the default evaluator resolves only when its Commitment
  is ready, and positively only under its policy's threshold. Where the policy sets a threshold, the
  participants' approvals reach it, so the positive Commitment that an unreachable quorum would
  admit without a policy is refused. A policy that sets none, such as \<^verbatim>\<open>policy.default\<close>, does not
  gate the outcome: readiness then rests on the number of approvals the request itself asked for.\<close>

theorem governed_quorum_is_met:
  assumes "x_evaluator x = DefaultPolicyEvaluator ee" "quorum_codec_law x"
    and run: "driven (QuorumMode x) s" "s_policy_definition s = Some p"
    and st: "step s env (QuorumMode x) now = (Ok (StepOutcome.Accepted Resolved syns), s')"
    and parsers: "ee_parsers ee = x_rules x"
  shows "\<exists>st request rules c. load (qx_decode_state x) default_QuorumState s = Some st \<and>
    qs_request st = Some request \<and> Quorum_Mode.commitment_ready x s st \<and>
    parse_quorum_rules (ee_parsers ee) (p_rules p) = Some rules \<and>
    validate_commitment_payload_for_session x s (e_payload env) = Ok c \<and>
    (cp_outcome_positive c \<longrightarrow>
       (case effective (qpr_threshold rules) (length (s_participants s)) of
          EffectiveThreshold.Inert \<Rightarrow>
            effective_threshold x s request = Approvals (ar_required_approvals request)
        | EffectiveThreshold.Approvals k \<Rightarrow>
            k \<le> card {a \<in> set (s_participants s). \<exists>b. bt_get (qs_ballots st) a = Some b \<and>
                     br_choice b = Approve}
        | EffectiveThreshold.Unsatisfiable \<Rightarrow> False))"
proof -
  have "quorum_codec x" by unfold_locales (rule assms(2))
  then obtain st where ld: "load (qx_decode_state x) default_QuorumState s = Some st"
    and inv: "ballot_inv s st"
    using quorum_codec.driven_state [OF _ run(1)] by (auto simp: quorum_inv_def)
  have due: "m_due_synthetic_envelope (QuorumMode x) = default_due_synthetic_envelope"
    by (simp add: QuorumMode_def default_mode_def)
  obtain r where r: "quorum_on_message x s env = Ok r" "resolves r"
    using step_resolves_plain [OF due st] by (auto simp: QuorumMode_def default_mode_def)
  have "Quorum_Mode.handle_commitment x s env st = Ok r"
    using r request_persists [of x s env st r]
    by (auto simp: quorum_on_message_def load_result ld handle_ballot_def res_simps Let_def
        split: if_splits)
  then obtain c where c: "validate_commitment_payload_for_session x s (e_payload env) = Ok c"
    and ready: "Quorum_Mode.commitment_ready x s st"
    and "enforce_commitment_policy x s (CM_Quorum (count_ballots Approve st) (count_ballots Reject st)
      (count_ballots Abstain st)) (cp_outcome_positive c) = Ok ()"
    by (auto simp: Quorum_Mode.handle_commitment_def res_simps)
  then have "\<exists>rs. evaluate_quorum_commitment_outcome ee p (count_ballots Approve st) (count_ballots Reject st)
      (count_ballots Abstain st) (length (s_participants s)) (cp_outcome_positive c) = Allow rs"
    using run(2) assms(1) by (simp add: enforce_ok_iff DefaultPolicyEvaluator_def)
  then obtain rules where rules: "parse_quorum_rules (ee_parsers ee) (p_rules p) = Some rules"
   and
    "cp_outcome_positive c \<longrightarrow> (case effective (qpr_threshold rules) (length (s_participants s)) of
       EffectiveThreshold.Inert \<Rightarrow> True | EffectiveThreshold.Approvals k \<Rightarrow> k \<le> count_ballots Approve st | EffectiveThreshold.Unsatisfiable \<Rightarrow> False)"
    unfolding evaluate_quorum_iff by blast
  moreover have "{a. \<exists>b. bt_get (qs_ballots st) a = Some b \<and> br_choice b = Approve}
      = {a \<in> set (s_participants s). \<exists>b. bt_get (qs_ballots st) a = Some b \<and> br_choice b = Approve}"
    using inv by (auto simp: ballot_inv_def)
  then have "count_ballots Approve st
      = card {a \<in> set (s_participants s). \<exists>b. bt_get (qs_ballots st) a = Some b \<and> br_choice b = Approve}"
    using count_card [of st Approve] inv by (simp add: ballot_inv_def)
  moreover obtain request where "qs_request st = Some request"
    using ready by (auto simp: Quorum_Mode.commitment_ready_def split: option.splits)
  moreover have "effective_threshold x s request = Approvals (ar_required_approvals request)"
    if "effective (qpr_threshold rules) (length (s_participants s)) = EffectiveThreshold.Inert"
    using that rules run(2) parsers by (simp add: effective_threshold_def quorum_rules_def unwrap_or_def)
  ultimately show ?thesis using ld c ready rules
    by (intro exI conjI) (auto split: EffectiveThreshold.splits)
qed

theorem governed_quorum_is_met_witness:
  "2 \<le> card {a \<in> {''alice'', ''bob''}. \<exists>b. bt_get (qs_ballots both_approved) a = Some b \<and>
     br_choice b = Approve}"
proof -
  have p: "parse_quorum_rules (ee_parsers example_ee) (p_rules majority_policy) = Some pair_rules"
    and same: "ee_parsers example_ee = x_rules governed_quorum"
    by (simp_all add: example_ee_def example_parsers_def governed_quorum_fields)
  show ?thesis
    using governed_quorum_is_met [OF governed_quorum_fields(6) governed_quorum_law governed_q_driven
        governed_q3_bound(1) governed_q_step4 same] p
    by (auto simp: governed_q3_bound governed_q_commitment example_commitment_def pair_threshold)
qed

text \<open>Claim C40. Unreachability is not refused as a positive outcome: in a Quorum session bound to no
  policy, or under the default evaluator to one that sets no threshold such as
  \<^verbatim>\<open>policy.default\<close>, once no further ballots could reach the approvals the request asked for, a
  valid Commitment of an authorized sender that claims a positive outcome is accepted and resolves
  the session.\<close>

theorem unreachable_quorum_commits_positive:
  assumes law: "quorum_codec_law x" and run: "driven (QuorumMode x) s"
    and parts: "distinct (s_participants s)" "length (s_participants s) < 2 ^ 32"
    and st: "load (qx_decode_state x) default_QuorumState s = Some st" "qs_request st = Some request"
    and stuck: "\<not> can_reach s st (ar_required_approvals request)"
    and gate: "s_policy_definition s = None \<or> (\<exists>p rules ee. s_policy_definition s = Some p \<and>
      p_schema_version p \<in> {1, 2, 3} \<and> parse_quorum_rules (x_rules x) (p_rules p) = Some rules \<and>
      effective (qpr_threshold rules) (length (s_participants s)) = EffectiveThreshold.Inert \<and>
      x_evaluator x = DefaultPolicyEvaluator ee \<and> ee_parsers ee = x_rules x)"
    and env: "check_preconditions s env now = Ok PcProceed" "e_message_type env = ''Commitment''"
      "check_commitment_authority x s (e_sender env) = Ok ()"
    and c: "validate_commitment_payload_for_session x s (e_payload env) = Ok c" "cp_outcome_positive c"
  shows "\<exists>s'. step s env (QuorumMode x) now = (Ok (StepOutcome.Accepted Resolved []), s') \<and>
    s_state s' = Resolved \<and> s_resolution s' = Some (e_payload env)"
proof -
  let ?r = "PersistAndResolve (qx_encode_state x st) (e_payload env)"
  have "quorum_codec x" by unfold_locales (rule law)
  then have inv: "ballot_inv s st"
    using quorum_codec.driven_state [OF _ run] st(1) by (auto simp: quorum_inv_def)
  have "effective_threshold x s request = Approvals (ar_required_approvals request)"
    using gate by (auto simp: effective_threshold_def quorum_rules_def unwrap_or_def)
  then have ready: "Quorum_Mode.commitment_ready x s st"
    using ready_iff [OF inv parts st(2)] stuck by blast
  have "\<exists>rs. x_evaluator x \<lparr>cc_policy = p, cc_participants = s_participants s, cc_outcome_positive = True,
      cc_mode = CM_Quorum a b n\<rparr> = Allow rs" if "s_policy_definition s = Some p" for p a b n
    using gate that evaluate_quorum_iff [of _ p a b n "length (s_participants s)" True]
    by (auto simp: DefaultPolicyEvaluator_def)
  then have "enforce_commitment_policy x s (CM_Quorum a b n) True = Ok ()" for a b n
    by (simp add: enforce_ok_iff)
  then have "quorum_on_message x s env = Ok ?r"
    using env(2) c ready by (simp add: quorum_on_message_def load_result st(1) Quorum_Mode.handle_commitment_def)
  then have "step s env (QuorumMode x) now
      = (Ok (StepOutcome.Accepted (s_state (apply_mode_response ?r s)) []), snd (commit s env ?r now))"
    using env by (intro step_plain)
      (simp_all add: QuorumMode_def default_mode_def admit_def dispatch_def quorum_authorize_sender_def
        default_validate_client_envelope_def)
  then show ?thesis by (simp add: commit_def Let_def)
qed

lemma one_rejection_unreachable:
  "\<not> can_reach quorum_r2 (quorum_st [(''bob'', ballot Reject ''bob'')]) 2"
proof
  let ?st = "quorum_st [(''bob'', ballot Reject ''bob'')]"
  have inv: "ballot_inv quorum_r2 ?st"
    by (simp add: ballot_inv_def quorum_st_def ballot_def quorum_r2_def quorum_s1_def quorum_s0_def bt_empty_def bt_invar_def)
  assume "can_reach quorum_r2 ?st 2"
  then obtain st' where st': "ballot_inv quorum_r2 st'" "extends ?st st'" "2 \<le> count_ballots Approve st'"
    unfolding can_reach_def by blast
  show False
    using reachable_bound [OF inv st'(1,2)] st'(3)
    by (simp add: quorum_r2_def quorum_s1_def quorum_s0_def quorum_st_def ballot_def count_ballots_def
        bt_values_def)
qed

theorem unreachable_quorum_commits_positive_witness:
  "\<exists>s'. step quorum_r2 (message qmode ''Commitment'' ''m3'' ''alice'' ''yes'') Q 2000
     = (Ok (StepOutcome.Accepted Resolved []), s') \<and> s_state s' = Resolved \<and> s_resolution s' = Some ''yes''"
proof -
  have "driven Q quorum_r2" by (rule driven_step [OF quorum_driven(2) quorum_reject])
  from unreachable_quorum_commits_positive [OF example_quorum_law this, where c = "example_commitment True"
      and st = "quorum_st [(''bob'', ballot Reject ''bob'')]" and request = quorum_request
      and env = "message qmode ''Commitment'' ''m3'' ''alice'' ''yes''" and now = 2000]
  show ?thesis
    using one_rejection_unreachable
    by (simp add: quorum_r2_def quorum_s1_def quorum_s0_def quorum_eval quorum_st_def quorum_request_def
        ballot_def load_def preconditions_proceed shape_ok_iff MACP_VERSION_def deadline_passed_def
        outcome_deploy [unfolded example_commitment_def] example_commitment_def)
qed

section \<open>The registry and the keys of rules\<close>

text \<open>Whatever is registered and removed, the registry keeps its built-in policies, hands
  out only built-in or validated policies under their own identifiers, resolves the empty version
  to the default policy and never replaces a registered definition.\<close>

theorem registry_invariant:
  assumes "registry_run rx exts reg"
  shows "(\<forall>p. built_in p \<longrightarrow> resolve reg (p_policy_id p) = Inr p) \<and> resolve reg [] = Inr default_policy \<and>
    (\<forall>i p. resolve reg i = Inr p \<longrightarrow> built_in p \<or> validate_definition rx reg p = Inr () \<and> p_policy_id p = i) \<and>
    (\<forall>p i q. pg_entries reg i = Some q \<longrightarrow> pg_entries (snd (register rx reg p)) i = Some q)"
proof -
  note inv = registry_run_inv [OF assms, unfolded registry_inv_def]
  have ne: "p_policy_id p \<noteq> []" if "built_in p" for p
    using built_in_cases [OF that] by (auto simp: DEFAULT_POLICY_ID_def STD_POLICY_PREFIX_def starts_with_def)
  have entry: "pg_entries reg (p_policy_id p) = Some p" if "built_in p" for p using inv that by blast
  have "resolve reg (p_policy_id p) = Inr p" if "built_in p" for p
    using ne [OF that] entry [OF that] by (simp add: resolve_def)
  moreover have "resolve reg [] = Inr default_policy"
    using entry [of default_policy] by (simp add: resolve_def built_in_def built_in_ids)
  moreover have "built_in p \<or> validate_definition rx reg p = Inr () \<and> p_policy_id p = i"
    if "resolve reg i = Inr p" for i p
  proof (cases "i = []")
    case True
    then show ?thesis using that \<open>resolve reg [] = Inr default_policy\<close> by (simp add: built_in_def)
  next
    case False
    then have "pg_entries reg i = Some p" using that by (auto simp: resolve_def split: option.splits)
    then show ?thesis using inv by blast
  qed
  moreover have "pg_entries (snd (register rx reg p)) i = Some q" if "pg_entries reg i = Some q" for p i q
    using that by (auto simp: register_def split: sum.splits)
  ultimately show ?thesis by blast
qed

theorem registry_invariant_witness:
  "resolve example_registry [] = Inr default_policy \<and>
   validate_definition example_rx example_registry majority_policy = Inr ()"
  using registry_invariant [OF example_registry_run] majority_resolves majority_not_built_in by blast

text \<open>The walk over a policy's rule objects reports no violation exactly when every object
  the schema closes has only defined keys, annotation keys, and (at the top level, with an object as
  value) vendor extension keys.\<close>

theorem rule_keys_decided:
  assumes "json_wf rules"
  shows "closed_key_violation rules shapes = None \<longleftrightarrow> closed_rules True shapes rules"
  unfolding closed_key_violation_def by (rule walk_None_iff [OF assms])

theorem rule_keys_decided_witness:
  "\<not> closed_rules True [DECISION_RULES] (JObject [(''vote'', JNull)]) \<and>
   closed_rules True [DECISION_RULES] (JObject [(''voting'', JObject [])])"
proof -
  have "closed_key_violation (JObject [(''vote'', JNull)]) [DECISION_RULES] = Some (Undefined ''vote'')"
    "closed_key_violation (JObject [(''voting'', JObject [])]) [DECISION_RULES] = None"
    by code_simp+
  moreover have "json_wf (JObject [(''vote'', JNull)])" "json_wf (JObject [(''voting'', JObject [])])"
    by (simp_all add: bt_invar_def)
  ultimately show ?thesis using rule_keys_decided by (metis option.distinct(1))
qed

end
