(* ===== verification/Mode_Registry.thy ===== *)
theory Mode_Registry
  imports Policy_Registry Shipped_Modes
begin

text \<open>
  The mode registry, \<^verbatim>\<open>macp-modes/src/mode_registry.rs\<close>, with the descriptor tables of
  \<^verbatim>\<open>mode/mod.rs\<close>. The entries behind the lock are a map. A factory is the mode it creates; a provider
  is the value it provides. The change notification channel is not modelled.
\<close>

section \<open>Descriptors\<close>

record ModeDescriptor =
  md_mode :: string
  md_mode_version :: string
  md_title :: string
  md_description :: string
  md_determinism_class :: string
  md_participant_model :: string
  md_message_types :: "string list"
  md_terminal_message_types :: "string list"
  md_schema_uris :: "string \<rightharpoonup> string"

definition STANDARD_MODE_NAMES :: "string list" where
  "STANDARD_MODE_NAMES =
     [''macp.mode.decision.v1'', ''macp.mode.proposal.v1'', ''macp.mode.task.v1'',
      ''macp.mode.handoff.v1'', ''macp.mode.quorum.v1'']"

definition EXTENSION_MODE_NAMES :: "string list" where
  "EXTENSION_MODE_NAMES = [''ext.multi_round.v1'']"

definition schema_map :: "string \<Rightarrow> string \<rightharpoonup> string" where
  "schema_map path = [''protobuf'' \<mapsto> path]"

definition standard_mode_descriptors :: "ModeDescriptor list" where
  "standard_mode_descriptors =
     [\<lparr>md_mode = ''macp.mode.decision.v1'', md_mode_version = ''1.0.0'',
       md_title = ''Decision Mode'',
       md_description = ''Structured decision making with proposals, evaluations, objections, votes, and a terminal Commitment.'',
       md_determinism_class = ''semantic-deterministic'', md_participant_model = ''declared'',
       md_message_types = [''SessionStart'', ''Proposal'', ''Evaluation'', ''Objection'', ''Vote'',
         ''Commitment''],
       md_terminal_message_types = [''Commitment''],
       md_schema_uris = schema_map ''buf.build/multiagentcoordinationprotocol/macp''\<rparr>,
      \<lparr>md_mode = ''macp.mode.proposal.v1'', md_mode_version = ''1.0.0'',
       md_title = ''Proposal Mode'',
       md_description = ''Negotiation with proposals, counterproposals, accepts, rejects, withdrawals, and a terminal Commitment.'',
       md_determinism_class = ''semantic-deterministic'', md_participant_model = ''peer'',
       md_message_types = [''SessionStart'', ''Proposal'', ''CounterProposal'', ''Accept'', ''Reject'',
         ''Withdraw'', ''Commitment''],
       md_terminal_message_types = [''Commitment''],
       md_schema_uris = schema_map ''buf.build/multiagentcoordinationprotocol/macp''\<rparr>,
      \<lparr>md_mode = ''macp.mode.task.v1'', md_mode_version = ''1.0.0'',
       md_title = ''Task Mode'',
       md_description = ''One bounded delegated task with assignee responses, progress, completion/failure reports, and a terminal Commitment.'',
       md_determinism_class = ''structural-only'', md_participant_model = ''orchestrated'',
       md_message_types = [''SessionStart'', ''TaskRequest'', ''TaskAccept'', ''TaskReject'',
         ''TaskUpdate'', ''TaskComplete'', ''TaskFail'', ''Commitment''],
       md_terminal_message_types = [''Commitment''],
       md_schema_uris = schema_map ''buf.build/multiagentcoordinationprotocol/macp''\<rparr>,
      \<lparr>md_mode = ''macp.mode.handoff.v1'', md_mode_version = ''1.0.0'',
       md_title = ''Handoff Mode'',
       md_description = ''Scoped responsibility transfer with handoff offers, context, target responses, and a terminal Commitment.'',
       md_determinism_class = ''context-frozen'', md_participant_model = ''delegated'',
       md_message_types = [''SessionStart'', ''HandoffOffer'', ''HandoffContext'', ''HandoffAccept'',
         ''HandoffDecline'', ''Commitment''],
       md_terminal_message_types = [''Commitment''],
       md_schema_uris = schema_map ''buf.build/multiagentcoordinationprotocol/macp''\<rparr>,
      \<lparr>md_mode = ''macp.mode.quorum.v1'', md_mode_version = ''1.0.0'',
       md_title = ''Quorum Mode'',
       md_description = ''Threshold approval with one approval request, participant ballots, and a terminal Commitment.'',
       md_determinism_class = ''semantic-deterministic'', md_participant_model = ''quorum'',
       md_message_types = [''SessionStart'', ''ApprovalRequest'', ''Approve'', ''Reject'', ''Abstain'',
         ''Commitment''],
       md_terminal_message_types = [''Commitment''],
       md_schema_uris = schema_map ''buf.build/multiagentcoordinationprotocol/macp''\<rparr>]"

definition extension_mode_descriptors :: "ModeDescriptor list" where
  "extension_mode_descriptors =
     [\<lparr>md_mode = ''ext.multi_round.v1'', md_mode_version = ''1.0.0'',
       md_title = ''Multi-Round Mode'',
       md_description = ''Iterative convergence through multiple contribution rounds until all participants agree, with a terminal Commitment.'',
       md_determinism_class = ''semantic-deterministic'', md_participant_model = ''peer'',
       md_message_types = [''SessionStart'', ''Contribute'', ''Commitment''],
       md_terminal_message_types = [''Commitment''],
       md_schema_uris = schema_map ''buf.build/multiagentcoordinationprotocol/macp''\<rparr>]"

definition all_mode_descriptors_static :: "ModeDescriptor list" where
  "all_mode_descriptors_static = standard_mode_descriptors @ extension_mode_descriptors"

section \<open>Registrations\<close>

record ModeConformanceCatalog =
  mc_fixture_set_name :: string
  mc_golden_transcript_paths :: "string list"
  mc_conformance_fixture_paths :: "string list"

definition default_ModeConformanceCatalog :: ModeConformanceCatalog where
  "default_ModeConformanceCatalog = \<lparr>mc_fixture_set_name = [], mc_golden_transcript_paths = [],
     mc_conformance_fixture_paths = []\<rparr>"

record ModeRegistration =
  mr_mode_name :: string
  mr_factory :: Mode
  mr_descriptor_provider :: "ModeDescriptor option"
  mr_schema_provider :: "string \<rightharpoonup> string"
  mr_conformance_provider :: ModeConformanceCatalog
  mr_standards_track :: bool
  mr_builtin :: bool
  mr_strict_session_start :: bool

type_synonym mode_entries = "string \<rightharpoonup> ModeRegistration"

definition registration_descriptor :: "ModeRegistration \<Rightarrow> ModeDescriptor option" where
  "registration_descriptor r =
     map_option (\<lambda>d. d\<lparr>md_mode := mr_mode_name r, md_schema_uris := mr_schema_provider r\<rparr>)
       (mr_descriptor_provider r)"

definition conformance_catalog :: "ModeRegistration \<Rightarrow> ModeConformanceCatalog" where
  "conformance_catalog r = mr_conformance_provider r"

definition insert_builtin ::
    "mode_entries \<Rightarrow> string \<Rightarrow> Mode \<Rightarrow> ModeDescriptor option \<Rightarrow> bool \<Rightarrow> bool \<Rightarrow> string \<Rightarrow>
     string list \<Rightarrow> string list \<Rightarrow> mode_entries" where
  "insert_builtin entries name factory descriptor standards_track strict_session_start
       fixture_set_name golden_transcripts conformance_fixtures =
     entries(name \<mapsto>
       \<lparr>mr_mode_name = name, mr_factory = factory, mr_descriptor_provider = descriptor,
        mr_schema_provider = unwrap_or Map.empty (map_option md_schema_uris descriptor),
        mr_conformance_provider = \<lparr>mc_fixture_set_name = fixture_set_name,
          mc_golden_transcript_paths = golden_transcripts,
          mc_conformance_fixture_paths = conformance_fixtures\<rparr>,
        mr_standards_track = standards_track, mr_builtin = True,
        mr_strict_session_start = strict_session_start\<rparr>)"

text \<open>The codecs of the shipped modes.\<close>

record shipped_ext =
  sh_decision :: decision_ext
  sh_proposal :: proposal_ext
  sh_task :: task_ext
  sh_handoff :: handoff_ext
  sh_quorum :: quorum_ext
  sh_multi_round :: multi_round_ext
  sh_passthrough :: passthrough_ext

definition descriptor_of :: "string \<Rightarrow> ModeDescriptor option" where
  "descriptor_of name = find (\<lambda>d. md_mode d = name) all_mode_descriptors_static"

definition build_default :: "shipped_ext \<Rightarrow> PolicyEvaluator \<Rightarrow> mode_entries" where
  "build_default sh evaluator =
     (let entries = Map.empty;
          entries = insert_builtin entries ''macp.mode.decision.v1''
            (DecisionMode ((sh_decision sh)\<lparr>x_evaluator := evaluator\<rparr>))
            (descriptor_of ''macp.mode.decision.v1'') True True ''decision''
            [''tests/conformance/decision_happy_path.json'']
            [''tests/conformance/decision_happy_path.json'', ''tests/conformance/decision_reject_paths.json''];
          entries = insert_builtin entries ''macp.mode.proposal.v1''
            (ProposalMode ((sh_proposal sh)\<lparr>x_evaluator := evaluator\<rparr>))
            (descriptor_of ''macp.mode.proposal.v1'') True True ''proposal''
            [''tests/conformance/proposal_happy_path.json'']
            [''tests/conformance/proposal_happy_path.json'', ''tests/conformance/proposal_reject_paths.json''];
          entries = insert_builtin entries ''macp.mode.task.v1''
            (TaskMode ((sh_task sh)\<lparr>x_evaluator := evaluator\<rparr>))
            (descriptor_of ''macp.mode.task.v1'') True True ''task''
            [''tests/conformance/task_happy_path.json'']
            [''tests/conformance/task_happy_path.json'', ''tests/conformance/task_reject_paths.json''];
          entries = insert_builtin entries ''macp.mode.handoff.v1''
            (HandoffMode ((sh_handoff sh)\<lparr>x_evaluator := evaluator\<rparr>))
            (descriptor_of ''macp.mode.handoff.v1'') True True ''handoff''
            [''tests/conformance/handoff_happy_path.json'']
            [''tests/conformance/handoff_happy_path.json'', ''tests/conformance/handoff_reject_paths.json''];
          entries = insert_builtin entries ''macp.mode.quorum.v1''
            (QuorumMode ((sh_quorum sh)\<lparr>x_evaluator := evaluator\<rparr>))
            (descriptor_of ''macp.mode.quorum.v1'') True True ''quorum''
            [''tests/conformance/quorum_happy_path.json'']
            [''tests/conformance/quorum_happy_path.json'', ''tests/conformance/quorum_reject_paths.json'']
      in insert_builtin entries ''ext.multi_round.v1'' (MultiRoundMode (sh_multi_round sh))
           (descriptor_of ''ext.multi_round.v1'') False True ''multi_round''
           [''tests/conformance/multi_round_happy_path.json'']
           [''tests/conformance/multi_round_happy_path.json'',
            ''tests/conformance/multi_round_reject_paths.json''])"

section \<open>Queries\<close>

definition is_standard_mode :: "mode_entries \<Rightarrow> string \<Rightarrow> bool" where
  "is_standard_mode entries name = (case entries name of None \<Rightarrow> False | Some e \<Rightarrow> mr_standards_track e)"

definition registry_names :: "mode_entries \<Rightarrow> string list" where
  "registry_names entries = sorted_list_of_set (dom entries)"

definition ordered_standard_names :: "mode_entries \<Rightarrow> string list" where
  "ordered_standard_names entries =
     filter (is_standard_mode entries) STANDARD_MODE_NAMES @
     filter (\<lambda>name. is_standard_mode entries name \<and> name \<notin> set STANDARD_MODE_NAMES)
       (registry_names entries)"

definition extension_names :: "mode_entries \<Rightarrow> string list" where
  "extension_names entries = filter (\<lambda>name. \<not> is_standard_mode entries name) (registry_names entries)"

definition descriptors_at :: "mode_entries \<Rightarrow> string list \<Rightarrow> ModeDescriptor list" where
  "descriptors_at entries names =
     List.map_filter (\<lambda>name. Option.bind (entries name) registration_descriptor) names"

definition registry_standard_descriptors :: "mode_entries \<Rightarrow> ModeDescriptor list" where
  "registry_standard_descriptors entries = descriptors_at entries (ordered_standard_names entries)"

definition registry_extension_descriptors :: "mode_entries \<Rightarrow> ModeDescriptor list" where
  "registry_extension_descriptors entries =
     sort_key md_mode (descriptors_at entries (extension_names entries))"

definition all_mode_descriptors :: "mode_entries \<Rightarrow> ModeDescriptor list" where
  "all_mode_descriptors entries = sort_key md_mode (descriptors_at entries (registry_names entries))"

definition all_mode_conformance :: "mode_entries \<Rightarrow> (string \<times> ModeConformanceCatalog) list" where
  "all_mode_conformance entries =
     map (\<lambda>name. (name, conformance_catalog (the (entries name)))) (registry_names entries)"

definition registry_requires_strict :: "mode_entries \<Rightarrow> string \<Rightarrow> bool" where
  "registry_requires_strict entries name =
     (case entries name of None \<Rightarrow> False | Some e \<Rightarrow> mr_strict_session_start e)"

definition get_mode_version :: "mode_entries \<Rightarrow> string \<Rightarrow> string option" where
  "get_mode_version entries name =
     (case Option.bind (entries name) registration_descriptor of
        None \<Rightarrow> None
      | Some d \<Rightarrow> if md_mode_version d \<noteq> [] then Some (md_mode_version d) else None)"

text \<open>\<^verbatim>\<open>get_mode(name)?.instantiate()\<close>.\<close>

definition instantiate :: "mode_entries \<Rightarrow> string \<Rightarrow> Mode result" where
  "instantiate entries name = ok_or (map_option mr_factory (entries name)) UnknownMode"

section \<open>Dynamic registration\<close>

fun check_terminals :: "ModeDescriptor \<Rightarrow> string list \<Rightarrow> unit checked" where
  "check_terminals d [] = Inr ()"
| "check_terminals d (terminal # rest) =
     check_then (refuse_if (terminal \<noteq> ''Commitment'')
       [Lit (''dynamically registered modes resolve only on '' @ quote @ ''Commitment'' @ quote @
             ''; terminal message type '' @ quote), FmtStr terminal,
        Lit (quote @ '' would never terminate a session'')]) (\<lambda>_.
     check_then (refuse_if (terminal \<notin> set (md_message_types d))
       [Lit (''terminal message type '' @ quote), FmtStr terminal,
        Lit (quote @ '' must also appear in message_types'')]) (\<lambda>_.
     check_terminals d rest))"

definition validate_extension_descriptor :: "ModeDescriptor \<Rightarrow> unit checked" where
  "validate_extension_descriptor d =
     check_then (refuse_if (blank (md_mode d)) [Lit ''mode name must not be empty'']) (\<lambda>_.
     check_then (refuse_if (starts_with (md_mode d) ''macp.mode.'')
       [Lit ''cannot register extension with reserved macp.mode.* namespace'']) (\<lambda>_.
     check_then (refuse_if (md_message_types d = [])
       [Lit ''extension descriptor must declare at least one message type'']) (\<lambda>_.
     check_then (refuse_if (blank (md_mode_version d))
       [Lit ''extension descriptor must bind mode_version'']) (\<lambda>_.
     check_then (refuse_if (md_terminal_message_types d = [])
       [Lit ''extension descriptor must declare at least one terminal message type'']) (\<lambda>_.
     check_terminals d (md_terminal_message_types d))))))"

definition register_extension ::
    "shipped_ext \<Rightarrow> mode_entries \<Rightarrow> ModeDescriptor \<Rightarrow> unit checked \<times> mode_entries" where
  "register_extension sh entries d =
     (case validate_extension_descriptor d of
        Inl e \<Rightarrow> (Inl e, entries)
      | Inr _ \<Rightarrow>
          let name = md_mode d;
              allowed_types = filter (\<lambda>t. t \<noteq> ''SessionStart'') (md_message_types d)
          in if entries name \<noteq> None then
               (Inl [Lit (''mode '' @ quote), FmtStr name, Lit (quote @ '' is already registered'')], entries)
             else
               (Inr (), entries(name \<mapsto>
                  \<lparr>mr_mode_name = name, mr_factory = PassthroughMode (sh_passthrough sh) allowed_types,
                   mr_descriptor_provider = Some d, mr_schema_provider = md_schema_uris d,
                   mr_conformance_provider = default_ModeConformanceCatalog,
                   mr_standards_track = False, mr_builtin = False,
                   mr_strict_session_start = False\<rparr>)))"

definition unregister_extension :: "mode_entries \<Rightarrow> string \<Rightarrow> unit checked \<times> mode_entries" where
  "unregister_extension entries mode =
     (case entries mode of
        None \<Rightarrow> (Inl [Lit (''mode '' @ quote), FmtStr mode, Lit (quote @ '' not found'')], entries)
      | Some e \<Rightarrow>
          if mr_builtin e then
            (Inl [Lit (''cannot unregister built-in mode '' @ quote), FmtStr mode, Lit quote], entries)
          else if mr_standards_track e then
            (Inl [Lit (''cannot unregister standards-track mode '' @ quote), FmtStr mode, Lit quote], entries)
          else (Inr (), entries(mode := None)))"

definition promote_mode ::
    "mode_entries \<Rightarrow> string \<Rightarrow> string option \<Rightarrow> string checked \<times> mode_entries" where
  "promote_mode entries mode new_name =
     (case entries mode of
        None \<Rightarrow> (Inl [Lit (''mode '' @ quote), FmtStr mode, Lit (quote @ '' not found'')], entries)
      | Some e \<Rightarrow>
          if mr_standards_track e then
            (Inl [Lit (''mode '' @ quote), FmtStr mode, Lit (quote @ '' is already standards-track'')], entries)
          else
            (let final_name = unwrap_or mode new_name in
             if final_name \<noteq> mode \<and> starts_with final_name ''macp.mode.'' then
               (Inl [Lit (''cannot promote '' @ quote), FmtStr mode,
                     Lit (quote @ '' into the reserved macp.mode.* namespace'')], entries)
             else if blank final_name then
               (Inl [Lit ''promotion target name must not be empty''], entries)
             else if final_name \<noteq> mode \<and> entries final_name \<noteq> None then
               (Inl [Lit (''cannot promote: target name '' @ quote), FmtStr final_name,
                     Lit (quote @ '' already exists'')], entries)
             else
               (Inr final_name,
                (entries(mode := None))(final_name \<mapsto>
                  e\<lparr>mr_standards_track := True, mr_strict_session_start := True,
                    mr_mode_name := final_name\<rparr>))))"

section \<open>Every registry in use is sound\<close>

inductive mode_registry_run :: "shipped_ext \<Rightarrow> PolicyEvaluator \<Rightarrow> mode_entries \<Rightarrow> bool" for sh ev where
  modes_default: "mode_registry_run sh ev (build_default sh ev)"
| modes_register: "mode_registry_run sh ev m \<Longrightarrow> mode_registry_run sh ev (snd (register_extension sh m d))"
| modes_unregister: "mode_registry_run sh ev m \<Longrightarrow> mode_registry_run sh ev (snd (unregister_extension m i))"
| modes_promote: "mode_registry_run sh ev m \<Longrightarrow> mode_registry_run sh ev (snd (promote_mode m i j))"

definition sound_entry :: "string \<Rightarrow> ModeRegistration \<Rightarrow> bool" where
  "sound_entry name e \<longleftrightarrow> mr_mode_name e = name \<and> shipped_mode (mr_factory e) \<and>
     (mr_standards_track e \<longrightarrow> mr_strict_session_start e) \<and>
     (\<exists>d. mr_descriptor_provider e = Some d \<and> \<not> blank (md_mode_version d) \<and>
        md_terminal_message_types d \<noteq> [] \<and> set (md_terminal_message_types d) \<subseteq> {''Commitment''} \<and>
        ''Commitment'' \<in> set (md_message_types d)) \<and>
     (starts_with name ''macp.mode.'' \<longrightarrow> mr_builtin e \<and> mr_standards_track e)"

definition mode_registry_inv :: "shipped_ext \<Rightarrow> PolicyEvaluator \<Rightarrow> mode_entries \<Rightarrow> bool" where
  "mode_registry_inv sh ev m \<longleftrightarrow> finite (dom m) \<and> (\<forall>name e. m name = Some e \<longrightarrow> sound_entry name e) \<and>
     (\<forall>name \<in> set STANDARD_MODE_NAMES. m name = build_default sh ev name)"

lemma standard_names:
  "name \<in> set STANDARD_MODE_NAMES \<longleftrightarrow> name = ''macp.mode.decision.v1'' \<or> name = ''macp.mode.proposal.v1'' \<or>
     name = ''macp.mode.task.v1'' \<or> name = ''macp.mode.handoff.v1'' \<or> name = ''macp.mode.quorum.v1''"
  by (auto simp: STANDARD_MODE_NAMES_def)

lemma standard_reserved: "name \<in> set STANDARD_MODE_NAMES \<Longrightarrow> starts_with name ''macp.mode.''"
  by (auto simp: STANDARD_MODE_NAMES_def starts_with_def)

lemma descriptor_terminals:
  assumes "name \<in> set (STANDARD_MODE_NAMES @ EXTENSION_MODE_NAMES)"
  shows "\<exists>d. descriptor_of name = Some d \<and> md_mode_version d = ''1.0.0'' \<and>
    md_terminal_message_types d = [''Commitment''] \<and> ''Commitment'' \<in> set (md_message_types d)"
  using assms
  by (auto simp: STANDARD_MODE_NAMES_def EXTENSION_MODE_NAMES_def descriptor_of_def
      all_mode_descriptors_static_def standard_mode_descriptors_def extension_mode_descriptors_def)

lemma version_not_blank: "\<not> blank ''1.0.0''"
  by (simp add: printable_not_blank)

lemma builtin_sound:
  assumes "m name = Some e" "\<forall>n e. m0 n = Some e \<longrightarrow> sound_entry n e"
    and "m = insert_builtin m0 n M (descriptor_of n) st True f g c"
    and "n \<in> set (STANDARD_MODE_NAMES @ EXTENSION_MODE_NAMES)" "shipped_mode M"
    and "starts_with n ''macp.mode.'' \<longrightarrow> st"
  shows "sound_entry name e"
proof (cases "name = n")
  case True
  obtain d where "descriptor_of n = Some d" "md_mode_version d = ''1.0.0''"
    "md_terminal_message_types d = [''Commitment'']" "''Commitment'' \<in> set (md_message_types d)"
    using descriptor_terminals [OF assms(4)] by blast
  then show ?thesis
    using True assms(1,3,5,6) version_not_blank by (auto simp: insert_builtin_def sound_entry_def)
next
  case False
  then show ?thesis using assms(1,2,3) by (simp add: insert_builtin_def)
qed

lemma shippedI: "standard_mode b M \<Longrightarrow> shipped_mode M" "extension_mode b M \<Longrightarrow> shipped_mode M"
  by (auto simp: shipped_mode_def)

lemmas shipped_intros = shippedI(1) [OF std_decision] shippedI(1) [OF std_proposal]
  shippedI(1) [OF std_task] shippedI(1) [OF std_handoff] shippedI(1) [OF std_quorum]
  shippedI(2) [OF ext_multi_round] shippedI(2) [OF ext_passthrough]

lemma shipped_builtin:
  assumes "handoff_codec_law (sh_handoff sh)"
  shows "shipped_mode (DecisionMode ((sh_decision sh)\<lparr>x_evaluator := ev\<rparr>))"
    "shipped_mode (ProposalMode ((sh_proposal sh)\<lparr>x_evaluator := ev\<rparr>))"
    "shipped_mode (TaskMode ((sh_task sh)\<lparr>x_evaluator := ev\<rparr>))"
    "shipped_mode (HandoffMode ((sh_handoff sh)\<lparr>x_evaluator := ev\<rparr>))"
    "shipped_mode (QuorumMode ((sh_quorum sh)\<lparr>x_evaluator := ev\<rparr>))"
    "shipped_mode (MultiRoundMode (sh_multi_round sh))" "shipped_mode (PassthroughMode (sh_passthrough sh) allowed)"
  using assms by (auto simp: handoff_codec_law_def intro!: shipped_intros)

lemma builtin_adds:
  assumes "\<forall>n e. m n = Some e \<longrightarrow> sound_entry n e" "n \<in> set (STANDARD_MODE_NAMES @ EXTENSION_MODE_NAMES)"
    and "shipped_mode M" "starts_with n ''macp.mode.'' \<longrightarrow> st"
  shows "\<forall>n' e. insert_builtin m n M (descriptor_of n) st True f g c n' = Some e \<longrightarrow> sound_entry n' e"
  using builtin_sound [OF _ assms(1) refl assms(2,3,4)] by blast

lemma sound_default:
  assumes "handoff_codec_law (sh_handoff sh)"
  shows "\<forall>name e. build_default sh ev name = Some e \<longrightarrow> sound_entry name e"
  unfolding build_default_def Let_def
  by (intro builtin_adds shipped_builtin [OF assms])
     (simp_all add: STANDARD_MODE_NAMES_def EXTENSION_MODE_NAMES_def starts_with_def)

lemma build_default_dom: "dom (build_default sh ev) = set (STANDARD_MODE_NAMES @ EXTENSION_MODE_NAMES)"
  unfolding build_default_def Let_def insert_builtin_def STANDARD_MODE_NAMES_def EXTENSION_MODE_NAMES_def
  by (simp add: insert_commute)

lemma default_mode_inv:
  "handoff_codec_law (sh_handoff sh) \<Longrightarrow> mode_registry_inv sh ev (build_default sh ev)"
  using sound_default [of sh ev] by (simp add: mode_registry_inv_def build_default_dom)

lemma terminals_checked:
  "check_terminals d ts = Inr () \<longleftrightarrow>
     set ts \<subseteq> {''Commitment''} \<and> (ts \<noteq> [] \<longrightarrow> ''Commitment'' \<in> set (md_message_types d))"
  by (induction d ts rule: check_terminals.induct) (auto simp: checked_simps)

lemma register_mode_inv:
  assumes "handoff_codec_law (sh_handoff sh)" "mode_registry_inv sh ev m"
  shows "mode_registry_inv sh ev (snd (register_extension sh m d))"
proof (cases "validate_extension_descriptor d = Inr () \<and> m (md_mode d) = None")
  case True
  have d: "\<not> blank (md_mode_version d)" "\<not> starts_with (md_mode d) ''macp.mode.''"
    "md_terminal_message_types d \<noteq> []" "set (md_terminal_message_types d) \<subseteq> {''Commitment''}"
    "''Commitment'' \<in> set (md_message_types d)"
    using True by (auto simp: validate_extension_descriptor_def checked_simps terminals_checked)
  then have "md_mode d \<notin> set STANDARD_MODE_NAMES" using standard_reserved by blast
  then show ?thesis
    using assms(2) True d shipped_builtin(7) [OF assms(1)]
    by (auto simp: register_extension_def Let_def mode_registry_inv_def sound_entry_def)
next
  case False
  then have "snd (register_extension sh m d) = m"
    by (auto simp: register_extension_def Let_def split: sum.splits)
  then show ?thesis using assms(2) by simp
qed

lemma unregister_mode_inv:
  assumes "mode_registry_inv sh ev m"
  shows "mode_registry_inv sh ev (snd (unregister_extension m i))"
proof (cases "\<exists>e. m i = Some e \<and> \<not> mr_builtin e \<and> \<not> mr_standards_track e")
  case True
  then have "i \<notin> set STANDARD_MODE_NAMES"
    using assms standard_reserved by (auto simp: mode_registry_inv_def sound_entry_def)
  then show ?thesis
    using assms True by (auto simp: unregister_extension_def mode_registry_inv_def split: if_splits)
next
  case False
  then have "snd (unregister_extension m i) = m"
    by (auto simp: unregister_extension_def split: option.splits)
  then show ?thesis using assms by simp
qed

lemma promote_cases:
  obtains "snd (promote_mode m i j) = m"
  | e n where "m i = Some e" "\<not> mr_standards_track e" "n = i \<or> m n = None \<and> \<not> starts_with n ''macp.mode.''"
      "snd (promote_mode m i j) = (m(i := None))(n \<mapsto> e\<lparr>mr_standards_track := True,
         mr_strict_session_start := True, mr_mode_name := n\<rparr>)"
proof (cases "\<exists>e. m i = Some e \<and> \<not> mr_standards_track e \<and> \<not> blank (unwrap_or i j) \<and>
    (unwrap_or i j = i \<or> m (unwrap_or i j) = None \<and> \<not> starts_with (unwrap_or i j) ''macp.mode.'')")
  case True
  then show ?thesis
    using that(2) [of _ "unwrap_or i j"] by (auto simp: promote_mode_def Let_def)
next
  case False
  then have "snd (promote_mode m i j) = m"
    by (cases "m i") (auto simp: promote_mode_def Let_def)
  then show ?thesis by (rule that(1))
qed

lemma promote_mode_inv:
  assumes "mode_registry_inv sh ev m"
  shows "mode_registry_inv sh ev (snd (promote_mode m i j))"
proof (cases rule: promote_cases [of m i j])
  case 1
  then show ?thesis using assms by simp
next
  case (2 e n)
  have e: "sound_entry i e" using assms 2(1) by (simp add: mode_registry_inv_def)
  then have "\<not> starts_with i ''macp.mode.''" using 2(2) by (auto simp: sound_entry_def)
  then have n: "\<not> starts_with n ''macp.mode.''" "n \<notin> set STANDARD_MODE_NAMES" "i \<notin> set STANDARD_MODE_NAMES"
    using 2(3) standard_reserved by blast+
  have "sound_entry n (e\<lparr>mr_standards_track := True, mr_strict_session_start := True, mr_mode_name := n\<rparr>)"
    using e n(1) by (simp add: sound_entry_def)
  then show ?thesis
    using assms n unfolding 2(4) mode_registry_inv_def by auto
qed

lemma mode_registry_run_inv:
  assumes "mode_registry_run sh ev m" "handoff_codec_law (sh_handoff sh)"
  shows "mode_registry_inv sh ev m"
  using assms
  by (induction rule: mode_registry_run.induct)
     (auto intro: default_mode_inv register_mode_inv unregister_mode_inv promote_mode_inv)

end
