(* ===== verification/Log_Store.thy ===== *)
theory Log_Store
  imports Sessions
begin

text \<open>
  The session log of \<^verbatim>\<open>macp-storage/src/log_store.rs\<close> and the persisted form of a session of
  \<^verbatim>\<open>macp-storage/src/registry.rs\<close>. The map behind the store's lock is a map from session identifiers
  to entry lists. The deduplication set is stored as a vector in no particular order; only its
  elements are kept here.
\<close>

section \<open>Entries\<close>

datatype EntryKind = Incoming | Internal | Checkpoint

record LogEntry =
  le_message_id :: string
  le_received_at_ms :: i64
  le_sender :: string
  le_message_type :: string
  le_raw_payload :: bytes
  le_entry_kind :: EntryKind
  le_session_id :: string
  le_mode :: string
  le_macp_version :: string
  le_timestamp_unix_ms :: i64
  le_bound_mode_version :: "string option"
  le_semantics_rev :: u32
  le_bound_max_suspend_ms :: "i64 option"
  le_compacted_incoming_ordinals :: u64

section \<open>The store\<close>

type_synonym log_map = "string \<rightharpoonup> LogEntry list"

definition create_session_log :: "string \<Rightarrow> log_map \<Rightarrow> log_map" where
  "create_session_log session_id logs = logs(session_id \<mapsto> unwrap_or [] (logs session_id))"

definition log_append :: "string \<Rightarrow> LogEntry \<Rightarrow> log_map \<Rightarrow> log_map" where
  "log_append session_id e logs = logs(session_id \<mapsto> unwrap_or [] (logs session_id) @ [e])"

definition get_log :: "log_map \<Rightarrow> string \<Rightarrow> LogEntry list option" where
  "get_log logs session_id = logs session_id"

definition remove_session_log :: "string \<Rightarrow> log_map \<Rightarrow> log_map" where
  "remove_session_log session_id logs = logs(session_id := None)"

definition replace_session_log :: "string \<Rightarrow> LogEntry list \<Rightarrow> log_map \<Rightarrow> log_map" where
  "replace_session_log session_id entries logs = logs(session_id \<mapsto> entries)"

section \<open>Accepted ordinals\<close>

abbreviation incoming :: "LogEntry list \<Rightarrow> LogEntry list" where
  "incoming entries \<equiv> filter (\<lambda>e. le_entry_kind e = Incoming) entries"

definition compaction_base :: "LogEntry list \<Rightarrow> u64" where
  "compaction_base entries =
     fold max (map le_compacted_incoming_ordinals (filter (\<lambda>e. le_entry_kind e = Checkpoint) entries)) 0"

fun collect_incoming ::
    "u64 \<Rightarrow> LogEntry list \<Rightarrow> u64 \<Rightarrow> (u64 \<times> LogEntry) list \<Rightarrow> (u64 \<times> LogEntry) list \<times> u64" where
  "collect_incoming after_sequence [] high_water out = (out, high_water)"
| "collect_incoming after_sequence (e # es) high_water out =
     collect_incoming after_sequence es (high_water + 1)
       (if high_water + 1 > after_sequence then out @ [(high_water + 1, e)] else out)"

definition get_incoming_after_with_high_water ::
    "log_map \<Rightarrow> string \<Rightarrow> u64 \<Rightarrow> u64 + (u64 \<times> LogEntry) list \<times> u64" where
  "get_incoming_after_with_high_water logs session_id after_sequence =
     (case logs session_id of
        None \<Rightarrow> Inr ([], 0)
      | Some entries \<Rightarrow>
          (let base = compaction_base entries
           in if after_sequence < base then Inl base
              else Inr (collect_incoming after_sequence (incoming entries) base [])))"

definition get_incoming_after :: "log_map \<Rightarrow> string \<Rightarrow> u64 \<Rightarrow> u64 + (u64 \<times> LogEntry) list" where
  "get_incoming_after logs session_id after_sequence =
     map_sum id fst (get_incoming_after_with_high_water logs session_id after_sequence)"

text \<open>The entries with their ordinals: the n-th accepted entry after the base has ordinal base + n.\<close>

definition numbered :: "u64 \<Rightarrow> LogEntry list \<Rightarrow> (u64 \<times> LogEntry) list" where
  "numbered base es = zip [Suc base ..< Suc (base + length es)] es"

lemma length_numbered [simp]: "length (numbered base es) = length es"
  by (simp add: numbered_def del: upt_Suc)

lemma numbered_Cons: "numbered base (e # es) = (Suc base, e) # numbered (Suc base) es"
  unfolding numbered_def by (subst upt_conv_Cons) (simp_all del: upt_Suc)

lemma numbered_append: "numbered base (xs @ ys) = numbered base xs @ numbered (base + length xs) ys"
  by (induction xs arbitrary: base) (auto simp: numbered_Cons numbered_def [of _ "[]"])

lemma collect_incoming_spec:
  assumes "base \<le> after"
  shows "collect_incoming after es base out
    = (out @ drop (after - base) (numbered base es), base + length es)"
proof -
  have "collect_incoming after es b out = (out @ drop (after - b) (numbered b es), b + length es)" for b
  proof (induction es arbitrary: b out)
    case (Cons e es)
    show ?case
    proof (cases "after \<le> b")
      case False
      then have "drop (after - b) (numbered b (e # es)) = drop (after - Suc b) (numbered (Suc b) es)"
        by (simp add: numbered_Cons drop_Cons' Suc_diff_Suc flip: diff_Suc_eq_diff_pred)
      then show ?thesis using False Cons.IH by simp
    qed (simp add: Cons.IH numbered_Cons)
  qed (simp add: numbered_def)
  then show ?thesis .
qed

lemma get_incoming_spec:
  assumes "logs i = Some entries" "compaction_base entries \<le> after"
  shows "get_incoming_after_with_high_water logs i after =
    Inr (drop (after - compaction_base entries) (numbered (compaction_base entries) (incoming entries)),
         compaction_base entries + length (incoming entries))"
  using assms
  by (simp add: get_incoming_after_with_high_water_def Let_def collect_incoming_spec)

lemma compaction_base_append_plain:
  "le_entry_kind e \<noteq> Checkpoint \<Longrightarrow> compaction_base (entries @ [e]) = compaction_base entries"
  by (simp add: compaction_base_def)

lemma compaction_base_append:
  "compaction_base (entries @ [e]) =
     (if le_entry_kind e = Checkpoint then max (le_compacted_incoming_ordinals e) (compaction_base entries)
      else compaction_base entries)"
  by (simp add: compaction_base_def)

section \<open>Persisted sessions\<close>

record PersistedSession =
  pse_schema_version :: u32
  pse_session_id :: string
  pse_state :: SessionState
  pse_ttl_expiry :: i64
  pse_ttl_ms :: i64
  pse_started_at_unix_ms :: i64
  pse_resolution :: "bytes option"
  pse_mode :: string
  pse_mode_state :: bytes
  pse_participants :: "string list"
  pse_seen_message_ids :: "string set"
  pse_intent :: string
  pse_mode_version :: string
  pse_configuration_version :: string
  pse_policy_version :: string
  pse_context_id :: string
  pse_extensions :: "string \<rightharpoonup> bytes"
  pse_roots :: "Root list"
  pse_initiator_sender :: string
  pse_policy_definition :: "PolicyDefinition option"
  pse_suspended_at_ms :: "i64 option"
  pse_accumulated_suspended_ms :: i64
  pse_suspension_intervals :: "(i64 \<times> i64) list"
  pse_semantics_rev :: u32
  pse_max_suspend_ms :: i64

definition PersistedSession_from :: "Session \<Rightarrow> PersistedSession" where
  "PersistedSession_from s =
     \<lparr>pse_schema_version = 2, pse_session_id = s_session_id s, pse_state = s_state s,
      pse_ttl_expiry = s_ttl_expiry s, pse_ttl_ms = s_ttl_ms s,
      pse_started_at_unix_ms = s_started_at_unix_ms s, pse_resolution = s_resolution s,
      pse_mode = s_mode s, pse_mode_state = s_mode_state s, pse_participants = s_participants s,
      pse_seen_message_ids = s_seen_message_ids s, pse_intent = s_intent s,
      pse_mode_version = s_mode_version s, pse_configuration_version = s_configuration_version s,
      pse_policy_version = s_policy_version s, pse_context_id = s_context_id s,
      pse_extensions = s_extensions s,
      pse_roots = map (\<lambda>root. \<lparr>r_uri = r_uri root, r_name = r_name root\<rparr>) (s_roots s),
      pse_initiator_sender = s_initiator_sender s, pse_policy_definition = s_policy_definition s,
      pse_suspended_at_ms = s_suspended_at_ms s,
      pse_accumulated_suspended_ms = s_accumulated_suspended_ms s,
      pse_suspension_intervals = s_suspension_intervals s, pse_semantics_rev = s_semantics_rev s,
      pse_max_suspend_ms = s_max_suspend_ms s\<rparr>"

definition Session_from :: "PersistedSession \<Rightarrow> Session" where
  "Session_from p =
     (let ttl_ms = (if pse_ttl_ms p > 0 then pse_ttl_ms p
                    else sat_sub (pse_ttl_expiry p) (pse_started_at_unix_ms p))
      in (Session_builder (pse_session_id p) (pse_mode p) (pse_initiator_sender p))
           \<lparr>s_state := pse_state p, s_ttl_expiry := pse_ttl_expiry p, s_ttl_ms := ttl_ms,
            s_started_at_unix_ms := pse_started_at_unix_ms p, s_resolution := pse_resolution p,
            s_mode_state := pse_mode_state p, s_participants := pse_participants p,
            s_seen_message_ids := pse_seen_message_ids p, s_intent := pse_intent p,
            s_mode_version := pse_mode_version p,
            s_configuration_version := pse_configuration_version p,
            s_policy_version := pse_policy_version p, s_context_id := pse_context_id p,
            s_extensions := pse_extensions p,
            s_roots := map (\<lambda>root. \<lparr>r_uri = r_uri root, r_name = r_name root\<rparr>) (pse_roots p),
            s_policy_definition := pse_policy_definition p,
            s_suspended_at_ms := pse_suspended_at_ms p,
            s_accumulated_suspended_ms := pse_accumulated_suspended_ms p,
            s_suspension_intervals := pse_suspension_intervals p,
            s_semantics_rev := pse_semantics_rev p, s_max_suspend_ms := pse_max_suspend_ms p\<rparr>)"

text \<open>What the persisted form leaves out: the activity counters, which are not session state.\<close>

definition forget_activity :: "Session \<Rightarrow> Session" where
  "forget_activity s = s\<lparr>s_participant_message_counts := Map.empty, s_participant_last_seen := Map.empty\<rparr>"

lemma root_copy: "map (\<lambda>root :: Root. \<lparr>r_uri = r_uri root, r_name = r_name root\<rparr>) rs = rs"
  by (induction rs) simp_all

lemma persisted_round_trip:
  "0 < s_ttl_ms s \<Longrightarrow> Session_from (PersistedSession_from s) = forget_activity s"
  by (simp add: Session_from_def PersistedSession_from_def forget_activity_def Session_builder_def
      root_copy)

end
