(* ===== verification/Mode_Frames.thy ===== *)
theory Mode_Frames
  imports Shipped_Modes Log_Store
begin

text \<open>
  What a mode reads. A recorded entry keeps the sender, the type, the identifier and the payload of
  an envelope; a replayed session has no activity counters. The locale \<open>recorded_mode\<close> says that a
  mode reads no more than that, which is what makes a log replayable, and every shipped mode is
  shown to satisfy it.
\<close>

definition same_content :: "Envelope \<Rightarrow> Envelope \<Rightarrow> bool" where
  "same_content env env' \<longleftrightarrow> e_message_type env = e_message_type env' \<and>
     e_message_id env = e_message_id env' \<and> e_sender env = e_sender env' \<and> e_payload env = e_payload env'"

lemma same_content_fields:
  assumes "same_content env env'"
  shows "e_message_type env' = e_message_type env" "e_message_id env' = e_message_id env"
    "e_sender env' = e_sender env" "e_payload env' = e_payload env"
  using assms by (simp_all add: same_content_def)

lemma forget_activity_fields [simp]:
  "s_session_id (forget_activity s) = s_session_id s" "s_state (forget_activity s) = s_state s"
  "s_ttl_expiry (forget_activity s) = s_ttl_expiry s" "s_ttl_ms (forget_activity s) = s_ttl_ms s"
  "s_started_at_unix_ms (forget_activity s) = s_started_at_unix_ms s"
  "s_resolution (forget_activity s) = s_resolution s" "s_mode (forget_activity s) = s_mode s"
  "s_mode_state (forget_activity s) = s_mode_state s" "s_participants (forget_activity s) = s_participants s"
  "s_seen_message_ids (forget_activity s) = s_seen_message_ids s" "s_intent (forget_activity s) = s_intent s"
  "s_mode_version (forget_activity s) = s_mode_version s"
  "s_configuration_version (forget_activity s) = s_configuration_version s"
  "s_policy_version (forget_activity s) = s_policy_version s"
  "s_context_id (forget_activity s) = s_context_id s" "s_extensions (forget_activity s) = s_extensions s"
  "s_roots (forget_activity s) = s_roots s" "s_initiator_sender (forget_activity s) = s_initiator_sender s"
  "s_policy_definition (forget_activity s) = s_policy_definition s"
  "s_suspended_at_ms (forget_activity s) = s_suspended_at_ms s"
  "s_accumulated_suspended_ms (forget_activity s) = s_accumulated_suspended_ms s"
  "s_suspension_intervals (forget_activity s) = s_suspension_intervals s"
  "s_semantics_rev (forget_activity s) = s_semantics_rev s"
  "s_max_suspend_ms (forget_activity s) = s_max_suspend_ms s"
  by (simp_all add: forget_activity_def)

lemma forget_activity_bound [simp]: "bound_fields (forget_activity s) = bound_fields s"
  by (simp add: bound_fields_def)

locale recorded_mode = mode_contract +
  assumes message_reads:
      "1 \<le> s_semantics_rev s \<Longrightarrow> same_content env env' \<Longrightarrow>
         m_on_message_at M (forget_activity s) env' ctx = m_on_message_at M s env ctx"
    and authorize_reads:
      "same_content env env' \<Longrightarrow> m_authorize_sender M s env' = m_authorize_sender M s env"
    and start_reads:
      "same_content env env' \<Longrightarrow> m_on_session_start M s env' = m_on_session_start M s env"
    and due_addressed:
      "m_due_synthetic_envelope M s now = Some env \<Longrightarrow>
         e_mode env = s_mode s \<and> e_session_id env = s_session_id s"

lemma shared_helpers_read:
  "validate_commitment_payload_for_session x (forget_activity s) = validate_commitment_payload_for_session x s"
  "check_commitment_authority x (forget_activity s) = check_commitment_authority x s"
  "enforce_commitment_policy x (forget_activity s) = enforce_commitment_policy x s"
  unfolding fun_eq_iff validate_commitment_payload_for_session_def check_commitment_authority_def
    enforce_commitment_policy_def forget_activity_fields by simp_all

lemmas mode_reads = shared_helpers_read forget_activity_fields load_def

lemma recordedI:
  assumes "mode_contract M minv"
    and "\<And>s env env' ctx. same_content env env' \<Longrightarrow> 1 \<le> s_semantics_rev s \<Longrightarrow>
      m_on_message_at M (forget_activity s) env' ctx = m_on_message_at M s env ctx"
    and "\<And>s env env'. same_content env env' \<Longrightarrow> m_authorize_sender M s env' = m_authorize_sender M s env"
    and "\<And>s env env'. same_content env env' \<Longrightarrow> m_on_session_start M s env' = m_on_session_start M s env"
    and "\<And>s env now. m_due_synthetic_envelope M s now = Some env \<Longrightarrow>
      e_mode env = s_mode s \<and> e_session_id env = s_session_id s"
  shows "recorded_mode M minv"
  using assms by (simp add: recorded_mode_def recorded_mode_axioms_def)

lemma decision_reads:
  assumes "same_content env env'"
  shows "decision_on_message x (forget_activity s) env' = decision_on_message x s env"
    "decision_authorize_sender x s env' = decision_authorize_sender x s env"
    "decision_on_session_start x s env' = decision_on_session_start x s env"
  unfolding decision_on_message_def Decision_Mode.handle_proposal_def handle_evaluation_def
    handle_objection_def handle_vote_def Decision_Mode.handle_commitment_def wire_enum_def
    decision_authorize_sender_def decision_on_session_start_def
    mode_reads same_content_fields [OF assms]
  by (rule refl)+

lemma proposal_reads:
  assumes "same_content env env'"
  shows "proposal_on_message x (forget_activity s) env' = proposal_on_message x s env"
    "proposal_authorize_sender x s env' = proposal_authorize_sender x s env"
    "proposal_on_session_start x s env' = proposal_on_session_start x s env"
  unfolding proposal_on_message_def Proposal_Mode.handle_proposal_def handle_counter_proposal_def
    Proposal_Mode.handle_accept_def Proposal_Mode.handle_reject_def handle_withdraw_def
    Proposal_Mode.handle_commitment_def refresh_phase_def check_acceptance_criterion_def criterion_of_def
    round_limit_reached_def proposal_authorize_sender_def proposal_on_session_start_def
    mode_reads same_content_fields [OF assms]
  by (rule refl)+

lemma task_reads:
  assumes "same_content env env'"
  shows "task_on_message x (forget_activity s) env' = task_on_message x s env"
    "task_authorize_sender x s env' = task_authorize_sender x s env"
    "task_on_session_start x s env' = task_on_session_start x s env"
  unfolding task_on_message_def Task_Mode.handle_request_def Task_Mode.handle_accept_def
    Task_Mode.handle_reject_def handle_update_def handle_complete_def handle_fail_def
    Task_Mode.handle_commitment_def can_assignee_respond_def reassignment_allowed_def
    no_eligible_assignee_def task_authorize_sender_def task_on_session_start_def
    mode_reads same_content_fields [OF assms]
  by (rule refl)+

lemma quorum_reads:
  assumes "same_content env env'"
  shows "quorum_on_message x (forget_activity s) env' = quorum_on_message x s env"
    "quorum_authorize_sender x s env' = quorum_authorize_sender x s env"
    "quorum_on_session_start x s env' = quorum_on_session_start x s env"
  unfolding quorum_on_message_def Quorum_Mode.handle_request_def handle_ballot_def
    Quorum_Mode.handle_commitment_def Quorum_Mode.commitment_ready_def
    effective_threshold_for_session_def effective_threshold_def
    quorum_authorize_sender_def quorum_on_session_start_def
    mode_reads same_content_fields [OF assms]
  by (rule refl)+

lemma extension_reads:
  assumes "same_content env env'"
  shows "multi_round_on_message x (forget_activity s) env' = multi_round_on_message x s env"
    "multi_round_authorize_sender s env' = multi_round_authorize_sender s env"
    "multi_round_on_session_start x s env' = multi_round_on_session_start x s env"
    "passthrough_on_message y allowed (forget_activity s) env' = passthrough_on_message y allowed s env"
    "passthrough_authorize_sender s env' = passthrough_authorize_sender s env"
    "passthrough_on_session_start s env' = passthrough_on_session_start s env"
  unfolding multi_round_on_message_def handle_contribute_def Multi_Round_Mode.handle_commitment_def
    multi_round_authorize_sender_def multi_round_on_session_start_def
    passthrough_on_message_def passthrough_authorize_sender_def passthrough_on_session_start_def
    mode_reads same_content_fields [OF assms]
  by (rule refl)+

lemma accept_overdue_reads: "accept_overdue (forget_activity s) = accept_overdue s"
  unfolding fun_eq_iff accept_overdue_def implicit_accept_elapsed_ms_def rev2_elapsed_ms_def
    forget_activity_fields by simp

lemma handoff_reads:
  assumes "same_content env env'"
  shows "1 \<le> s_semantics_rev s \<Longrightarrow>
      handoff_on_message_at x (forget_activity s) env' ctx = handoff_on_message_at x s env ctx"
    "handoff_authorize_sender x s env' = handoff_authorize_sender x s env"
    "handoff_on_session_start x s env' = handoff_on_session_start x s env"
proof -
  assume "1 \<le> s_semantics_rev s"
  then have rev: "(1 \<le> s_semantics_rev s) = True" by simp
  show "handoff_on_message_at x (forget_activity s) env' ctx = handoff_on_message_at x s env ctx"
    unfolding handoff_on_message_at_def handle_message_def handle_offer_def handle_context_def
      Handoff_Mode.handle_accept_def dispatch_implicit_accept_def handle_decline_def
      interim_implicit_accept_def Handoff_Mode.handle_commitment_def accept_overdue_reads
      mode_reads same_content_fields [OF assms] rev if_True
    by (rule refl)
qed (unfold handoff_authorize_sender_def handoff_on_session_start_def same_content_fields [OF assms],
    rule refl, rule refl)

lemma handoff_due_addressed:
  "handoff_due_synthetic_envelope x s now = Some env \<Longrightarrow>
     e_mode env = s_mode s \<and> e_session_id env = s_session_id s"
  by (auto simp: handoff_due_synthetic_envelope_def Let_def implicit_accept_envelope_def
      split: if_splits option.splits)

section \<open>Every shipped mode\<close>

lemma default_mode_recorded:
  assumes "mode_contract ((default_mode start message)\<lparr>m_authorize_sender := auth\<rparr>) minv"
    and "\<And>s env env'. same_content env env' \<Longrightarrow> message (forget_activity s) env' = message s env"
    and "\<And>s env env'. same_content env env' \<Longrightarrow> auth s env' = auth s env"
    and "\<And>s env env'. same_content env env' \<Longrightarrow> start s env' = start s env"
  shows "recorded_mode ((default_mode start message)\<lparr>m_authorize_sender := auth\<rparr>) minv"
proof (rule recordedI [OF assms(1)])
  fix s and env env' :: Envelope
  assume c: "same_content env env'"
  show "m_on_message_at ((default_mode start message)\<lparr>m_authorize_sender := auth\<rparr>) (forget_activity s) env' ctx
    = m_on_message_at ((default_mode start message)\<lparr>m_authorize_sender := auth\<rparr>) s env ctx" for ctx
    using assms(2) [OF c] by (simp add: default_mode_def)
  show "m_authorize_sender ((default_mode start message)\<lparr>m_authorize_sender := auth\<rparr>) s env'
    = m_authorize_sender ((default_mode start message)\<lparr>m_authorize_sender := auth\<rparr>) s env"
    using assms(3) [OF c] by simp
  show "m_on_session_start ((default_mode start message)\<lparr>m_authorize_sender := auth\<rparr>) s env'
    = m_on_session_start ((default_mode start message)\<lparr>m_authorize_sender := auth\<rparr>) s env"
    using assms(4) [OF c] by (simp add: default_mode_def)
qed (simp add: default_mode_def default_due_synthetic_envelope_def)

interpretation decision_log: recorded_mode "DecisionMode x" "\<lambda>_. True" for x
  unfolding DecisionMode_def
  by (rule default_mode_recorded [OF decision_run.mode_contract_axioms [unfolded DecisionMode_def]])
    (simp_all add: decision_reads)

interpretation proposal_log: recorded_mode "ProposalMode x" "\<lambda>_. True" for x
  unfolding ProposalMode_def
  by (rule default_mode_recorded [OF proposal_run.mode_contract_axioms [unfolded ProposalMode_def]])
    (simp_all add: proposal_reads)

interpretation task_log: recorded_mode "TaskMode x" "\<lambda>_. True" for x
  unfolding TaskMode_def
  by (rule default_mode_recorded [OF task_run.mode_contract_axioms [unfolded TaskMode_def]])
    (simp_all add: task_reads)

interpretation quorum_log: recorded_mode "QuorumMode x" "\<lambda>_. True" for x
  unfolding QuorumMode_def
  by (rule default_mode_recorded [OF quorum_run.mode_contract_axioms [unfolded QuorumMode_def]])
    (simp_all add: quorum_reads)

interpretation multi_round_log: recorded_mode "MultiRoundMode x" "\<lambda>_. True" for x
  unfolding MultiRoundMode_def
  by (rule default_mode_recorded [OF multi_round_run.mode_contract_axioms [unfolded MultiRoundMode_def]])
    (simp_all add: extension_reads)

interpretation passthrough_log: recorded_mode "PassthroughMode x allowed" "\<lambda>_. True" for x allowed
  unfolding PassthroughMode_def
  by (rule default_mode_recorded [OF passthrough_run.mode_contract_axioms [unfolded PassthroughMode_def]])
    (simp_all add: extension_reads)

lemma handoff_recorded:
  assumes "handoff_codec_law x"
  shows "recorded_mode (HandoffMode x) (handoff_minv x)"
proof (rule recordedI)
  have "handoff_codec x" by unfold_locales (rule assms)
  then show "mode_contract (HandoffMode x) (handoff_minv x)" by (rule handoff_codec.contract)
qed (simp_all add: HandoffMode_def handoff_reads handoff_due_addressed)

lemma shipped_recorded:
  assumes "shipped_mode M"
  obtains minv where "recorded_mode M minv"
proof -
  obtain b where "standard_mode b M \<or> extension_mode b M" using assms by (auto simp: shipped_mode_def)
  then have "\<exists>minv. recorded_mode M minv"
  proof
    assume "standard_mode b M"
    then show ?thesis
      by cases (simp; rule exI, rule decision_log.recorded_mode_axioms proposal_log.recorded_mode_axioms
          task_log.recorded_mode_axioms quorum_log.recorded_mode_axioms handoff_recorded, assumption?)+
  next
    assume "extension_mode b M"
    then show ?thesis
      by cases (simp; rule exI, rule multi_round_log.recorded_mode_axioms
          passthrough_log.recorded_mode_axioms)+
  qed
  then show thesis using that by blast
qed

end
