(* ===== verification/Log_Replay.thy ===== *)
theory Log_Replay
  imports Mode_Registry Mode_Frames
begin

text \<open>
  Rebuilding a session from its stored log (\<^verbatim>\<open>src/replay.rs\<close>): the mapping of log entries to replay
  events, the checkpoint fast path, the full replay from the SessionStart, and the history a what-if
  replay reads. The JSON codec of a persisted session is a parameter.
\<close>

record log_ext =
  lx_start :: start_ext
  lx_encode_session :: "PersistedSession \<Rightarrow> bytes option"
  lx_decode_session :: "bytes \<Rightarrow> PersistedSession option"

definition session_codec_law :: "'z log_ext_scheme \<Rightarrow> bool" where
  "session_codec_law lx \<longleftrightarrow>
     (\<forall>p b. lx_encode_session lx p = Some b \<longrightarrow> lx_decode_session lx b = Some p)"

section \<open>Entries as events\<close>

definition recorded_at :: "LogEntry \<Rightarrow> i64" where
  "recorded_at e = (if le_received_at_ms e \<noteq> 0 then le_received_at_ms e else le_timestamp_unix_ms e)"

definition recorded_envelope :: "LogEntry \<Rightarrow> string \<Rightarrow> string \<Rightarrow> Envelope" where
  "recorded_envelope e session_id session_mode =
     \<lparr>e_macp_version = (if le_macp_version e = [] then MACP_VERSION else le_macp_version e),
      e_mode = (if le_mode e = [] then session_mode else le_mode e),
      e_message_type = le_message_type e, e_message_id = le_message_id e, e_session_id = session_id,
      e_sender = le_sender e,
      e_timestamp_unix_ms =
        (if le_timestamp_unix_ms e \<noteq> 0 then le_timestamp_unix_ms e else le_received_at_ms e),
      e_payload = le_raw_payload e\<rparr>"

definition replay_event :: "string \<Rightarrow> string \<Rightarrow> LogEntry \<Rightarrow> ReplayEvent option" where
  "replay_event session_mode session_id e =
     (case le_entry_kind e of
        Incoming \<Rightarrow> Some (EvMessage (recorded_envelope e session_id session_mode) (recorded_at e))
      | Internal \<Rightarrow>
          if le_message_type e = ''TtlExpired'' then Some EvExpired
          else if le_message_type e = ''SessionCancel'' then Some EvCancelled
          else if le_message_type e = ''SessionSuspend'' then Some (EvSuspended (recorded_at e))
          else if le_message_type e = ''SessionResume'' then Some (EvResumed (recorded_at e))
          else None
      | Checkpoint \<Rightarrow> None)"

definition log_replay_options :: ReplayOptions where
  "log_replay_options = \<lparr>ro_credit_participant_activity = False\<rparr>"

definition replay_entry :: "Session \<Rightarrow> string \<Rightarrow> LogEntry \<Rightarrow> Mode \<Rightarrow> unit result \<times> Session" where
  "replay_entry s session_id e mode =
     (case replay_event (s_mode s) session_id e of
        Some event \<Rightarrow> apply_event s event mode log_replay_options
      | None \<Rightarrow> (Ok (), s))"

fun replay_entries :: "Session \<Rightarrow> string \<Rightarrow> LogEntry list \<Rightarrow> Mode \<Rightarrow> Session result" where
  "replay_entries s session_id [] mode = Ok s"
| "replay_entries s session_id (e # es) mode =
     (case replay_entry s session_id e mode of
        (Inl err, _) \<Rightarrow> Inl err
      | (Inr _, s') \<Rightarrow> replay_entries s' session_id es mode)"

section \<open>From a checkpoint\<close>

text \<open>The last entry that satisfies a predicate, with the entries after it.\<close>

fun last_split :: "('a \<Rightarrow> bool) \<Rightarrow> 'a list \<Rightarrow> ('a \<times> 'a list) option" where
  "last_split P [] = None"
| "last_split P (x # xs) =
     (case last_split P xs of
        Some r \<Rightarrow> Some r
      | None \<Rightarrow> if P x then Some (x, xs) else None)"

definition try_replay_from_checkpoint ::
    "'z log_ext_scheme \<Rightarrow> string \<Rightarrow> LogEntry list \<Rightarrow> mode_entries \<Rightarrow> Session option result" where
  "try_replay_from_checkpoint lx session_id entries modes =
     (case last_split (\<lambda>e. le_entry_kind e = Checkpoint) entries of
        None \<Rightarrow> Ok None
      | Some (checkpoint, rest) \<Rightarrow>
          and_then (ok_or (lx_decode_session lx (le_raw_payload checkpoint)) InvalidPayload) (\<lambda>persisted.
          let s = (Session_from persisted)\<lparr>s_session_id := session_id\<rparr>
          in if s_policy_version s \<noteq> [] \<and> s_policy_definition s = None then Ok None
             else and_then (instantiate modes (s_mode s)) (\<lambda>mode.
                  and_then (replay_entries s session_id rest mode) (\<lambda>s'. Ok (Some s')))))"

section \<open>From the SessionStart\<close>

fun position :: "('a \<Rightarrow> bool) \<Rightarrow> 'a list \<Rightarrow> nat option" where
  "position P [] = None"
| "position P (x # xs) = (if P x then Some 0 else map_option Suc (position P xs))"

definition is_session_start :: "LogEntry \<Rightarrow> bool" where
  "is_session_start e \<longleftrightarrow> le_entry_kind e = Incoming \<and> le_message_type e = ''SessionStart''"

definition entry_start :: "mode_entries \<Rightarrow> string \<Rightarrow> LogEntry \<Rightarrow> RecordedStart" where
  "entry_start modes session_id start_entry =
     (let mode_name = le_mode start_entry
      in (RecordedStart_new (recorded_envelope start_entry session_id mode_name)
            (le_received_at_ms start_entry))
         \<lparr>rs_semantics_rev := le_semantics_rev start_entry,
          rs_max_suspend_ms := unwrap_or 0 (le_bound_max_suspend_ms start_entry),
          rs_bound_mode_version := le_bound_mode_version start_entry,
          rs_strict := Some (registry_requires_strict modes mode_name)\<rparr>)"

definition recorded_start_of ::
    "string \<Rightarrow> LogEntry list \<Rightarrow> mode_entries \<Rightarrow> (nat \<times> RecordedStart \<times> Mode) result" where
  "recorded_start_of session_id entries modes =
     and_then (ok_or (position is_session_start entries) InvalidPayload) (\<lambda>start_pos.
     let start_entry = entries ! start_pos; mode_name = le_mode start_entry
     in if mode_name = [] then Err InvalidPayload
        else and_then (instantiate modes mode_name) (\<lambda>mode.
          Ok (start_pos, entry_start modes session_id start_entry, mode)))"

definition replayed_policy ::
    "'z log_ext_scheme \<Rightarrow> LogEntry \<Rightarrow> PolicyRegistry option \<Rightarrow> PolicyDefinition option" where
  "replayed_policy lx start_entry policies =
     (let requested =
            (case parse_session_start_payload (sx_decode_start (lx_start lx)) (le_raw_payload start_entry) of
               Inr p \<Rightarrow> ssp_policy_version p
             | Inl _ \<Rightarrow> []);
          policy_id = (if requested = [] then DEFAULT_POLICY_ID else requested)
      in case policies of
           None \<Rightarrow> None
         | Some pr \<Rightarrow> (case resolve pr policy_id of Inr p \<Rightarrow> Some p | Inl _ \<Rightarrow> None))"

definition replay_from_start ::
    "'z log_ext_scheme \<Rightarrow> string \<Rightarrow> LogEntry list \<Rightarrow> mode_entries \<Rightarrow> PolicyRegistry option \<Rightarrow> Session result" where
  "replay_from_start lx session_id entries modes policies =
     and_then (recorded_start_of session_id entries modes) (\<lambda>(start_pos, start, mode).
     and_then (replay_start (lx_start lx)
        (start\<lparr>rs_policy := replayed_policy lx (entries ! start_pos) policies\<rparr>) mode) (\<lambda>s.
     replay_entries s session_id (drop 1 entries) mode))"

definition replay_session ::
    "'z log_ext_scheme \<Rightarrow> string \<Rightarrow> LogEntry list \<Rightarrow> mode_entries \<Rightarrow> PolicyRegistry option \<Rightarrow> Session result" where
  "replay_session lx session_id entries modes policies =
     and_then (try_replay_from_checkpoint lx session_id entries modes) (\<lambda>found.
     case found of
       Some s \<Rightarrow> Ok s
     | None \<Rightarrow> replay_from_start lx session_id entries modes policies)"

section \<open>The accepted history\<close>

record RecordedHistory =
  rh_start :: RecordedStart
  rh_mode :: Mode
  rh_events :: "ReplayEvent list"
  rh_history_index :: "u64 option list"

fun history_of :: "string \<Rightarrow> string \<Rightarrow> LogEntry list \<Rightarrow> u64 \<Rightarrow> (ReplayEvent \<times> u64 option) list" where
  "history_of session_mode session_id [] next = []"
| "history_of session_mode session_id (e # es) next =
     (case replay_event session_mode session_id e of
        None \<Rightarrow> history_of session_mode session_id es next
      | Some event \<Rightarrow>
          if le_entry_kind e = Incoming
          then (event, Some next) # history_of session_mode session_id es (next + 1)
          else (event, None) # history_of session_mode session_id es next)"

definition recorded_history ::
    "string \<Rightarrow> string \<Rightarrow> LogEntry list \<Rightarrow> mode_entries \<Rightarrow> RecordedHistory option result" where
  "recorded_history session_id session_mode entries modes =
     (if list_ex (\<lambda>e. le_entry_kind e = Checkpoint \<and> le_compacted_incoming_ordinals e > 0) entries
         \<or> \<not> list_ex is_session_start entries
      then Ok None
      else and_then (recorded_start_of session_id entries modes) (\<lambda>(start_pos, start, mode).
        let history = history_of session_mode session_id (drop (start_pos + 1) entries) 1
        in Ok (Some \<lparr>rh_start = start, rh_mode = mode, rh_events = map fst history,
                     rh_history_index = map snd history\<rparr>)))"

section \<open>Divergence from a snapshot\<close>

definition mismatch :: "bool \<Rightarrow> u32" where "mismatch b = (if b then 1 else 0)"

definition validate_replay_consistency :: "Session \<Rightarrow> Session \<Rightarrow> u32" where
  "validate_replay_consistency replayed snapshot =
     mismatch (s_state replayed \<noteq> s_state snapshot)
     + mismatch (card (s_seen_message_ids replayed) \<noteq> card (s_seen_message_ids snapshot))
     + mismatch (s_participants replayed \<noteq> s_participants snapshot)
     + mismatch (s_mode_version replayed \<noteq> s_mode_version snapshot
                 \<or> s_configuration_version replayed \<noteq> s_configuration_version snapshot
                 \<or> s_policy_version replayed \<noteq> s_policy_version snapshot)
     + mismatch (s_mode_state replayed \<noteq> s_mode_state snapshot)
     + mismatch (s_accumulated_suspended_ms replayed \<noteq> s_accumulated_suspended_ms snapshot)
     + mismatch (s_suspended_at_ms replayed \<noteq> s_suspended_at_ms snapshot)
     + mismatch (s_ttl_expiry replayed \<noteq> s_ttl_expiry snapshot)
     + mismatch (s_suspension_intervals replayed \<noteq> s_suspension_intervals snapshot)"

section \<open>Growing a log\<close>

lemma last_split_snoc:
  "last_split P (xs @ [y]) =
     (if P y then Some (y, []) else map_option (\<lambda>(c, rest). (c, rest @ [y])) (last_split P xs))"
  by (induction xs) (auto split: option.splits)

lemma last_split_None: "last_split P xs = None \<longleftrightarrow> (\<forall>x \<in> set xs. \<not> P x)"
  by (induction xs) (auto split: option.splits)

lemma last_split_member: "last_split P xs = Some (c, rest) \<Longrightarrow> c \<in> set xs \<and> P c"
  by (induction xs) (auto split: option.splits if_splits)

lemma position_append: "position P xs = Some i \<Longrightarrow> position P (xs @ ys) = Some i"
  by (induction xs arbitrary: i) (auto split: if_splits)

lemma position_bound: "position P xs = Some i \<Longrightarrow> i < length xs \<and> P (xs ! i)"
  by (induction xs arbitrary: i) (auto split: if_splits)

lemma replay_entries_snoc:
  "replay_entries s i (es @ [e]) M =
     and_then (replay_entries s i es M) (\<lambda>s'. case replay_entry s' i e M of
        (Inl err, _) \<Rightarrow> Inl err | (Inr _, s'') \<Rightarrow> Ok s'')"
  by (induction es arbitrary: s) (auto split: prod.splits sum.splits)

lemma apply_event_bound: "bound_fields (snd (apply_event s ev M opts)) = bound_fields s"
  by (cases ev) (auto simp: apply_envelope_event_def Let_def bound_fields_def [of "s\<lparr>s_state := _\<rparr>"]
      bound_fields_def [of s] split: sum.splits)

lemma replay_entry_bound: "bound_fields (snd (replay_entry s i e M)) = bound_fields s"
  by (auto simp: replay_entry_def apply_event_bound split: option.split)

lemma replay_entries_bound: "replay_entries s i es M = Inr r \<Longrightarrow> bound_fields r = bound_fields s"
proof (induction es arbitrary: s)
  case (Cons e es)
  then show ?case
    using replay_entry_bound [of s i e M] by (auto split: prod.splits sum.splits)
qed simp

lemma bound_mode: "bound_fields r = bound_fields s \<Longrightarrow> s_mode r = s_mode s"
  by (simp add: bound_fields_def)

text \<open>Replaying a longer log replays the new entry, in the mode the session is in.\<close>

lemma start_replay_mode:
  assumes "replay_start sx start M = Inr s"
  shows "s_mode s = e_mode (rs_envelope start)"
proof -
  obtain r s0 where "s = apply_mode_response r (consume_id (e_message_id (rs_envelope start)) s0)"
    "s_mode s0 = e_mode (rs_envelope start)"
    using assms by (auto simp: replay_start_def Let_def res_simps Session_builder_def)
  then show ?thesis by (cases r) (simp_all add: consume_id_def)
qed

lemma checkpoint_replay_iff:
  "try_replay_from_checkpoint lx i es modes = Inr (Some r) \<longleftrightarrow>
     (\<exists>c rest p M. last_split (\<lambda>e. le_entry_kind e = Checkpoint) es = Some (c, rest) \<and>
        lx_decode_session lx (le_raw_payload c) = Some p \<and>
        (s_policy_version (Session_from p) = [] \<or> s_policy_definition (Session_from p) \<noteq> None) \<and>
        instantiate modes (s_mode (Session_from p)) = Inr M \<and>
        replay_entries ((Session_from p)\<lparr>s_session_id := i\<rparr>) i rest M = Inr r)"
  unfolding try_replay_from_checkpoint_def Let_def
  by (cases "last_split (\<lambda>e. le_entry_kind e = Checkpoint) es") (auto simp: res_simps split: if_splits)

lemma no_checkpoint_iff:
  "try_replay_from_checkpoint lx i es modes = Inr None \<longleftrightarrow>
     (\<forall>c rest. last_split (\<lambda>e. le_entry_kind e = Checkpoint) es = Some (c, rest) \<longrightarrow>
        (\<exists>p. lx_decode_session lx (le_raw_payload c) = Some p \<and>
           s_policy_version (Session_from p) \<noteq> [] \<and> s_policy_definition (Session_from p) = None))"
  unfolding try_replay_from_checkpoint_def Let_def
  by (cases "last_split (\<lambda>e. le_entry_kind e = Checkpoint) es") (auto simp: res_simps split: if_splits)

lemma recorded_start_iff:
  "recorded_start_of i es modes = Inr (k, st, M) \<longleftrightarrow>
     position is_session_start es = Some k \<and> le_mode (es ! k) \<noteq> [] \<and>
     instantiate modes (le_mode (es ! k)) = Inr M \<and> st = entry_start modes i (es ! k)"
  unfolding recorded_start_of_def Let_def by (auto simp: res_simps split: if_splits)

lemma entry_start_mode: "le_mode e \<noteq> [] \<Longrightarrow> e_mode (rs_envelope (entry_start modes i e)) = le_mode e"
  by (simp add: entry_start_def Let_def RecordedStart_new_def recorded_envelope_def)

lemma start_replay_iff:
  "replay_from_start lx i es modes policies = Inr r \<longleftrightarrow>
     (\<exists>k M s. position is_session_start es = Some k \<and> le_mode (es ! k) \<noteq> [] \<and>
        instantiate modes (le_mode (es ! k)) = Inr M \<and>
        replay_start (lx_start lx)
          ((entry_start modes i (es ! k))\<lparr>rs_policy := replayed_policy lx (es ! k) policies\<rparr>) M = Inr s \<and>
        replay_entries s i (drop 1 es) M = Inr r)"
proof -
  have "replay_from_start lx i es modes policies = Inr r \<longleftrightarrow>
     (\<exists>k st M s. recorded_start_of i es modes = Inr (k, st, M) \<and>
        replay_start (lx_start lx) (st\<lparr>rs_policy := replayed_policy lx (es ! k) policies\<rparr>) M = Inr s \<and>
        replay_entries s i (drop 1 es) M = Inr r)"
    unfolding replay_from_start_def by (auto simp: res_simps split: prod.splits)
  then show ?thesis by (simp add: recorded_start_iff)
qed

lemma replay_session_iff:
  "replay_session lx i es modes policies = Inr r \<longleftrightarrow>
     try_replay_from_checkpoint lx i es modes = Inr (Some r) \<or>
     try_replay_from_checkpoint lx i es modes = Inr None \<and> replay_from_start lx i es modes policies = Inr r"
  unfolding replay_session_def by (auto simp: res_simps split: option.splits)

lemma start_replay_snoc:
  assumes "replay_from_start lx i es modes policies = Inr r"
    and "instantiate modes (s_mode r) = Inr M" "replay_entry r i e M = (Inr (), r')"
  shows "replay_from_start lx i (es @ [e]) modes policies = Inr r'"
proof -
  obtain k N s where k: "position is_session_start es = Some k" "le_mode (es ! k) \<noteq> []"
    "instantiate modes (le_mode (es ! k)) = Inr N"
    "replay_start (lx_start lx)
       ((entry_start modes i (es ! k))\<lparr>rs_policy := replayed_policy lx (es ! k) policies\<rparr>) N = Inr s"
    "replay_entries s i (drop 1 es) N = Inr r"
    using assms(1) start_replay_iff by blast
  have "s_mode r = s_mode s" by (rule bound_mode [OF replay_entries_bound [OF k(5)]])
  also have "\<dots> = le_mode (es ! k)"
    using start_replay_mode [OF k(4)] entry_start_mode [OF k(2)] by simp
  finally have N: "N = M" using k(3) assms(2) by simp
  note pos = position_bound [OF k(1)]
  have nth: "(es @ [e]) ! k = es ! k" using pos by (simp add: nth_append)
  have "replay_entries s i (drop 1 (es @ [e])) N = Inr r'"
    using k(5) assms(3) N pos by (cases es) (auto simp: replay_entries_snoc)
  then show ?thesis
    unfolding start_replay_iff using k(2,3,4) position_append [OF k(1)] nth by auto
qed

lemma checkpoint_replay_snoc:
  assumes "try_replay_from_checkpoint lx i es modes = Inr (Some r)" "le_entry_kind e \<noteq> Checkpoint"
    and "instantiate modes (s_mode r) = Inr M" "replay_entry r i e M = (Inr (), r')"
  shows "try_replay_from_checkpoint lx i (es @ [e]) modes = Inr (Some r')"
proof -
  obtain c rest p N where c: "last_split (\<lambda>e. le_entry_kind e = Checkpoint) es = Some (c, rest)"
    "lx_decode_session lx (le_raw_payload c) = Some p"
    "s_policy_version (Session_from p) = [] \<or> s_policy_definition (Session_from p) \<noteq> None"
    "instantiate modes (s_mode (Session_from p)) = Inr N"
    "replay_entries ((Session_from p)\<lparr>s_session_id := i\<rparr>) i rest N = Inr r"
    using assms(1) checkpoint_replay_iff by blast
  have "s_mode r = s_mode (Session_from p)"
    using bound_mode [OF replay_entries_bound [OF c(5)]] by simp
  then have "N = M" using c(4) assms(3) by simp
  then have "replay_entries ((Session_from p)\<lparr>s_session_id := i\<rparr>) i (rest @ [e]) M = Inr r'"
    using c(5) assms(4) by (simp add: replay_entries_snoc)
  then show ?thesis
    unfolding checkpoint_replay_iff using c(1-4) assms(2) \<open>N = M\<close> by (auto simp: last_split_snoc)
qed

lemma replay_session_snoc:
  assumes "replay_session lx i es modes policies = Inr r" "le_entry_kind e \<noteq> Checkpoint"
    and "instantiate modes (s_mode r) = Inr M" "replay_entry r i e M = (Inr (), r')"
  shows "replay_session lx i (es @ [e]) modes policies = Inr r'"
proof -
  have "try_replay_from_checkpoint lx i (es @ [e]) modes = Inr None"
    if "try_replay_from_checkpoint lx i es modes = Inr None"
    using that assms(2) unfolding no_checkpoint_iff by (auto simp: last_split_snoc)
  then show ?thesis
    using assms(1) checkpoint_replay_snoc [OF _ assms(2-4)] start_replay_snoc [OF _ assms(3,4)]
    unfolding replay_session_iff by blast
qed

text \<open>A checkpoint of a governed session replaces everything before it.\<close>

lemma replay_session_checkpoint:
  assumes "le_entry_kind c = Checkpoint" "lx_decode_session lx (le_raw_payload c) = Some (PersistedSession_from s)"
    and "0 < s_ttl_ms s" "s_session_id s = i" "s_policy_definition s \<noteq> None"
    and "instantiate modes (s_mode s) = Inr M"
  shows "replay_session lx i (es @ [c]) modes policies = Inr (forget_activity s)"
proof -
  have "(forget_activity s)\<lparr>s_session_id := i\<rparr> = forget_activity s"
    using assms(4) by (simp add: forget_activity_def)
  then show ?thesis
    using assms by (auto simp: replay_session_def try_replay_from_checkpoint_def last_split_snoc Let_def
        persisted_round_trip)
qed

text \<open>Only the registration of the session's own mode matters.\<close>

lemma instantiate_agree: "modes' m = modes m \<Longrightarrow> instantiate modes' m = instantiate modes m"
  by (simp add: instantiate_def)

lemma replay_session_agree:
  assumes "replay_session lx i es modes policies = Inr r" "modes' (s_mode r) = modes (s_mode r)"
  shows "replay_session lx i es modes' policies = Inr r"
proof -
  have "try_replay_from_checkpoint lx i es modes' = Inr (Some r)"
    if "try_replay_from_checkpoint lx i es modes = Inr (Some r)"
  proof -
    from that obtain c rest p M where c: "last_split (\<lambda>e. le_entry_kind e = Checkpoint) es = Some (c, rest)"
      "lx_decode_session lx (le_raw_payload c) = Some p"
      "s_policy_version (Session_from p) = [] \<or> s_policy_definition (Session_from p) \<noteq> None"
      "instantiate modes (s_mode (Session_from p)) = Inr M"
      "replay_entries ((Session_from p)\<lparr>s_session_id := i\<rparr>) i rest M = Inr r"
      unfolding checkpoint_replay_iff by blast
    have "s_mode r = s_mode (Session_from p)"
      using bound_mode [OF replay_entries_bound [OF c(5)]] by simp
    then have "instantiate modes' (s_mode (Session_from p)) = Inr M"
      using c(4) assms(2) by (simp add: instantiate_def)
    then show ?thesis unfolding checkpoint_replay_iff using c by blast
  qed
  moreover have "replay_from_start lx i es modes' policies = Inr r"
    if "replay_from_start lx i es modes policies = Inr r"
  proof -
    from that obtain k M s where k: "position is_session_start es = Some k" "le_mode (es ! k) \<noteq> []"
      "instantiate modes (le_mode (es ! k)) = Inr M"
      "replay_start (lx_start lx)
         ((entry_start modes i (es ! k))\<lparr>rs_policy := replayed_policy lx (es ! k) policies\<rparr>) M = Inr s"
      "replay_entries s i (drop 1 es) M = Inr r"
      unfolding start_replay_iff by blast
    have "s_mode r = s_mode s" by (rule bound_mode [OF replay_entries_bound [OF k(5)]])
    also have "\<dots> = le_mode (es ! k)"
      using start_replay_mode [OF k(4)] entry_start_mode [OF k(2)] by simp
    finally have m: "modes' (le_mode (es ! k)) = modes (le_mode (es ! k))" using assms(2) by simp
    then have "entry_start modes' i (es ! k) = entry_start modes i (es ! k)"
      by (simp add: entry_start_def registry_requires_strict_def)
    then show ?thesis
      unfolding start_replay_iff using k instantiate_agree [of modes' _ modes, OF m] by auto
  qed
  moreover have "try_replay_from_checkpoint lx i es modes' = Inr None \<longleftrightarrow>
      try_replay_from_checkpoint lx i es modes = Inr None"
    by (simp add: no_checkpoint_iff)
  ultimately show ?thesis using assms(1) unfolding replay_session_iff by blast
qed

section \<open>The replayed session and the live one\<close>

text \<open>A replayed session agrees with the live one in everything but the activity counters, and the
  pause mark of an expired session.\<close>

definition same_session :: "Session \<Rightarrow> Session \<Rightarrow> bool" where
  "same_session r s \<longleftrightarrow> forget_pause (forget_activity r) = forget_pause (forget_activity s)"

lemma same_session_refl [simp]: "same_session s s" "same_session (forget_activity s) s"
  by (simp_all add: same_session_def forget_activity_def)

lemma same_session_bound: "same_session r s \<Longrightarrow> bound_fields r = bound_fields s"
  unfolding same_session_def by (metis forget_activity_bound forget_pause_simps(2))

lemma same_session_state: "same_session r s \<Longrightarrow> s_state r = s_state s"
  unfolding same_session_def by (metis forget_activity_fields(2) forget_pause_simps(1))

lemma same_session_live:
  "same_session r s \<Longrightarrow> s_state s \<noteq> Expired \<Longrightarrow> forget_activity r = forget_activity s"
  unfolding same_session_def by (rule forget_pause_eq) simp_all

lemma forget_pause_seen [simp]: "s_seen_message_ids (forget_pause s) = s_seen_message_ids s"
  by (simp add: forget_pause_def)

lemma same_session_seen: "same_session r s \<Longrightarrow> s_seen_message_ids r = s_seen_message_ids s"
  unfolding same_session_def by (metis forget_activity_fields(10) forget_pause_seen)

text \<open>The session methods commute with forgetting the counters.\<close>

lemma forget_activity_commute:
  "forget_activity (snd (suspend t s)) = snd (suspend t (forget_activity s))"
  "forget_activity (snd (resume t s)) = snd (resume t (forget_activity s))"
  "forget_activity (snd (cancel s)) = snd (cancel (forget_activity s))"
  "forget_activity (snd (expire s)) = snd (expire (forget_activity s))"
  "forget_activity (apply_mode_response resp s) = apply_mode_response resp (forget_activity s)"
  "forget_activity (consume_id i s) = consume_id i (forget_activity s)"
  "forget_activity (record_participant_activity p t s) = forget_activity s"
  by (simp_all add: suspend_def resume_def cancel_def expire_def forget_activity_def Let_def
      consume_id_def record_participant_activity_def effective_max_suspend_ms_def)
    (cases resp; simp)

lemma same_sessionI: "forget_activity r = forget_activity s \<Longrightarrow> same_session r s"
  by (simp add: same_session_def)

context recorded_mode
begin

lemma replay_incoming:
  assumes same: "same_session r s" and s: "s_state s = Open" "1 \<le> s_semantics_rev s"
    and e: "le_entry_kind e = Incoming" "same_content env (recorded_envelope e i (s_mode s))"
      "recorded_at e = t"
    and env: "m_authorize_sender M s env = Inr ()" "e_message_id env \<noteq> []"
      "m_on_message_at M s env (MessageContext_new t) = Inr resp"
    and s': "forget_activity s' = forget_activity (consume_id (e_message_id env) (apply_mode_response resp s))"
  shows "\<exists>r'. replay_entry r i e M = (Inr (), r') \<and> same_session r' s'"
proof -
  let ?env = "recorded_envelope e i (s_mode s)"
  have fa: "forget_activity r = forget_activity s" using same_session_live [OF same] s(1) by simp
  have r: "s_state r = Open" "s_semantics_rev r = s_semantics_rev s" "s_mode r = s_mode s"
    using same_session_state [OF same] same_session_bound [OF same] s(1) by (simp_all add: bound_fields_def)
  have "m_on_message_at M r ?env (MessageContext_new t)
      = m_on_message_at M (forget_activity r) ?env (MessageContext_new t)"
    using message_reads [of r ?env ?env] s(2) r(2) by (simp add: same_content_def)
  also have "\<dots> = Inr resp" using message_reads [OF s(2) e(2)] env(3) by (simp add: fa)
  finally have msg: "m_on_message_at M r ?env (MessageContext_new t) = Inr resp" .
  have auth: "m_authorize_sender M r ?env = Inr ()"
    using authorize_frame [OF same_session_bound [OF same]] authorize_reads [OF e(2)] env(1) by simp
  let ?r' = "consume_id (e_message_id env) (apply_mode_response resp r)"
  have "replay_entry r i e M = (Inr (), ?r')"
    using r(1) msg auth e(1,3) env(2) same_content_fields [OF e(2)]
    by (simp add: replay_entry_def replay_event_def apply_envelope_event_def r(3) log_replay_options_def)
  moreover have "same_session ?r' s'"
    by (rule same_sessionI) (simp add: s' forget_activity_commute fa)
  ultimately show ?thesis by blast
qed

end

lemma replay_expired:
  assumes "same_session r s" "le_entry_kind e = Internal" "le_message_type e = ''TtlExpired''"
    and "s' = s\<lparr>s_state := Expired\<rparr> \<or> expire s = (Inr (), s')"
  shows "\<exists>r'. replay_entry r i e M = (Inr (), r') \<and> same_session r' s'"
proof -
  have "forget_pause (forget_activity (r\<lparr>s_state := Expired\<rparr>)) =
      (forget_pause (forget_activity r))\<lparr>s_state := Expired, s_suspended_at_ms := None\<rparr>" for r :: Session
    by (simp add: forget_pause_def forget_activity_def)
  then have "same_session (r\<lparr>s_state := Expired\<rparr>) (s\<lparr>s_state := Expired\<rparr>)"
    using assms(1) by (simp add: same_session_def)
  moreover have "same_session (s\<lparr>s_state := Expired\<rparr>) s'"
    using assms(4) by (auto simp: expire_def same_session_def forget_pause_def forget_activity_def
        split: if_splits)
  ultimately have "same_session (r\<lparr>s_state := Expired\<rparr>) s'" by (simp add: same_session_def)
  then show ?thesis using assms(2,3) by (simp add: replay_entry_def replay_event_def)
qed

lemma replay_lifecycle:
  assumes "same_session r s" "s_state s \<noteq> Expired" "le_entry_kind e = Internal"
    and "le_message_type e = ''SessionCancel'' \<and> s' = snd (cancel s)
       \<or> le_message_type e = ''SessionSuspend'' \<and> s' = snd (suspend (recorded_at e) s)
       \<or> le_message_type e = ''SessionResume'' \<and> s' = snd (resume (recorded_at e) s)"
  shows "\<exists>r'. replay_entry r i e M = (Inr (), r') \<and> same_session r' s'"
proof -
  have fa: "forget_activity r = forget_activity s" by (rule same_session_live [OF assms(1,2)])
  have "same_session (snd (cancel r)) (snd (cancel s))"
    "same_session (snd (suspend t r)) (snd (suspend t s))"
    "same_session (snd (resume t r)) (snd (resume t s))" for t
    by (rule same_sessionI; simp add: forget_activity_commute fa)+
  then show ?thesis
    using assms(3,4) by (auto simp: replay_entry_def replay_event_def)
qed

end
