(* ===== verification/File_Backend.thy ===== *)
theory File_Backend
  imports Log_Replay Wire_Text
begin

text \<open>
  The file back end of \<^verbatim>\<open>macp-storage/src/storage/file.rs\<close>: a directory per session, holding the
  log and the latest snapshot. An operation answers \<open>None\<close> where the code returns an I/O error, and
  then leaves the disk as it was; failures of the device itself are added by the runtime model.

  The second part is the log file as text: one JSON object per line, appended to and read back line
  by line; a file that is not UTF-8 is not read at all. The JSON codec of an entry is a parameter.
\<close>

section \<open>Directories\<close>

record SessionDir =
  sd_log :: "LogEntry list"
  sd_snapshot :: "PersistedSession option"

type_synonym disk = "string \<rightharpoonup> SessionDir"

definition is_storage_safe_session_id :: "string \<Rightarrow> bool" where
  "is_storage_safe_session_id session_id \<longleftrightarrow>
     session_id \<noteq> [] \<and> length session_id \<le> 255 \<and> session_id \<noteq> ''.'' \<and> session_id \<noteq> ''..'' \<and>
     CHR 0x2F \<notin> set session_id \<and> CHR 0x5C \<notin> set session_id \<and> CHR 0x00 \<notin> set session_id"

definition check_component :: "string \<Rightarrow> bool" where
  "check_component session_id \<longleftrightarrow>
     session_id \<noteq> [] \<and> session_id \<noteq> ''.'' \<and> session_id \<noteq> ''..'' \<and>
     CHR 0x2F \<notin> set session_id \<and> CHR 0x00 \<notin> set session_id"

definition create_session_storage :: "string \<Rightarrow> disk \<Rightarrow> disk option" where
  "create_session_storage session_id disk =
     (if check_component session_id then
        Some (case disk session_id of
                None \<Rightarrow> disk(session_id \<mapsto> \<lparr>sd_log = [], sd_snapshot = None\<rparr>)
              | Some _ \<Rightarrow> disk)
      else None)"

definition save_session :: "'z log_ext_scheme \<Rightarrow> Session \<Rightarrow> disk \<Rightarrow> disk option" where
  "save_session lx s disk =
     (if \<not> check_component (s_session_id s) then None
      else if lx_encode_session lx (PersistedSession_from s) = None then None
      else map_option (\<lambda>d. disk(s_session_id s \<mapsto> d\<lparr>sd_snapshot := Some (PersistedSession_from s)\<rparr>))
             (disk (s_session_id s)))"

definition load_session :: "string \<Rightarrow> disk \<Rightarrow> Session option option" where
  "load_session session_id disk =
     (if check_component session_id then
        Some (case disk session_id of
                None \<Rightarrow> None
              | Some d \<Rightarrow> map_option Session_from (sd_snapshot d))
      else None)"

definition append_log_entry :: "string \<Rightarrow> LogEntry \<Rightarrow> disk \<Rightarrow> disk option" where
  "append_log_entry session_id e disk =
     (if check_component session_id then
        map_option (\<lambda>d. disk(session_id \<mapsto> d\<lparr>sd_log := sd_log d @ [e]\<rparr>)) (disk session_id)
      else None)"

definition load_log :: "string \<Rightarrow> disk \<Rightarrow> LogEntry list option" where
  "load_log session_id disk =
     (if check_component session_id then
        Some (case disk session_id of None \<Rightarrow> [] | Some d \<Rightarrow> sd_log d)
      else None)"

definition replace_log :: "string \<Rightarrow> LogEntry list \<Rightarrow> disk \<Rightarrow> disk option" where
  "replace_log session_id entries disk =
     (if check_component session_id then
        map_option (\<lambda>d. disk(session_id \<mapsto> d\<lparr>sd_log := entries\<rparr>)) (disk session_id)
      else None)"

definition delete_session :: "string \<Rightarrow> disk \<Rightarrow> disk option" where
  "delete_session session_id disk =
     (if check_component session_id then Some (disk(session_id := None)) else None)"

definition list_session_ids :: "disk \<Rightarrow> string list" where
  "list_session_ids disk = sorted_list_of_set (dom disk)"

lemma safe_is_component: "is_storage_safe_session_id i \<Longrightarrow> check_component i"
  by (simp add: is_storage_safe_session_id_def check_component_def)

section \<open>The log file\<close>

record entry_codec =
  ec_encode :: "LogEntry \<Rightarrow> string"
  ec_decode :: "string \<Rightarrow> LogEntry option"

abbreviation newline :: char where "newline \<equiv> CHR 0x0A"

definition log_line :: "entry_codec \<Rightarrow> LogEntry \<Rightarrow> string" where
  "log_line ec e = ec_encode ec e @ [newline]"

text \<open>\<^verbatim>\<open>str::lines\<close>: the parts between line ends, without a last empty one. A line end is a line
  feed, with the carriage return before it if there is one.\<close>

definition chomp :: "string \<Rightarrow> string" where
  "chomp l = (if l \<noteq> [] \<and> last l = CHR 0x0D then butlast l else l)"

function text_lines :: "string \<Rightarrow> string list" where
  "text_lines cs =
     (if cs = [] then []
      else let l = takeWhile (\<lambda>c. c \<noteq> newline) cs; rest = dropWhile (\<lambda>c. c \<noteq> newline) cs
           in (if rest = [] then l else chomp l) # text_lines (tl rest))"
  by auto
termination
proof (relation "measure length")
  fix cs :: string and l rest
  assume "cs \<noteq> []" "rest = dropWhile (\<lambda>c. c \<noteq> newline) cs"
  moreover have "length rest \<le> length cs" by (simp add: calculation(2) length_dropWhile_le)
  ultimately show "(tl rest, cs) \<in> measure length" by (cases cs) (auto split: if_splits)
qed simp

declare text_lines.simps [simp del]

text \<open>A line that does not parse is skipped with a warning; \<open>None\<close> is the error of
  \<^verbatim>\<open>read_to_string\<close> on bytes that are not UTF-8.\<close>

definition parse_line :: "entry_codec \<Rightarrow> string \<Rightarrow> LogEntry list" where
  "parse_line ec l = (if blank l then [] else case ec_decode ec l of Some e \<Rightarrow> [e] | None \<Rightarrow> [])"

definition parse_log :: "entry_codec \<Rightarrow> string \<Rightarrow> LogEntry list option" where
  "parse_log ec content =
     (if utf8_ok content then Some (concat (map (parse_line ec) (text_lines content))) else None)"

definition append_line :: "entry_codec \<Rightarrow> LogEntry \<Rightarrow> string \<Rightarrow> string" where
  "append_line ec e content = content @ log_line ec e"

definition replace_lines :: "entry_codec \<Rightarrow> LogEntry list \<Rightarrow> string" where
  "replace_lines ec entries = concat (map (log_line ec) entries)"

lemma text_lines_Nil [simp]: "text_lines [] = []"
  by (simp add: text_lines.simps)

lemma text_lines_line:
  assumes "newline \<notin> set l"
  shows "text_lines (l @ newline # cs) = chomp l # text_lines cs"
proof -
  have "takeWhile (\<lambda>c. c \<noteq> newline) (l @ newline # cs) = l"
    "dropWhile (\<lambda>c. c \<noteq> newline) (l @ newline # cs) = newline # cs"
    using assms by (auto simp: takeWhile_append dropWhile_append)
  then show ?thesis by (subst text_lines.simps) (simp add: Let_def)
qed

lemma text_lines_tail: "newline \<notin> set l \<Longrightarrow> l \<noteq> [] \<Longrightarrow> text_lines l = [l]"
  by (subst text_lines.simps) (simp add: Let_def takeWhile_eq_all_conv [THEN iffD2]
      dropWhile_eq_Nil_conv [THEN iffD2])

text \<open>
  What the code relies on of \<^verbatim>\<open>serde_json\<close>: it reads an entry only from the JSON text of an object
  or an array; the text it writes for an entry is one line of UTF-8 that opens with the key of the
  first field, \<^verbatim>\<open>message_id\<close>, ends with the closing brace, and reads back as the entry.
\<close>

definition entry_key :: string where
  "entry_key = [CHR ''{'', CHR 0x22] @ ''message_id'' @ [CHR 0x22, CHR '':'']"

definition reads_json :: "entry_codec \<Rightarrow> bool" where
  "reads_json ec \<longleftrightarrow> (\<forall>l e. ec_decode ec l = Some e \<longrightarrow> json_document l)"

definition entry_text_ok :: "entry_codec \<Rightarrow> LogEntry \<Rightarrow> bool" where
  "entry_text_ok ec e \<longleftrightarrow> newline \<notin> set (ec_encode ec e) \<and> utf8_ok (ec_encode ec e) \<and>
     starts_with (ec_encode ec e) entry_key \<and> last (ec_encode ec e) = CHR ''}'' \<and>
     ec_decode ec (ec_encode ec e) = Some e"

lemma entry_text_form:
  assumes "entry_text_ok ec e"
  obtains ds where "ec_encode ec e = CHR ''{'' # CHR 0x22 # CHR ''m'' # ds"
  using assms by (auto simp: entry_text_ok_def starts_with_iff entry_key_def)

lemma entry_text_solid:
  assumes "entry_text_ok ec e"
  shows "\<not> blank (ec_encode ec e)" "chomp (cs @ ec_encode ec e) = cs @ ec_encode ec e"
proof -
  obtain ds where ds: "ec_encode ec e = CHR ''{'' # CHR 0x22 # CHR ''m'' # ds"
    using assms by (rule entry_text_form)
  then show "\<not> blank (ec_encode ec e)" by (simp add: printable_not_blank)
  have "last (cs @ ec_encode ec e) = CHR ''}''" using assms ds by (simp add: entry_text_ok_def)
  then show "chomp (cs @ ec_encode ec e) = cs @ ec_encode ec e" by (simp add: chomp_def)
qed

lemma parse_line_entry: "entry_text_ok ec e \<Longrightarrow> parse_line ec (ec_encode ec e) = [e]"
  using entry_text_solid(1) by (simp add: parse_line_def entry_text_ok_def)

lemma parse_line_none: "ec_decode ec l = None \<Longrightarrow> parse_line ec l = []"
  by (simp add: parse_line_def)

lemma newline_ascii: "between 0 0x7F newline"
  by (simp add: between_def)

lemma parse_log_line:
  "newline \<notin> set l \<Longrightarrow> parse_log ec (l @ newline # cs) =
     (if utf8_ok l then map_option ((@) (parse_line ec (chomp l))) (parse_log ec cs) else None)"
  by (simp add: parse_log_def text_lines_line utf8_split [OF newline_ascii])

lemma parse_log_tail:
  "newline \<notin> set l \<Longrightarrow> l \<noteq> [] \<Longrightarrow>
     parse_log ec l = (if utf8_ok l then Some (parse_line ec l) else None)"
  by (simp add: parse_log_def text_lines_tail)

lemma parse_log_Nil [simp]: "parse_log ec [] = Some []"
  by (simp add: parse_log_def)

lemma parse_log_entries:
  assumes "\<forall>e \<in> set es. entry_text_ok ec e"
  shows "parse_log ec (replace_lines ec es @ cs) = map_option ((@) es) (parse_log ec cs)"
  using assms
proof (induction es)
  case (Cons e es)
  have e: "entry_text_ok ec e" using Cons.prems by simp
  then have "newline \<notin> set (ec_encode ec e)" "utf8_ok (ec_encode ec e)"
    by (simp_all add: entry_text_ok_def)
  moreover have "parse_line ec (chomp (ec_encode ec e)) = [e]"
    using entry_text_solid(2) [OF e, of "[]"] parse_line_entry [OF e] by simp
  ultimately show ?case
    using Cons by (cases "parse_log ec cs") (simp_all add: replace_lines_def log_line_def parse_log_line)
qed (cases "parse_log ec cs"; simp add: replace_lines_def)

lemma appended_lines: "fold (append_line ec) es content = content @ replace_lines ec es"
  by (induction es arbitrary: content) (simp_all add: append_line_def replace_lines_def)

text \<open>A write cut short leaves the beginning of an entry's text as the last line. It does not read back
  unless only its line end is missing, and is skipped if it is UTF-8. Appending to such a file joins
  the next entry to that line, which then never reads back.\<close>

lemma torn_tail:
  assumes "reads_json ec" "\<forall>e \<in> set es. entry_text_ok ec e"
    and e0: "entry_text_ok ec e0" "ec_encode ec e0 = torn @ rest"
  shows "parse_log ec (replace_lines ec es @ torn)
    = (if utf8_ok torn then Some (es @ (if rest = [] then [e0] else [])) else None)"
proof (cases "torn = []")
  case True
  then have "rest \<noteq> []" using e0 by (auto simp: entry_text_ok_def starts_with_def entry_key_def)
  then show ?thesis using True parse_log_entries [OF assms(2), of "[]"] by simp
next
  case False
  have "ec_decode ec torn = None" if "rest \<noteq> []"
  proof -
    have "json_document (torn @ rest)"
      using assms(1) e0 by (auto simp: reads_json_def entry_text_ok_def)
    moreover have "last rest = CHR ''}''" using e0 that by (simp add: entry_text_ok_def)
    ultimately have "\<not> json_document torn" using that by (intro cut_document)
    then show ?thesis using assms(1) by (cases "ec_decode ec torn") (auto simp: reads_json_def)
  qed
  then have "parse_line ec torn = (if rest = [] then [e0] else [])"
    using e0 parse_line_entry [OF e0(1)] by (auto simp: parse_line_none)
  moreover have "newline \<notin> set torn" using e0 by (simp add: entry_text_ok_def)
  ultimately show ?thesis
    using False by (simp add: parse_log_entries [OF assms(2)] parse_log_tail)
qed

lemma torn_then_append:
  assumes "reads_json ec" "\<forall>e \<in> set es. entry_text_ok ec e"
    and e: "entry_text_ok ec e" and e0: "entry_text_ok ec e0" "ec_encode ec e0 = torn @ rest" "torn \<noteq> []"
  shows "parse_log ec (append_line ec e (replace_lines ec es @ torn))
    = (if utf8_ok torn then Some es else None)"
proof -
  let ?l = "torn @ ec_encode ec e"
  obtain ds where ds: "ec_encode ec e = CHR ''{'' # CHR 0x22 # CHR ''m'' # ds"
    using e by (rule entry_text_form)
  obtain ds0 where "ec_encode ec e0 = CHR ''{'' # CHR 0x22 # CHR ''m'' # ds0"
    using e0(1) by (rule entry_text_form)
  then have hd: "hd torn = CHR ''{''" using e0(2,3) by (cases torn) auto
  have "json_document (ec_encode ec e)"
    using assms(1) e by (auto simp: reads_json_def entry_text_ok_def)
  then have "\<not> json_document ?l" using joined_document [OF e0(3) hd] unfolding ds by blast
  then have "ec_decode ec ?l = None" using assms(1) by (cases "ec_decode ec ?l") (auto simp: reads_json_def)
  then have skip: "parse_line ec (chomp ?l) = []" by (simp add: entry_text_solid(2) [OF e] parse_line_none)
  have "newline \<notin> set ?l" using e e0(1,2) by (auto simp: entry_text_ok_def)
  note line = parse_log_line [OF this, of ec "[]"]
  have "utf8_ok ?l = utf8_ok torn"
  proof -
    let ?r = "CHR 0x22 # CHR ''m'' # ds"
    have b: "between 0 0x7F (CHR ''{'')" by (simp add: between_def)
    have "utf8_ok (ec_encode ec e)" using e by (simp add: entry_text_ok_def)
    then have "utf8_ok ?r" using utf8_split [OF b, of "[]" ?r] unfolding ds append_Nil by blast
    then show ?thesis using utf8_split [OF b, of torn ?r] unfolding ds by blast
  qed
  with line skip have "parse_log ec (?l @ [newline]) = (if utf8_ok torn then Some [] else None)"
    by (simp only: append_Nil option.map parse_log_Nil split: if_split)
  then show ?thesis
    using parse_log_entries [OF assms(2), of "?l @ [newline]"]
    by (simp add: append_line_def log_line_def)
qed

end
