(* ===== verification/Runtime.thy ===== *)
theory Runtime
  imports File_Backend What_If
begin

text \<open>
  The host of the kernel (\<^verbatim>\<open>src/runtime.rs\<close>) and the start-up recovery (\<^verbatim>\<open>src/recovery.rs\<close>): the
  session registry, the in-memory and the stored logs, checkpoints and compaction, and every
  operation that changes them. The code holds a session's lock for the whole of an operation, so an
  operation is one step of the model.

  The clock and the storage device are sequences of readings and of failures, consumed in the order
  the code reads them. A failed storage call leaves the disk as it was. Broadcasts are recorded in
  the order they are sent. Telemetry, metrics, trace anchors and receipts are left out.
\<close>

section \<open>State\<close>

record runtime_ext = log_ext +
  rx_clock :: "nat \<Rightarrow> i64"
  rx_wall_clock :: "nat \<Rightarrow> i64"
  rx_fault :: "nat \<Rightarrow> bool"
  rx_checkpoint_interval :: nat
  rx_compact_terminal_logs :: bool
  rx_encode_cancel :: "string \<Rightarrow> string \<Rightarrow> bytes"
  rx_encode_suspend :: "string \<Rightarrow> string \<Rightarrow> bytes"
  rx_encode_resume :: "string \<Rightarrow> string \<Rightarrow> i64 \<Rightarrow> bytes"
  rx_decode_signal :: "bytes \<Rightarrow> string option"
  rx_decode_progress :: "bytes \<Rightarrow> bool"

record ProcessResult =
  pr_session_state :: SessionState
  pr_duplicate :: bool

datatype SessionLifecycleEvent =
    LcCreated string
  | LcResolved string
  | LcExpired string
  | LcSuspended string
  | LcResumed string
  | LcCancelled string

record Runtime =
  rt_sessions :: "string \<rightharpoonup> Session"
  rt_logs :: log_map
  rt_disk :: disk
  rt_modes :: mode_entries
  rt_policies :: PolicyRegistry
  rt_stream :: "Envelope list"
  rt_signals :: "Envelope list"
  rt_lifecycle :: "SessionLifecycleEvent list"
  rt_ticks :: nat
  rt_calls :: nat

definition Runtime_new :: "mode_entries \<Rightarrow> PolicyRegistry \<Rightarrow> disk \<Rightarrow> Runtime" where
  "Runtime_new modes policies disk =
     \<lparr>rt_sessions = Map.empty, rt_logs = Map.empty, rt_disk = disk, rt_modes = modes,
      rt_policies = policies, rt_stream = [], rt_signals = [], rt_lifecycle = [], rt_ticks = 0,
      rt_calls = 0\<rparr>"

section \<open>Clock, storage, broadcasts\<close>

definition now_ms :: "'z runtime_ext_scheme \<Rightarrow> Runtime \<Rightarrow> i64 \<times> Runtime" where
  "now_ms rx rt = (rx_clock rx (rt_ticks rt), rt\<lparr>rt_ticks := Suc (rt_ticks rt)\<rparr>)"

definition storage_call ::
    "'z runtime_ext_scheme \<Rightarrow> (disk \<Rightarrow> disk option) \<Rightarrow> Runtime \<Rightarrow> bool \<times> Runtime" where
  "storage_call rx op rt =
     (let rt1 = rt\<lparr>rt_calls := Suc (rt_calls rt)\<rparr>
      in if rx_fault rx (rt_calls rt) then (False, rt1)
         else case op (rt_disk rt) of
                None \<Rightarrow> (False, rt1)
              | Some disk \<Rightarrow> (True, rt1\<lparr>rt_disk := disk\<rparr>))"

definition storage_read ::
    "'z runtime_ext_scheme \<Rightarrow> (disk \<Rightarrow> 'a option) \<Rightarrow> Runtime \<Rightarrow> 'a option \<times> Runtime" where
  "storage_read rx op rt =
     (if rx_fault rx (rt_calls rt) then None else op (rt_disk rt),
      rt\<lparr>rt_calls := Suc (rt_calls rt)\<rparr>)"

definition publish_accepted_envelope :: "Envelope \<Rightarrow> Runtime \<Rightarrow> Runtime" where
  "publish_accepted_envelope env rt =
     (if e_session_id env \<noteq> [] then rt\<lparr>rt_stream := rt_stream rt @ [env]\<rparr> else rt)"

definition send_lifecycle :: "SessionLifecycleEvent \<Rightarrow> Runtime \<Rightarrow> Runtime" where
  "send_lifecycle ev rt = rt\<lparr>rt_lifecycle := rt_lifecycle rt @ [ev]\<rparr>"

definition put_session :: "string \<Rightarrow> Session \<Rightarrow> Runtime \<Rightarrow> Runtime" where
  "put_session session_id s rt = rt\<lparr>rt_sessions := (rt_sessions rt)(session_id \<mapsto> s)\<rparr>"

section \<open>Log entries\<close>

definition make_incoming_entry :: "Envelope \<Rightarrow> i64 \<Rightarrow> LogEntry" where
  "make_incoming_entry env received_at_ms =
     \<lparr>le_message_id = e_message_id env, le_received_at_ms = received_at_ms, le_sender = e_sender env,
      le_message_type = e_message_type env, le_raw_payload = e_payload env, le_entry_kind = Incoming,
      le_session_id = e_session_id env, le_mode = e_mode env, le_macp_version = e_macp_version env,
      le_timestamp_unix_ms = e_timestamp_unix_ms env, le_bound_mode_version = None,
      le_semantics_rev = 0, le_bound_max_suspend_ms = None, le_compacted_incoming_ordinals = 0\<rparr>"

definition make_internal_entry :: "string \<Rightarrow> bytes \<Rightarrow> string \<Rightarrow> string \<Rightarrow> i64 \<Rightarrow> LogEntry" where
  "make_internal_entry message_type payload session_id mode at_ms =
     \<lparr>le_message_id = [], le_received_at_ms = at_ms, le_sender = ''_runtime'',
      le_message_type = message_type, le_raw_payload = payload, le_entry_kind = Internal,
      le_session_id = session_id, le_mode = mode, le_macp_version = MACP_VERSION,
      le_timestamp_unix_ms = at_ms, le_bound_mode_version = None, le_semantics_rev = 0,
      le_bound_max_suspend_ms = None, le_compacted_incoming_ordinals = 0\<rparr>"

definition make_checkpoint_entry :: "bytes \<Rightarrow> string \<Rightarrow> string \<Rightarrow> i64 \<Rightarrow> u64 \<Rightarrow> LogEntry" where
  "make_checkpoint_entry raw_payload session_id mode now discarded =
     \<lparr>le_message_id = [], le_received_at_ms = now, le_sender = ''_runtime'',
      le_message_type = ''Checkpoint'', le_raw_payload = raw_payload, le_entry_kind = Checkpoint,
      le_session_id = session_id, le_mode = mode, le_macp_version = [], le_timestamp_unix_ms = now,
      le_bound_mode_version = None, le_semantics_rev = 0, le_bound_max_suspend_ms = None,
      le_compacted_incoming_ordinals = discarded\<rparr>"

definition envelope_from_log_entry :: "LogEntry \<Rightarrow> Envelope" where
  "envelope_from_log_entry e =
     \<lparr>e_macp_version = (if le_macp_version e = [] then MACP_VERSION else le_macp_version e),
      e_mode = le_mode e, e_message_type = le_message_type e, e_message_id = le_message_id e,
      e_session_id = le_session_id e, e_sender = le_sender e,
      e_timestamp_unix_ms =
        (if le_timestamp_unix_ms e \<noteq> 0 then le_timestamp_unix_ms e else le_received_at_ms e),
      e_payload = le_raw_payload e\<rparr>"

definition subscribe_snapshot ::
    "Runtime \<Rightarrow> string \<Rightarrow> u64 \<Rightarrow> u64 + (u64 \<times> Envelope) list \<times> u64" where
  "subscribe_snapshot rt session_id after_sequence =
     (case get_incoming_after_with_high_water (rt_logs rt) session_id after_sequence of
        Inl base \<Rightarrow> Inl base
      | Inr (es, high_water) \<Rightarrow>
          Inr (map (\<lambda>(ordinal, e). (ordinal, envelope_from_log_entry e)) es, high_water))"

definition get_session_envelopes_after :: "Runtime \<Rightarrow> string \<Rightarrow> u64 \<Rightarrow> u64 + Envelope list" where
  "get_session_envelopes_after rt session_id after_sequence =
     (case subscribe_snapshot rt session_id after_sequence of
        Inl base \<Rightarrow> Inl base
      | Inr (es, _) \<Rightarrow> Inr (map snd es))"

text \<open>Every accepted entry is stored first and then appended to the log in memory.\<close>

definition append_entry ::
    "'z runtime_ext_scheme \<Rightarrow> string \<Rightarrow> LogEntry \<Rightarrow> Runtime \<Rightarrow> unit result \<times> Runtime" where
  "append_entry rx session_id e rt =
     (case storage_call rx (append_log_entry session_id e) rt of
        (False, rt1) \<Rightarrow> (Err StorageFailed, rt1)
      | (True, rt1) \<Rightarrow> (Ok (), rt1\<lparr>rt_logs := log_append session_id e (rt_logs rt1)\<rparr>))"

definition save_session_to_storage :: "'z runtime_ext_scheme \<Rightarrow> Session \<Rightarrow> Runtime \<Rightarrow> Runtime" where
  "save_session_to_storage rx s rt = snd (storage_call rx (save_session rx s) rt)"

section \<open>Checkpoints and compaction\<close>

definition force_insert_checkpoint ::
    "'z runtime_ext_scheme \<Rightarrow> string \<Rightarrow> Session \<Rightarrow> Runtime \<Rightarrow> Runtime" where
  "force_insert_checkpoint rx session_id s rt =
     (case lx_encode_session rx (PersistedSession_from s) of
        None \<Rightarrow> rt
      | Some raw_payload \<Rightarrow>
          (let (now, rt1) = now_ms rx rt
           in snd (append_entry rx session_id
                     (make_checkpoint_entry raw_payload session_id (s_mode s) now 0) rt1)))"

definition maybe_insert_checkpoint ::
    "'z runtime_ext_scheme \<Rightarrow> string \<Rightarrow> Session \<Rightarrow> Runtime \<Rightarrow> Runtime" where
  "maybe_insert_checkpoint rx session_id s rt =
     (let interval = rx_checkpoint_interval rx;
          log_len = (case get_log (rt_logs rt) session_id of None \<Rightarrow> 0 | Some l \<Rightarrow> length l)
      in if interval = 0 \<or> log_len < interval \<or> log_len mod interval \<noteq> 0 then rt
         else force_insert_checkpoint rx session_id s rt)"

definition compact_session_log ::
    "'z runtime_ext_scheme \<Rightarrow> string \<Rightarrow> Session \<Rightarrow> u64 \<Rightarrow> Runtime \<Rightarrow> LogEntry option \<times> Runtime" where
  "compact_session_log rx session_id s discarded rt =
     (case lx_encode_session rx (PersistedSession_from s) of
        None \<Rightarrow> (None, rt)
      | Some raw_payload \<Rightarrow>
          (let checkpoint = make_checkpoint_entry raw_payload session_id (s_mode s)
                              (rx_wall_clock rx (rt_calls rt)) discarded
           in case storage_call rx (replace_log session_id [checkpoint]) rt of
                (False, rt1) \<Rightarrow> (None, rt1)
              | (True, rt1) \<Rightarrow> (Some checkpoint, rt1)))"

definition maybe_compact_log ::
    "'z runtime_ext_scheme \<Rightarrow> string \<Rightarrow> Session \<Rightarrow> Runtime \<Rightarrow> bool \<times> Runtime" where
  "maybe_compact_log rx session_id s rt =
     (if \<not> rx_compact_terminal_logs rx then (False, rt)
      else
        (let discarded = (case get_log (rt_logs rt) session_id of
               None \<Rightarrow> 0
             | Some es \<Rightarrow> compaction_base es + length (incoming es))
         in case compact_session_log rx session_id s discarded rt of
              (Some checkpoint, rt1) \<Rightarrow>
                (True, rt1\<lparr>rt_logs := replace_session_log session_id [checkpoint] (rt_logs rt1)\<rparr>)
            | (None, rt1) \<Rightarrow> (False, rt1)))"

definition settle_terminal :: "'z runtime_ext_scheme \<Rightarrow> string \<Rightarrow> Session \<Rightarrow> Runtime \<Rightarrow> Runtime" where
  "settle_terminal rx session_id s rt =
     (case maybe_compact_log rx session_id s rt of
        (True, rt1) \<Rightarrow> rt1
      | (False, rt1) \<Rightarrow> force_insert_checkpoint rx session_id s rt1)"

section \<open>Expiry and synthesis\<close>

definition maybe_expire_session ::
    "'z runtime_ext_scheme \<Rightarrow> string \<Rightarrow> Session \<Rightarrow> Runtime \<Rightarrow> bool result \<times> Session \<times> Runtime" where
  "maybe_expire_session rx session_id s rt =
     (let (now, rt1) = now_ms rx rt
      in if deadline_passed now s then
           (case append_entry rx session_id
                   (make_internal_entry ''TtlExpired'' [] session_id (s_mode s) now) rt1 of
              (Inl e, rt2) \<Rightarrow> (Inl e, s, rt2)
            | (Inr _, rt2) \<Rightarrow>
                (case expire s of
                   (Inl e, s') \<Rightarrow> (Inl e, s', rt2)
                 | (Inr _, s') \<Rightarrow> (Ok True, s', send_lifecycle (LcExpired session_id) rt2)))
         else (Ok False, s, rt1))"

definition synthesize_due_accept ::
    "'z runtime_ext_scheme \<Rightarrow> string \<Rightarrow> Session \<Rightarrow> i64 \<Rightarrow> Runtime \<Rightarrow> bool result \<times> Session \<times> Runtime" where
  "synthesize_due_accept rx session_id s now rt =
     (case instantiate (rt_modes rt) (s_mode s) of
        Inl _ \<Rightarrow> (Ok False, s, rt)
      | Inr mode \<Rightarrow>
          (case next_synthetic s mode now of
             Inl e \<Rightarrow> (Inl e, s, rt)
           | Inr None \<Rightarrow> (Ok False, s, rt)
           | Inr (Some syn) \<Rightarrow>
               (case append_entry rx session_id
                       (make_incoming_entry (syn_envelope syn) (e_timestamp_unix_ms (syn_envelope syn))) rt of
                  (Inl e, rt1) \<Rightarrow> (Inl e, s, rt1)
                | (Inr _, rt1) \<Rightarrow>
                    (let (env, s1) = commit_synthetic s syn;
                         rt2 = save_session_to_storage rx s1 rt1;
                         rt3 = maybe_insert_checkpoint rx session_id s1 rt2
                     in (Ok True, s1, publish_accepted_envelope env rt3)))))"

section \<open>SessionStart\<close>

definition start_options :: "mode_entries \<Rightarrow> string \<Rightarrow> StartOptions" where
  "start_options modes mode_name =
     default_StartOptions
       \<lparr>so_strict := Some (registry_requires_strict modes mode_name),
        so_descriptor_mode_version := get_mode_version modes mode_name\<rparr>"

definition open_session_count :: "Runtime \<Rightarrow> string \<Rightarrow> i64 \<Rightarrow> nat" where
  "open_session_count rt sender now =
     length (filter (\<lambda>i. case rt_sessions rt i of
                None \<Rightarrow> False
              | Some s \<Rightarrow> s_initiator_sender s = sender \<and> s_state s = Open \<and> now \<le> s_ttl_expiry s)
       (sorted_list_of_set (dom (rt_sessions rt))))"

definition reserve_slot ::
    "'z runtime_ext_scheme \<Rightarrow> Envelope \<Rightarrow> nat option \<Rightarrow> Session \<Rightarrow> Runtime \<Rightarrow> unit result \<times> Runtime" where
  "reserve_slot rx env max_open_sessions s rt =
     (if rt_sessions rt (e_session_id env) \<noteq> None then (Err SessionAlreadyExists, rt)
      else case max_open_sessions of
        None \<Rightarrow> (Ok (), put_session (e_session_id env) s rt)
      | Some max_open \<Rightarrow>
          (let (now, rt1) = now_ms rx rt
           in if open_session_count rt1 (e_sender env) now \<ge> max_open then (Err RateLimited, rt1)
              else (Ok (), put_session (e_session_id env) s rt1)))"

definition rollback :: "Envelope \<Rightarrow> Runtime \<Rightarrow> Runtime" where
  "rollback env rt = rt\<lparr>rt_sessions := (rt_sessions rt)(e_session_id env := None)\<rparr>"

definition start_entry :: "Envelope \<Rightarrow> ValidatedStart \<Rightarrow> Session \<Rightarrow> LogEntry" where
  "start_entry env v s =
     (make_incoming_entry env (vs_accepted_at_ms v))
       \<lparr>le_bound_mode_version := vs_bound_mode_version v, le_semantics_rev := s_semantics_rev s,
        le_bound_max_suspend_ms := Some (vs_max_suspend_ms v)\<rparr>"

definition commit_start ::
    "'z runtime_ext_scheme \<Rightarrow> Envelope \<Rightarrow> ValidatedStart \<Rightarrow> Session \<Rightarrow> Runtime \<Rightarrow> ProcessResult result \<times> Runtime" where
  "commit_start rx env v s rt =
     (let i = e_session_id env; e = start_entry env v s
      in case storage_call rx (create_session_storage i) rt of
           (False, rt1) \<Rightarrow> (Err StorageFailed, rollback env rt1)
         | (True, rt1) \<Rightarrow>
             (case storage_call rx (append_log_entry i e) rt1 of
                (False, rt2) \<Rightarrow> (Err StorageFailed, rollback env rt2)
              | (True, rt2) \<Rightarrow>
                  (let rt3 = rt2\<lparr>rt_logs := log_append i e (create_session_log i (rt_logs rt2))\<rparr>;
                       rt4 = save_session_to_storage rx s rt3;
                       rt5 = send_lifecycle (LcCreated i) (publish_accepted_envelope env rt4)
                   in (Ok \<lparr>pr_session_state = s_state s, pr_duplicate = False\<rparr>, rt5))))"

definition effective_policy_version :: "ValidatedStart \<Rightarrow> string" where
  "effective_policy_version v =
     (if requested_policy_version v = [] then DEFAULT_POLICY_ID else requested_policy_version v)"

definition process_session_start ::
    "'z runtime_ext_scheme \<Rightarrow> Envelope \<Rightarrow> nat option \<Rightarrow> Runtime \<Rightarrow> ProcessResult result \<times> Runtime" where
  "process_session_start rx env max_open_sessions rt =
     (if blank (e_mode env) then (Err InvalidEnvelope, rt)
      else case validate_session_id_for_acceptance (sx_parse_uuid (lx_start rx)) (e_session_id env) of
        Inl e \<Rightarrow> (Inl e, rt)
      | Inr _ \<Rightarrow>
          (case instantiate (rt_modes rt) (e_mode env) of
             Inl e \<Rightarrow> (Inl e, rt)
           | Inr mode \<Rightarrow>
               (let (accepted_at, rt1) = now_ms rx rt
                in case validate_session_start (lx_start rx) env accepted_at
                          (start_options (rt_modes rt) (e_mode env)) of
                     Inl e \<Rightarrow> (Inl e, rt1)
                   | Inr v \<Rightarrow>
                       (case rt_sessions rt1 (e_session_id env) of
                          Some existing \<Rightarrow>
                            if e_message_id env \<in> s_seen_message_ids existing
                            then (Ok \<lparr>pr_session_state = s_state existing, pr_duplicate = True\<rparr>, rt1)
                            else (Err SessionAlreadyExists, rt1)
                        | None \<Rightarrow>
                            (case resolve (rt_policies rt1) (effective_policy_version v) of
                               Inl _ \<Rightarrow> (Err UnknownPolicyVersion, rt1)
                             | Inr policy \<Rightarrow>
                                 (case ValidatedStart_accept v env mode (Some policy) of
                                    Inl e \<Rightarrow> (Inl e, rt1)
                                  | Inr s \<Rightarrow>
                                      (case reserve_slot rx env max_open_sessions s rt1 of
                                         (Inl e, rt2) \<Rightarrow> (Inl e, rt2)
                                       | (Inr _, rt2) \<Rightarrow> commit_start rx env v s rt2)))))))"

section \<open>Messages and signals\<close>

definition accept_message ::
    "'z runtime_ext_scheme \<Rightarrow> Envelope \<Rightarrow> Mode \<Rightarrow> i64 \<Rightarrow> Session \<Rightarrow> Runtime
     \<Rightarrow> ProcessResult result \<times> Session \<times> Runtime" where
  "accept_message rx env mode now s rt =
     (let i = e_session_id env
      in case dispatch s env mode now of
           Inl e \<Rightarrow> (Inl e, s, rt)
         | Inr response \<Rightarrow>
             (case append_entry rx i (make_incoming_entry env now) rt of
                (Inl e, rt1) \<Rightarrow> (Inl e, s, rt1)
              | (Inr _, rt1) \<Rightarrow>
                  (let (result_state, s1) = commit s env response now;
                       rt2 = (if result_state = Resolved then send_lifecycle (LcResolved i) rt1 else rt1);
                       rt3 = save_session_to_storage rx s1 rt2;
                       rt4 = (if result_state = Resolved then settle_terminal rx i s1 rt3
                              else maybe_insert_checkpoint rx i s1 rt3)
                   in (Ok \<lparr>pr_session_state = result_state, pr_duplicate = False\<rparr>, s1,
                       publish_accepted_envelope env rt4))))"

definition message_on_session ::
    "'z runtime_ext_scheme \<Rightarrow> Envelope \<Rightarrow> Session \<Rightarrow> Runtime \<Rightarrow> ProcessResult result \<times> Session \<times> Runtime" where
  "message_on_session rx env s rt =
     (let (now, rt1) = now_ms rx rt
      in case check_preconditions s env now of
           Inl e \<Rightarrow> (Inl e, s, rt1)
         | Inr PcDuplicate \<Rightarrow> (Ok \<lparr>pr_session_state = s_state s, pr_duplicate = True\<rparr>, s, rt1)
         | Inr PcExpired \<Rightarrow>
             (case maybe_expire_session rx (e_session_id env) s rt1 of
                (Inl e, s', rt2) \<Rightarrow> (Inl e, s', rt2)
              | (Inr _, s', rt2) \<Rightarrow> (Err TtlExpired, s', save_session_to_storage rx s' rt2))
         | Inr PcProceed \<Rightarrow>
             (case instantiate (rt_modes rt1) (s_mode s) of
                Inl e \<Rightarrow> (Inl e, s, rt1)
              | Inr mode \<Rightarrow>
                  (case admit s env mode of
                     Inl e \<Rightarrow> (Inl e, s, rt1)
                   | Inr _ \<Rightarrow>
                       (case synthesize_due_accept rx (e_session_id env) s now rt1 of
                          (Inl e, s1, rt2) \<Rightarrow> (Inl e, s1, rt2)
                        | (Inr _, s1, rt2) \<Rightarrow> accept_message rx env mode now s1 rt2))))"

text \<open>The operations below run under the lock of a registered session; what they make of the
  session is what the registry holds afterwards.\<close>

definition with_session ::
    "string \<Rightarrow> (Session \<Rightarrow> Runtime \<Rightarrow> 'a result \<times> Session \<times> Runtime) \<Rightarrow> Runtime \<Rightarrow> 'a result \<times> Runtime" where
  "with_session session_id body rt =
     (case rt_sessions rt session_id of
        None \<Rightarrow> (Err UnknownSession, rt)
      | Some s \<Rightarrow> (let (r, s', rt') = body s rt in (r, put_session session_id s' rt')))"

definition process_message ::
    "'z runtime_ext_scheme \<Rightarrow> Envelope \<Rightarrow> Runtime \<Rightarrow> ProcessResult result \<times> Runtime" where
  "process_message rx env rt = with_session (e_session_id env) (message_on_session rx env) rt"

definition process_signal ::
    "'z runtime_ext_scheme \<Rightarrow> Envelope \<Rightarrow> Runtime \<Rightarrow> ProcessResult result \<times> Runtime" where
  "process_signal rx env rt =
     (if e_message_type env = ''Signal'' \<and> e_payload env \<noteq> [] \<and>
         (case rx_decode_signal rx (e_payload env) of None \<Rightarrow> True | Some signal_type \<Rightarrow> blank signal_type)
      then (Err InvalidPayload, rt)
      else if e_message_type env = ''Progress'' \<and> e_payload env \<noteq> [] \<and> \<not> rx_decode_progress rx (e_payload env)
      then (Err InvalidPayload, rt)
      else (Ok \<lparr>pr_session_state = Open, pr_duplicate = False\<rparr>, rt\<lparr>rt_signals := rt_signals rt @ [env]\<rparr>))"

definition process ::
    "'z runtime_ext_scheme \<Rightarrow> Envelope \<Rightarrow> nat option \<Rightarrow> Runtime \<Rightarrow> ProcessResult result \<times> Runtime" where
  "process rx env max_open_sessions rt =
     (if e_message_type env = ''SessionStart'' then process_session_start rx env max_open_sessions rt
      else if e_message_type env = ''Signal'' \<or> e_message_type env = ''Progress'' then process_signal rx env rt
      else process_message rx env rt)"

section \<open>Reads\<close>

definition get_session_checked ::
    "'z runtime_ext_scheme \<Rightarrow> string \<Rightarrow> Runtime \<Rightarrow> Session option \<times> Runtime" where
  "get_session_checked rx session_id rt =
     (case rt_sessions rt session_id of
        None \<Rightarrow> (None, rt)
      | Some s \<Rightarrow>
          (let (r, s', rt1) = maybe_expire_session rx session_id s rt;
               changed = (r = Ok True);
               rt2 = (if changed then save_session_to_storage rx s' rt1 else rt1)
           in (Some s', put_session session_id s' rt2)))"

definition session_for_read ::
    "'z runtime_ext_scheme \<Rightarrow> string \<Rightarrow> Runtime \<Rightarrow> Session result \<times> Runtime" where
  "session_for_read rx session_id rt =
     (case get_session_checked rx session_id rt of
        (Some s, rt1) \<Rightarrow> (Ok s, rt1)
      | (None, rt1) \<Rightarrow>
          if \<not> is_storage_safe_session_id session_id then (Err UnknownSession, rt1)
          else (case storage_read rx (load_session session_id) rt1 of
                  (None, rt2) \<Rightarrow> (Err StorageFailed, rt2)
                | (Some None, rt2) \<Rightarrow> (Err UnknownSession, rt2)
                | (Some (Some s), rt2) \<Rightarrow>
                    if s_session_id s = session_id then (Ok s, rt2) else (Err UnknownSession, rt2)))"

section \<open>Suspend, resume, cancel\<close>

definition cancel_on_session ::
    "'z runtime_ext_scheme \<Rightarrow> string \<Rightarrow> string \<Rightarrow> string \<Rightarrow> Session \<Rightarrow> Runtime
     \<Rightarrow> ProcessResult result \<times> Session \<times> Runtime" where
  "cancel_on_session rx session_id reason cancelled_by s rt =
     (case maybe_expire_session rx session_id s rt of
        (Inl e, s1, rt1) \<Rightarrow> (Inl e, s1, rt1)
      | (Inr _, s1, rt1) \<Rightarrow>
          if is_terminal (s_state s1) then
            (Ok \<lparr>pr_session_state = s_state s1, pr_duplicate = False\<rparr>, s1, save_session_to_storage rx s1 rt1)
          else
            (let (now, rt2) = now_ms rx rt1
             in case append_entry rx session_id
                       (make_internal_entry ''SessionCancel'' (rx_encode_cancel rx reason cancelled_by)
                          session_id (s_mode s1) now) rt2 of
                  (Inl e, rt3) \<Rightarrow> (Inl e, s1, rt3)
                | (Inr _, rt3) \<Rightarrow>
                    (let s2 = snd (cancel s1);
                         rt4 = settle_terminal rx session_id s2 (save_session_to_storage rx s2 rt3)
                     in (Ok \<lparr>pr_session_state = Cancelled, pr_duplicate = False\<rparr>, s2,
                         send_lifecycle (LcCancelled session_id) rt4))))"

definition cancel_session ::
    "'z runtime_ext_scheme \<Rightarrow> string \<Rightarrow> string \<Rightarrow> string \<Rightarrow> Runtime \<Rightarrow> ProcessResult result \<times> Runtime" where
  "cancel_session rx session_id reason cancelled_by rt =
     with_session session_id (cancel_on_session rx session_id reason cancelled_by) rt"

definition suspend_on_session ::
    "'z runtime_ext_scheme \<Rightarrow> string \<Rightarrow> string \<Rightarrow> string \<Rightarrow> Session \<Rightarrow> Runtime
     \<Rightarrow> ProcessResult result \<times> Session \<times> Runtime" where
  "suspend_on_session rx session_id reason suspended_by s rt =
     (case maybe_expire_session rx session_id s rt of
        (Inl e, s1, rt1) \<Rightarrow> (Inl e, s1, rt1)
      | (Inr _, s1, rt1) \<Rightarrow>
          if s_state s1 \<noteq> Open then (Err SessionNotOpen, s1, rt1)
          else
            (let (now, rt2) = now_ms rx rt1
             in case append_entry rx session_id
                       (make_internal_entry ''SessionSuspend'' (rx_encode_suspend rx reason suspended_by)
                          session_id (s_mode s1) now) rt2 of
                  (Inl e, rt3) \<Rightarrow> (Inl e, s1, rt3)
                | (Inr _, rt3) \<Rightarrow>
                    (case suspend now s1 of
                       (Inl e, s2) \<Rightarrow> (Inl e, s2, rt3)
                     | (Inr _, s2) \<Rightarrow>
                         (Ok \<lparr>pr_session_state = Suspended, pr_duplicate = False\<rparr>, s2,
                          send_lifecycle (LcSuspended session_id) (save_session_to_storage rx s2 rt3)))))"

definition suspend_session ::
    "'z runtime_ext_scheme \<Rightarrow> string \<Rightarrow> string \<Rightarrow> string \<Rightarrow> Runtime \<Rightarrow> ProcessResult result \<times> Runtime" where
  "suspend_session rx session_id reason suspended_by rt =
     with_session session_id (suspend_on_session rx session_id reason suspended_by) rt"

definition banked_ms :: "Session \<Rightarrow> i64" where
  "banked_ms s =
     (case s_suspended_at_ms s of
        None \<Rightarrow> 0
      | Some suspended_at \<Rightarrow> max (sat_sub (s_ttl_expiry s) suspended_at) 0)"

definition resume_on_session ::
    "'z runtime_ext_scheme \<Rightarrow> string \<Rightarrow> string \<Rightarrow> string \<Rightarrow> Session \<Rightarrow> Runtime
     \<Rightarrow> ProcessResult result \<times> Session \<times> Runtime" where
  "resume_on_session rx session_id reason resumed_by s rt =
     (if s_state s \<noteq> Suspended then (Err SessionNotOpen, s, rt)
      else
        (let (now, rt1) = now_ms rx rt
         in case append_entry rx session_id
                   (make_internal_entry ''SessionResume'' (rx_encode_resume rx reason resumed_by (banked_ms s))
                      session_id (s_mode s) now) rt1 of
              (Inl e, rt2) \<Rightarrow> (Inl e, s, rt2)
            | (Inr _, rt2) \<Rightarrow>
                (case resume now s of
                   (Inr _, s1) \<Rightarrow>
                     (Ok \<lparr>pr_session_state = Open, pr_duplicate = False\<rparr>, s1,
                      send_lifecycle (LcResumed session_id) (save_session_to_storage rx s1 rt2))
                 | (Inl _, s1) \<Rightarrow>
                     (Err TtlExpired, s1,
                      send_lifecycle (LcExpired session_id) (save_session_to_storage rx s1 rt2)))))"

definition resume_session ::
    "'z runtime_ext_scheme \<Rightarrow> string \<Rightarrow> string \<Rightarrow> string \<Rightarrow> Runtime \<Rightarrow> ProcessResult result \<times> Runtime" where
  "resume_session rx session_id reason resumed_by rt =
     with_session session_id (resume_on_session rx session_id reason resumed_by) rt"

section \<open>Background sweeps\<close>

definition registered_ids :: "Runtime \<Rightarrow> string list" where
  "registered_ids rt = sorted_list_of_set (dom (rt_sessions rt))"

definition cleanup_one :: "'z runtime_ext_scheme \<Rightarrow> i64 \<Rightarrow> string \<Rightarrow> Runtime \<Rightarrow> Runtime" where
  "cleanup_one rx now session_id rt =
     (case rt_sessions rt session_id of
        None \<Rightarrow> rt
      | Some s \<Rightarrow>
          if s_state s \<noteq> Open \<or> now \<le> s_ttl_expiry s then rt
          else (case append_entry rx session_id
                       (make_internal_entry ''TtlExpired'' [] session_id (s_mode s) now) rt of
                  (Inl _, rt1) \<Rightarrow> rt1
                | (Inr _, rt1) \<Rightarrow>
                    (let s1 = s\<lparr>s_state := Expired\<rparr>;
                         rt2 = put_session session_id s1 rt1;
                         rt3 = settle_terminal rx session_id s1 (save_session_to_storage rx s1 rt2)
                     in send_lifecycle (LcExpired session_id) rt3)))"

definition cleanup_expired_sessions :: "'z runtime_ext_scheme \<Rightarrow> Runtime \<Rightarrow> Runtime" where
  "cleanup_expired_sessions rx rt =
     (let (now, rt1) = now_ms rx rt in fold (cleanup_one rx now) (registered_ids rt1) rt1)"

definition sweep_one :: "'z runtime_ext_scheme \<Rightarrow> i64 \<Rightarrow> string \<Rightarrow> Runtime \<Rightarrow> Runtime" where
  "sweep_one rx now session_id rt =
     (case rt_sessions rt session_id of
        None \<Rightarrow> rt
      | Some s \<Rightarrow>
          if s_state s \<noteq> Open then rt
          else (let (_, s1, rt1) = synthesize_due_accept rx session_id s now rt
                in put_session session_id s1 rt1))"

definition sweep_due_synthetic_accepts :: "'z runtime_ext_scheme \<Rightarrow> Runtime \<Rightarrow> Runtime" where
  "sweep_due_synthetic_accepts rx rt =
     (let (now, rt1) = now_ms rx rt in fold (sweep_one rx now) (registered_ids rt1) rt1)"

definition cutoff_ms :: "i64 \<Rightarrow> u64 \<Rightarrow> i64" where
  "cutoff_ms now retention_secs = wrap_i64 (now - wrap_i64 (wrap_i64 (int retention_secs) * 1000))"

definition forget_session :: "string \<Rightarrow> Runtime \<Rightarrow> Runtime" where
  "forget_session session_id rt =
     rt\<lparr>rt_sessions := (rt_sessions rt)(session_id := None),
        rt_logs := remove_session_log session_id (rt_logs rt)\<rparr>"

definition evict_stale_sessions :: "'z runtime_ext_scheme \<Rightarrow> u64 \<Rightarrow> Runtime \<Rightarrow> Runtime" where
  "evict_stale_sessions rx retention_secs rt =
     (let (now, rt1) = now_ms rx rt;
          cutoff = cutoff_ms now retention_secs;
          evict_ids = filter (\<lambda>i. case rt_sessions rt1 i of
                None \<Rightarrow> False
              | Some s \<Rightarrow> s_state s \<in> {Resolved, Expired, Cancelled} \<and> s_started_at_unix_ms s < cutoff)
            (registered_ids rt1)
      in fold forget_session evict_ids rt1)"

definition gc_one :: "'z runtime_ext_scheme \<Rightarrow> i64 \<Rightarrow> string \<Rightarrow> Runtime \<Rightarrow> Runtime" where
  "gc_one rx cutoff session_id rt =
     (let stale = (\<lambda>s. is_terminal (s_state s) \<and> s_started_at_unix_ms s < cutoff);
          (eligible, rt1) =
            (case rt_sessions rt session_id of
               Some s \<Rightarrow> (stale s, rt)
             | None \<Rightarrow>
                 (case storage_read rx (load_session session_id) rt of
                    (Some (Some s), rt1) \<Rightarrow> (stale s, rt1)
                  | (_, rt1) \<Rightarrow> (False, rt1)))
      in if \<not> eligible then rt1
         else (case storage_call rx (delete_session session_id) rt1 of
                 (True, rt2) \<Rightarrow> forget_session session_id rt2
               | (False, rt2) \<Rightarrow> rt2))"

definition gc_disk_sessions :: "'z runtime_ext_scheme \<Rightarrow> u64 \<Rightarrow> Runtime \<Rightarrow> Runtime" where
  "gc_disk_sessions rx retention_secs rt =
     (let (now, rt1) = now_ms rx rt
      in case storage_read rx (\<lambda>disk. Some (list_session_ids disk)) rt1 of
           (None, rt2) \<Rightarrow> rt2
         | (Some ids, rt2) \<Rightarrow> fold (gc_one rx (cutoff_ms now retention_secs)) ids rt2)"

section \<open>Recovery at start-up\<close>

datatype recovery_error =
    ListFailed
  | LoadFailed string
  | ReplayFailed string MacpError
  | PersistFailed string

record RecoveryReport =
  rr_recovered :: nat
  rr_replay_mismatches :: u64

definition recover_one ::
    "'z runtime_ext_scheme \<Rightarrow> bool \<Rightarrow> string \<Rightarrow> RecoveryReport \<Rightarrow> Runtime
     \<Rightarrow> (recovery_error + RecoveryReport) \<times> Runtime" where
  "recover_one rx strict session_id report rt =
     (case storage_read rx (load_log session_id) rt of
        (None, rt1) \<Rightarrow> (if strict then Inl (LoadFailed session_id) else Inr report, rt1)
      | (Some es, rt1) \<Rightarrow>
          if es = [] then (Inr report, rt1)
          else case replay_session rx session_id es (rt_modes rt1) (Some (rt_policies rt1)) of
            Inl e \<Rightarrow> (if strict then Inl (ReplayFailed session_id e) else Inr report, rt1)
          | Inr s \<Rightarrow>
              (let (snapshot, rt2) = storage_read rx (load_session session_id) rt1;
                   mismatches = (case snapshot of
                       Some (Some snap) \<Rightarrow> validate_replay_consistency s snap
                     | _ \<Rightarrow> 0)
               in case storage_call rx (save_session rx s) rt2 of
                    (saved, rt3) \<Rightarrow>
                      if \<not> saved \<and> strict then (Inl (PersistFailed session_id), rt3)
                      else
                        (let rt4 = rt3\<lparr>rt_logs := fold (\<lambda>e. log_append session_id e) es
                                         (create_session_log session_id (rt_logs rt3))\<rparr>
                         in (Inr \<lparr>rr_recovered = rr_recovered report + 1,
                                  rr_replay_mismatches = rr_replay_mismatches report + mismatches\<rparr>,
                             put_session session_id s rt4))))"

fun recover_each ::
    "'z runtime_ext_scheme \<Rightarrow> bool \<Rightarrow> string list \<Rightarrow> RecoveryReport \<Rightarrow> Runtime
     \<Rightarrow> (recovery_error + RecoveryReport) \<times> Runtime" where
  "recover_each rx strict [] report rt = (Inr report, rt)"
| "recover_each rx strict (i # ids) report rt =
     (case recover_one rx strict i report rt of
        (Inl e, rt1) \<Rightarrow> (Inl e, rt1)
      | (Inr report1, rt1) \<Rightarrow> recover_each rx strict ids report1 rt1)"

definition recover_sessions ::
    "'z runtime_ext_scheme \<Rightarrow> bool \<Rightarrow> Runtime \<Rightarrow> (recovery_error + RecoveryReport) \<times> Runtime" where
  "recover_sessions rx strict rt =
     (case storage_read rx (\<lambda>disk. Some (list_session_ids disk)) rt of
        (None, rt1) \<Rightarrow> (Inl ListFailed, rt1)
      | (Some ids, rt1) \<Rightarrow> recover_each rx strict ids \<lparr>rr_recovered = 0, rr_replay_mismatches = 0\<rparr> rt1)"

section \<open>What-if replay of a stored session\<close>

datatype WhatIfError =
    WiUnknownSession
  | WiInvalidCandidate message
  | WiCompacted
  | WiNoStart MacpError
  | WiReplayFailed MacpError
  | WiStateMismatch "SessionState option" SessionState
  | WiNoLog

record WhatIfRun =
  wir_report :: WhatIfReport
  wir_history_index :: "u64 option list"

definition recorded_policy ::
    "'z log_ext_scheme \<Rightarrow> LogEntry list \<Rightarrow> Session option \<Rightarrow> PolicyRegistry \<Rightarrow> PolicyDefinition option" where
  "recorded_policy lx es stored policies =
     (case Option.bind stored s_policy_definition of
        Some def \<Rightarrow> Some def
      | None \<Rightarrow>
          (let requested = (case stored of
                 Some s \<Rightarrow> s_policy_version s
               | None \<Rightarrow>
                   (case find is_session_start es of
                      None \<Rightarrow> []
                    | Some e \<Rightarrow>
                        (case parse_session_start_payload (sx_decode_start (lx_start lx)) (le_raw_payload e) of
                           Inr p \<Rightarrow> ssp_policy_version p
                         | Inl _ \<Rightarrow> [])));
               policy_id = (if requested = [] then DEFAULT_POLICY_ID else requested)
           in case resolve policies policy_id of Inr p \<Rightarrow> Some p | Inl _ \<Rightarrow> None))"

definition what_if_over_log ::
    "'z log_ext_scheme \<Rightarrow> registry_ext \<Rightarrow> string \<Rightarrow> LogEntry list \<Rightarrow> Session option \<Rightarrow> mode_entries
     \<Rightarrow> PolicyRegistry \<Rightarrow> PolicyDefinition \<Rightarrow> WhatIfError + WhatIfRun" where
  "what_if_over_log lx px session_id es stored modes policies candidate =
     (case validate_candidate px policies candidate of
        Inl reason \<Rightarrow> Inl (WiInvalidCandidate reason)
      | Inr _ \<Rightarrow>
          (case (stored, find is_session_start es) of
             (None, None) \<Rightarrow> Inl WiCompacted
           | (st, start) \<Rightarrow>
               (let mode = (case (st, start) of
                      (Some s, _) \<Rightarrow> s_mode s
                    | (None, Some e) \<Rightarrow> le_mode e
                    | (None, None) \<Rightarrow> [])
                in if p_mode candidate \<noteq> mode \<and> p_mode candidate \<noteq> ''*'' then
                     Inl (WiInvalidCandidate
                       [INVALID (''candidate mode '' @ quote), FmtStr (p_mode candidate),
                        Lit (quote @ '' does not govern session mode '' @ quote), FmtStr mode, Lit quote])
                   else (case recorded_history session_id mode es modes of
                           Inl e \<Rightarrow> Inl (WiNoStart e)
                         | Inr None \<Rightarrow> Inl WiCompacted
                         | Inr (Some h) \<Rightarrow>
                             (case replay_under_policy (lx_start lx)
                                     ((rh_start h)\<lparr>rs_policy := recorded_policy lx es stored policies\<rparr>)
                                     (rh_events h) (rh_mode h) log_replay_options candidate of
                                Inl e \<Rightarrow> Inl (WiReplayFailed e)
                              | Inr report \<Rightarrow>
                                  (case stored of
                                     Some s \<Rightarrow>
                                       if oc_state (wr_recorded report) \<noteq> Some (s_state s)
                                       then Inl (WiStateMismatch (oc_state (wr_recorded report)) (s_state s))
                                       else Inr \<lparr>wir_report = report, wir_history_index = rh_history_index h\<rparr>
                                   | None \<Rightarrow>
                                       Inr \<lparr>wir_report = report, wir_history_index = rh_history_index h\<rparr>))))))"

definition what_if_replay ::
    "'z runtime_ext_scheme \<Rightarrow> registry_ext \<Rightarrow> string \<Rightarrow> PolicyDefinition \<Rightarrow> Runtime
     \<Rightarrow> (WhatIfError + WhatIfRun) \<times> Runtime" where
  "what_if_replay rx px session_id candidate rt =
     (case get_session_checked rx session_id rt of
        (None, rt1) \<Rightarrow> (Inl WiUnknownSession, rt1)
      | (Some s, rt1) \<Rightarrow>
          (let (found, rt2) = (case get_log (rt_logs rt1) session_id of
                 Some es \<Rightarrow> (Some es, rt1)
               | None \<Rightarrow> storage_read rx (load_log session_id) rt1)
           in case found of
                None \<Rightarrow> (Inl WiNoLog, rt2)
              | Some es \<Rightarrow>
                  (what_if_over_log rx px session_id es (Some s) (rt_modes rt2) (rt_policies rt2) candidate,
                   rt2)))"

end
