(* ===== verification/Durability.thy ===== *)
theory Durability
  imports Runtime
begin

text \<open>
  Why a restart loses nothing: whatever the runtime does, the log it stored for a registered session
  replays to that session.
\<close>

section \<open>Sessions and their logs\<close>

text \<open>\<open>tracked rx modes pol i es s\<close>: replaying the log \<open>es\<close> under the modes \<open>modes\<close> and the policies
  \<open>pol\<close> gives the session \<open>s\<close>.\<close>

definition mode_ready :: "mode_entries \<Rightarrow> Session \<Rightarrow> bool" where
  "mode_ready modes s \<longleftrightarrow>
     (\<exists>reg. modes (s_mode s) = Some reg \<and> shipped_mode (mr_factory reg) \<and>
        (\<forall>minv. mode_contract (mr_factory reg) minv \<longrightarrow> minv s))"

definition bound_ok :: "string \<Rightarrow> Session \<Rightarrow> bool" where
  "bound_ok i s \<longleftrightarrow> s_session_id s = i \<and> 0 < s_ttl_ms s \<and> 1 \<le> s_semantics_rev s \<and>
     s_policy_definition s \<noteq> None \<and> s_mode s \<noteq> []"

definition tracked ::
    "'z log_ext_scheme \<Rightarrow> mode_entries \<Rightarrow> PolicyRegistry \<Rightarrow> string \<Rightarrow> LogEntry list \<Rightarrow> Session \<Rightarrow> bool" where
  "tracked rx modes pol i es s \<longleftrightarrow> bound_ok i s \<and> (\<forall>e \<in> set es. le_mode e = s_mode s) \<and>
     mode_ready modes s \<and> (\<exists>r. replay_session rx i es modes (Some pol) = Inr r \<and> same_session r s)"

lemma bound_ok_frame: "bound_ok i s \<Longrightarrow> bound_fields s' = bound_fields s \<Longrightarrow> bound_ok i s'"
  by (simp add: bound_ok_def bound_fields_def)

lemma ready_instance:
  assumes "mode_ready modes s"
  obtains M minv where "instantiate modes (s_mode s) = Inr M" "recorded_mode M minv" "minv s" "shipped_mode M"
proof -
  obtain reg where reg: "modes (s_mode s) = Some reg" "shipped_mode (mr_factory reg)"
    "\<forall>minv. mode_contract (mr_factory reg) minv \<longrightarrow> minv s"
    using assms by (auto simp: mode_ready_def)
  obtain minv where minv: "recorded_mode (mr_factory reg) minv" using reg(2) by (rule shipped_recorded)
  then have "minv s" using reg(3) recorded_mode.axioms(1) by blast
  then show thesis using that [of "mr_factory reg" minv] minv reg(1,2) by (simp add: instantiate_def)
qed

lemma ready_step:
  assumes "mode_ready modes s" "s_mode s' = s_mode s"
    and "\<And>M minv. instantiate modes (s_mode s) = Inr M \<Longrightarrow> mode_contract M minv \<Longrightarrow> minv s \<Longrightarrow> minv s'"
  shows "mode_ready modes s'"
proof -
  obtain reg where reg: "modes (s_mode s) = Some reg" "shipped_mode (mr_factory reg)"
    "\<forall>minv. mode_contract (mr_factory reg) minv \<longrightarrow> minv s"
    using assms(1) by (auto simp: mode_ready_def)
  have "minv s'" if "mode_contract (mr_factory reg) minv" for minv
    by (rule assms(3) [OF _ that]) (use reg that in \<open>auto simp: instantiate_def\<close>)
  then show ?thesis using reg(1,2) assms(2) by (auto simp: mode_ready_def)
qed

lemma tracked_append:
  assumes t: "tracked rx modes pol i es s" and e: "le_entry_kind e \<noteq> Checkpoint" "le_mode e = s_mode s"
    and b: "bound_fields s' = bound_fields s" and m: "mode_ready modes s'"
    and r: "\<And>r M. same_session r s \<Longrightarrow> instantiate modes (s_mode s) = Inr M \<Longrightarrow>
      \<exists>r'. replay_entry r i e M = (Inr (), r') \<and> same_session r' s'"
  shows "tracked rx modes pol i (es @ [e]) s'"
proof -
  obtain r where rs: "replay_session rx i es modes (Some pol) = Inr r" "same_session r s"
    using t by (auto simp: tracked_def)
  obtain M where M: "instantiate modes (s_mode s) = Inr M"
    using t ready_instance unfolding tracked_def by metis
  have rm: "s_mode r = s_mode s" by (rule bound_mode [OF same_session_bound [OF rs(2)]])
  obtain r' where r': "replay_entry r i e M = (Inr (), r')" "same_session r' s'"
    using r [OF rs(2) M] by blast
  have "replay_session rx i (es @ [e]) modes (Some pol) = Inr r'"
    by (rule replay_session_snoc [OF rs(1) e(1) _ r'(1)]) (simp add: rm M)
  then show ?thesis
    using t e(2) b m r'(2) bound_mode [OF b] by (auto simp: tracked_def intro: bound_ok_frame)
qed

lemma tracked_checkpoint:
  assumes t: "bound_ok i s" "mode_ready modes s" "\<forall>e \<in> set es. le_mode e = s_mode s"
    and c: "le_entry_kind c = Checkpoint" "le_mode c = s_mode s"
      "lx_decode_session rx (le_raw_payload c) = Some (PersistedSession_from s)"
  shows "tracked rx modes pol i (es @ [c]) s"
proof -
  obtain M where M: "instantiate modes (s_mode s) = Inr M" using t(2) ready_instance by metis
  have "replay_session rx i (es @ [c]) modes (Some pol) = Inr (forget_activity s)"
    using t(1) replay_session_checkpoint [OF c(1,3) _ _ _ M] by (auto simp: bound_ok_def)
  then show ?thesis using t c(2) by (auto simp: tracked_def)
qed

lemma tracked_modes:
  assumes "tracked rx modes pol i es s" "modes' (s_mode s) = modes (s_mode s)"
  shows "tracked rx modes' pol i es s"
proof -
  obtain r where r: "replay_session rx i es modes (Some pol) = Inr r" "same_session r s"
    using assms(1) by (auto simp: tracked_def)
  have "s_mode r = s_mode s" by (rule bound_mode [OF same_session_bound [OF r(2)]])
  then have "replay_session rx i es modes' (Some pol) = Inr r"
    using replay_session_agree [OF r(1)] assms(2) by simp
  then show ?thesis using assms r(2) by (auto simp: tracked_def mode_ready_def)
qed

section \<open>Effects on the logs\<close>

definition log_of :: "Runtime \<Rightarrow> string \<Rightarrow> LogEntry list \<Rightarrow> bool" where
  "log_of rt i es \<longleftrightarrow> map_option sd_log (rt_disk rt i) = Some es \<and> rt_logs rt i = Some es"

definition only :: "string \<Rightarrow> Runtime \<Rightarrow> Runtime \<Rightarrow> bool" where
  "only i rt rt' \<longleftrightarrow> rt_sessions rt' = rt_sessions rt \<and> rt_modes rt' = rt_modes rt \<and>
     rt_policies rt' = rt_policies rt \<and>
     (\<forall>j. j \<noteq> i \<longrightarrow> map_option sd_log (rt_disk rt' j) = map_option sd_log (rt_disk rt j) \<and> rt_logs rt' j = rt_logs rt j)"

definition backed :: "'z log_ext_scheme \<Rightarrow> PolicyRegistry \<Rightarrow> Runtime \<Rightarrow> string \<Rightarrow> Session \<Rightarrow> bool" where
  "backed rx pol rt i s \<longleftrightarrow> (\<exists>es. log_of rt i es \<and> tracked rx (rt_modes rt) pol i es s)"

lemma only_refl [simp]: "only i rt rt"
  by (simp add: only_def)

lemma only_trans: "only i rt rt1 \<Longrightarrow> only i rt1 rt2 \<Longrightarrow> only i rt rt2"
  by (simp add: only_def)

lemma only_modes: "only i rt rt' \<Longrightarrow> rt_modes rt' = rt_modes rt"
  by (simp add: only_def)

text \<open>Steps that leave the logs alone.\<close>

definition quiet :: "Runtime \<Rightarrow> Runtime \<Rightarrow> bool" where
  "quiet rt rt' \<longleftrightarrow> rt_sessions rt' = rt_sessions rt \<and> rt_modes rt' = rt_modes rt \<and>
     rt_policies rt' = rt_policies rt \<and> rt_logs rt' = rt_logs rt \<and>
     (\<forall>j. map_option sd_log (rt_disk rt' j) = map_option sd_log (rt_disk rt j))"

lemma quiet_refl [simp]: "quiet rt rt"
  by (simp add: quiet_def)

lemma quiet_trans: "quiet rt rt1 \<Longrightarrow> quiet rt1 rt2 \<Longrightarrow> quiet rt rt2"
  by (simp add: quiet_def)

lemma quiet_only: "quiet rt rt' \<Longrightarrow> only i rt rt'"
  by (simp add: quiet_def only_def)

lemma quiet_log_of: "quiet rt rt' \<Longrightarrow> log_of rt' i es = log_of rt i es"
  by (simp add: quiet_def log_of_def)

lemma quiet_backed: "quiet rt rt' \<Longrightarrow> backed rx pol rt' i s = backed rx pol rt i s"
  by (simp add: backed_def quiet_log_of) (simp add: quiet_def)

lemma quiet_now: "now_ms rx rt = (t, rt') \<Longrightarrow> quiet rt rt' \<and> t = rx_clock rx (rt_ticks rt)"
  by (auto simp: now_ms_def quiet_def)

lemma quiet_sends:
  "quiet rt (publish_accepted_envelope env rt)" "quiet rt (send_lifecycle ev rt)"
  by (simp_all add: publish_accepted_envelope_def send_lifecycle_def quiet_def)

lemma quiet_read: "storage_read rx op rt = (x, rt') \<Longrightarrow> quiet rt rt'"
  by (auto simp: storage_read_def quiet_def)

lemma quiet_save: "quiet rt (save_session_to_storage rx s rt)"
  by (auto simp: save_session_to_storage_def storage_call_def save_session_def quiet_def Let_def
      split: option.split if_splits)

lemma append_entry_cases:
  assumes "append_entry rx i e rt = (r, rt')"
  obtains (stored) d where "r = Inr ()" "rt_disk rt i = Some d"
      "rt_disk rt' = (rt_disk rt)(i \<mapsto> d\<lparr>sd_log := sd_log d @ [e]\<rparr>)"
      "rt_logs rt' = log_append i e (rt_logs rt)" "rt_sessions rt' = rt_sessions rt"
      "rt_modes rt' = rt_modes rt" "rt_policies rt' = rt_policies rt" "rt_stream rt' = rt_stream rt"
      "rt_ticks rt' = rt_ticks rt"
  | (failed) "r = Inl StorageFailed" "quiet rt rt'" "rt_stream rt' = rt_stream rt" "rt_ticks rt' = rt_ticks rt"
  using assms
  by (auto simp: append_entry_def storage_call_def append_log_entry_def Let_def quiet_def
      split: if_splits option.splits prod.splits bool.splits)

lemma append_only: "append_entry rx i e rt = (r, rt') \<Longrightarrow> only i rt rt'"
  by (erule append_entry_cases) (auto simp: only_def log_append_def quiet_def)

lemma append_log_of:
  assumes "append_entry rx i e rt = (Inr (), rt')" "log_of rt i es"
  shows "log_of rt' i (es @ [e])"
  using assms(1) by (rule append_entry_cases) (use assms(2) in \<open>auto simp: log_of_def log_append_def\<close>)

lemma append_failed_backed:
  assumes "append_entry rx i e rt = (Inl x, rt')" "backed rx pol rt i s"
  shows "backed rx pol rt' i s"
  using assms(1) by (rule append_entry_cases) (use assms(2) in \<open>auto simp: quiet_backed\<close>)

section \<open>Operations under a session's lock\<close>

definition keeps :: "'z log_ext_scheme \<Rightarrow> PolicyRegistry \<Rightarrow> string \<Rightarrow> Runtime \<Rightarrow> Session \<Rightarrow> Runtime \<Rightarrow> bool" where
  "keeps rx pol i rt s' rt' \<longleftrightarrow> backed rx pol rt' i s' \<and> only i rt rt'"

lemma keeps_quiet: "backed rx pol rt i s \<Longrightarrow> quiet rt rt' \<Longrightarrow> keeps rx pol i rt s rt'"
  by (simp add: keeps_def quiet_backed quiet_only)

lemma keeps_then_quiet: "keeps rx pol i rt s rt1 \<Longrightarrow> quiet rt1 rt2 \<Longrightarrow> keeps rx pol i rt s rt2"
  by (auto simp: keeps_def quiet_backed intro: only_trans quiet_only)

lemma quiet_then_keeps: "quiet rt rt1 \<Longrightarrow> keeps rx pol i rt1 s rt2 \<Longrightarrow> keeps rx pol i rt s rt2"
  by (auto simp: keeps_def intro: only_trans quiet_only)

lemma keeps_trans: "only i rt rt1 \<Longrightarrow> keeps rx pol i rt1 s rt2 \<Longrightarrow> keeps rx pol i rt s rt2"
  by (auto simp: keeps_def intro: only_trans)

lemma append_failed_keeps:
  "append_entry rx i e rt = (Inl x, rt') \<Longrightarrow> backed rx pol rt i s \<Longrightarrow> keeps rx pol i rt s rt'"
  by (auto simp: keeps_def intro: append_failed_backed append_only)

lemma append_keeps:
  assumes a: "append_entry rx i e rt = (Inr (), rt')" and b: "backed rx pol rt i s"
    and e: "le_entry_kind e \<noteq> Checkpoint" "le_mode e = s_mode s"
    and s': "bound_fields s' = bound_fields s" "mode_ready (rt_modes rt) s'"
    and r: "\<And>r M. same_session r s \<Longrightarrow> instantiate (rt_modes rt) (s_mode s) = Inr M \<Longrightarrow>
      \<exists>r'. replay_entry r i e M = (Inr (), r') \<and> same_session r' s'"
  shows "keeps rx pol i rt s' rt'"
proof -
  obtain es where es: "log_of rt i es" "tracked rx (rt_modes rt) pol i es s" using b by (auto simp: backed_def)
  note t = tracked_append [OF es(2) e s' r]
  show ?thesis
    using append_log_of [OF a es(1)] t only_modes [OF append_only [OF a]] append_only [OF a]
    by (auto simp: keeps_def backed_def)
qed

lemma checkpoint_fields [simp]:
  "le_entry_kind (make_checkpoint_entry raw i m t n) = Checkpoint"
  "le_mode (make_checkpoint_entry raw i m t n) = m" "le_raw_payload (make_checkpoint_entry raw i m t n) = raw"
  by (simp_all add: make_checkpoint_entry_def)

lemma checkpoint_keeps:
  assumes "session_codec_law rx" "backed rx pol rt i s"
  shows "keeps rx pol i rt s (force_insert_checkpoint rx i s rt)"
proof (cases "lx_encode_session rx (PersistedSession_from s)")
  case None
  then show ?thesis using assms(2) by (simp add: force_insert_checkpoint_def keeps_def)
next
  case (Some raw)
  obtain now rt1 where now: "now_ms rx rt = (now, rt1)" by (cases "now_ms rx rt")
  let ?c = "make_checkpoint_entry raw i (s_mode s) now 0"
  obtain r rt2 where a: "append_entry rx i ?c rt1 = (r, rt2)" by (cases "append_entry rx i ?c rt1")
  have q: "quiet rt rt1" using quiet_now [OF now] by simp
  then have b: "backed rx pol rt1 i s" using assms(2) by (simp add: quiet_backed)
  have dec: "lx_decode_session rx raw = Some (PersistedSession_from s)"
    using assms(1) Some by (auto simp: session_codec_law_def)
  have "keeps rx pol i rt1 s rt2"
  proof (cases r)
    case (Inl e)
    then show ?thesis using a append_failed_keeps [OF _ b] by blast
  next
    case (Inr u)
    obtain es where es: "log_of rt1 i es" "tracked rx (rt_modes rt1) pol i es s" using b by (auto simp: backed_def)
    have "tracked rx (rt_modes rt1) pol i (es @ [?c]) s"
      using es(2) dec by (intro tracked_checkpoint) (auto simp: tracked_def)
    moreover have "log_of rt2 i (es @ [?c])" using append_log_of [OF _ es(1)] a Inr by simp
    ultimately show ?thesis
      using append_only [OF a] only_modes [OF append_only [OF a]] by (auto simp: keeps_def backed_def)
  qed
  then have "keeps rx pol i rt s rt2" by (rule quiet_then_keeps [OF q])
  then show ?thesis using Some now a by (simp add: force_insert_checkpoint_def)
qed

lemma maybe_checkpoint_keeps:
  "session_codec_law rx \<Longrightarrow> backed rx pol rt i s \<Longrightarrow> keeps rx pol i rt s (maybe_insert_checkpoint rx i s rt)"
  using checkpoint_keeps [of rx pol rt i s] by (simp add: maybe_insert_checkpoint_def Let_def keeps_def)

lemma compact_keeps:
  assumes "session_codec_law rx" "backed rx pol rt i s" "maybe_compact_log rx i s rt = (b, rt')"
  shows "keeps rx pol i rt s rt'"
proof (cases "rx_compact_terminal_logs rx \<and> lx_encode_session rx (PersistedSession_from s) \<noteq> None")
  case False
  then have "rt' = rt" using assms(3)
    by (auto simp: maybe_compact_log_def compact_session_log_def Let_def split: if_splits)
  then show ?thesis using assms(2) by (simp add: keeps_def)
next
  case True
  then obtain raw where raw: "lx_encode_session rx (PersistedSession_from s) = Some raw" by auto
  obtain es d where es: "rt_disk rt i = Some d" "sd_log d = es" "rt_logs rt i = Some es"
    "tracked rx (rt_modes rt) pol i es s"
    using assms(2) by (auto simp: backed_def log_of_def)
  let ?c = "make_checkpoint_entry raw i (s_mode s) (rx_wall_clock rx (rt_calls rt))
     (compaction_base es + length (incoming es))"
  have "tracked rx (rt_modes rt) pol i ([] @ [?c]) s"
    using es(4) assms(1) raw by (intro tracked_checkpoint) (auto simp: tracked_def session_codec_law_def)
  then have t: "tracked rx (rt_modes rt) pol i [?c] s" by simp
  have "quiet rt rt' \<or> rt_disk rt' = (rt_disk rt)(i \<mapsto> d\<lparr>sd_log := [?c]\<rparr>) \<and>
      rt_logs rt' = (rt_logs rt)(i \<mapsto> [?c]) \<and> rt_sessions rt' = rt_sessions rt \<and>
      rt_modes rt' = rt_modes rt \<and> rt_policies rt' = rt_policies rt"
    using assms(3) True raw es(1,3)
    by (auto simp: maybe_compact_log_def compact_session_log_def storage_call_def replace_log_def
        get_log_def replace_session_log_def Let_def quiet_def split: if_splits)
  then show ?thesis
  proof
    assume "quiet rt rt'"
    then show ?thesis by (rule keeps_quiet [OF assms(2)])
  next
    assume "rt_disk rt' = (rt_disk rt)(i \<mapsto> d\<lparr>sd_log := [?c]\<rparr>) \<and>
      rt_logs rt' = (rt_logs rt)(i \<mapsto> [?c]) \<and> rt_sessions rt' = rt_sessions rt \<and>
      rt_modes rt' = rt_modes rt \<and> rt_policies rt' = rt_policies rt"
    then show ?thesis using t by (auto simp: keeps_def backed_def log_of_def only_def)
  qed
qed

lemma settle_keeps:
  assumes "session_codec_law rx" "backed rx pol rt i s"
  shows "keeps rx pol i rt s (settle_terminal rx i s rt)"
proof -
  obtain b rt1 where c: "maybe_compact_log rx i s rt = (b, rt1)" by (cases "maybe_compact_log rx i s rt")
  have k: "keeps rx pol i rt s rt1" by (rule compact_keeps [OF assms c])
  then have "keeps rx pol i rt1 s (force_insert_checkpoint rx i s rt1)"
    by (intro checkpoint_keeps [OF assms(1)]) (simp add: keeps_def)
  then have "keeps rx pol i rt s (force_insert_checkpoint rx i s rt1)"
    using k keeps_trans by (auto simp: keeps_def intro: only_trans)
  then show ?thesis using c k by (simp add: settle_terminal_def split: bool.split)
qed

lemma conclude_keeps:
  "session_codec_law rx \<Longrightarrow> backed rx pol rt i s \<Longrightarrow>
     keeps rx pol i rt s (if b then settle_terminal rx i s rt else maybe_insert_checkpoint rx i s rt)"
  by (simp add: settle_keeps maybe_checkpoint_keeps)

lemma internal_fields [simp]:
  "le_entry_kind (make_internal_entry m b i n t) = Internal" "le_mode (make_internal_entry m b i n t) = n"
  "le_message_type (make_internal_entry m b i n t) = m"
  "recorded_at (make_internal_entry m b i n t) = t"
  by (simp_all add: make_internal_entry_def recorded_at_def)

lemma incoming_fields [simp]:
  "le_entry_kind (make_incoming_entry env t) = Incoming" "le_mode (make_incoming_entry env t) = e_mode env"
  by (simp_all add: make_incoming_entry_def)

lemma incoming_recorded_at:
  "t \<noteq> 0 \<or> e_timestamp_unix_ms env = t \<Longrightarrow> recorded_at (make_incoming_entry env t) = t"
  by (auto simp: recorded_at_def make_incoming_entry_def)

lemma incoming_content: "same_content env (recorded_envelope (make_incoming_entry env t) i m)"
  by (simp add: same_content_def recorded_envelope_def make_incoming_entry_def)

lemma backed_ready: "backed rx pol rt i s \<Longrightarrow> bound_ok i s \<and> mode_ready (rt_modes rt) s"
  by (auto simp: backed_def tracked_def)

lemma lifecycle_ready:
  assumes "mode_ready modes s"
  shows "mode_ready modes (snd (suspend t s))" "mode_ready modes (snd (resume t s))"
    "mode_ready modes (snd (cancel s))" "mode_ready modes (snd (expire s))" "mode_ready modes (s\<lparr>s_state := st\<rparr>)"
proof -
  have m: "s_mode (snd (suspend t s)) = s_mode s" "s_mode (snd (resume t s)) = s_mode s"
    "s_mode (snd (cancel s)) = s_mode s" "s_mode (snd (expire s)) = s_mode s"
    by (rule bound_mode, simp)+
  show "mode_ready modes (snd (suspend t s))" "mode_ready modes (snd (resume t s))"
    "mode_ready modes (snd (cancel s))" "mode_ready modes (snd (expire s))"
    by (rule ready_step [OF assms]; simp add: m mode_contract.lifecycle_minv)+
  show "mode_ready modes (s\<lparr>s_state := st\<rparr>)"
    by (rule ready_step [OF assms]) (auto simp: bound_fields_def intro: mode_contract.minv_frame)
qed

lemma expire_keeps:
  assumes b: "backed rx pol rt i s" and x: "maybe_expire_session rx i s rt = (r, s', rt')"
  shows "keeps rx pol i rt s' rt'"
proof -
  obtain now rt1 where now: "now_ms rx rt = (now, rt1)" by (cases "now_ms rx rt")
  have q: "quiet rt rt1" using quiet_now [OF now] by simp
  have b1: "backed rx pol rt1 i s" using b q by (simp add: quiet_backed)
  let ?e = "make_internal_entry ''TtlExpired'' [] i (s_mode s) now"
  obtain x1 rt2 where a: "append_entry rx i ?e rt1 = (x1, rt2)" by (cases "append_entry rx i ?e rt1")
  consider (live) "\<not> deadline_passed now s" | (failed) e where "deadline_passed now s" "x1 = Inl e"
    | (due) "deadline_passed now s" "x1 = Inr ()"
    by (cases x1) auto
  then show ?thesis
  proof cases
    case live
    then have "s' = s" "rt' = rt1" using x now by (auto simp: maybe_expire_session_def)
    then show ?thesis using keeps_quiet [OF b q] by simp
  next
    case (failed e)
    then have "s' = s" "rt' = rt2" using x now a by (auto simp: maybe_expire_session_def)
    then show ?thesis
      using append_failed_keeps [OF a [unfolded failed(2)] b1] by (auto intro: quiet_then_keeps [OF q])
  next
    case due
    have ex: "expire s = (Inr (), snd (expire s))"
      using deadline_passed_live [OF due(1)] by (auto simp: expire_def)
    have "s' = snd (expire s)" "rt' = send_lifecycle (LcExpired i) rt2"
      using x now a due ex by (auto simp: maybe_expire_session_def split: prod.splits)
    moreover have "keeps rx pol i rt1 (snd (expire s)) rt2"
      using backed_ready [OF b1] ex
      by (intro append_keeps [OF a [unfolded due(2)] b1])
        (auto simp: lifecycle_ready intro: replay_expired)
    ultimately show ?thesis
      using keeps_then_quiet quiet_sends(2) quiet_then_keeps [OF q] by blast
  qed
qed

lemma synthesize_keeps:
  assumes law: "session_codec_law rx" and b: "backed rx pol rt i s"
    and x: "synthesize_due_accept rx i s now rt = (r, s', rt')"
  shows "keeps rx pol i rt s' rt'" "s_state s = Open \<Longrightarrow> s_state s' = Open" "bound_fields s' = bound_fields s"
proof -
  obtain M minv where M: "instantiate (rt_modes rt) (s_mode s) = Inr M" "recorded_mode M minv" "minv s"
    using backed_ready [OF b] ready_instance by metis
  note contract = recorded_mode.axioms(1) [OF M(2)]
  have "keeps rx pol i rt s' rt' \<and> (s_state s = Open \<longrightarrow> s_state s' = Open) \<and> bound_fields s' = bound_fields s"
  proof (cases "\<exists>syn. next_synthetic s M now = Inr (Some syn)")
    case False
    then have "s' = s" "rt' = rt"
      using x M(1) by (auto simp: synthesize_due_accept_def split: sum.splits option.splits)
    then show ?thesis using b by (simp add: keeps_def)
  next
    case True
    then obtain syn where syn: "next_synthetic s M now = Inr (Some syn)" by blast
    note sf = next_synthetic_Some [OF syn]
    let ?env = "syn_envelope syn"
    let ?e = "make_incoming_entry ?env (e_timestamp_unix_ms ?env)"
    let ?s = "snd (commit_synthetic s syn)"
    obtain x1 rt1 where a: "append_entry rx i ?e rt = (x1, rt1)" by (cases "append_entry rx i ?e rt")
    have app: "bound_fields ?s = bound_fields s" "s_state ?s = Open"
      using mode_contract.synthetic_applied [OF contract M(3) syn] by auto
    show ?thesis
    proof (cases x1)
      case (Inl e)
      then have "s' = s" "rt' = rt1" using x M(1) syn a by (auto simp: synthesize_due_accept_def)
      then show ?thesis using append_failed_keeps [OF a [unfolded Inl] b] by simp
    next
      case (Inr u)
      have "mode_ready (rt_modes rt) ?s"
      proof (rule ready_step)
        show "mode_ready (rt_modes rt) s" using backed_ready [OF b] by simp
        show "s_mode ?s = s_mode s" by (rule bound_mode [OF app(1)])
        fix N minv' assume "instantiate (rt_modes rt) (s_mode s) = Inr N" "mode_contract N minv'" "minv' s"
        then show "minv' ?s" using mode_contract.synthetic_applied(1) syn M(1) by fastforce
      qed
      moreover have "\<exists>r'. replay_entry r i ?e N = (Inr (), r') \<and> same_session r' ?s"
        if "same_session r s" "instantiate (rt_modes rt) (s_mode s) = Inr N" for r N
      proof (rule recorded_mode.replay_incoming [where env = ?env and resp = "syn_response syn"])
        show "recorded_mode N minv" using M(1,2) that(2) by simp
        show "1 \<le> s_semantics_rev s" using backed_ready [OF b] by (simp add: bound_ok_def)
        show "e_message_id ?env \<noteq> []" by (rule mode_contract.due_id [OF contract sf(2)])
        show "recorded_at ?e = e_timestamp_unix_ms ?env" by (simp add: incoming_recorded_at)
        show "forget_activity ?s
          = forget_activity (consume_id (e_message_id ?env) (apply_mode_response (syn_response syn) s))"
          by (simp add: commit_synthetic_def consume_apply_commute)
      qed (use that sf M(1) in \<open>simp_all add: incoming_content\<close>)
      moreover have "e_mode ?env = s_mode s"
        using recorded_mode.due_addressed [OF M(2) sf(2)] by simp
      ultimately have k: "keeps rx pol i rt ?s rt1"
        using app(1) Inr by (intro append_keeps [OF _ b, of ?e]) (auto simp: a)
      let ?rt2 = "save_session_to_storage rx ?s rt1"
      let ?rt3 = "maybe_insert_checkpoint rx i ?s ?rt2"
      have k2: "keeps rx pol i rt ?s ?rt2" by (rule keeps_then_quiet [OF k quiet_save])
      then have "keeps rx pol i ?rt2 ?s ?rt3" by (intro maybe_checkpoint_keeps [OF law]) (simp add: keeps_def)
      then have "keeps rx pol i rt ?s ?rt3" using k2 by (auto simp: keeps_def intro: only_trans)
      then have "keeps rx pol i rt ?s (publish_accepted_envelope (syn_envelope syn) ?rt3)"
        by (rule keeps_then_quiet [OF _ quiet_sends(1)])
      moreover have "s' = ?s" "rt' = publish_accepted_envelope (syn_envelope syn) ?rt3"
        using x M(1) syn a Inr by (auto simp: synthesize_due_accept_def commit_synthetic_def)
      ultimately show ?thesis using app by simp
    qed
  qed
  then show "keeps rx pol i rt s' rt'" "s_state s = Open \<Longrightarrow> s_state s' = Open" "bound_fields s' = bound_fields s"
    by auto
qed

lemma commit_ready:
  assumes "mode_contract M minv" "minv s" "s_state s = Open" "m_authorize_sender M s env = Inr ()"
    and "dispatch s env M now = Inr resp"
  shows "minv (snd (commit s env resp now))"
proof -
  let ?s = "record_participant_activity (e_sender env) now (consume_id (e_message_id env) s)"
  have "minv (apply_mode_response resp s)"
    using mode_contract.message_minv [OF assms(1-4)] assms(5) by (simp add: dispatch_def)
  then have "minv (apply_mode_response resp ?s)"
    by (rule mode_contract.minv_frame [OF assms(1)]) (simp_all add: apply_response_cong(2) [of ?s s])
  then show ?thesis by (simp add: commit_def Let_def)
qed

lemma commit_bound: "bound_fields (snd (commit s env resp now)) = bound_fields s"
  by (simp add: commit_def Let_def)

lemma commit_forget:
  "forget_activity (snd (commit s env resp now)) =
     forget_activity (consume_id (e_message_id env) (apply_mode_response resp s))"
  by (simp add: commit_def Let_def forget_activity_commute consume_apply_commute)

lemma accept_keeps:
  assumes law: "session_codec_law rx" and b: "backed rx pol rt i s" and t: "now \<noteq> 0"
    and env: "e_session_id env = i" "e_mode env = s_mode s" "e_message_id env \<noteq> []"
    and M: "instantiate (rt_modes rt) (s_mode s) = Inr M" and auth: "m_authorize_sender M s env = Inr ()"
    and s: "s_state s = Open" and x: "accept_message rx env M now s rt = (r, s', rt')"
  shows "keeps rx pol i rt s' rt'"
proof (cases "dispatch s env M now")
  case (Inl e)
  then show ?thesis using x b by (auto simp: accept_message_def keeps_def)
next
  case (Inr resp)
  let ?e = "make_incoming_entry env now"
  obtain x1 rt1 where a: "append_entry rx i ?e rt = (x1, rt1)" by (cases "append_entry rx i ?e rt")
  show ?thesis
  proof (cases x1)
    case (Inl e)
    then show ?thesis
      using x Inr a env(1) append_failed_keeps [OF a [unfolded Inl] b] by (auto simp: accept_message_def)
  next
    case ok: (Inr u)
    let ?s = "snd (commit s env resp now)"
    have "mode_ready (rt_modes rt) ?s"
    proof (rule ready_step)
      show "mode_ready (rt_modes rt) s" using backed_ready [OF b] by simp
      show "s_mode ?s = s_mode s" by (rule bound_mode [OF commit_bound])
      fix N minv assume "instantiate (rt_modes rt) (s_mode s) = Inr N" "mode_contract N minv" "minv s"
      then show "minv ?s" using commit_ready [OF _ _ s] M auth Inr by auto
    qed
    moreover have "\<exists>r'. replay_entry r i ?e N = (Inr (), r') \<and> same_session r' ?s"
      if "same_session r s" "instantiate (rt_modes rt) (s_mode s) = Inr N" for r N
    proof -
      obtain minv where "recorded_mode M minv"
        using backed_ready [OF b] ready_instance M by (metis sum.inject(2))
      then show ?thesis
        using that M Inr auth env(3) s t backed_ready [OF b]
        by (intro recorded_mode.replay_incoming [where env = env and resp = resp and t = now])
          (auto simp: incoming_content commit_forget dispatch_def bound_ok_def incoming_recorded_at)
    qed
    ultimately have k: "keeps rx pol i rt ?s rt1"
      using env(2) ok by (intro append_keeps [OF _ b, of ?e]) (auto simp: a commit_bound)
    let ?rt2 = "if s_state ?s = Resolved then send_lifecycle (LcResolved i) rt1 else rt1"
    let ?rt3 = "save_session_to_storage rx ?s ?rt2"
    let ?rt4 = "if s_state ?s = Resolved then settle_terminal rx i ?s ?rt3 else maybe_insert_checkpoint rx i ?s ?rt3"
    have "quiet rt1 ?rt2" by (simp add: quiet_sends)
    then have k3: "keeps rx pol i rt ?s ?rt3"
      using k keeps_then_quiet quiet_save quiet_trans by metis
    then have "keeps rx pol i ?rt3 ?s ?rt4" by (intro conclude_keeps [OF law]) (simp add: keeps_def)
    moreover have "only i rt ?rt3" using k3 by (simp add: keeps_def)
    ultimately have "keeps rx pol i rt ?s (publish_accepted_envelope env ?rt4)"
      by (intro keeps_then_quiet [OF keeps_trans quiet_sends(1)])
    moreover have "s' = ?s" "rt' = publish_accepted_envelope env ?rt4"
      using x Inr a ok env(1) by (auto simp: accept_message_def commit_def Let_def)
    ultimately show ?thesis by simp
  qed
qed

lemma message_keeps:
  assumes law: "session_codec_law rx" and clock: "\<forall>n. rx_clock rx n \<noteq> 0" and b: "backed rx pol rt i s"
    and i: "e_session_id env = i" and x: "message_on_session rx env s rt = (r, s', rt')"
  shows "keeps rx pol i rt s' rt'"
proof -
  obtain now rt1 where now: "now_ms rx rt = (now, rt1)" by (cases "now_ms rx rt")
  have q: "quiet rt rt1" "now \<noteq> 0" using quiet_now [OF now] clock by auto
  have b1: "backed rx pol rt1 i s" using b q by (simp add: quiet_backed)
  obtain M minv where M: "instantiate (rt_modes rt1) (s_mode s) = Inr M" "recorded_mode M minv" "minv s"
    using backed_ready [OF b1] ready_instance by metis
  consider (same) "s' = s" "rt' = rt1"
    | (expired) y s1 rt2 where "maybe_expire_session rx i s rt1 = (y, s1, rt2)" "s' = s1"
        "rt' = rt2 \<or> rt' = save_session_to_storage rx s1 rt2"
    | (proceed) "check_preconditions s env now = Inr PcProceed" "admit s env M = Inr ()"
    using x now M(1) i
    by (auto simp: message_on_session_def split: sum.splits Precheck.splits prod.splits)
  then show ?thesis
  proof cases
    case same
    then show ?thesis using keeps_quiet [OF b q(1)] by simp
  next
    case (expired y s1 rt2)
    then have "keeps rx pol i rt1 s1 rt2" using expire_keeps [OF b1] by simp
    then show ?thesis using expired(2,3) quiet_then_keeps [OF q(1)] keeps_then_quiet quiet_save by metis
  next
    case proceed
    have p: "e_mode env = s_mode s" "e_message_id env \<noteq> []" "s_state s = Open"
      using proceed(1) by (auto simp: preconditions_proceed shape_ok_iff)
    obtain y s1 rt2 where syn: "synthesize_due_accept rx i s now rt1 = (y, s1, rt2)"
      by (cases "synthesize_due_accept rx i s now rt1")
    note sk = synthesize_keeps [OF law b1 syn]
    have b2: "backed rx pol rt2 i s1" and o2: "only i rt1 rt2" using sk(1) by (auto simp: keeps_def)
    show ?thesis
    proof (cases y)
      case (Inl e)
      then have "s' = s1" "rt' = rt2"
        using x now proceed M(1) i syn by (auto simp: message_on_session_def)
      then show ?thesis using quiet_then_keeps [OF q(1) sk(1)] by simp
    next
      case (Inr flag)
      then have acc: "accept_message rx env M now s1 rt2 = (r, s', rt')"
        using x now proceed M(1) i syn by (auto simp: message_on_session_def)
      have auth: "m_authorize_sender M s1 env = Inr ()"
        using proceed(2) mode_contract.authorize_frame [OF recorded_mode.axioms(1) [OF M(2)] sk(3)]
        by (auto simp: admit_def res_simps)
      have "keeps rx pol i rt2 s' rt'"
        by (rule accept_keeps [OF law b2 q(2) i _ p(2) _ auth sk(2) [OF p(3)] acc])
          (use p(1) M(1) only_modes [OF o2] bound_mode [OF sk(3)] in auto)
      then show ?thesis using keeps_trans [OF o2] quiet_then_keeps [OF q(1)] by blast
    qed
  qed
qed

lemma internal_keeps:
  assumes a: "append_entry rx i (make_internal_entry m payload i (s_mode s) t) rt = (Inr (), rt')"
    and b: "backed rx pol rt i s" and s: "s_state s \<noteq> Expired"
    and s': "m = ''SessionCancel'' \<and> s' = snd (cancel s) \<or> m = ''SessionSuspend'' \<and> s' = snd (suspend t s)
      \<or> m = ''SessionResume'' \<and> s' = snd (resume t s)"
  shows "keeps rx pol i rt s' rt'"
proof (rule append_keeps [OF a b])
  show "bound_fields s' = bound_fields s" using s' by auto
  show "mode_ready (rt_modes rt) s'" using s' backed_ready [OF b] by (auto simp: lifecycle_ready)
  show "\<exists>r'. replay_entry r i (make_internal_entry m payload i (s_mode s) t) M = (Inr (), r') \<and> same_session r' s'"
    if "same_session r s" for r M
    using s' by (intro replay_lifecycle [OF that s]) auto
qed simp_all

lemma cancel_keeps:
  assumes law: "session_codec_law rx" and b: "backed rx pol rt i s"
    and x: "cancel_on_session rx i reason by' s rt = (r, s', rt')"
  shows "keeps rx pol i rt s' rt'"
proof -
  obtain y s1 rt1 where e: "maybe_expire_session rx i s rt = (y, s1, rt1)"
    by (cases "maybe_expire_session rx i s rt")
  have k1: "keeps rx pol i rt s1 rt1" by (rule expire_keeps [OF b e])
  obtain now rt2 where now: "now_ms rx rt1 = (now, rt2)" by (cases "now_ms rx rt1")
  have q: "quiet rt1 rt2" using quiet_now [OF now] by simp
  have k2: "keeps rx pol i rt s1 rt2" by (rule keeps_then_quiet [OF k1 q])
  then have b2: "backed rx pol rt2 i s1" and o2: "only i rt rt2" by (auto simp: keeps_def)
  let ?e = "make_internal_entry ''SessionCancel'' (rx_encode_cancel rx reason by') i (s_mode s1) now"
  obtain z rt3 where a: "append_entry rx i ?e rt2 = (z, rt3)" by (cases "append_entry rx i ?e rt2")
  consider (stop) "s' = s1" "rt' = rt1 \<or> rt' = save_session_to_storage rx s1 rt1"
    | (failed) x where "z = Inl x" "s' = s1" "rt' = rt3"
    | (finished) "z = Inr ()" "\<not> is_terminal (s_state s1)" "s' = snd (cancel s1)"
        "rt' = send_lifecycle (LcCancelled i) (settle_terminal rx i s' (save_session_to_storage rx s' rt3))"
  proof (cases y)
    case (Inl err)
    then show ?thesis using x e that(1) by (auto simp: cancel_on_session_def)
  next
    case (Inr u)
    show ?thesis
    proof (cases "is_terminal (s_state s1)")
      case True
      then show ?thesis using x e Inr that(1) by (auto simp: cancel_on_session_def)
    next
      case False
      show ?thesis
      proof (cases z)
        case err: (Inl w)
        have "cancel_on_session rx i reason by' s rt = (Inl w, s1, rt3)"
          using e Inr now a err False by (simp add: cancel_on_session_def)
        then show ?thesis using x that(2) [OF err] by simp
      next
        case ok: (Inr w)
        have "cancel_on_session rx i reason by' s rt =
            (Ok \<lparr>pr_session_state = Cancelled, pr_duplicate = False\<rparr>, snd (cancel s1),
             send_lifecycle (LcCancelled i) (settle_terminal rx i (snd (cancel s1))
               (save_session_to_storage rx (snd (cancel s1)) rt3)))"
          using e Inr now a ok False by (simp add: cancel_on_session_def Let_def)
        then show ?thesis using x ok False by (intro that(3)) simp_all
      qed
    qed
  qed
  then show ?thesis
  proof cases
    case stop
    then show ?thesis using k1 keeps_then_quiet quiet_save by metis
  next
    case failed
    then show ?thesis using append_failed_keeps [OF _ b2] a keeps_trans [OF o2] by blast
  next
    case finished
    have "s_state s1 \<noteq> Expired" using finished(2) by (auto simp: is_terminal_iff)
    then have "keeps rx pol i rt2 s' rt3"
      using finished(1,3) a by (intro internal_keeps [of rx i "''SessionCancel''" _ s1 now rt2]) (auto simp: b2)
    then have k4: "keeps rx pol i rt2 s' (save_session_to_storage rx s' rt3)"
      by (rule keeps_then_quiet [OF _ quiet_save])
    then have "keeps rx pol i (save_session_to_storage rx s' rt3) s'
        (settle_terminal rx i s' (save_session_to_storage rx s' rt3))"
      by (intro settle_keeps [OF law]) (simp add: keeps_def)
    then have "keeps rx pol i rt2 s' (settle_terminal rx i s' (save_session_to_storage rx s' rt3))"
      using k4 keeps_trans by (auto simp: keeps_def intro: only_trans)
    then show ?thesis
      unfolding finished(4) by (intro keeps_then_quiet [OF keeps_trans [OF o2] quiet_sends(2)])
  qed
qed

lemma suspend_keeps:
  assumes b: "backed rx pol rt i s" and x: "suspend_on_session rx i reason by' s rt = (r, s', rt')"
  shows "keeps rx pol i rt s' rt'"
proof -
  obtain y s1 rt1 where e: "maybe_expire_session rx i s rt = (y, s1, rt1)"
    by (cases "maybe_expire_session rx i s rt")
  have k1: "keeps rx pol i rt s1 rt1" by (rule expire_keeps [OF b e])
  obtain now rt2 where now: "now_ms rx rt1 = (now, rt2)" by (cases "now_ms rx rt1")
  have q: "quiet rt1 rt2" using quiet_now [OF now] by simp
  have k2: "keeps rx pol i rt s1 rt2" by (rule keeps_then_quiet [OF k1 q])
  then have b2: "backed rx pol rt2 i s1" and o2: "only i rt rt2" by (auto simp: keeps_def)
  let ?e = "make_internal_entry ''SessionSuspend'' (rx_encode_suspend rx reason by') i (s_mode s1) now"
  obtain z rt3 where a: "append_entry rx i ?e rt2 = (z, rt3)" by (cases "append_entry rx i ?e rt2")
  consider (stop) "s' = s1" "rt' = rt1" | (failed) x where "z = Inl x" "s' = s1" "rt' = rt3"
    | (finished) "z = Inr ()" "s_state s1 = Open" "s' = snd (suspend now s1)"
        "rt' = rt3 \<or> rt' = send_lifecycle (LcSuspended i) (save_session_to_storage rx s' rt3)"
  proof (cases y)
    case (Inl err)
    then show ?thesis using x e that(1) by (simp add: suspend_on_session_def)
  next
    case (Inr u)
    show ?thesis
    proof (cases "s_state s1 = Open")
      case True
      have su: "suspend now s1 = (Inr (), snd (suspend now s1))" using True by (simp add: suspend_def)
      show ?thesis
      proof (cases z)
        case err: (Inl w)
        have "suspend_on_session rx i reason by' s rt = (Inl w, s1, rt3)"
          using e Inr now a err True by (simp add: suspend_on_session_def)
        then show ?thesis using x that(2) [OF err] by simp
      next
        case ok: (Inr w)
        have "suspend_on_session rx i reason by' s rt =
            (Ok \<lparr>pr_session_state = Suspended, pr_duplicate = False\<rparr>, snd (suspend now s1),
             send_lifecycle (LcSuspended i) (save_session_to_storage rx (snd (suspend now s1)) rt3))"
          unfolding suspend_on_session_def using e Inr now a ok True by (simp add: su [symmetric])
            (subst su, simp)
        then show ?thesis using x ok True by (intro that(3)) simp_all
      qed
    qed (use x e Inr that(1) in \<open>simp add: suspend_on_session_def\<close>)
  qed
  then show ?thesis
  proof cases
    case stop
    then show ?thesis using k1 by simp
  next
    case failed
    then show ?thesis using append_failed_keeps [OF _ b2] a keeps_trans [OF o2] by blast
  next
    case finished
    then have "keeps rx pol i rt2 s' rt3"
      using a by (intro internal_keeps [of rx i "''SessionSuspend''" _ s1 now rt2]) (auto simp: b2)
    then have "keeps rx pol i rt s' rt3" by (rule keeps_trans [OF o2])
    then show ?thesis
      using finished(4) keeps_then_quiet quiet_trans [OF quiet_save quiet_sends(2)] by metis
  qed
qed

lemma resume_keeps:
  assumes b: "backed rx pol rt i s" and x: "resume_on_session rx i reason by' s rt = (r, s', rt')"
  shows "keeps rx pol i rt s' rt'"
proof -
  obtain now rt2 where now: "now_ms rx rt = (now, rt2)" by (cases "now_ms rx rt")
  have q: "quiet rt rt2" using quiet_now [OF now] by simp
  then have b2: "backed rx pol rt2 i s" using b by (simp add: quiet_backed)
  let ?e = "make_internal_entry ''SessionResume'' (rx_encode_resume rx reason by' (banked_ms s)) i (s_mode s) now"
  obtain z rt3 where a: "append_entry rx i ?e rt2 = (z, rt3)" by (cases "append_entry rx i ?e rt2")
  consider (stop) "s' = s" "rt' = rt" | (failed) x where "z = Inl x" "s' = s" "rt' = rt3"
    | (finished) ev where "z = Inr ()" "s_state s = Suspended" "s' = snd (resume now s)"
        "rt' = send_lifecycle ev (save_session_to_storage rx s' rt3)"
  proof (cases "s_state s = Suspended")
    case True
    obtain w s2 where re: "resume now s = (w, s2)" by (cases "resume now s")
    define ev where "ev = (case w of Inr _ \<Rightarrow> LcResumed i | Inl _ \<Rightarrow> LcExpired i)"
    show ?thesis
    proof (cases z)
      case err: (Inl u)
      have "resume_on_session rx i reason by' s rt = (Inl u, s, rt3)"
        using now a err True by (simp add: resume_on_session_def)
      then show ?thesis using x that(2) [OF err] by simp
    next
      case ok: (Inr u)
      have "snd (resume_on_session rx i reason by' s rt) =
          (s2, send_lifecycle ev (save_session_to_storage rx s2 rt3))"
        using now a ok True re by (cases w) (simp_all add: resume_on_session_def ev_def)
      then show ?thesis using x ok True re by (intro that(3) [of ev]) simp_all
    qed
  qed (use x that(1) in \<open>simp add: resume_on_session_def\<close>)
  then show ?thesis
  proof cases
    case stop
    then show ?thesis using b by (simp add: keeps_def)
  next
    case failed
    then show ?thesis using append_failed_keeps [OF _ b2] a quiet_then_keeps [OF q] by blast
  next
    case (finished ev)
    then have "keeps rx pol i rt2 s' rt3"
      using a by (intro internal_keeps [of rx i "''SessionResume''" _ s now rt2]) (auto simp: b2)
    then have "keeps rx pol i rt s' rt3" by (rule quiet_then_keeps [OF q])
    then show ?thesis
      unfolding finished(4) using keeps_then_quiet quiet_trans [OF quiet_save quiet_sends(2)] by metis
  qed
qed

section \<open>The first entry\<close>

definition start_policy :: "'z log_ext_scheme \<Rightarrow> Envelope \<Rightarrow> string" where
  "start_policy rx env =
     (let requested = (case parse_session_start_payload (sx_decode_start (lx_start rx)) (e_payload env) of
            Inr p \<Rightarrow> ssp_policy_version p | Inl _ \<Rightarrow> [])
      in if requested = [] then DEFAULT_POLICY_ID else requested)"

lemma start_policy_validated:
  assumes "validate_session_start (lx_start rx) env now opts = Inr v"
  shows "effective_policy_version v = start_policy rx env"
  using validate_start_facts(2) [OF assms]
  by (simp add: start_policy_def effective_policy_version_def requested_policy_version_def)

context recorded_mode
begin

lemma replay_start_reads:
  assumes c: "same_content (rs_envelope st) env'" and m: "e_mode env' = e_mode (rs_envelope st)"
      "e_session_id env' = e_session_id (rs_envelope st)"
    and t: "e_timestamp_unix_ms env' =
      (if e_timestamp_unix_ms (rs_envelope st) \<noteq> 0 then e_timestamp_unix_ms (rs_envelope st) else rs_accepted_at_ms st)"
  shows "replay_start sx (st\<lparr>rs_envelope := env'\<rparr>) M = replay_start sx st M"
proof -
  have ttl: "(if 0 < e_timestamp_unix_ms env' then e_timestamp_unix_ms env' else rs_accepted_at_ms st) =
      (if 0 < e_timestamp_unix_ms (rs_envelope st) then e_timestamp_unix_ms (rs_envelope st)
       else rs_accepted_at_ms st)"
    by (simp add: t)
  have f: "rs_envelope (st\<lparr>rs_envelope := env'\<rparr>) = env'"
    "rs_accepted_at_ms (st\<lparr>rs_envelope := env'\<rparr>) = rs_accepted_at_ms st"
    "rs_semantics_rev (st\<lparr>rs_envelope := env'\<rparr>) = rs_semantics_rev st"
    "rs_max_suspend_ms (st\<lparr>rs_envelope := env'\<rparr>) = rs_max_suspend_ms st"
    "rs_bound_mode_version (st\<lparr>rs_envelope := env'\<rparr>) = rs_bound_mode_version st"
    "rs_policy (st\<lparr>rs_envelope := env'\<rparr>) = rs_policy st" "rs_strict (st\<lparr>rs_envelope := env'\<rparr>) = rs_strict st"
    by simp_all
  show ?thesis
    unfolding replay_start_def Let_def f ttl m same_content_fields [OF c] start_reads [OF c] by (rule refl)
qed

end

lemma response_started: "s_started_at_unix_ms (apply_mode_response r s) = s_started_at_unix_ms s"
  by (cases r) simp_all

lemma start_entry_replays:
  assumes v: "validate_session_start (lx_start rx) env now (start_options modes (e_mode env)) = Inr v"
    and s: "ValidatedStart_accept v env M (Some p) = Inr s"
    and M: "recorded_mode M minv"
  shows "replay_start (lx_start rx)
    ((entry_start modes (e_session_id env) (start_entry env v s))\<lparr>rs_policy := Some p\<rparr>) M = Inr s"
proof -
  let ?opts = "start_options modes (e_mode env)"
  let ?st = "recorded_start env s v ?opts"
  let ?env = "recorded_envelope (start_entry env v s) (e_session_id env) (e_mode env)"
  note vf = validate_start_facts [OF v]
  have acc: "accept_session_start (lx_start rx) env now M (Some p) ?opts = Inr s"
    using v s by (simp add: accept_session_start_def)
  obtain v' s0 r where v': "validate_session_start (lx_start rx) env now ?opts = Inr v'"
    "s = apply_mode_response r (consume_id (e_message_id env) s0)" "s_semantics_rev s0 = CURRENT_SEMANTICS_REV"
    "s_max_suspend_ms s0 = vs_max_suspend_ms v'" "s_policy_definition s0 = Some p"
    using acc by (rule accept_facts)
  have b: "bound_fields s = bound_fields s0" by (simp add: v'(2))
  have f: "s_semantics_rev s = CURRENT_SEMANTICS_REV" "s_max_suspend_ms s = vs_max_suspend_ms v"
    "s_policy_definition s = Some p"
    using b v v' by (simp_all add: bound_fields_def)
  have t0: "s_started_at_unix_ms s = vs_accepted_at_ms v"
    using s by (auto simp: ValidatedStart_accept_def Let_def res_simps consume_id_def Session_builder_def
        response_started)
  have "e_macp_version ?env = e_macp_version env" "e_mode ?env = e_mode env"
    "e_session_id ?env = e_session_id env" "same_content env ?env"
    "e_timestamp_unix_ms ?env = (if e_timestamp_unix_ms env \<noteq> 0 then e_timestamp_unix_ms env else vs_accepted_at_ms v)"
    using vf(7) by (simp_all add: recorded_envelope_def start_entry_def make_incoming_entry_def
        shape_ok_iff MACP_VERSION_def same_content_def)
  note e = this
  have "(entry_start modes (e_session_id env) (start_entry env v s))\<lparr>rs_policy := Some p\<rparr> = ?st\<lparr>rs_envelope := ?env\<rparr>"
    using f t0 by (simp add: entry_start_def Let_def RecordedStart_new_def recorded_start_def
        RecordedStart_from_session_def start_options_def start_entry_def make_incoming_entry_def)
  moreover have "replay_start (lx_start rx) (?st\<lparr>rs_envelope := ?env\<rparr>) M = replay_start (lx_start rx) ?st M"
    using e t0
    by (intro recorded_mode.replay_start_reads [OF M])
      (simp_all add: recorded_start_def RecordedStart_from_session_def)
  ultimately show ?thesis using replay_recorded_start [OF v s] by simp
qed

lemma tracked_start:
  assumes v: "validate_session_start (lx_start rx) env now (start_options modes (e_mode env)) = Inr v"
    and s: "ValidatedStart_accept v env M (Some p) = Inr s"
    and M: "instantiate modes (e_mode env) = Inr M" "shipped_mode M"
    and p: "resolve pol (start_policy rx env) = Inr p"
  shows "tracked rx modes pol (e_session_id env) [start_entry env v s] s"
proof -
  let ?e = "start_entry env v s"
  note vf = validate_start_facts [OF v]
  obtain minv where minv: "recorded_mode M minv" using M(2) by (rule shipped_recorded)
  have acc: "accept_session_start (lx_start rx) env now M (Some p) (start_options modes (e_mode env)) = Inr s"
    using v s by (simp add: accept_session_start_def)
  obtain v' s0 r where v': "validate_session_start (lx_start rx) env now (start_options modes (e_mode env)) = Inr v'"
    "s = apply_mode_response r (consume_id (e_message_id env) s0)" "s_semantics_rev s0 = CURRENT_SEMANTICS_REV"
    "s_policy_definition s0 = Some p" "s_mode s0 = e_mode env" "s_session_id s0 = e_session_id env"
    "s_ttl_ms s0 = vs_ttl_ms v'"
    using acc by (rule accept_facts)
  have b: "bound_fields s = bound_fields s0" by (simp add: v'(2))
  have mode: "e_mode env \<noteq> []" "e_message_type env = ''SessionStart''"
    using v by (auto simp: validate_session_start_def res_simps blank_def split: if_splits)
  have "0 < vs_ttl_ms v" using vf(4) by (auto simp: extract_ttl_ms_def split: if_splits)
  then have bo: "bound_ok (e_session_id env) s"
    using b v v' mode by (simp add: bound_ok_def bound_fields_def CURRENT_SEMANTICS_REV_def)
  have sm: "s_mode s = e_mode env" using bound_mode [OF b] v'(5) by simp
  have ready: "mode_ready modes s"
  proof -
    obtain reg where reg: "modes (e_mode env) = Some reg" "mr_factory reg = M"
      using M(1) by (auto simp: instantiate_def res_simps split: option.splits)
    have "minv' s" if "mode_contract M minv'" for minv'
      by (rule mode_contract.accepted_minv [OF that acc])
    then show ?thesis using reg M(2) sm by (auto simp: mode_ready_def)
  qed
  have e: "le_entry_kind ?e = Incoming" "le_message_type ?e = ''SessionStart''" "le_mode ?e = e_mode env"
    "le_raw_payload ?e = e_payload env"
    using mode(2) by (simp_all add: start_entry_def make_incoming_entry_def)
  have pol: "replayed_policy rx ?e (Some pol) = Some p"
    using p e(4) by (simp add: replayed_policy_def start_policy_def Let_def)
  have pos: "position is_session_start [?e] = Some 0" by (simp add: is_session_start_def e)
  have "replay_from_start rx (e_session_id env) [?e] modes (Some pol) = Inr s"
    unfolding start_replay_iff using pos mode(1) M(1) start_entry_replays [OF v s minv] pol e(3) by auto
  moreover have "try_replay_from_checkpoint rx (e_session_id env) [?e] modes = Inr None"
    by (simp add: no_checkpoint_iff e)
  ultimately have "replay_session rx (e_session_id env) [?e] modes (Some pol) = Inr s"
    by (simp add: replay_session_iff)
  then show ?thesis using bo ready sm e(3) by (auto simp: tracked_def)
qed

end
