(* ===== verification/Runtime_Runs.thy ===== *)
theory Runtime_Runs
  imports Durability
begin

text \<open>
  Everything a runtime does between two restarts and across them, as a relation on its state, and the
  invariant that ties the registry, the logs in memory and the logs on disk together.
\<close>

section \<open>The invariant\<close>

definition disk_ok :: "disk \<Rightarrow> bool" where
  "disk_ok disk \<longleftrightarrow> finite (dom disk) \<and> (\<forall>i \<in> dom disk. check_component i)"

definition rt_ok :: "'z log_ext_scheme \<Rightarrow> PolicyRegistry \<Rightarrow> Runtime \<Rightarrow> bool" where
  "rt_ok rx pol rt \<longleftrightarrow>
     (\<forall>i s. rt_sessions rt i = Some s \<longrightarrow> backed rx pol rt i s) \<and>
     (\<forall>i. rt_sessions rt i = None \<longrightarrow> rt_logs rt i = None \<and>
        (\<forall>d. rt_disk rt i = Some d \<longrightarrow> sd_log d \<noteq> [] \<longrightarrow>
           (\<exists>s. tracked rx (rt_modes rt) pol i (sd_log d) s))) \<and>
     (\<forall>m reg. rt_modes rt m = Some reg \<longrightarrow> shipped_mode (mr_factory reg)) \<and> disk_ok (rt_disk rt)"

lemma okD:
  assumes "rt_ok rx pol rt"
  shows "rt_sessions rt i = Some s \<Longrightarrow> backed rx pol rt i s"
    "rt_sessions rt i = None \<Longrightarrow> rt_logs rt i = None"
    "rt_modes rt m = Some reg \<Longrightarrow> shipped_mode (mr_factory reg)" "disk_ok (rt_disk rt)"
  using assms by (auto simp: rt_ok_def)

lemma disk_ok_same_dirs: "disk_ok disk \<Longrightarrow> dom disk' = dom disk \<Longrightarrow> disk_ok disk'"
  by (simp add: disk_ok_def)

lemma disk_ok_new_dir:
  "disk_ok disk \<Longrightarrow> check_component i \<Longrightarrow> dom disk' \<subseteq> insert i (dom disk) \<Longrightarrow> disk_ok disk'"
  by (auto simp: disk_ok_def intro: finite_subset)

lemma logs_dom: "map_option sd_log (disk' j) = map_option sd_log (disk j) \<Longrightarrow> j \<in> dom disk' \<longleftrightarrow> j \<in> dom disk"
  by (metis domIff option.map_disc_iff)

lemma put_ok:
  assumes ok: "rt_ok rx pol rt" and k: "keeps rx pol i rt s' rt'" and c: "check_component i"
  shows "rt_ok rx pol (put_session i s' rt')"
proof -
  have f: "rt_modes rt' = rt_modes rt" "rt_sessions rt' = rt_sessions rt"
    "\<And>j. j \<noteq> i \<Longrightarrow> map_option sd_log (rt_disk rt' j) = map_option sd_log (rt_disk rt j) \<and> rt_logs rt' j = rt_logs rt j"
    using k by (auto simp: keeps_def only_def)
  have b: "backed rx pol (put_session i s' rt') j s = backed rx pol rt' j s" for j s
    by (simp add: backed_def log_of_def put_session_def)
  have bj: "backed rx pol rt' j s = backed rx pol rt j s" if "j \<noteq> i" for j s
    using f(3) [OF that] by (simp add: backed_def log_of_def f(1))
  have "\<exists>s. tracked rx (rt_modes rt') pol j (sd_log d) s"
    if "j \<noteq> i" "rt_sessions rt j = None" "rt_disk rt' j = Some d" "sd_log d \<noteq> []" for j d
  proof -
    note h = that
    obtain d' where "rt_disk rt j = Some d'" "sd_log d' = sd_log d" using f(3) [OF h(1)] h(3)
      by (metis map_option_eq_Some)
    then show ?thesis using ok h(2,4) f(1) unfolding rt_ok_def by metis
  qed
  moreover have "disk_ok (rt_disk rt')"
  proof (rule disk_ok_new_dir [OF okD(4) [OF ok] c], rule subsetI)
    fix j assume "j \<in> dom (rt_disk rt')"
    then show "j \<in> insert i (dom (rt_disk rt))"
      using logs_dom [of "rt_disk rt'" j "rt_disk rt"] f(3) [of j] by (cases "j = i") simp_all
  qed
  ultimately show ?thesis
    using ok k f b bj unfolding rt_ok_def
    by (auto simp: put_session_def keeps_def)
qed

lemma registered_component: "rt_ok rx pol rt \<Longrightarrow> rt_sessions rt i = Some s \<Longrightarrow> check_component i"
  using okD(1,4) by (fastforce simp: backed_def log_of_def disk_ok_def)

lemma quiet_ok: "quiet rt rt' \<Longrightarrow> rt_ok rx pol rt \<Longrightarrow> rt_ok rx pol rt'"
proof -
  assume q: "quiet rt rt'" and ok: "rt_ok rx pol rt"
  have "\<exists>s. tracked rx (rt_modes rt') pol i (sd_log d) s"
    if "rt_sessions rt i = None" "rt_disk rt' i = Some d" "sd_log d \<noteq> []" for i d
  proof -
    note h = that
    obtain d' where "rt_disk rt i = Some d'" "sd_log d' = sd_log d"
      using q h(2) unfolding quiet_def by (metis map_option_eq_Some)
    then show ?thesis using ok h(1,3) q unfolding rt_ok_def quiet_def by metis
  qed
  moreover have "backed rx pol rt' i s = backed rx pol rt i s" for i s by (rule quiet_backed [OF q])
  moreover have "disk_ok (rt_disk rt')"
    using logs_dom [of "rt_disk rt'" _ "rt_disk rt"] q
    by (intro disk_ok_same_dirs [OF okD(4) [OF ok]]) (simp add: quiet_def set_eq_iff)
  ultimately show "rt_ok rx pol rt'"
    using ok q unfolding rt_ok_def by (auto simp: quiet_def)
qed

lemma with_session_ok:
  assumes "rt_ok rx pol rt"
    and "\<And>s rt r s' rt'. backed rx pol rt i s \<Longrightarrow> body s rt = (r, s', rt') \<Longrightarrow> keeps rx pol i rt s' rt'"
  shows "rt_ok rx pol (snd (with_session i body rt))"
proof (cases "rt_sessions rt i")
  case (Some s)
  obtain r s' rt' where b: "body s rt = (r, s', rt')" by (cases "body s rt")
  have "keeps rx pol i rt s' rt'" by (rule assms(2) [OF okD(1) [OF assms(1) Some] b])
  then have "rt_ok rx pol (put_session i s' rt')"
    by (rule put_ok [OF assms(1) _ registered_component [OF assms(1) Some]])
  then show ?thesis using Some b by (simp add: with_session_def)
qed (simp add: with_session_def assms(1))

section \<open>Starting a session\<close>

text \<open>What the run below asks of the clients: a session identifier is not used again while a log
  is stored under it.\<close>

definition unused :: "Runtime \<Rightarrow> string \<Rightarrow> bool" where
  "unused rt i \<longleftrightarrow> (\<forall>d. rt_disk rt i = Some d \<longrightarrow> sd_log d = [])"

lemma unused_iff: "unused rt i \<longleftrightarrow> map_option sd_log (rt_disk rt i) \<in> {None, Some []}"
  by (cases "rt_disk rt i") (auto simp: unused_def)

lemma quiet_unused: "quiet rt rt' \<Longrightarrow> unused rt' i = unused rt i"
  by (simp add: unused_iff quiet_def)

lemma reserve_cases:
  assumes "reserve_slot rx env mx s rt = (r, rt')"
  obtains (refused) e where "r = Inl e" "quiet rt rt'"
  | (reserved) rt1 where "r = Inr ()" "quiet rt rt1" "rt' = put_session (e_session_id env) s rt1"
      "rt_sessions rt (e_session_id env) = None"
proof (cases "rt_sessions rt (e_session_id env) = None")
  case True
  note unreg = True
  show ?thesis
  proof (cases mx)
    case None
    then show ?thesis using assms True that(2) [of rt] by (auto simp: reserve_slot_def)
  next
    case (Some m)
    obtain now rt1 where now: "now_ms rx rt = (now, rt1)" by (cases "now_ms rx rt")
    have q: "quiet rt rt1" using quiet_now [OF now] by simp
    show ?thesis
    proof (cases "open_session_count rt1 (e_sender env) now \<ge> m")
      case True
      then show ?thesis using assms unreg Some now that(1) q by (auto simp: reserve_slot_def)
    next
      case False
      then show ?thesis using assms unreg Some now that(2) q by (auto simp: reserve_slot_def)
    qed
  qed
qed (use assms that(1) in \<open>auto simp: reserve_slot_def\<close>)

lemma storage_call_cases:
  assumes "storage_call rx op rt = (b, rt')"
  obtains (failed) "\<not> b" "rt' = rt\<lparr>rt_calls := Suc (rt_calls rt)\<rparr>"
  | (called) disk where "b" "op (rt_disk rt) = Some disk"
      "rt' = rt\<lparr>rt_calls := Suc (rt_calls rt), rt_disk := disk\<rparr>"
  using assms by (auto simp: storage_call_def Let_def split: if_splits option.splits)

lemma idle_dir_ok:
  assumes ok: "rt_ok rx pol rt" and i: "rt_sessions rt i = None"
    and f: "rt_sessions rt' = rt_sessions rt" "rt_logs rt' = rt_logs rt" "rt_modes rt' = rt_modes rt"
      "\<And>j. j \<noteq> i \<Longrightarrow> rt_disk rt' j = rt_disk rt j"
    and d: "rt_disk rt' i = rt_disk rt i \<or> unused rt' i \<and> check_component i"
  shows "rt_ok rx pol rt'"
proof -
  have "disk_ok (rt_disk rt')"
  proof (cases "rt_disk rt' i = rt_disk rt i")
    case True
    then have "rt_disk rt' = rt_disk rt" using f(4) by (metis ext)
    then show ?thesis using okD(4) [OF ok] by simp
  next
    case False
    then have c: "check_component i" using d by blast
    have "dom (rt_disk rt') \<subseteq> insert i (dom (rt_disk rt))" using f(4) by (metis domIff insertCI subsetI)
    then show ?thesis by (rule disk_ok_new_dir [OF okD(4) [OF ok] c])
  qed
  moreover
  have "backed rx pol rt' j s" if "rt_sessions rt j = Some s" for j s
    using okD(1) [OF ok that] f i that by (cases "j = i") (auto simp: backed_def log_of_def)
  ultimately show ?thesis
    using ok f d unfolding rt_ok_def unused_def by metis
qed

lemma create_dir_facts:
  assumes "create_session_storage i disk = Some disk'"
  shows "j \<noteq> i \<Longrightarrow> disk' j = disk j"
    "disk' i = disk i \<and> disk i \<noteq> None \<or> disk' i = Some \<lparr>sd_log = [], sd_snapshot = None\<rparr> \<and> disk i = None"
  using assms by (auto simp: create_session_storage_def split: if_splits option.splits)

lemma append_dir_facts:
  assumes "append_log_entry i e disk = Some disk'"
  shows "j \<noteq> i \<Longrightarrow> disk' j = disk j"
    "\<exists>d. disk i = Some d \<and> disk' i = Some (d\<lparr>sd_log := sd_log d @ [e]\<rparr>)"
  using assms by (auto simp: append_log_entry_def split: if_splits)

lemma commit_start_ok:
  assumes ok: "rt_ok rx pol rt" and i: "e_session_id env = i" "rt_sessions rt i = None" "unused rt i"
    and t: "tracked rx (rt_modes rt) pol i [start_entry env v s] s"
    and c: "commit_start rx env v s (put_session i s rt) = (r, rt')"
  shows "rt_ok rx pol rt'"
proof -
  let ?e = "start_entry env v s"
  let ?rt0 = "put_session i s rt"
  have logs: "rt_logs rt i = None" by (rule okD(2) [OF ok i(2)])
  obtain b1 rt1 where c1: "storage_call rx (create_session_storage i) ?rt0 = (b1, rt1)"
    by (cases "storage_call rx (create_session_storage i) ?rt0")
  from c1 show ?thesis
  proof (cases rule: storage_call_cases)
    case failed
    then have "rt' = rollback env rt1" using c c1 i(1) by (simp add: commit_start_def)
    then show ?thesis
      using failed i(1,2) by (intro idle_dir_ok [OF ok i(2)]) (auto simp: rollback_def put_session_def)
  next
    case (called disk1)
    have cd: "j \<noteq> i \<Longrightarrow> disk1 j = rt_disk rt j" for j
      using create_dir_facts(1) [OF called(2)] by (simp add: put_session_def)
    have comp: "check_component i" using called(2) by (auto simp: create_session_storage_def split: if_splits)
    have cd2: "unused (rt\<lparr>rt_disk := disk1\<rparr>) i" "disk1 i \<noteq> None"
      using create_dir_facts(2) [OF called(2)] i(3) by (auto simp: put_session_def unused_def)
    obtain b2 rt2 where c2: "storage_call rx (append_log_entry i ?e) rt1 = (b2, rt2)"
      by (cases "storage_call rx (append_log_entry i ?e) rt1")
    from c2 show ?thesis
    proof (cases rule: storage_call_cases)
      case failed
      then have "rt' = rollback env rt2" using c c1 c2 called(1) i(1) by (simp add: commit_start_def)
      then show ?thesis
        using failed called cd cd2 i(1,2) comp
        by (intro idle_dir_ok [OF ok i(2)]) (auto simp: rollback_def put_session_def unused_def)
    next
      case stored: (called disk2)
      have a: "append_log_entry i ?e disk1 = Some disk2" using stored(2) called(3) by simp
      obtain d where d: "disk1 i = Some d" "disk2 i = Some (d\<lparr>sd_log := sd_log d @ [?e]\<rparr>)"
        using append_dir_facts(2) [OF a] by blast
      then have d0: "sd_log d = []" using cd2(1) by (simp add: unused_def)
      let ?rt3 = "rt2\<lparr>rt_logs := log_append i ?e (create_session_log i (rt_logs rt2))\<rparr>"
      let ?rt3' = "?rt3\<lparr>rt_sessions := rt_sessions rt\<rparr>"
      let ?fin = "\<lambda>rt. send_lifecycle (LcCreated i) (publish_accepted_envelope env (save_session_to_storage rx s rt))"
      have rt': "rt' = ?fin ?rt3"
        using c c1 c2 called(1) stored(1) i(1) by (simp add: commit_start_def Let_def)
      have "log_of ?rt3' i [?e]"
        using d(2) d0 logs stored(3) called(3)
        by (simp add: log_of_def log_append_def create_session_log_def put_session_def)
      moreover have "only i rt ?rt3'"
        using stored(3) called(3) append_dir_facts(1) [OF a] cd
        by (auto simp: only_def put_session_def log_append_def create_session_log_def)
      moreover have "rt_modes ?rt3' = rt_modes rt" using stored(3) called(3) by (simp add: put_session_def)
      ultimately have "keeps rx pol i rt s ?rt3'" using t by (auto simp: keeps_def backed_def)
      then have "keeps rx pol i rt s (?fin ?rt3')"
        by (rule keeps_then_quiet [OF _ quiet_trans [OF quiet_trans [OF quiet_save quiet_sends(1)] quiet_sends(2)]])
      then have "rt_ok rx pol (put_session i s (?fin ?rt3'))" by (rule put_ok [OF ok _ comp])
      moreover have "put_session i s (?fin ?rt3') = ?fin ?rt3"
        using stored(3) called(3)
        by (simp add: put_session_def save_session_to_storage_def storage_call_def Let_def
            publish_accepted_envelope_def send_lifecycle_def split: option.split)
      ultimately show ?thesis using rt' by simp
    qed
  qed
qed

definition start_allowed :: "'z log_ext_scheme \<Rightarrow> PolicyRegistry \<Rightarrow> Envelope \<Rightarrow> Runtime \<Rightarrow> bool" where
  "start_allowed rx pol env rt \<longleftrightarrow>
     (e_message_type env = ''SessionStart'' \<and> rt_sessions rt (e_session_id env) = None \<longrightarrow>
        unused rt (e_session_id env) \<and>
        resolve (rt_policies rt) (start_policy rx env) = resolve pol (start_policy rx env))"

lemma process_start_cases:
  obtains (still) "quiet rt (snd (process_session_start rx env mx rt))"
  | (begun) now rt1 M v p s where "now_ms rx rt = (now, rt1)" "instantiate (rt_modes rt) (e_mode env) = Inr M"
      "validate_session_start (lx_start rx) env now (start_options (rt_modes rt) (e_mode env)) = Inr v"
      "rt_sessions rt1 (e_session_id env) = None"
      "resolve (rt_policies rt1) (effective_policy_version v) = Inr p"
      "ValidatedStart_accept v env M (Some p) = Inr s"
      "process_session_start rx env mx rt =
         (case reserve_slot rx env mx s rt1 of (Inl e, rt2) \<Rightarrow> (Inl e, rt2)
          | (Inr _, rt2) \<Rightarrow> commit_start rx env v s rt2)"
proof -
  obtain now rt1 where now: "now_ms rx rt = (now, rt1)" by (cases "now_ms rx rt")
  have q: "quiet rt rt1" using quiet_now [OF now] by simp
  define R where "R = process_session_start rx env mx rt"
  have R: "R = process_session_start rx env mx rt" by (simp add: R_def)
  have "quiet rt (snd R) \<or>
     (\<exists>M v p s. instantiate (rt_modes rt) (e_mode env) = Inr M \<and>
      validate_session_start (lx_start rx) env now (start_options (rt_modes rt) (e_mode env)) = Inr v \<and>
      rt_sessions rt1 (e_session_id env) = None \<and>
      resolve (rt_policies rt1) (effective_policy_version v) = Inr p \<and>
      ValidatedStart_accept v env M (Some p) = Inr s \<and>
      R = (case reserve_slot rx env mx s rt1 of (Inl e, rt2) \<Rightarrow> (Inl e, rt2)
          | (Inr _, rt2) \<Rightarrow> commit_start rx env v s rt2))"
    using q unfolding R process_session_start_def now prod.case Let_def
    by (simp split: sum.split option.split)
  then show thesis using that now unfolding R_def by blast
qed

lemma start_ok:
  assumes ok: "rt_ok rx pol rt" and al: "start_allowed rx pol env rt" and ty: "e_message_type env = ''SessionStart''"
  shows "rt_ok rx pol (snd (process_session_start rx env mx rt))"
proof (cases rule: process_start_cases [of rt rx env mx])
  case still
  then show ?thesis by (rule quiet_ok [OF _ ok])
next
  case (begun now rt1 M v p s)
  have q: "quiet rt rt1" using quiet_now [OF begun(1)] by simp
  have ok1: "rt_ok rx pol rt1" by (rule quiet_ok [OF q ok])
  have same: "rt_sessions rt1 = rt_sessions rt" "rt_modes rt1 = rt_modes rt" "rt_policies rt1 = rt_policies rt"
    using q by (simp_all add: quiet_def)
  have "unused rt1 (e_session_id env)"
    using al ty begun(4) quiet_unused [OF q] same by (simp add: start_allowed_def)
  moreover have pol: "resolve pol (start_policy rx env) = Inr p"
    using al ty begun(4,5) same start_policy_validated [OF begun(3)] by (simp add: start_allowed_def)
  have "shipped_mode M"
    using begun(2) okD(3) [OF ok] by (auto simp: instantiate_def res_simps split: option.splits)
  then have t: "tracked rx (rt_modes rt1) pol (e_session_id env) [start_entry env v s] s"
    unfolding same(2) by (rule tracked_start [OF begun(3,6,2) _ pol])
  obtain x rt2 where rs: "reserve_slot rx env mx s rt1 = (x, rt2)" by (cases "reserve_slot rx env mx s rt1")
  from rs show ?thesis
  proof (cases rule: reserve_cases)
    case (refused e)
    then show ?thesis using begun(7) rs quiet_ok [OF refused(2) ok1] by simp
  next
    case (reserved rt1')
    have ok2: "rt_ok rx pol rt1'" by (rule quiet_ok [OF reserved(2) ok1])
    obtain r rt' where c: "commit_start rx env v s (put_session (e_session_id env) s rt1') = (r, rt')"
      by (cases "commit_start rx env v s (put_session (e_session_id env) s rt1')")
    have "rt_sessions rt1' (e_session_id env) = None" "unused rt1' (e_session_id env)"
      "rt_modes rt1' = rt_modes rt1"
      using reserved(2,4) \<open>unused rt1 (e_session_id env)\<close> quiet_unused [OF reserved(2)]
      by (simp_all add: quiet_def)
    then have "rt_ok rx pol rt'" using commit_start_ok [OF ok2 refl _ _ _ c] t by simp
    then show ?thesis using begun(7) rs reserved(1,3) c by simp
  qed
qed

lemma process_ok:
  assumes "session_codec_law rx" "\<forall>n. rx_clock rx n \<noteq> 0" "rt_ok rx pol rt" "start_allowed rx pol env rt"
  shows "rt_ok rx pol (snd (process rx env mx rt))"
proof -
  have "rt_ok rx pol (snd (process_message rx env rt))"
    unfolding process_message_def
    by (rule with_session_ok [OF assms(3)]) (rule message_keeps [OF assms(1,2) _ refl])
  moreover have "quiet rt (snd (process_signal rx env rt))"
    by (simp add: process_signal_def quiet_def)
  ultimately show ?thesis
    using start_ok [OF assms(3,4)] quiet_ok [OF _ assms(3)] by (simp add: process_def)
qed

lemma control_ok:
  assumes "session_codec_law rx" "rt_ok rx pol rt"
  shows "rt_ok rx pol (snd (cancel_session rx i reason by' rt))"
    "rt_ok rx pol (snd (suspend_session rx i reason by' rt))"
    "rt_ok rx pol (snd (resume_session rx i reason by' rt))"
  unfolding cancel_session_def suspend_session_def resume_session_def
  by (rule with_session_ok [OF assms(2)], erule (1) cancel_keeps [OF assms(1)] suspend_keeps resume_keeps)+

lemma read_ok:
  assumes "rt_ok rx pol rt"
  shows "rt_ok rx pol (snd (get_session_checked rx i rt))"
proof (cases "rt_sessions rt i")
  case (Some s)
  obtain r s' rt1 where x: "maybe_expire_session rx i s rt = (r, s', rt1)"
    by (cases "maybe_expire_session rx i s rt")
  have k: "keeps rx pol i rt s' rt1" by (rule expire_keeps [OF okD(1) [OF assms Some] x])
  then have "keeps rx pol i rt s' (if r = Ok True then save_session_to_storage rx s' rt1 else rt1)"
    using keeps_then_quiet [OF k quiet_save [of rt1 rx s']] by simp
  then show ?thesis
    using put_ok [OF assms _ registered_component [OF assms Some]] Some x by (simp add: get_session_checked_def)
qed (simp add: get_session_checked_def assms)

section \<open>Sweeps\<close>

lemma fold_ok:
  assumes "rt_ok rx pol rt" "\<And>x rt. rt_ok rx pol rt \<Longrightarrow> rt_ok rx pol (f x rt)"
  shows "rt_ok rx pol (fold f xs rt)"
  using assms(1) by (induction xs arbitrary: rt) (simp_all add: assms(2))

lemma cleanup_one_ok:
  assumes law: "session_codec_law rx" and ok: "rt_ok rx pol rt"
  shows "rt_ok rx pol (cleanup_one rx now i rt)"
proof (cases "\<exists>s. rt_sessions rt i = Some s \<and> s_state s = Open \<and> s_ttl_expiry s < now")
  case True
  then obtain s where s: "rt_sessions rt i = Some s" "s_state s = Open" "s_ttl_expiry s < now" by blast
  have b: "backed rx pol rt i s" by (rule okD(1) [OF ok s(1)])
  let ?e = "make_internal_entry ''TtlExpired'' [] i (s_mode s) now"
  let ?s = "s\<lparr>s_state := Expired\<rparr>"
  obtain x rt1 where a: "append_entry rx i ?e rt = (x, rt1)" by (cases "append_entry rx i ?e rt")
  show ?thesis
  proof (cases x)
    case (Inl e)
    have "quiet rt rt1" using a by (rule append_entry_cases) (use Inl in auto)
    then show ?thesis using quiet_ok [OF _ ok] s a Inl by (simp add: cleanup_one_def)
  next
    case (Inr u)
    have "keeps rx pol i rt ?s rt1"
    proof (rule append_keeps [OF _ b])
      show "append_entry rx i ?e rt = (Inr (), rt1)" using a Inr by simp
      show "bound_fields ?s = bound_fields s" by (simp add: bound_fields_def)
      show "mode_ready (rt_modes rt) ?s" using backed_ready [OF b] by (simp add: lifecycle_ready)
      show "\<exists>r'. replay_entry r i ?e M = (Inr (), r') \<and> same_session r' ?s" if "same_session r s" for r M
        by (rule replay_expired [OF that]) simp_all
    qed simp_all
    then have ok1: "rt_ok rx pol (put_session i ?s rt1)"
      by (rule put_ok [OF ok _ registered_component [OF ok s(1)]])
    let ?rt2 = "save_session_to_storage rx ?s (put_session i ?s rt1)"
    have ok2: "rt_ok rx pol ?rt2" by (rule quiet_ok [OF quiet_save ok1])
    have r2: "rt_sessions ?rt2 i = Some ?s"
      using quiet_save [of "put_session i ?s rt1" rx ?s] by (simp add: quiet_def put_session_def)
    have k: "keeps rx pol i ?rt2 ?s (settle_terminal rx i ?s ?rt2)"
      by (rule settle_keeps [OF law okD(1) [OF ok2 r2]])
    then have "put_session i ?s (settle_terminal rx i ?s ?rt2) = settle_terminal rx i ?s ?rt2"
      using r2 by (simp add: put_session_def keeps_def only_def fun_upd_idem)
    then have "rt_ok rx pol (settle_terminal rx i ?s ?rt2)"
      using put_ok [OF ok2 k registered_component [OF ok2 r2]] by simp
    then show ?thesis
      using quiet_ok [OF quiet_sends(2)] s a Inr by (simp add: cleanup_one_def Let_def)
  qed
next
  case False
  then have "cleanup_one rx now i rt = rt" by (auto simp: cleanup_one_def split: option.split)
  then show ?thesis using ok by simp
qed

lemma sweep_one_ok:
  assumes law: "session_codec_law rx" and ok: "rt_ok rx pol rt"
  shows "rt_ok rx pol (sweep_one rx now i rt)"
proof (cases "rt_sessions rt i")
  case (Some s)
  obtain r s' rt1 where x: "synthesize_due_accept rx i s now rt = (r, s', rt1)"
    by (cases "synthesize_due_accept rx i s now rt")
  have "keeps rx pol i rt s' rt1" by (rule synthesize_keeps(1) [OF law okD(1) [OF ok Some] x])
  then show ?thesis
    using put_ok [OF ok _ registered_component [OF ok Some]] Some x ok by (simp add: sweep_one_def)
qed (simp add: sweep_one_def ok)

lemma sweeps_ok:
  assumes "session_codec_law rx" "rt_ok rx pol rt"
  shows "rt_ok rx pol (cleanup_expired_sessions rx rt)" "rt_ok rx pol (sweep_due_synthetic_accepts rx rt)"
proof -
  obtain now rt1 where now: "now_ms rx rt = (now, rt1)" by (cases "now_ms rx rt")
  have ok: "rt_ok rx pol rt1" using quiet_ok [OF _ assms(2)] quiet_now [OF now] by blast
  show "rt_ok rx pol (cleanup_expired_sessions rx rt)"
    unfolding cleanup_expired_sessions_def now Let_def prod.case by (rule fold_ok [OF ok]) (rule cleanup_one_ok [OF assms(1)])
  show "rt_ok rx pol (sweep_due_synthetic_accepts rx rt)"
    unfolding sweep_due_synthetic_accepts_def now Let_def prod.case by (rule fold_ok [OF ok]) (rule sweep_one_ok [OF assms(1)])
qed

lemma forget_ok:
  assumes "rt_ok rx pol rt"
  shows "rt_ok rx pol (forget_session i rt)"
proof -
  have b: "backed rx pol (forget_session i rt) j s = backed rx pol rt j s" if "j \<noteq> i" for j s
    using that by (simp add: backed_def log_of_def forget_session_def remove_session_log_def)
  have "\<exists>s. tracked rx (rt_modes rt) pol i (sd_log d) s" if "rt_disk rt i = Some d" "sd_log d \<noteq> []" for d
  proof (cases "rt_sessions rt i")
    case None
    then show ?thesis using assms that unfolding rt_ok_def by blast
  next
    case (Some s)
    then show ?thesis using okD(1) [OF assms Some] that(1) by (auto simp: backed_def log_of_def)
  qed
  then show ?thesis
    using assms b unfolding rt_ok_def by (auto simp: forget_session_def remove_session_log_def)
qed

lemma evict_ok:
  assumes "rt_ok rx pol rt"
  shows "rt_ok rx pol (evict_stale_sessions rx secs rt)"
proof -
  obtain now rt1 where now: "now_ms rx rt = (now, rt1)" by (cases "now_ms rx rt")
  have ok: "rt_ok rx pol rt1" using quiet_ok [OF _ assms] quiet_now [OF now] by blast
  show ?thesis
    unfolding evict_stale_sessions_def now Let_def prod.case by (rule fold_ok [OF ok]) (rule forget_ok)
qed

lemma delete_ok:
  assumes "rt_ok rx pol rt"
  shows "rt_ok rx pol (forget_session i (rt\<lparr>rt_calls := n, rt_disk := (rt_disk rt)(i := None)\<rparr>))"
proof -
  have "backed rx pol (forget_session i (rt\<lparr>rt_calls := n, rt_disk := (rt_disk rt)(i := None)\<rparr>)) j s
      = backed rx pol rt j s" if "j \<noteq> i" for j s
    using that by (simp add: backed_def log_of_def forget_session_def remove_session_log_def)
  then show ?thesis
    using assms unfolding rt_ok_def by (auto simp: forget_session_def remove_session_log_def disk_ok_def)
qed

lemma gc_one_ok:
  assumes "rt_ok rx pol rt"
  shows "rt_ok rx pol (gc_one rx cutoff i rt)"
proof -
  obtain b rt1 where g: "gc_one rx cutoff i rt = (if \<not> b then rt1 else
      (case storage_call rx (delete_session i) rt1 of
         (True, rt2) \<Rightarrow> forget_session i rt2 | (False, rt2) \<Rightarrow> rt2))" "quiet rt rt1"
  proof (cases "rt_sessions rt i")
    case (Some s)
    then show ?thesis
      using that [of "is_terminal (s_state s) \<and> s_started_at_unix_ms s < cutoff" rt]
      by (simp add: gc_one_def Let_def)
  next
    case None
    obtain x rt1 where r: "storage_read rx (load_session i) rt = (x, rt1)"
      by (cases "storage_read rx (load_session i) rt")
    show ?thesis
      using None r quiet_read [OF r]
        that [of "case x of Some (Some s) \<Rightarrow> is_terminal (s_state s) \<and> s_started_at_unix_ms s < cutoff | _ \<Rightarrow> False" rt1]
      by (simp add: gc_one_def Let_def split: option.splits)
  qed
  have ok1: "rt_ok rx pol rt1" by (rule quiet_ok [OF g(2) assms])
  obtain x rt2 where c: "storage_call rx (delete_session i) rt1 = (x, rt2)"
    by (cases "storage_call rx (delete_session i) rt1")
  from c have "rt_ok rx pol (case (x, rt2) of (True, rt2) \<Rightarrow> forget_session i rt2 | (False, rt2) \<Rightarrow> rt2)"
  proof (cases rule: storage_call_cases)
    case failed
    then show ?thesis using quiet_ok [OF _ ok1, of rt2] by (simp add: quiet_def)
  next
    case (called disk)
    then show ?thesis
      using delete_ok [OF ok1] by (auto simp: delete_session_def split: if_splits)
  qed
  then show ?thesis unfolding g(1) c using ok1 by simp
qed

lemma gc_ok:
  assumes "rt_ok rx pol rt"
  shows "rt_ok rx pol (gc_disk_sessions rx secs rt)"
proof -
  obtain now rt1 where now: "now_ms rx rt = (now, rt1)" by (cases "now_ms rx rt")
  obtain x rt2 where r: "storage_read rx (\<lambda>disk. Some (list_session_ids disk)) rt1 = (x, rt2)"
    by (cases "storage_read rx (\<lambda>disk. Some (list_session_ids disk)) rt1")
  have ok: "rt_ok rx pol rt2"
    using quiet_ok [OF quiet_trans assms] quiet_now [OF now] quiet_read [OF r] by blast
  have "rt_ok rx pol (fold (gc_one rx (cutoff_ms now secs)) ids rt2)" for ids
    by (rule fold_ok [OF ok]) (rule gc_one_ok)
  then show ?thesis
    unfolding gc_disk_sessions_def now Let_def prod.case r using ok by (simp split: option.split)
qed

section \<open>Restarting\<close>

text \<open>A process that stops loses its memory and keeps its disk; the next one starts with the modes
  and the policies it loads and recovers the stored sessions. A process that stops in the middle of
  an operation leaves the disk of that operation with every later storage call failing, so stopping
  between operations covers it.\<close>

definition reboot :: "mode_entries \<Rightarrow> PolicyRegistry \<Rightarrow> Runtime \<Rightarrow> Runtime" where
  "reboot modes policies rt =
     (Runtime_new modes policies (rt_disk rt))\<lparr>rt_ticks := rt_ticks rt, rt_calls := rt_calls rt\<rparr>"

text \<open>The modes that stored logs name are registered as they were.\<close>

definition modes_kept :: "disk \<Rightarrow> mode_entries \<Rightarrow> mode_entries \<Rightarrow> bool" where
  "modes_kept disk modes modes' \<longleftrightarrow>
     (\<forall>i d. disk i = Some d \<longrightarrow> (\<forall>e \<in> set (sd_log d). modes' (le_mode e) = modes (le_mode e)))"

lemma tracked_kept:
  assumes "tracked rx modes pol i es s" "es \<noteq> []" "\<forall>e \<in> set es. modes' (le_mode e) = modes (le_mode e)"
  shows "tracked rx modes' pol i es s"
proof (rule tracked_modes [OF assms(1)])
  show "modes' (s_mode s) = modes (s_mode s)"
    using assms by (cases es) (auto simp: tracked_def)
qed

lemma same_session_mode_state: "same_session r s \<Longrightarrow> s_mode_state r = s_mode_state s"
proof -
  have "s_mode_state (forget_pause (forget_activity s)) = s_mode_state s" for s
    by (simp add: forget_pause_def forget_activity_def)
  then show "same_session r s \<Longrightarrow> s_mode_state r = s_mode_state s" unfolding same_session_def by metis
qed

lemma tracked_replayed:
  assumes "tracked rx modes pol i es s" "replay_session rx i es modes (Some pol) = Inr r"
  shows "tracked rx modes pol i es r" "same_session r s"
proof -
  show same: "same_session r s" using assms by (auto simp: tracked_def)
  have b: "bound_fields r = bound_fields s" by (rule same_session_bound [OF same])
  have ms: "s_mode_state r = s_mode_state s" by (rule same_session_mode_state [OF same])
  have m: "s_mode r = s_mode s" by (rule bound_mode [OF b])
  have "mode_ready modes s" "bound_ok i s" "\<forall>e \<in> set es. le_mode e = s_mode s"
    using assms(1) by (simp_all add: tracked_def)
  moreover have "mode_ready modes r"
    by (rule ready_step [OF calculation(1) m]) (rule mode_contract.minv_frame [OF _ _ ms b])
  moreover have "bound_ok i r" by (rule bound_ok_frame [OF calculation(2) b])
  ultimately show "tracked rx modes pol i es r"
    using assms(2) m by (simp add: tracked_def)
qed

lemma tracked_nonempty: "tracked rx modes pol i es s \<Longrightarrow> es \<noteq> []"
  by (cases es) (auto simp: tracked_def replay_session_iff checkpoint_replay_iff start_replay_iff)

lemma stored_tracked:
  assumes "rt_ok rx pol rt" "rt_disk rt i = Some d" "sd_log d \<noteq> []"
  obtains s where "tracked rx (rt_modes rt) pol i (sd_log d) s"
    "\<And>s'. rt_sessions rt i = Some s' \<Longrightarrow> s = s'"
proof (cases "rt_sessions rt i")
  case None
  then show ?thesis using assms that unfolding rt_ok_def by (metis option.distinct(1))
next
  case (Some s)
  then show ?thesis using okD(1) [OF assms(1) Some] assms(2) that by (auto simp: backed_def log_of_def)
qed

lemma reboot_ok:
  assumes "rt_ok rx pol rt" "modes_kept (rt_disk rt) (rt_modes rt) modes"
    and "\<forall>m reg. modes m = Some reg \<longrightarrow> shipped_mode (mr_factory reg)"
  shows "rt_ok rx pol (reboot modes pol rt)"
proof -
  have "\<exists>s. tracked rx modes pol i (sd_log d) s" if "rt_disk rt i = Some d" "sd_log d \<noteq> []" for i d
    using stored_tracked [OF assms(1) that] tracked_kept that assms(2) unfolding modes_kept_def by metis
  then show ?thesis
    using assms(3) okD(4) [OF assms(1)] by (simp add: rt_ok_def reboot_def Runtime_new_def)
qed

section \<open>Recovery\<close>

definition fill_log :: "string \<Rightarrow> LogEntry list \<Rightarrow> Runtime \<Rightarrow> Runtime" where
  "fill_log i es rt =
     rt\<lparr>rt_logs := fold (\<lambda>e. log_append i e) es (create_session_log i (rt_logs rt))\<rparr>"

lemma fold_log_append:
  "fold (\<lambda>e. log_append i e) es logs j =
     (if j = i \<and> es \<noteq> [] then Some (unwrap_or [] (logs i) @ es) else logs j)"
  by (induction es arbitrary: logs) (auto simp: log_append_def unwrap_or_def)

lemma fill_log_simps [simp]:
  "rt_sessions (fill_log i es rt) = rt_sessions rt" "rt_modes (fill_log i es rt) = rt_modes rt"
  "rt_policies (fill_log i es rt) = rt_policies rt" "rt_disk (fill_log i es rt) = rt_disk rt"
  "rt_calls (fill_log i es rt) = rt_calls rt"
  by (simp_all add: fill_log_def)

lemma fill_log_logs:
  "rt_logs rt i = None \<Longrightarrow> rt_logs (fill_log i es rt) = (rt_logs rt)(i \<mapsto> es)"
  by (auto simp: fill_log_def fold_log_append create_session_log_def unwrap_or_def)

lemma quiet_call_save: "storage_call rx (save_session rx s) rt = (b, rt') \<Longrightarrow> quiet rt rt'"
  using quiet_save [of rt rx s] by (simp add: save_session_to_storage_def)

lemma recover_one_cases:
  assumes "recover_one rx strict i report rt = (r, rt')"
  obtains (skipped) "quiet rt rt'"
  | (rebuilt) d s rt3 where "rt_disk rt i = Some d" "sd_log d \<noteq> []"
      "replay_session rx i (sd_log d) (rt_modes rt) (Some (rt_policies rt)) = Inr s"
      "quiet rt rt3" "rt' = put_session i s (fill_log i (sd_log d) rt3)"
proof -
  obtain x rt1 where r1: "storage_read rx (load_log i) rt = (x, rt1)" by (cases "storage_read rx (load_log i) rt")
  have q1: "quiet rt rt1" by (rule quiet_read [OF r1])
  consider "x = None \<or> x = Some []" | es where "x = Some es" "es \<noteq> []" by (cases x) auto
  then show ?thesis
  proof cases
    case 1
    then have "rt' = rt1" using assms r1 by (auto simp: recover_one_def split: if_splits)
    then show ?thesis using that(1) q1 by simp
  next
    case (2 es)
    obtain d where d: "rt_disk rt i = Some d" "sd_log d = es"
      using r1 2 by (auto simp: storage_read_def load_log_def split: if_splits option.splits)
    show ?thesis
    proof (cases "replay_session rx i es (rt_modes rt1) (Some (rt_policies rt1))")
      case (Inl e)
      then have "rt' = rt1" using assms r1 2 by (auto simp: recover_one_def split: if_splits)
      then show ?thesis using that(1) q1 by simp
    next
      case (Inr s)
      obtain y rt2 where r2: "storage_read rx (load_session i) rt1 = (y, rt2)"
        by (cases "storage_read rx (load_session i) rt1")
      obtain b rt3 where r3: "storage_call rx (save_session rx s) rt2 = (b, rt3)"
        by (cases "storage_call rx (save_session rx s) rt2")
      have q3: "quiet rt rt3"
        by (rule quiet_trans [OF quiet_trans [OF q1 quiet_read [OF r2]] quiet_call_save [OF r3]])
      have "replay_session rx i (sd_log d) (rt_modes rt) (Some (rt_policies rt)) = Inr s"
        using Inr d(2) q1 by (simp add: quiet_def)
      moreover have "rt' = rt3 \<or> rt' = put_session i s (fill_log i es rt3)"
        using assms r1 r2 r3 2 Inr
        by (auto simp: recover_one_def fill_log_def Let_def split: if_splits)
      ultimately show ?thesis using that q3 d 2(2) by blast
    qed
  qed
qed

lemma recover_one_ok:
  assumes ok: "rt_ok rx pol rt" and i: "rt_sessions rt i = None" and p: "rt_policies rt = pol"
    and x: "recover_one rx strict i report rt = (r, rt')"
  shows "rt_ok rx pol rt'" "rt_policies rt' = pol" "j \<noteq> i \<Longrightarrow> rt_sessions rt' j = rt_sessions rt j"
    "rt_modes rt' = rt_modes rt" "map_option sd_log (rt_disk rt' j) = map_option sd_log (rt_disk rt j)"
proof -
  have "rt_ok rx pol rt' \<and> rt_policies rt' = pol \<and> (j \<noteq> i \<longrightarrow> rt_sessions rt' j = rt_sessions rt j) \<and>
     rt_modes rt' = rt_modes rt \<and> map_option sd_log (rt_disk rt' j) = map_option sd_log (rt_disk rt j)"
    using x
  proof (cases rule: recover_one_cases)
    case skipped
    then show ?thesis using quiet_ok [OF skipped ok] p by (simp add: quiet_def)
  next
    case (rebuilt d s rt3)
    obtain s0 where t: "tracked rx (rt_modes rt) pol i (sd_log d) s0"
      using stored_tracked [OF ok rebuilt(1,2)] by blast
    have t': "tracked rx (rt_modes rt) pol i (sd_log d) s"
      using tracked_replayed(1) [OF t] rebuilt(3) p by simp
    have l3: "rt_logs rt3 i = None" using okD(2) [OF ok i] rebuilt(4) by (simp add: quiet_def)
    have "map_option sd_log (rt_disk rt3 i) = Some (sd_log d)" using rebuilt(1,4) by (simp add: quiet_def)
    then have "log_of (fill_log i (sd_log d) rt3) i (sd_log d)" by (simp add: log_of_def fill_log_logs [OF l3])
    moreover have "rt_modes rt3 = rt_modes rt" using rebuilt(4) by (simp add: quiet_def)
    moreover have "only i rt (fill_log i (sd_log d) rt3)"
      using rebuilt(4) by (simp add: only_def quiet_def fill_log_logs [OF l3])
    ultimately have k: "keeps rx pol i rt s (fill_log i (sd_log d) rt3)"
      using t' by (auto simp: keeps_def backed_def)
    have "check_component i" using okD(4) [OF ok] rebuilt(1) by (auto simp: disk_ok_def)
    then have "rt_ok rx pol rt'" unfolding rebuilt(5) by (rule put_ok [OF ok k])
    then show ?thesis using rebuilt(4,5) p by (simp add: put_session_def quiet_def)
  qed
  then show "rt_ok rx pol rt'" "rt_policies rt' = pol" "j \<noteq> i \<Longrightarrow> rt_sessions rt' j = rt_sessions rt j"
    "rt_modes rt' = rt_modes rt" "map_option sd_log (rt_disk rt' j) = map_option sd_log (rt_disk rt j)" by blast+
qed

lemma recover_each_ok:
  assumes "rt_ok rx pol rt" "\<forall>i \<in> set ids. rt_sessions rt i = None" "distinct ids" "rt_policies rt = pol"
  shows "rt_ok rx pol (snd (recover_each rx strict ids report rt))"
  using assms
proof (induction ids arbitrary: report rt)
  case (Cons i ids)
  obtain r rt1 where x: "recover_one rx strict i report rt = (r, rt1)" by (cases "recover_one rx strict i report rt")
  note one = recover_one_ok [OF Cons.prems(1) _ Cons.prems(4) x]
  have i: "rt_sessions rt i = None" using Cons.prems(2) by simp
  show ?case
  proof (cases r)
    case (Inr report1)
    have "\<forall>j \<in> set ids. rt_sessions rt1 j = None"
      using one(3) [OF i] Cons.prems(2,3) by (metis distinct.simps(2) list.set_intros(2))
    then show ?thesis
      using Cons.IH [OF one(1) [OF i]] one(2) [OF i] Cons.prems(3) x Inr by simp
  qed (use one(1) [OF i] x in simp)
qed simp

text \<open>With a working disk, recovery registers exactly the sessions whose stored logs are not empty,
  each as its log replays.\<close>

definition rebuilt_session ::
    "'z log_ext_scheme \<Rightarrow> mode_entries \<Rightarrow> PolicyRegistry \<Rightarrow> disk \<Rightarrow> string \<Rightarrow> Session option" where
  "rebuilt_session rx modes pol disk i =
     (case map_option sd_log (disk i) of
        None \<Rightarrow> None
      | Some es \<Rightarrow>
          if es = [] then None
          else (case replay_session rx i es modes (Some pol) of Inl _ \<Rightarrow> None | Inr s \<Rightarrow> Some s))"

definition stored :: "disk \<Rightarrow> string \<Rightarrow> bool" where
  "stored disk i \<longleftrightarrow> map_option sd_log (disk i) \<notin> {None, Some []}"

definition disk_works :: "'z runtime_ext_scheme \<Rightarrow> Runtime \<Rightarrow> bool" where
  "disk_works rx rt \<longleftrightarrow> (\<forall>n. rt_calls rt \<le> n \<longrightarrow> \<not> rx_fault rx n)"

lemma read_works:
  "disk_works rx rt \<Longrightarrow> storage_read rx op rt = (op (rt_disk rt), rt\<lparr>rt_calls := Suc (rt_calls rt)\<rparr>)"
  by (simp add: disk_works_def storage_read_def)

lemma works_later: "disk_works rx rt \<Longrightarrow> rt_calls rt \<le> rt_calls rt' \<Longrightarrow> disk_works rx rt'"
  by (simp add: disk_works_def)

lemma call_later: "storage_call rx op rt = (b, rt') \<Longrightarrow> rt_calls rt' = Suc (rt_calls rt)"
  by (erule storage_call_cases) simp_all

lemma save_works:
  assumes "disk_works rx rt" "storage_call rx (save_session rx s) rt = (b, rt')"
    and "check_component (s_session_id s)" "rt_disk rt (s_session_id s) = Some d"
    and "lx_encode_session rx (PersistedSession_from s) \<noteq> None"
  shows "b"
  using assms by (auto simp: disk_works_def storage_call_def save_session_def Let_def)

lemma recover_one_works:
  assumes ok: "rt_ok rx pol rt" and i: "rt_sessions rt i = None" "i \<in> dom (rt_disk rt)" and p: "rt_policies rt = pol"
    and w: "disk_works rx rt" and enc: "strict \<longrightarrow> (\<forall>q. lx_encode_session rx q \<noteq> None)"
    and x: "recover_one rx strict i report rt = (r, rt')"
  shows "\<exists>report'. r = Inr report' \<and> rr_recovered report' = rr_recovered report + of_bool (stored (rt_disk rt) i) \<and>
      rt_sessions rt' = (rt_sessions rt)(i := rebuilt_session rx (rt_modes rt) pol (rt_disk rt) i) \<and> disk_works rx rt'"
proof -
  obtain d where d: "rt_disk rt i = Some d" using i(2) by blast
  have c: "check_component i" using okD(4) [OF ok] d by (auto simp: disk_ok_def)
  let ?rt1 = "rt\<lparr>rt_calls := Suc (rt_calls rt)\<rparr>"
  have r1: "storage_read rx (load_log i) rt = (Some (sd_log d), ?rt1)"
    by (simp add: read_works [OF w] load_log_def c d)
  have w1: "disk_works rx ?rt1" by (rule works_later [OF w]) simp
  show ?thesis
  proof (cases "sd_log d = []")
    case True
    then show ?thesis
      using x r1 i(1) d w1 fun_upd_idem [of "rt_sessions rt" i None]
      by (auto simp: recover_one_def rebuilt_session_def stored_def)
  next
    case False
    obtain s0 where t: "tracked rx (rt_modes rt) pol i (sd_log d) s0"
      using stored_tracked [OF ok d False] by blast
    then obtain s where s: "replay_session rx i (sd_log d) (rt_modes rt) (Some pol) = Inr s"
      by (auto simp: tracked_def)
    have si: "s_session_id s = i" using tracked_replayed(1) [OF t s] by (simp add: tracked_def bound_ok_def)
    let ?rt2 = "?rt1\<lparr>rt_calls := Suc (Suc (rt_calls rt))\<rparr>"
    have r2: "storage_read rx (load_session i) ?rt1 = (load_session i (rt_disk rt), ?rt2)"
      by (simp add: read_works [OF w1])
    have w2: "disk_works rx ?rt2" by (rule works_later [OF w]) simp
    obtain b rt3 where r3: "storage_call rx (save_session rx s) ?rt2 = (b, rt3)"
      by (cases "storage_call rx (save_session rx s) ?rt2")
    have b: "strict \<longrightarrow> b" using save_works [OF w2 r3] enc si c d by auto
    have w3: "disk_works rx (put_session i s (fill_log i (sd_log d) rt3))"
      using call_later [OF r3] by (intro works_later [OF w]) (simp add: put_session_def)
    have "rt_sessions rt3 = rt_sessions rt" using quiet_call_save [OF r3] by (simp add: quiet_def)
    moreover have "rt' = put_session i s (fill_log i (sd_log d) rt3)"
      "\<exists>report'. r = Inr report' \<and> rr_recovered report' = rr_recovered report + 1"
      using x r1 r2 r3 False s p b by (auto simp: recover_one_def fill_log_def Let_def)
    ultimately show ?thesis
      using w3 d s False by (auto simp: put_session_def rebuilt_session_def stored_def)
  qed
qed

lemma recover_each_works:
  assumes "rt_ok rx pol rt" "\<forall>i \<in> set ids. rt_sessions rt i = None \<and> i \<in> dom (rt_disk rt)" "distinct ids"
    and "rt_policies rt = pol" "disk_works rx rt" "strict \<longrightarrow> (\<forall>q. lx_encode_session rx q \<noteq> None)"
  shows "\<exists>report' rt'. recover_each rx strict ids report rt = (Inr report', rt') \<and>
     rr_recovered report' = rr_recovered report + length (filter (stored (rt_disk rt)) ids) \<and>
     (\<forall>i. rt_sessions rt' i = (if i \<in> set ids then rebuilt_session rx (rt_modes rt) pol (rt_disk rt) i else rt_sessions rt i))"
  using assms
proof (induction ids arbitrary: report rt)
  case (Cons i ids)
  have i: "rt_sessions rt i = None" "i \<in> dom (rt_disk rt)" using Cons.prems(2) by auto
  obtain r rt1 where x: "recover_one rx strict i report rt = (r, rt1)" by (cases "recover_one rx strict i report rt")
  obtain report1 where one: "r = Inr report1"
    "rr_recovered report1 = rr_recovered report + of_bool (stored (rt_disk rt) i)"
    "rt_sessions rt1 = (rt_sessions rt)(i := rebuilt_session rx (rt_modes rt) pol (rt_disk rt) i)" "disk_works rx rt1"
    using recover_one_works [OF Cons.prems(1) i Cons.prems(4,5,6) x] by blast
  note keep = recover_one_ok [OF Cons.prems(1) i(1) Cons.prems(4) x]
  have same: "rebuilt_session rx (rt_modes rt1) pol (rt_disk rt1) j = rebuilt_session rx (rt_modes rt) pol (rt_disk rt) j"
    "stored (rt_disk rt1) j = stored (rt_disk rt) j" for j
    by (simp_all add: rebuilt_session_def stored_def keep(4) keep(5) [of j])
  have "\<forall>j \<in> set ids. rt_sessions rt1 j = None \<and> j \<in> dom (rt_disk rt1)"
    using Cons.prems(2,3) logs_dom [of "rt_disk rt1" _ "rt_disk rt"] keep(5) one(3) by auto
  then obtain report' rt' where "recover_each rx strict ids report1 rt1 = (Inr report', rt')"
     "rr_recovered report' = rr_recovered report1 + length (filter (stored (rt_disk rt1)) ids)"
     "\<forall>i. rt_sessions rt' i = (if i \<in> set ids then rebuilt_session rx (rt_modes rt1) pol (rt_disk rt1) i else rt_sessions rt1 i)"
    using Cons.IH [OF keep(1) _ _ keep(2) one(4) Cons.prems(6)] Cons.prems(3) by (metis distinct.simps(2))
  moreover have "stored (rt_disk rt1) = stored (rt_disk rt)" using same(2) by blast
  ultimately show ?case using x one(1,2,3) same(1) by auto
qed simp

section \<open>Runs\<close>

text \<open>The states a runtime can be in: any interleaving of client operations, reads, background
  sweeps, changes of the policy and mode registries, and restarts, with any clock and any storage
  failures. Three conditions are on the surroundings, and the properties show why each is needed or
  where it comes from: \<open>start_allowed\<close> (a session identifier is not reused while a log is stored under
  it, and the policy a session asks for is one the runtime also loads at start-up), \<open>modes_kept\<close> (a mode
  that stored logs name keeps its registration), and, in the lemma below, that the clock never reads
  zero, the value that stands for a missing time stamp.\<close>

inductive runtime_run ::
    "'z runtime_ext_scheme \<Rightarrow> PolicyRegistry \<Rightarrow> shipped_ext \<Rightarrow> PolicyEvaluator \<Rightarrow> Runtime \<Rightarrow> bool"
  for rx pol sh ev where
  run_new: "mode_registry_run sh ev modes \<Longrightarrow> runtime_run rx pol sh ev (Runtime_new modes pol Map.empty)"
| run_process: "runtime_run rx pol sh ev rt \<Longrightarrow> start_allowed rx pol env rt \<Longrightarrow>
    runtime_run rx pol sh ev (snd (process rx env max_open rt))"
| run_cancel: "runtime_run rx pol sh ev rt \<Longrightarrow> runtime_run rx pol sh ev (snd (cancel_session rx i reason who rt))"
| run_suspend: "runtime_run rx pol sh ev rt \<Longrightarrow> runtime_run rx pol sh ev (snd (suspend_session rx i reason who rt))"
| run_resume: "runtime_run rx pol sh ev rt \<Longrightarrow> runtime_run rx pol sh ev (snd (resume_session rx i reason who rt))"
| run_read: "runtime_run rx pol sh ev rt \<Longrightarrow> runtime_run rx pol sh ev (snd (session_for_read rx i rt))"
| run_what_if: "runtime_run rx pol sh ev rt \<Longrightarrow>
    runtime_run rx pol sh ev (snd (what_if_replay rx px i candidate rt))"
| run_cleanup: "runtime_run rx pol sh ev rt \<Longrightarrow> runtime_run rx pol sh ev (cleanup_expired_sessions rx rt)"
| run_sweep: "runtime_run rx pol sh ev rt \<Longrightarrow> runtime_run rx pol sh ev (sweep_due_synthetic_accepts rx rt)"
| run_evict: "runtime_run rx pol sh ev rt \<Longrightarrow> runtime_run rx pol sh ev (evict_stale_sessions rx secs rt)"
| run_gc: "runtime_run rx pol sh ev rt \<Longrightarrow> runtime_run rx pol sh ev (gc_disk_sessions rx secs rt)"
| run_policies: "runtime_run rx pol sh ev rt \<Longrightarrow> runtime_run rx pol sh ev (rt\<lparr>rt_policies := policies\<rparr>)"
| run_modes: "runtime_run rx pol sh ev rt \<Longrightarrow> mode_registry_run sh ev modes \<Longrightarrow>
    modes_kept (rt_disk rt) (rt_modes rt) modes \<Longrightarrow> runtime_run rx pol sh ev (rt\<lparr>rt_modes := modes\<rparr>)"
| run_restart: "runtime_run rx pol sh ev rt \<Longrightarrow> mode_registry_run sh ev modes \<Longrightarrow>
    modes_kept (rt_disk rt) (rt_modes rt) modes \<Longrightarrow>
    runtime_run rx pol sh ev (snd (recover_sessions rx strict (reboot modes pol rt)))"

lemma registry_shipped:
  assumes "mode_registry_run sh ev modes" "handoff_codec_law (sh_handoff sh)" "modes m = Some reg"
  shows "shipped_mode (mr_factory reg)"
  using mode_registry_run_inv [OF assms(1,2)] assms(3) by (auto simp: mode_registry_inv_def sound_entry_def)

lemma new_ok:
  assumes "\<forall>m reg. modes m = Some reg \<longrightarrow> shipped_mode (mr_factory reg)"
  shows "rt_ok rx pol (Runtime_new modes pol Map.empty)"
  using assms by (simp add: rt_ok_def Runtime_new_def disk_ok_def)

lemma reads_ok:
  assumes "rt_ok rx pol rt"
  shows "rt_ok rx pol (snd (session_for_read rx i rt))" "rt_ok rx pol (snd (what_if_replay rx px i candidate rt))"
proof -
  obtain x rt1 where g: "get_session_checked rx i rt = (x, rt1)" by (cases "get_session_checked rx i rt")
  have ok1: "rt_ok rx pol rt1" using read_ok [OF assms, of i] g by simp
  have q: "quiet rt1 (snd (storage_read rx op rt1))" for op :: "disk \<Rightarrow> 'a option"
    using quiet_read [of rx op rt1] by (cases "storage_read rx op rt1") simp
  have "quiet rt1 (snd (session_for_read rx i rt))"
    using g quiet_read [of rx "load_session i" rt1]
    by (auto simp: session_for_read_def split: option.splits prod.splits)
  then show "rt_ok rx pol (snd (session_for_read rx i rt))" by (rule quiet_ok [OF _ ok1])
  have "quiet rt1 (snd (what_if_replay rx px i candidate rt))"
    using g quiet_read [of rx "load_log i" rt1]
    by (auto simp: what_if_replay_def Let_def split: option.splits prod.splits)
  then show "rt_ok rx pol (snd (what_if_replay rx px i candidate rt))" by (rule quiet_ok [OF _ ok1])
qed

lemma modes_ok:
  assumes ok: "rt_ok rx pol rt" and k: "modes_kept (rt_disk rt) (rt_modes rt) modes"
    and s: "\<forall>m reg. modes m = Some reg \<longrightarrow> shipped_mode (mr_factory reg)"
  shows "rt_ok rx pol (rt\<lparr>rt_modes := modes\<rparr>)"
proof -
  have t: "tracked rx modes pol i (sd_log d) s" if "tracked rx (rt_modes rt) pol i (sd_log d) s" "rt_disk rt i = Some d" for i d s
    using tracked_kept [OF that(1) tracked_nonempty [OF that(1)]] k that(2) by (simp add: modes_kept_def)
  then have "backed rx pol (rt\<lparr>rt_modes := modes\<rparr>) i s" if "backed rx pol rt i s" for i s
    using that by (auto simp: backed_def log_of_def)
  moreover have "\<exists>s. tracked rx modes pol i (sd_log d) s" if "rt_disk rt i = Some d" "sd_log d \<noteq> []" for i d
    using stored_tracked [OF ok that] t that(1) by metis
  ultimately show ?thesis using ok s unfolding rt_ok_def by auto
qed

lemma recovery_ok:
  assumes ok: "rt_ok rx pol rt" and e: "\<forall>i. rt_sessions rt i = None" and p: "rt_policies rt = pol"
  shows "rt_ok rx pol (snd (recover_sessions rx strict rt))"
proof -
  obtain x rt1 where r: "storage_read rx (\<lambda>disk. Some (list_session_ids disk)) rt = (x, rt1)"
    by (cases "storage_read rx (\<lambda>disk. Some (list_session_ids disk)) rt")
  have q: "quiet rt rt1" by (rule quiet_read [OF r])
  have ok1: "rt_ok rx pol rt1" by (rule quiet_ok [OF q ok])
  have s: "x = None \<or> x = Some (list_session_ids (rt_disk rt))" using r by (auto simp: storage_read_def split: if_splits)
  have "rt_ok rx pol (snd (recover_each rx strict (list_session_ids (rt_disk rt)) report rt1))" for report
    by (rule recover_each_ok [OF ok1]) (use q e p in \<open>simp_all add: quiet_def list_session_ids_def\<close>)
  then show ?thesis using r s ok1 by (auto simp: recover_sessions_def)
qed

theorem run_ok:
  assumes "runtime_run rx pol sh ev rt"
    and "session_codec_law rx" "handoff_codec_law (sh_handoff sh)" "\<forall>n. rx_clock rx n \<noteq> 0"
  shows "rt_ok rx pol rt"
  using assms(1)
proof induction
  case (run_new modes)
  then show ?case using registry_shipped [OF run_new assms(3)] by (intro new_ok) blast
next
  case (run_modes rt modes)
  then show ?case using registry_shipped [OF run_modes(2) assms(3)] by (intro modes_ok) auto
next
  case (run_restart rt modes strict)
  have "rt_ok rx pol (reboot modes pol rt)"
    using registry_shipped [OF run_restart(2) assms(3)] run_restart by (intro reboot_ok) auto
  then show ?case by (rule recovery_ok) (simp_all add: reboot_def Runtime_new_def)
next
  case (run_policies rt policies)
  then show ?case by (simp add: rt_ok_def backed_def log_of_def)
qed (simp_all add: process_ok control_ok reads_ok sweeps_ok evict_ok gc_ok assms)

lemma restart_works:
  assumes ok: "rt_ok rx pol rt" and k: "modes_kept (rt_disk rt) (rt_modes rt) modes"
    and m: "\<forall>m reg. modes m = Some reg \<longrightarrow> shipped_mode (mr_factory reg)"
    and w: "disk_works rx rt" and enc: "strict \<longrightarrow> (\<forall>q. lx_encode_session rx q \<noteq> None)"
  shows "\<exists>report rt'. recover_sessions rx strict (reboot modes pol rt) = (Inr report, rt') \<and>
     rr_recovered report = card {i. stored (rt_disk rt) i} \<and>
     (\<forall>i. rt_sessions rt' i = rebuilt_session rx modes pol (rt_disk rt) i)"
proof -
  let ?rt = "reboot modes pol rt" and ?ids = "list_session_ids (rt_disk rt)"
  let ?rt1 = "?rt\<lparr>rt_calls := Suc (rt_calls rt)\<rparr>"
  have fields: "rt_disk ?rt = rt_disk rt" "rt_modes ?rt = modes" "rt_policies ?rt = pol" "rt_calls ?rt = rt_calls rt"
    "\<And>i. rt_sessions ?rt i = None"
    by (simp_all add: reboot_def Runtime_new_def)
  have ok1: "rt_ok rx pol ?rt1"
    by (rule quiet_ok [OF _ reboot_ok [OF ok k m]]) (simp add: quiet_def)
  have w0: "disk_works rx ?rt" using w by (simp add: disk_works_def fields)
  have fin: "finite (dom (rt_disk rt))" using okD(4) [OF ok] by (simp add: disk_ok_def)
  have ids: "set ?ids = dom (rt_disk rt)" "distinct ?ids" using fin by (simp_all add: list_session_ids_def)
  obtain report rt' where r: "recover_each rx strict ?ids \<lparr>rr_recovered = 0, rr_replay_mismatches = 0\<rparr> ?rt1 = (Inr report, rt')"
     "rr_recovered report = length (filter (stored (rt_disk rt)) ?ids)"
     "\<forall>i. rt_sessions rt' i = (if i \<in> set ?ids then rebuilt_session rx modes pol (rt_disk rt) i else None)"
    using recover_each_works [OF ok1 _ ids(2) _ _ enc, of "\<lparr>rr_recovered = 0, rr_replay_mismatches = 0\<rparr>"] ids(1) w0
    by (auto simp: fields disk_works_def cong: if_cong)
  have "length (filter (stored (rt_disk rt)) ?ids) = card (set (filter (stored (rt_disk rt)) ?ids))"
    by (rule distinct_card [symmetric]) (simp add: ids(2))
  also have "set (filter (stored (rt_disk rt)) ?ids) = {i. stored (rt_disk rt) i}"
    using ids(1) by (auto simp: stored_def)
  moreover have "rebuilt_session rx modes pol (rt_disk rt) i = None" if "i \<notin> dom (rt_disk rt)" for i
    using that by (simp add: rebuilt_session_def domIff)
  ultimately show ?thesis
    using r ids(1) by (auto simp: recover_sessions_def read_works [OF w0] fields)
qed

end
