(* ===== verification/Runtime_Effects.thy ===== *)
theory Runtime_Effects
  imports Runtime_Runs
begin

text \<open>
  What the operations of the runtime do besides the logs: which sessions they register, what they
  publish, and what is left of them when the disk works and when it does not.
\<close>

section \<open>Sessions and broadcasts\<close>

lemma storage_fields [simp]:
  "rt_sessions (snd (storage_call rx op rt)) = rt_sessions rt" "rt_stream (snd (storage_call rx op rt)) = rt_stream rt"
  "rt_modes (snd (storage_call rx op rt)) = rt_modes rt" "rt_ticks (snd (storage_call rx op rt)) = rt_ticks rt"
  by (simp_all add: storage_call_def Let_def split: option.split)

lemma save_fields [simp]:
  "rt_sessions (save_session_to_storage rx s rt) = rt_sessions rt"
  "rt_stream (save_session_to_storage rx s rt) = rt_stream rt"
  by (simp_all add: save_session_to_storage_def)

lemma append_fields [simp]:
  "rt_sessions (snd (append_entry rx i e rt)) = rt_sessions rt" "rt_stream (snd (append_entry rx i e rt)) = rt_stream rt"
  "rt_modes (snd (append_entry rx i e rt)) = rt_modes rt"
proof -
  obtain b rt1 where c: "storage_call rx (append_log_entry i e) rt = (b, rt1)"
    by (cases "storage_call rx (append_log_entry i e) rt")
  have "rt_sessions rt1 = rt_sessions rt" "rt_stream rt1 = rt_stream rt" "rt_modes rt1 = rt_modes rt"
    using storage_fields [of rx "append_log_entry i e" rt] by (simp_all add: c)
  then show "rt_sessions (snd (append_entry rx i e rt)) = rt_sessions rt"
    "rt_stream (snd (append_entry rx i e rt)) = rt_stream rt" "rt_modes (snd (append_entry rx i e rt)) = rt_modes rt"
    by (simp_all add: append_entry_def c split: bool.split)
qed

lemma checkpoint_rest [simp]:
  "rt_sessions (maybe_insert_checkpoint rx i s rt) = rt_sessions rt"
  "rt_stream (maybe_insert_checkpoint rx i s rt) = rt_stream rt"
  "rt_sessions (force_insert_checkpoint rx i s rt) = rt_sessions rt"
  "rt_stream (force_insert_checkpoint rx i s rt) = rt_stream rt"
  by (simp_all add: maybe_insert_checkpoint_def force_insert_checkpoint_def now_ms_def Let_def split: option.split)

lemma compact_one_fields:
  assumes "compact_session_log rx i s n rt = (x, rt')"
  shows "rt_sessions rt' = rt_sessions rt" "rt_stream rt' = rt_stream rt"
proof -
  have "rt' = rt \<or> (\<exists>op b. storage_call rx op rt = (b, rt'))"
    using assms
    by (auto simp: compact_session_log_def Let_def split: option.splits prod.splits bool.splits)
  then have "rt' = rt \<or> (\<exists>op. rt' = snd (storage_call rx op rt))" by (metis snd_conv)
  then show "rt_sessions rt' = rt_sessions rt" "rt_stream rt' = rt_stream rt" by auto
qed

lemma compact_fields:
  assumes "maybe_compact_log rx i s rt = (b, rt')"
  shows "rt_sessions rt' = rt_sessions rt" "rt_stream rt' = rt_stream rt"
  using assms compact_one_fields [of rx i s _ rt]
  by (auto simp: maybe_compact_log_def Let_def split: if_splits prod.splits option.splits)

lemma settle_fields [simp]:
  "rt_sessions (settle_terminal rx i s rt) = rt_sessions rt" "rt_stream (settle_terminal rx i s rt) = rt_stream rt"
proof -
  obtain b rt1 where c: "maybe_compact_log rx i s rt = (b, rt1)" by (cases "maybe_compact_log rx i s rt")
  show "rt_sessions (settle_terminal rx i s rt) = rt_sessions rt" "rt_stream (settle_terminal rx i s rt) = rt_stream rt"
    using compact_fields [OF c] by (simp_all add: settle_terminal_def c split: bool.split)
qed

lemma send_fields [simp]:
  "rt_sessions (send_lifecycle ev rt) = rt_sessions rt" "rt_stream (send_lifecycle ev rt) = rt_stream rt"
  "rt_sessions (publish_accepted_envelope env rt) = rt_sessions rt"
  "rt_stream (publish_accepted_envelope env rt) = rt_stream rt @ (if e_session_id env = [] then [] else [env])"
  by (simp_all add: send_lifecycle_def publish_accepted_envelope_def)

section \<open>A working disk\<close>

definition dir_ready :: "'z runtime_ext_scheme \<Rightarrow> string \<Rightarrow> Runtime \<Rightarrow> bool" where
  "dir_ready rx i rt \<longleftrightarrow> disk_works rx rt \<and> check_component i \<and> i \<in> dom (rt_disk rt)"

lemma append_works:
  assumes "dir_ready rx i rt"
  obtains rt' where "append_entry rx i e rt = (Inr (), rt')" "dir_ready rx i rt'" "rt_sessions rt' = rt_sessions rt"
    "rt_stream rt' = rt_stream rt" "rt_modes rt' = rt_modes rt" "rt_ticks rt' = rt_ticks rt"
  using assms
  by (auto simp: dir_ready_def disk_works_def append_entry_def storage_call_def append_log_entry_def Let_def)

lemma ready_later:
  assumes "dir_ready rx i rt" "rt_calls rt \<le> rt_calls rt'" "dom (rt_disk rt) \<subseteq> dom (rt_disk rt')"
  shows "dir_ready rx i rt'"
  using assms works_later [OF _ assms(2)] by (auto simp: dir_ready_def)

lemma call_grows:
  assumes "\<And>disk disk'. op disk = Some disk' \<Longrightarrow> dom disk \<subseteq> dom disk'"
  shows "rt_calls rt \<le> rt_calls (snd (storage_call rx op rt))"
    "dom (rt_disk rt) \<subseteq> dom (rt_disk (snd (storage_call rx op rt)))"
  using assms by (auto simp: storage_call_def Let_def split: option.split)

lemma save_ready: "dir_ready rx i rt \<Longrightarrow> dir_ready rx i (save_session_to_storage rx s rt)"
  unfolding save_session_to_storage_def
  by (erule ready_later; rule call_grows) (auto simp: save_session_def split: if_splits)

lemma append_ready: "dir_ready rx i rt \<Longrightarrow> dir_ready rx i (snd (append_entry rx i e rt))"
  by (erule append_works [of rx i rt e]) simp

lemma checkpoint_ready: "dir_ready rx i rt \<Longrightarrow> dir_ready rx i (maybe_insert_checkpoint rx i s rt)"
proof -
  assume r: "dir_ready rx i rt"
  then have "dir_ready rx i (rt\<lparr>rt_ticks := Suc (rt_ticks rt)\<rparr>)" by (rule ready_later) simp_all
  then show ?thesis
    using r by (simp add: maybe_insert_checkpoint_def force_insert_checkpoint_def now_ms_def Let_def append_ready split: option.split)
qed

section \<open>Messages\<close>

text \<open>The outcome of a kernel step as the runtime reports it.\<close>

fun outcome_result :: "Session \<Rightarrow> StepOutcome \<Rightarrow> ProcessResult" where
  "outcome_result s StepOutcome.Duplicate = \<lparr>pr_session_state = s_state s, pr_duplicate = True\<rparr>"
| "outcome_result s (StepOutcome.Accepted st es) = \<lparr>pr_session_state = st, pr_duplicate = False\<rparr>"

fun published :: "Envelope \<Rightarrow> StepOutcome \<Rightarrow> Envelope list" where
  "published env StepOutcome.Duplicate = []"
| "published env (StepOutcome.Accepted st es) = es @ [env]"

lemma synthesize_works:
  assumes m: "instantiate (rt_modes rt) (s_mode s) = Inr M" "mode_contract M minv" "minv s"
    and d: "dir_ready rx i rt" "s_session_id s = i" "i \<noteq> []"
    and addr: "\<And>env. m_due_synthetic_envelope M s now = Some env \<Longrightarrow> e_session_id env = s_session_id s"
  obtains (error) e where "advance s M now = (Inl e, s)" "synthesize_due_accept rx i s now rt = (Inl e, s, rt)"
  | (advanced) es s' b rt' where "advance s M now = (Inr es, s')"
      "synthesize_due_accept rx i s now rt = (Inr b, s', rt')" "dir_ready rx i rt'"
      "rt_sessions rt' = rt_sessions rt" "rt_stream rt' = rt_stream rt @ es"
proof -
  consider e where "next_synthetic s M now = Inl e" "advance s M now = (Inl e, s)"
    | "next_synthetic s M now = Inr None" "advance s M now = (Inr [], s)"
    | syn where "next_synthetic s M now = Inr (Some syn)"
        "advance s M now = (Inr [syn_envelope syn], snd (commit_synthetic s syn))"
    using mode_contract.advance_cases [OF m(2,3), of now] by blast
  then show ?thesis
  proof cases
    case (1 e)
    then show ?thesis using m(1) error by (simp add: synthesize_due_accept_def)
  next
    case 2
    then show ?thesis using m(1) d(1) advanced [of "[]" s False] by (simp add: synthesize_due_accept_def)
  next
    case (3 syn)
    let ?env = "syn_envelope syn" and ?s = "snd (commit_synthetic s syn)"
    obtain rt1 where a: "append_entry rx i (make_incoming_entry ?env (e_timestamp_unix_ms ?env)) rt = (Inr (), rt1)"
      "dir_ready rx i rt1" "rt_sessions rt1 = rt_sessions rt" "rt_stream rt1 = rt_stream rt"
      by (rule append_works [OF d(1)])
    let ?rt2 = "maybe_insert_checkpoint rx i ?s (save_session_to_storage rx ?s rt1)"
    have "e_session_id ?env = i" using addr next_synthetic_Some(2) [OF 3(1)] d(2) by simp
    moreover have "dir_ready rx i (publish_accepted_envelope ?env ?rt2)"
      by (rule ready_later [OF checkpoint_ready [OF save_ready [OF a(2)], of ?s ?s]]) (simp_all add: publish_accepted_envelope_def)
    moreover have "synthesize_due_accept rx i s now rt = (Inr True, ?s, publish_accepted_envelope ?env ?rt2)"
      using m(1) 3(1) a(1) by (simp add: synthesize_due_accept_def commit_synthetic_def Let_def)
    ultimately show ?thesis
      using advanced [OF 3(2)] a(3,4) d(3) by simp
  qed
qed

lemma accept_works:
  assumes d: "dir_ready rx i rt" "e_session_id env = i" "i \<noteq> []"
  shows "\<exists>rt'. accept_message rx env M now s rt =
     (case dispatch s env M now of
        Inl e \<Rightarrow> (Inl e, s, rt)
      | Inr r \<Rightarrow> (Inr \<lparr>pr_session_state = fst (commit s env r now), pr_duplicate = False\<rparr>,
                  snd (commit s env r now), rt')) \<and>
     rt_sessions rt' = rt_sessions rt \<and> rt_stream rt' = rt_stream rt @ [env]"
proof (cases "dispatch s env M now")
  case (Inl e)
  then show ?thesis by (auto simp: accept_message_def Let_def intro: exI [of _ "rt\<lparr>rt_stream := _\<rparr>"])
next
  case (Inr r)
  obtain rt1 where a: "append_entry rx i (make_incoming_entry env now) rt = (Inr (), rt1)"
    "rt_sessions rt1 = rt_sessions rt" "rt_stream rt1 = rt_stream rt"
    by (rule append_works [OF d(1)])
  show ?thesis
    using Inr a d(2,3) by (cases "commit s env r now") (simp add: accept_message_def Let_def)
qed

text \<open>With a working disk, a message does to the registered session exactly what the kernel's step
  does to it, and the runtime publishes the synthesized envelopes and then the message.\<close>

lemma process_refines_step:
  assumes ok: "rt_ok rx pol rt" and s: "rt_sessions rt (e_session_id env) = Some s" and w: "disk_works rx rt"
    and clk: "deadline_passed (rx_clock rx (rt_ticks rt)) s \<longrightarrow> deadline_passed (rx_clock rx (Suc (rt_ticks rt))) s"
  shows "\<exists>M r s' rt'. instantiate (rt_modes rt) (s_mode s) = Inr M \<and>
     step s env M (rx_clock rx (rt_ticks rt)) = (r, s') \<and>
     process_message rx env rt = (map_sum id (outcome_result s) r, rt') \<and>
     rt_sessions rt' = (rt_sessions rt)(e_session_id env \<mapsto> s') \<and>
     (\<forall>oc. r = Inr oc \<longrightarrow> rt_stream rt' = rt_stream rt @ published env oc)"
proof -
  let ?i = "e_session_id env" and ?now = "rx_clock rx (rt_ticks rt)" and ?rt1 = "rt\<lparr>rt_ticks := Suc (rt_ticks rt)\<rparr>"
  have b: "backed rx pol rt ?i s" by (rule okD(1) [OF ok s])
  have ready: "mode_ready (rt_modes rt) s" and si: "s_session_id s = ?i"
    using b by (auto simp: backed_def tracked_def bound_ok_def)
  obtain M minv where M: "instantiate (rt_modes rt) (s_mode s) = Inr M" "recorded_mode M minv" "minv s"
    using ready by (rule ready_instance)
  have c: "mode_contract M minv" by (rule recorded_mode.axioms(1) [OF M(2)])
  have comp: "check_component ?i" by (rule registered_component [OF ok s])
  have i: "?i \<noteq> []" using comp by (simp add: check_component_def)
  have d: "dir_ready rx ?i ?rt1"
    using b w comp by (auto simp: dir_ready_def disk_works_def backed_def log_of_def)
  obtain r s' rt' where x: "message_on_session rx env s rt = (r, s', rt')" by (cases "message_on_session rx env s rt")
  have pm: "process_message rx env rt = (r, put_session ?i s' rt')"
    using s x by (simp add: process_message_def with_session_def)
  have "\<exists>k. step s env M ?now = (k, s') \<and> r = map_sum id (outcome_result s) k \<and> rt_sessions rt' = rt_sessions rt \<and>
      (\<forall>oc. k = Inr oc \<longrightarrow> rt_stream rt' = rt_stream rt @ published env oc)"
  proof (cases "check_preconditions s env ?now")
    case (Inl e)
    then show ?thesis using x by (auto simp: message_on_session_def step_def now_ms_def)
  next
    case (Inr pc)
    show ?thesis
    proof (cases pc)
      case PcDuplicate
      then show ?thesis using x Inr by (auto simp: message_on_session_def step_def now_ms_def)
    next
      case PcExpired
      have dp: "deadline_passed ?now s" using Inr PcExpired by (simp add: preconditions_expired)
      have d2: "dir_ready rx ?i (?rt1\<lparr>rt_ticks := Suc (Suc (rt_ticks rt))\<rparr>)" by (rule ready_later [OF d]) simp_all
      obtain rt2 where a: "append_entry rx ?i (make_internal_entry ''TtlExpired'' [] ?i (s_mode s)
          (rx_clock rx (Suc (rt_ticks rt)))) (?rt1\<lparr>rt_ticks := Suc (Suc (rt_ticks rt))\<rparr>) = (Inr (), rt2)"
        "rt_sessions rt2 = rt_sessions (?rt1\<lparr>rt_ticks := Suc (Suc (rt_ticks rt))\<rparr>)"
        "rt_stream rt2 = rt_stream (?rt1\<lparr>rt_ticks := Suc (Suc (rt_ticks rt))\<rparr>)"
        by (rule append_works [OF d2])
      have "expire s = (Inr (), snd (expire s))"
        using deadline_passed_live [OF dp] by (simp add: expire_def)
      then show ?thesis
        using x Inr PcExpired dp clk a
        by (cases "expire s") (auto simp: message_on_session_def step_def now_ms_def maybe_expire_session_def)
    next
      case PcProceed
      note pc = Inr [unfolded PcProceed]
      show ?thesis
      proof (cases "admit s env M")
        case (Inl e)
        then show ?thesis using x pc M(1) by (auto simp: message_on_session_def step_def now_ms_def)
      next
        case ad: (Inr u)
        have m1: "instantiate (rt_modes ?rt1) (s_mode s) = Inr M" using M(1) by simp
        have addr: "e_session_id env' = s_session_id s" if "m_due_synthetic_envelope M s ?now = Some env'" for env'
          using recorded_mode.due_addressed [OF M(2) that] by simp
        from m1 c M(3) d si i addr show ?thesis
        proof (rule synthesize_works)
          fix e assume "advance s M ?now = (Inl e, s)" "synthesize_due_accept rx ?i s ?now ?rt1 = (Inl e, s, ?rt1)"
          then show ?thesis using x pc ad M(1) by (auto simp: message_on_session_def step_def now_ms_def)
        next
          fix es s1 bb rt2
          assume h: "advance s M ?now = (Inr es, s1)" "synthesize_due_accept rx ?i s ?now ?rt1 = (Inr bb, s1, rt2)"
            "dir_ready rx ?i rt2" "rt_sessions rt2 = rt_sessions ?rt1" "rt_stream rt2 = rt_stream ?rt1 @ es"
          obtain rt3 where acc: "accept_message rx env M ?now s1 rt2 =
             (case dispatch s1 env M ?now of Inl e \<Rightarrow> (Inl e, s1, rt2)
              | Inr r \<Rightarrow> (Inr \<lparr>pr_session_state = fst (commit s1 env r ?now), pr_duplicate = False\<rparr>,
                  snd (commit s1 env r ?now), rt3))"
             "rt_sessions rt3 = rt_sessions rt2" "rt_stream rt3 = rt_stream rt2 @ [env]"
            using accept_works [OF h(3) refl i] by blast
          show ?thesis
            using x pc ad M(1) h acc
            by (cases "dispatch s1 env M ?now")
              (auto simp: message_on_session_def step_def now_ms_def split_beta)
        qed
      qed
    qed
  qed
  then show ?thesis using M(1) pm by (auto simp: put_session_def)
qed

section \<open>Acknowledged messages\<close>

lemma accept_seen:
  "ValidatedStart_accept v env M p = Inr s \<Longrightarrow> e_message_id env \<in> s_seen_message_ids s"
  by (auto simp: ValidatedStart_accept_def Let_def res_simps consume_id_def split: if_splits option.splits)

lemma commit_seen: "e_message_id env \<in> s_seen_message_ids (snd (commit s env r now))"
  by (cases r) (simp_all add: commit_def Let_def consume_id_def record_participant_activity_def)

lemma message_seen:
  assumes "message_on_session rx env s rt = (Inr pr, s', rt')"
  shows "e_message_id env \<in> s_seen_message_ids s'"
proof -
  have acc: "e_message_id env \<in> s_seen_message_ids s2"
    if "accept_message rx env M now s1 rt1 = (Inr pr, s2, rt2)" for M now s1 rt1 s2 rt2
    using that commit_seen [of env s1]
    by (auto simp: accept_message_def Let_def split: sum.splits prod.splits dest!: sym [of "snd _"])
      (metis snd_conv)
  show ?thesis
    using assms acc
    by (auto simp: message_on_session_def preconditions_duplicate split: prod.splits sum.splits Precheck.splits)
qed

lemma commit_start_registers:
  assumes "commit_start rx env v s rt = (Inr pr, rt')" "rt_sessions rt (e_session_id env) = Some s"
  shows "rt_sessions rt' (e_session_id env) = Some s"
proof -
  obtain b1 rt1 where c1: "storage_call rx (create_session_storage (e_session_id env)) rt = (b1, rt1)"
    by (cases "storage_call rx (create_session_storage (e_session_id env)) rt")
  obtain b2 rt2 where c2: "storage_call rx (append_log_entry (e_session_id env) (start_entry env v s)) rt1 = (b2, rt2)"
    by (cases "storage_call rx (append_log_entry (e_session_id env) (start_entry env v s)) rt1")
  have "rt_sessions rt2 = rt_sessions rt"
    using storage_fields(1) [of rx "create_session_storage (e_session_id env)" rt]
      storage_fields(1) [of rx "append_log_entry (e_session_id env) (start_entry env v s)" rt1] by (simp add: c1 c2)
  then show ?thesis using assms by (auto simp: commit_start_def Let_def c1 c2 split: bool.splits)
qed

lemma start_seen:
  assumes "process_session_start rx env mx rt = (Inr pr, rt')"
  shows "\<exists>s. rt_sessions rt' (e_session_id env) = Some s \<and> e_message_id env \<in> s_seen_message_ids s"
proof -
  have reg: "\<exists>s. rt_sessions rt' (e_session_id env) = Some s \<and> e_message_id env \<in> s_seen_message_ids s"
    if "(case reserve_slot rx env mx s rt1 of (Inl e, rt2) \<Rightarrow> (Inl e, rt2) | (Inr _, rt2) \<Rightarrow> commit_start rx env v s rt2)
        = (Inr pr, rt')" "ValidatedStart_accept v env M p = Inr s" for s rt1 v M p
  proof -
    obtain x rt2 where r: "reserve_slot rx env mx s rt1 = (x, rt2)" by (cases "reserve_slot rx env mx s rt1")
    from r show ?thesis
    proof (cases rule: reserve_cases)
      case (reserved rt0)
      then have "rt_sessions rt2 (e_session_id env) = Some s" by (simp add: put_session_def)
      then show ?thesis using commit_start_registers that r reserved(1) accept_seen [OF that(2)] by fastforce
    qed (use that r in simp)
  qed
  show ?thesis
    using assms reg unfolding process_session_start_def Let_def
    by (auto split: if_splits sum.splits option.splits prod.splits)
qed

lemma process_seen:
  assumes "process rx env mx rt = (Inr pr, rt')" "e_message_type env \<noteq> ''Signal''" "e_message_type env \<noteq> ''Progress''"
  shows "\<exists>s. rt_sessions rt' (e_session_id env) = Some s \<and> e_message_id env \<in> s_seen_message_ids s"
proof (cases "e_message_type env = ''SessionStart''")
  case True
  then show ?thesis using assms start_seen by (simp add: process_def)
next
  case False
  then have "process_message rx env rt = (Inr pr, rt')" using assms by (simp add: process_def)
  then show ?thesis
    using message_seen
    by (fastforce simp: process_message_def with_session_def put_session_def split: option.splits prod.splits)
qed

section \<open>A disk that is down\<close>

definition disk_down :: "'z runtime_ext_scheme \<Rightarrow> Runtime \<Rightarrow> bool" where
  "disk_down rx rt \<longleftrightarrow> (\<forall>n. rt_calls rt \<le> n \<longrightarrow> rx_fault rx n)"

text \<open>Nothing but the readings of the clock and the attempts at storage.\<close>

definition untouched :: "Runtime \<Rightarrow> Runtime \<Rightarrow> bool" where
  "untouched rt rt' \<longleftrightarrow> rt_calls rt \<le> rt_calls rt' \<and> rt_sessions rt' = rt_sessions rt \<and>
     rt_logs rt' = rt_logs rt \<and> rt_disk rt' = rt_disk rt \<and> rt_modes rt' = rt_modes rt \<and>
     rt_policies rt' = rt_policies rt \<and> rt_stream rt' = rt_stream rt \<and> rt_signals rt' = rt_signals rt \<and>
     rt_lifecycle rt' = rt_lifecycle rt"

lemma untouched_refl [simp]: "untouched rt rt"
  by (simp add: untouched_def)

lemma untouched_tick: "untouched rt rt1 \<Longrightarrow> untouched rt (snd (now_ms rx rt1))"
  unfolding untouched_def now_ms_def by auto

lemma untouched_call: "untouched rt rt1 \<Longrightarrow> untouched rt (rt1\<lparr>rt_calls := Suc (rt_calls rt1)\<rparr>)"
  unfolding untouched_def by auto

lemma untouched_down: "untouched rt rt' \<Longrightarrow> disk_down rx rt \<Longrightarrow> disk_down rx rt'"
  by (auto simp: untouched_def disk_down_def)

lemma untouched_put: "untouched rt rt' \<Longrightarrow> rt_sessions rt i = Some s \<Longrightarrow> untouched rt (put_session i s rt')"
  by (auto simp: untouched_def put_session_def fun_upd_idem)

lemma call_down: "disk_down rx rt \<Longrightarrow> storage_call rx op rt = (False, rt\<lparr>rt_calls := Suc (rt_calls rt)\<rparr>)"
  by (simp add: disk_down_def storage_call_def Let_def)

lemma append_down:
  "disk_down rx rt \<Longrightarrow> append_entry rx i e rt = (Inl StorageFailed, rt\<lparr>rt_calls := Suc (rt_calls rt)\<rparr>)"
  by (simp add: append_entry_def call_down)

lemma save_down: "disk_down rx rt \<Longrightarrow> save_session_to_storage rx s rt = rt\<lparr>rt_calls := Suc (rt_calls rt)\<rparr>"
  by (simp add: save_session_to_storage_def call_down)

lemma message_down:
  assumes d: "disk_down rx rt" and x: "message_on_session rx env s rt = (r, s', rt')"
  shows "s' = s \<and> untouched rt rt' \<and> (\<forall>pr. r = Inr pr \<longrightarrow> pr_duplicate pr)"
proof -
  let ?rt1 = "rt\<lparr>rt_ticks := Suc (rt_ticks rt)\<rparr>"
  have u1: "untouched rt ?rt1" using untouched_tick [OF untouched_refl, of rt] by (simp add: now_ms_def)
  note d1 = untouched_down [OF u1 d]
  have ex: "\<exists>rt2. untouched rt rt2 \<and> (maybe_expire_session rx i s ?rt1 = (Inl StorageFailed, s, rt2) \<or>
      maybe_expire_session rx i s ?rt1 = (Inr False, s, rt2))" for i
  proof -
    let ?rt2 = "?rt1\<lparr>rt_ticks := Suc (Suc (rt_ticks rt))\<rparr>"
    have u2: "untouched rt ?rt2" using untouched_tick [OF u1] by (simp add: now_ms_def)
    show ?thesis
      using u2 untouched_call [OF u2] append_down [OF untouched_down [OF u2 d]]
      by (auto simp: maybe_expire_session_def now_ms_def)
  qed
  have sy: "synthesize_due_accept rx i s now ?rt1 \<in> {(Inr False, s, ?rt1)} \<union> {(Inl e, s, rt2) | e rt2. untouched rt rt2}"
    for i now
    using u1 untouched_call [OF u1] append_down [OF d1]
    by (auto simp: synthesize_due_accept_def split: sum.split option.split)
  have ac: "\<exists>e rt2. accept_message rx env M now s ?rt1 = (Inl e, s, rt2) \<and> untouched rt rt2" for M now
    using u1 untouched_call [OF u1] append_down [OF d1] by (auto simp: accept_message_def Let_def split: sum.split)
  show ?thesis
  proof (cases "check_preconditions s env (rx_clock rx (rt_ticks rt))")
    case (Inl e)
    then show ?thesis using x u1 by (auto simp: message_on_session_def now_ms_def)
  next
    case (Inr pc)
    show ?thesis
    proof (cases pc)
      case PcDuplicate
      then show ?thesis using x Inr u1 by (auto simp: message_on_session_def now_ms_def)
    next
      case PcExpired
      obtain rt2 where "untouched rt rt2" "maybe_expire_session rx (e_session_id env) s ?rt1 = (Inl StorageFailed, s, rt2) \<or>
          maybe_expire_session rx (e_session_id env) s ?rt1 = (Inr False, s, rt2)" using ex by blast
      then show ?thesis
        using x Inr PcExpired save_down [OF untouched_down [OF _ d]] untouched_call
        by (auto simp: message_on_session_def now_ms_def)
    next
      case PcProceed
      let ?now = "rx_clock rx (rt_ticks rt)" and ?i = "e_session_id env"
      consider e where "instantiate (rt_modes ?rt1) (s_mode s) = Inl e"
        | M e where "instantiate (rt_modes ?rt1) (s_mode s) = Inr M" "admit s env M = Inl e"
        | M e rt2 where "instantiate (rt_modes ?rt1) (s_mode s) = Inr M" "admit s env M = Inr ()"
            "synthesize_due_accept rx ?i s ?now ?rt1 = (Inl e, s, rt2)" "untouched rt rt2"
        | M where "instantiate (rt_modes ?rt1) (s_mode s) = Inr M" "admit s env M = Inr ()"
            "synthesize_due_accept rx ?i s ?now ?rt1 = (Inr False, s, ?rt1)"
      proof (cases "instantiate (rt_modes ?rt1) (s_mode s)")
        case (Inr M)
        then show thesis using that sy [of ?i ?now] by (cases "admit s env M") auto
      qed (use that in blast)
      then show ?thesis
      proof cases
        case (4 M)
        obtain e rt2 where "accept_message rx env M ?now s ?rt1 = (Inl e, s, rt2)" "untouched rt rt2"
          using ac by blast
        then show ?thesis using x Inr PcProceed 4 by (auto simp: message_on_session_def now_ms_def)
      qed (use x Inr PcProceed u1 in \<open>auto simp: message_on_session_def now_ms_def\<close>)
    qed
  qed
qed

lemma start_down:
  assumes d: "disk_down rx rt" and x: "process_session_start rx env mx rt = (r, rt')"
  shows "untouched rt rt' \<and> (\<forall>pr. r = Inr pr \<longrightarrow> pr_duplicate pr)"
proof -
  let ?rt1 = "rt\<lparr>rt_ticks := Suc (rt_ticks rt)\<rparr>" and ?i = "e_session_id env"
  have u1: "untouched rt ?rt1" using untouched_tick [OF untouched_refl, of rt] by (simp add: now_ms_def)
  have cs: "commit_start rx env v s (put_session ?i s rt0) = (Inl StorageFailed, rt0\<lparr>rt_calls := Suc (rt_calls rt0)\<rparr>)"
    if "disk_down rx rt0" "rt_sessions rt0 ?i = None" for rt0 v s
  proof -
    have "disk_down rx (put_session ?i s rt0)" using that(1) by (simp add: disk_down_def put_session_def)
    then show ?thesis
      using that(2) by (simp add: commit_start_def call_down) (simp add: put_session_def rollback_def fun_upd_idem)
  qed
  have re: "untouched rt (snd (case reserve_slot rx env mx s ?rt1 of (Inl e, rt2) \<Rightarrow> (Inl e, rt2)
      | (Inr _, rt2) \<Rightarrow> commit_start rx env v s rt2)) \<and>
      (\<forall>pr. fst (case reserve_slot rx env mx s ?rt1 of (Inl e, rt2) \<Rightarrow> (Inl e, rt2)
      | (Inr _, rt2) \<Rightarrow> commit_start rx env v s rt2) \<noteq> Inr pr)" if "rt_sessions rt ?i = None" for s v
  proof -
    have u2: "untouched rt (?rt1\<lparr>rt_ticks := Suc (Suc (rt_ticks rt))\<rparr>)" using untouched_tick [OF u1] by (simp add: now_ms_def)
    show ?thesis
      using that u1 u2 untouched_call [OF u1] untouched_call [OF u2]
        cs [OF untouched_down [OF u1 d]] cs [OF untouched_down [OF u2 d]]
      by (simp add: reserve_slot_def now_ms_def Let_def split: option.split)
  qed
  show ?thesis
    using x u1 re unfolding process_session_start_def now_ms_def Let_def prod.case
    by (auto split: if_splits sum.splits option.splits simp: prod_eq_iff)
qed

lemma process_down:
  assumes "disk_down rx rt" "process rx env mx rt = (r, rt')"
    and "e_message_type env \<noteq> ''Signal''" "e_message_type env \<noteq> ''Progress''"
  shows "untouched rt rt' \<and> (\<forall>pr. r = Inr pr \<longrightarrow> pr_duplicate pr)"
proof (cases "e_message_type env = ''SessionStart''")
  case True
  then show ?thesis using assms start_down by (simp add: process_def)
next
  case False
  then have m: "process_message rx env rt = (r, rt')" using assms by (simp add: process_def)
  show ?thesis
  proof (cases "rt_sessions rt (e_session_id env)")
    case None
    then show ?thesis using m by (auto simp: process_message_def with_session_def)
  next
    case (Some s)
    obtain r1 s1 rt1 where x: "message_on_session rx env s rt = (r1, s1, rt1)" by (cases "message_on_session rx env s rt")
    then show ?thesis
      using m Some message_down [OF assms(1) x] untouched_put by (auto simp: process_message_def with_session_def)
  qed
qed

end
