(* ===== verification/Runtime_Sweeps.thy ===== *)
theory Runtime_Sweeps
  imports Runtime_Effects
begin

text \<open>
  The background tasks and the subscriptions: what eviction and garbage collection leave alone, what
  the expiry sweep achieves, and how the accepted ordinals of a log evolve.
\<close>

section \<open>Eviction and garbage collection\<close>

definition session_kept :: "string \<Rightarrow> Runtime \<Rightarrow> Runtime \<Rightarrow> bool" where
  "session_kept j rt rt' \<longleftrightarrow> rt_sessions rt' j = rt_sessions rt j \<and> rt_logs rt' j = rt_logs rt j \<and>
     rt_disk rt' j = rt_disk rt j"

lemma session_kept_refl [simp]: "session_kept j rt rt"
  by (simp add: session_kept_def)

lemma session_kept_trans: "session_kept j rt rt1 \<Longrightarrow> session_kept j rt1 rt2 \<Longrightarrow> session_kept j rt rt2"
  by (simp add: session_kept_def)

lemma forget_kept: "j \<noteq> i \<Longrightarrow> session_kept j rt (forget_session i rt)"
  by (simp add: session_kept_def forget_session_def remove_session_log_def)

lemma read_kept: "session_kept j rt (snd (storage_read rx op rt))"
  by (simp add: session_kept_def storage_read_def)

lemma delete_kept: "j \<noteq> i \<Longrightarrow> session_kept j rt (snd (storage_call rx (delete_session i) rt))"
  by (auto simp: session_kept_def storage_call_def delete_session_def Let_def split: option.split)

lemma fold_kept:
  assumes "\<And>i rt. i \<in> set is \<Longrightarrow> P rt \<Longrightarrow> session_kept j rt (f i rt)"
    and "\<And>rt rt'. P rt \<Longrightarrow> session_kept j rt rt' \<Longrightarrow> P rt'" "P rt"
  shows "session_kept j rt (fold f is rt)"
  using assms
proof (induction "is" arbitrary: rt)
  case (Cons i "is")
  have k: "session_kept j rt (f i rt)" using Cons.prems(1,3) by simp
  have "session_kept j (f i rt) (fold f is (f i rt))"
    by (rule Cons.IH) (use Cons.prems k in auto)
  then show ?case using session_kept_trans [OF k] by simp
qed simp

lemma gc_one_kept:
  assumes "rt_sessions rt j = Some s" "\<not> (is_terminal (s_state s) \<and> s_started_at_unix_ms s < cutoff)"
  shows "session_kept j rt (gc_one rx cutoff i rt)"
proof (cases "i = j")
  case True
  then show ?thesis using assms by (auto simp: gc_one_def Let_def)
next
  case False
  obtain b rt1 where e: "gc_one rx cutoff i rt = (if \<not> b then rt1 else
      (case storage_call rx (delete_session i) rt1 of
         (True, rt2) \<Rightarrow> forget_session i rt2 | (False, rt2) \<Rightarrow> rt2))" "session_kept j rt rt1"
  proof (cases "rt_sessions rt i")
    case (Some s')
    then show ?thesis
      using that [of "is_terminal (s_state s') \<and> s_started_at_unix_ms s' < cutoff" rt] by (simp add: gc_one_def Let_def)
  next
    case None
    obtain x rt1 where r: "storage_read rx (load_session i) rt = (x, rt1)" by (cases "storage_read rx (load_session i) rt")
    show ?thesis
      using None r read_kept [of j rt rx "load_session i"]
        that [of "case x of Some (Some s) \<Rightarrow> is_terminal (s_state s) \<and> s_started_at_unix_ms s < cutoff | _ \<Rightarrow> False" rt1]
      by (simp add: gc_one_def Let_def split: option.splits)
  qed
  obtain y rt2 where c: "storage_call rx (delete_session i) rt1 = (y, rt2)" by (cases "storage_call rx (delete_session i) rt1")
  have k2: "session_kept j rt rt2"
    using session_kept_trans [OF e(2) delete_kept [of j i rt1 rx]] False c by simp
  show ?thesis
    unfolding e(1) c using e(2) k2 session_kept_trans [OF k2 forget_kept] False by (simp split: bool.split)
qed

lemma gc_kept:
  assumes "rt_sessions rt j = Some s"
    and "\<not> (is_terminal (s_state s) \<and> s_started_at_unix_ms s < cutoff_ms (rx_clock rx (rt_ticks rt)) secs)"
  shows "session_kept j rt (gc_disk_sessions rx secs rt)"
proof -
  let ?rt1 = "rt\<lparr>rt_ticks := Suc (rt_ticks rt)\<rparr>" and ?c = "cutoff_ms (rx_clock rx (rt_ticks rt)) secs"
  obtain x rt2 where r: "storage_read rx (\<lambda>disk. Some (list_session_ids disk)) ?rt1 = (x, rt2)"
    by (cases "storage_read rx (\<lambda>disk. Some (list_session_ids disk)) ?rt1")
  have k: "session_kept j rt rt2"
    using read_kept [of j ?rt1 rx "\<lambda>disk. Some (list_session_ids disk)"] r by (simp add: session_kept_def)
  have f: "session_kept j rt2 (fold (gc_one rx ?c) ids rt2)" for ids
  proof (rule fold_kept [where P = "\<lambda>rt. rt_sessions rt j = Some s"])
    show "session_kept j rt' (gc_one rx ?c i rt')" if "rt_sessions rt' j = Some s" for i rt'
      using gc_one_kept [OF that assms(2)] .
  qed (use assms(1) k in \<open>simp_all add: session_kept_def\<close>)
  show ?thesis
    using k session_kept_trans [OF k f] r
    by (auto simp: gc_disk_sessions_def now_ms_def Let_def split: option.splits)
qed

lemma evict_kept:
  assumes "rt_sessions rt j = Some s"
    and "\<not> (s_state s \<in> {Resolved, Expired, Cancelled} \<and> s_started_at_unix_ms s < cutoff_ms (rx_clock rx (rt_ticks rt)) secs)"
  shows "session_kept j rt (evict_stale_sessions rx secs rt)"
proof -
  let ?rt1 = "rt\<lparr>rt_ticks := Suc (rt_ticks rt)\<rparr>" and ?c = "cutoff_ms (rx_clock rx (rt_ticks rt)) secs"
  let ?ids = "filter (\<lambda>i. case rt_sessions ?rt1 i of None \<Rightarrow> False
      | Some s \<Rightarrow> s_state s \<in> {Resolved, Expired, Cancelled} \<and> s_started_at_unix_ms s < ?c) (registered_ids ?rt1)"
  have "j \<notin> set ?ids" using assms by auto
  then have "session_kept j ?rt1 (fold forget_session ?ids ?rt1)"
    by (intro fold_kept [where P = "\<lambda>_. True"]) (auto intro: forget_kept)
  moreover have "evict_stale_sessions rx secs rt = fold forget_session ?ids ?rt1"
    by (simp add: evict_stale_sessions_def now_ms_def Let_def)
  ultimately show ?thesis by (simp add: session_kept_def)
qed

lemma evict_disk: "rt_disk (evict_stale_sessions rx secs rt) = rt_disk rt"
proof -
  have "rt_disk (fold forget_session ids rt') = rt_disk rt'" for ids rt'
    by (induction ids arbitrary: rt') (simp_all add: forget_session_def)
  then show ?thesis by (simp add: evict_stale_sessions_def now_ms_def Let_def)
qed

section \<open>Expiry\<close>

lemma calls_grow:
  "rt_calls rt \<le> rt_calls (snd (storage_call rx op rt))"
  "rt_calls rt \<le> rt_calls (save_session_to_storage rx s rt)"
  by (simp_all add: save_session_to_storage_def storage_call_def Let_def split: option.split)

lemma append_calls: "rt_calls rt \<le> rt_calls (snd (append_entry rx i e rt))"
  using calls_grow(1) [of rt rx "append_log_entry i e"]
  by (cases "storage_call rx (append_log_entry i e) rt") (auto simp: append_entry_def split: bool.split)

lemma checkpoint_calls: "rt_calls rt \<le> rt_calls (force_insert_checkpoint rx i s rt)"
proof (cases "lx_encode_session rx (PersistedSession_from s)")
  case (Some b)
  then show ?thesis
    using append_calls [of "rt\<lparr>rt_ticks := Suc (rt_ticks rt)\<rparr>" rx i]
    by (simp add: force_insert_checkpoint_def now_ms_def)
qed (simp add: force_insert_checkpoint_def)

lemma settle_calls: "rt_calls rt \<le> rt_calls (settle_terminal rx i s rt)"
proof -
  have "rt_calls rt \<le> rt_calls rt1" if c: "compact_session_log rx i s n rt = (x, rt1)" for n x rt1
  proof -
    have "rt1 = rt \<or> (\<exists>op b. storage_call rx op rt = (b, rt1))"
      using c by (auto simp: compact_session_log_def Let_def split: option.splits prod.splits bool.splits)
    then show ?thesis using call_later by (metis le_SucI order_refl)
  qed
  then have "rt_calls rt \<le> rt_calls rt1" if "maybe_compact_log rx i s rt = (b, rt1)" for b rt1
    using that by (fastforce simp: maybe_compact_log_def Let_def split: if_splits prod.splits option.splits)
  then show ?thesis
    using checkpoint_calls order_trans
    by (cases "maybe_compact_log rx i s rt") (fastforce simp: settle_terminal_def split: bool.split)
qed

definition overdue :: "i64 \<Rightarrow> Runtime \<Rightarrow> string \<Rightarrow> bool" where
  "overdue now rt i \<longleftrightarrow> (\<exists>s. rt_sessions rt i = Some s \<and> s_state s = Open \<and> s_ttl_expiry s < now)"

lemma cleanup_one_works:
  assumes ok: "rt_ok rx pol rt" and w: "disk_works rx rt"
  shows "overdue now (cleanup_one rx now i rt) j \<longleftrightarrow> j \<noteq> i \<and> overdue now rt j" "disk_works rx (cleanup_one rx now i rt)"
proof -
  have "(overdue now (cleanup_one rx now i rt) j \<longleftrightarrow> j \<noteq> i \<and> overdue now rt j) \<and> disk_works rx (cleanup_one rx now i rt)"
  proof (cases "overdue now rt i")
    case True
    then obtain s where s: "rt_sessions rt i = Some s" "s_state s = Open" "s_ttl_expiry s < now"
      by (auto simp: overdue_def)
    have d: "dir_ready rx i rt"
      using okD(1) [OF ok s(1)] registered_component [OF ok s(1)] w by (auto simp: dir_ready_def backed_def log_of_def)
    obtain rt1 where a: "append_entry rx i (make_internal_entry ''TtlExpired'' [] i (s_mode s) now) rt = (Inr (), rt1)"
      "dir_ready rx i rt1" "rt_sessions rt1 = rt_sessions rt"
      by (rule append_works [OF d])
    let ?s = "s\<lparr>s_state := Expired\<rparr>"
    let ?rt = "send_lifecycle (LcExpired i) (settle_terminal rx i ?s
      (save_session_to_storage rx ?s (put_session i ?s rt1)))"
    have e: "cleanup_one rx now i rt = ?rt" using s a(1) by (simp add: cleanup_one_def Let_def)
    have "rt_calls rt1 \<le> rt_calls ?rt"
      using settle_calls calls_grow(2) [of "put_session i ?s rt1" rx ?s] order_trans
      by (fastforce simp: send_lifecycle_def put_session_def)
    then have "disk_works rx ?rt" using a(2) by (auto simp: dir_ready_def intro: works_later)
    moreover have "rt_sessions ?rt = (rt_sessions rt)(i \<mapsto> ?s)" by (simp add: put_session_def a(3))
    ultimately show ?thesis unfolding e by (auto simp: overdue_def)
  next
    case False
    then have "cleanup_one rx now i rt = rt"
      by (auto simp: cleanup_one_def overdue_def split: option.split)
    then show ?thesis using False w by auto
  qed
  then show "overdue now (cleanup_one rx now i rt) j \<longleftrightarrow> j \<noteq> i \<and> overdue now rt j"
    "disk_works rx (cleanup_one rx now i rt)" by blast+
qed

lemma cleanup_works:
  assumes "session_codec_law rx" "rt_ok rx pol rt" "disk_works rx rt"
  shows "overdue now (fold (cleanup_one rx now) ids rt) j \<longleftrightarrow> j \<notin> set ids \<and> overdue now rt j"
  using assms(2,3)
proof (induction ids arbitrary: rt)
  case (Cons i ids)
  then show ?case
    using cleanup_one_works [OF Cons.prems] cleanup_one_ok [OF assms(1) Cons.prems(1)] by auto
qed simp

lemma registered_finite: "rt_ok rx pol rt \<Longrightarrow> set (registered_ids rt) = dom (rt_sessions rt)"
proof -
  assume ok: "rt_ok rx pol rt"
  have "dom (rt_sessions rt) \<subseteq> dom (rt_disk rt)"
    using okD(1) [OF ok] by (fastforce simp: backed_def log_of_def)
  then have "finite (dom (rt_sessions rt))" using okD(4) [OF ok] by (auto simp: disk_ok_def intro: finite_subset)
  then show ?thesis by (simp add: registered_ids_def)
qed

section \<open>Accepted ordinals\<close>

text \<open>A log grows at its end, or compaction discards every ordinal assigned so far.\<close>

definition evolves :: "LogEntry list \<Rightarrow> LogEntry list \<Rightarrow> bool" where
  "evolves es es' \<longleftrightarrow>
     compaction_base es' = compaction_base es \<and> (\<exists>more. incoming es' = incoming es @ more) \<or>
     compaction_base es + length (incoming es) \<le> compaction_base es'"

lemma evolves_refl [simp]: "evolves es es"
  by (simp add: evolves_def)

lemma evolves_trans: "evolves es es1 \<Longrightarrow> evolves es1 es2 \<Longrightarrow> evolves es es2"
  by (auto simp: evolves_def)

lemma evolves_append: "le_entry_kind e = Checkpoint \<longrightarrow> le_compacted_incoming_ordinals e = 0 \<Longrightarrow> evolves es (es @ [e])"
  by (auto simp: evolves_def compaction_base_append)

lemma evolves_compact:
  assumes "le_entry_kind c = Checkpoint" "le_compacted_incoming_ordinals c = compaction_base es + length (incoming es)"
  shows "evolves es [c]"
  using assms compaction_base_append [of "[]" c] by (simp add: evolves_def compaction_base_def)

definition log_evolves :: "string \<Rightarrow> Runtime \<Rightarrow> Runtime \<Rightarrow> bool" where
  "log_evolves i rt rt' \<longleftrightarrow> (\<forall>es. rt_logs rt i = Some es \<longrightarrow> (\<exists>es'. rt_logs rt' i = Some es' \<and> evolves es es'))"

lemma log_evolves_refl [simp]: "log_evolves i rt rt"
  by (simp add: log_evolves_def)

lemma log_evolves_trans: "log_evolves i rt rt1 \<Longrightarrow> log_evolves i rt1 rt2 \<Longrightarrow> log_evolves i rt rt2"
  unfolding log_evolves_def using evolves_trans by metis

lemma log_evolves_same: "rt_logs rt' = rt_logs rt \<Longrightarrow> log_evolves i rt rt'"
  by (simp add: log_evolves_def)

lemma quiet_evolves: "quiet rt rt' \<Longrightarrow> log_evolves i rt rt'"
  by (rule log_evolves_same) (simp add: quiet_def)

lemma append_evolves:
  assumes "append_entry rx i e rt = (r, rt')" "le_entry_kind e = Checkpoint \<longrightarrow> le_compacted_incoming_ordinals e = 0"
  shows "log_evolves i rt rt'"
  using assms(1)
proof (rule append_entry_cases)
  assume "rt_logs rt' = log_append i e (rt_logs rt)"
  then show ?thesis using evolves_append [OF assms(2)] by (simp add: log_evolves_def log_append_def)
qed (rule quiet_evolves)

lemma entry_kinds [simp]:
  "le_entry_kind (make_incoming_entry env t) = Incoming" "le_entry_kind (make_internal_entry m p i md t) = Internal"
  "le_entry_kind (make_checkpoint_entry b i md t n) = Checkpoint"
  "le_compacted_incoming_ordinals (make_checkpoint_entry b i md t n) = n"
  by (simp_all add: make_incoming_entry_def make_internal_entry_def make_checkpoint_entry_def)

lemma checkpoint_evolves:
  "log_evolves i rt (force_insert_checkpoint rx i s rt)" "log_evolves i rt (maybe_insert_checkpoint rx i s rt)"
proof -
  have "log_evolves i rt (snd (append_entry rx i (make_checkpoint_entry b i (s_mode s) t 0) (rt\<lparr>rt_ticks := n\<rparr>)))" for b t n
    by (rule log_evolves_trans [of i rt "rt\<lparr>rt_ticks := n\<rparr>"], rule log_evolves_same, simp,
        rule append_evolves [OF surjective_pairing [of "append_entry rx i _ _"]]) simp
  then show c: "log_evolves i rt (force_insert_checkpoint rx i s rt)"
    by (simp add: force_insert_checkpoint_def now_ms_def split: option.split)
  then show "log_evolves i rt (maybe_insert_checkpoint rx i s rt)"
    by (simp add: maybe_insert_checkpoint_def Let_def)
qed

lemma compact_evolves:
  assumes "maybe_compact_log rx i s rt = (b, rt')"
  shows "log_evolves i rt rt'"
proof -
  let ?n = "case get_log (rt_logs rt) i of None \<Rightarrow> 0 | Some es \<Rightarrow> compaction_base es + length (incoming es)"
  have logs: "rt_logs (snd (storage_call rx op rt)) = rt_logs rt" for op
    by (simp add: storage_call_def Let_def split: option.split)
  obtain x rt1 where c: "compact_session_log rx i s ?n rt = (x, rt1)" by (cases "compact_session_log rx i s ?n rt")
  have "rt1 = rt \<or> (\<exists>op b. storage_call rx op rt = (b, rt1))"
    using c by (auto simp: compact_session_log_def Let_def split: option.splits prod.splits bool.splits)
  then have l1: "rt_logs rt1 = rt_logs rt" using logs by (metis snd_conv)
  show ?thesis
  proof (cases "rx_compact_terminal_logs rx")
    case True
    show ?thesis
    proof (cases x)
      case None
      then show ?thesis using assms True c l1 by (auto simp: maybe_compact_log_def Let_def intro: log_evolves_same)
    next
      case (Some ck)
      have ck: "le_entry_kind ck = Checkpoint \<and> le_compacted_incoming_ordinals ck = ?n"
        using c Some by (auto simp: compact_session_log_def Let_def split: option.splits prod.splits bool.splits)
      have "rt' = rt1\<lparr>rt_logs := replace_session_log i [ck] (rt_logs rt1)\<rparr>"
        using assms True c Some by (simp add: maybe_compact_log_def Let_def)
      then show ?thesis
        using ck by (auto simp: log_evolves_def replace_session_log_def get_log_def intro: evolves_compact)
    qed
  qed (use assms in \<open>simp add: maybe_compact_log_def\<close>)
qed

lemma settle_evolves: "log_evolves i rt (settle_terminal rx i s rt)"
proof -
  obtain b rt1 where c: "maybe_compact_log rx i s rt = (b, rt1)" by (cases "maybe_compact_log rx i s rt")
  show ?thesis
    using compact_evolves [OF c] log_evolves_trans checkpoint_evolves(1)
    by (simp add: settle_terminal_def c split: bool.split) blast
qed

lemma small_evolves:
  "log_evolves i rt (save_session_to_storage rx s rt)" "log_evolves i rt (publish_accepted_envelope env rt)"
  "log_evolves i rt (send_lifecycle ev rt)" "log_evolves i rt (rt\<lparr>rt_ticks := n\<rparr>)"
  by (rule quiet_evolves, rule quiet_save quiet_sends, rule quiet_evolves, rule quiet_sends, rule quiet_evolves,
      rule quiet_sends, rule log_evolves_same, simp)

lemma expire_evolves:
  assumes "maybe_expire_session rx i s rt = (r, s', rt')"
  shows "log_evolves i rt rt'"
proof -
  let ?rt1 = "rt\<lparr>rt_ticks := Suc (rt_ticks rt)\<rparr>" and ?now = "rx_clock rx (rt_ticks rt)"
  let ?e = "make_internal_entry ''TtlExpired'' [] i (s_mode s) ?now"
  obtain x rt2 where a: "append_entry rx i ?e ?rt1 = (x, rt2)" by (cases "append_entry rx i ?e ?rt1")
  have "log_evolves i rt rt2" by (rule log_evolves_trans [OF small_evolves(4) append_evolves [OF a]]) simp
  then show ?thesis
    using assms a small_evolves(4) [of i rt] log_evolves_trans [OF _ small_evolves(3)]
    by (auto simp: maybe_expire_session_def now_ms_def Let_def split: if_splits sum.splits prod.splits)
qed

lemma synthesize_evolves:
  assumes "synthesize_due_accept rx i s now rt = (r, s', rt')"
  shows "log_evolves i rt rt'"
proof -
  have ap: "log_evolves i rt (snd (append_entry rx i (make_incoming_entry env t) rt))" for env t
    by (rule append_evolves [OF surjective_pairing]) simp
  have fin: "log_evolves i rt1 (publish_accepted_envelope env (maybe_insert_checkpoint rx i s1 (save_session_to_storage rx s1 rt1)))"
    for rt1 env s1
    by (rule log_evolves_trans [OF log_evolves_trans [OF small_evolves(1) checkpoint_evolves(2)] small_evolves(2)])
  show ?thesis
    using assms ap log_evolves_trans [OF ap fin]
    by (auto simp: synthesize_due_accept_def Let_def split: sum.splits option.splits prod.splits)
      (metis snd_conv)+
qed

lemma accept_evolves:
  assumes "accept_message rx env M now s rt = (r, s', rt')"
  shows "log_evolves (e_session_id env) rt rt'"
proof (cases "dispatch s env M now")
  case (Inl e)
  then show ?thesis using assms by (simp add: accept_message_def)
next
  case (Inr resp)
  let ?i = "e_session_id env"
  obtain x rt1 where a: "append_entry rx ?i (make_incoming_entry env now) rt = (x, rt1)"
    by (cases "append_entry rx ?i (make_incoming_entry env now) rt")
  have e1: "log_evolves ?i rt rt1" by (rule append_evolves [OF a]) simp
  obtain st s1 where c: "commit s env resp now = (st, s1)" by (cases "commit s env resp now")
  have e2: "log_evolves ?i rt (if st = Resolved then send_lifecycle (LcResolved ?i) rt1 else rt1)"
    using e1 log_evolves_trans [OF e1 small_evolves(3)] by simp
  note e3 = log_evolves_trans [OF e2 small_evolves(1)]
  note e4 = log_evolves_trans [OF e3 settle_evolves] log_evolves_trans [OF e3 checkpoint_evolves(2)]
  show ?thesis
    using assms Inr a c e1 log_evolves_trans [OF e4(1) small_evolves(2)] log_evolves_trans [OF e4(2) small_evolves(2)]
    by (cases x) (auto simp: accept_message_def Let_def split: if_splits)
qed

lemma message_evolves:
  assumes "message_on_session rx env s rt = (r, s', rt')"
  shows "log_evolves (e_session_id env) rt rt'"
proof -
  let ?i = "e_session_id env" and ?rt1 = "rt\<lparr>rt_ticks := Suc (rt_ticks rt)\<rparr>" and ?now = "rx_clock rx (rt_ticks rt)"
  have t: "log_evolves ?i rt ?rt1" by (rule small_evolves(4))
  have x: "log_evolves ?i rt rt2" if "maybe_expire_session rx ?i s ?rt1 = (q, s2, rt2)" for q s2 rt2
    by (rule log_evolves_trans [OF t expire_evolves [OF that]])
  have y: "log_evolves ?i rt rt2" if "synthesize_due_accept rx ?i s ?now ?rt1 = (q, s2, rt2)" for q s2 rt2
    by (rule log_evolves_trans [OF t synthesize_evolves [OF that]])
  have z: "log_evolves ?i rt rt3"
    if "synthesize_due_accept rx ?i s ?now ?rt1 = (q, s2, rt2)" "accept_message rx env M ?now s2 rt2 = (q', s3, rt3)"
    for q s2 rt2 q' s3 rt3 M
    by (rule log_evolves_trans [OF y [OF that(1)] accept_evolves [OF that(2)]])
  have w: "log_evolves ?i rt (save_session_to_storage rx s2 rt2)"
    if "maybe_expire_session rx ?i s ?rt1 = (q, s2, rt2)" for q s2 rt2
    by (rule log_evolves_trans [OF x [OF that] small_evolves(1)])
  show ?thesis
    using assms t x y z w
    by (auto simp: message_on_session_def now_ms_def split: sum.splits Precheck.splits prod.splits)
qed

text \<open>What a subscriber sees of an evolving log.\<close>

lemma subscribe_log:
  assumes "rt_logs rt i = Some es"
  shows "subscribe_snapshot rt i n = (if n < compaction_base es then Inl (compaction_base es)
     else Inr (map (\<lambda>(k, e). (k, envelope_from_log_entry e))
                 (drop (n - compaction_base es) (numbered (compaction_base es) (incoming es))),
               compaction_base es + length (incoming es)))"
  using get_incoming_spec [of "rt_logs rt" i es n] assms
  by (simp add: subscribe_snapshot_def get_incoming_after_with_high_water_def Let_def collect_incoming_spec)

lemma numbered_above: "(k, e) \<in> set (drop m (numbered b es)) \<Longrightarrow> b + m < k \<and> k \<le> b + length es"
  by (auto simp: numbered_def in_set_conv_nth drop_zip simp del: upt_Suc)

lemma subscribe_evolves:
  assumes "log_evolves i rt rt'" "rt_logs rt i = Some es" "subscribe_snapshot rt i n = Inr (xs, hw)"
  shows "(\<exists>base. subscribe_snapshot rt' i n = Inl base \<and> hw \<le> base) \<or>
    (\<exists>ys hw'. subscribe_snapshot rt' i n = Inr (xs @ ys, hw') \<and> hw \<le> hw' \<and> (\<forall>(k, e) \<in> set ys. hw < k))"
proof -
  let ?b = "compaction_base es"
  obtain es' where es': "rt_logs rt' i = Some es'" "evolves es es'" using assms(1,2) by (auto simp: log_evolves_def)
  have n: "?b \<le> n" and xs: "xs = map (\<lambda>(k, e). (k, envelope_from_log_entry e)) (drop (n - ?b) (numbered ?b (incoming es)))"
    and hw: "hw = ?b + length (incoming es)"
    using assms(3) subscribe_log [OF assms(2), of n] by (auto split: if_splits)
  note new = subscribe_log [OF es'(1), of n]
  from es'(2) consider (grown) more where "compaction_base es' = ?b" "incoming es' = incoming es @ more"
    | (compacted) "hw \<le> compaction_base es'" "n < compaction_base es'" | (past) "hw \<le> compaction_base es'" "compaction_base es' \<le> n"
    unfolding evolves_def hw by force
  then show ?thesis
  proof cases
    case grown
    let ?ys = "drop (n - ?b - length (incoming es)) (numbered (?b + length (incoming es)) more)"
    have "subscribe_snapshot rt' i n = Inr (xs @ map (\<lambda>(k, e). (k, envelope_from_log_entry e)) ?ys, hw + length more)"
      using new n by (simp add: grown numbered_append xs hw)
    moreover have "\<forall>(k, e) \<in> set (map (\<lambda>(k, e). (k, envelope_from_log_entry e)) ?ys). hw < k"
      using numbered_above unfolding hw by fastforce
    ultimately show ?thesis by (metis le_add1)
  next
    case compacted
    then show ?thesis using new by simp
  next
    case past
    have "xs = []" using past n by (simp add: xs hw)
    moreover have "\<forall>(k, e) \<in> set (map (\<lambda>(k, e). (k, envelope_from_log_entry e))
        (drop (n - compaction_base es') (numbered (compaction_base es') (incoming es')))). hw < k"
      using numbered_above past(1) by fastforce
    moreover have "hw \<le> compaction_base es' + length (incoming es')" using past(1) by simp
    ultimately show ?thesis using new past(2) by (metis append_Nil not_le)
  qed
qed

end
