(* ===== verification/Runtime_Examples.thy ===== *)
theory Runtime_Examples
  imports Runtime_Sweeps Example_Runs
begin

text \<open>
  A concrete runtime: the built-in modes and policies, a session codec that can write the two
  sessions of the run, a clock that jumps past the deadline after three readings and a disk that works.
  The run starts a Quorum session and requests approval, which also writes a checkpoint; then the
  session expires and is evicted.
\<close>

section \<open>The surroundings\<close>

definition example_sh :: shipped_ext where
  "example_sh =
     \<lparr>sh_decision = example_decision, sh_proposal = example_proposal, sh_task = example_task,
      sh_handoff = example_handoff, sh_quorum = example_quorum, sh_multi_round = example_multi_round,
      sh_passthrough = \<lparr>x_decode_commitment = (\<lambda>_. None), x_rules = no_rules, x_evaluator = (\<lambda>_. Allow []),
        pt_encode_resolution = (\<lambda>_ _. [])\<rparr>\<rparr>"

definition allow_all :: PolicyEvaluator where
  "allow_all = (\<lambda>_. Allow [])"

definition example_modes :: mode_entries where
  "example_modes = build_default example_sh allow_all"

definition example_pol :: PolicyRegistry where
  "example_pol = PolicyRegistry_new"

abbreviation "sid \<equiv> ''session-0000000000000001''"

definition versioned_payload :: SessionStartPayload where
  "versioned_payload = example_payload\<lparr>ssp_mode_version := ''1.0.0''\<rparr>"

definition run_s0 :: Session where
  "run_s0 = (opened (Some default_policy) qmode (unary_encode default_QuorumState))\<lparr>s_mode_version := ''1.0.0''\<rparr>"

definition run_s1 :: Session where
  "run_s1 = after run_s0 ''m1'' ''alice'' 2000 (unary_encode (quorum_st []))"

definition run_ext :: runtime_ext where
  "run_ext =
     \<lparr>lx_start = \<lparr>sx_decode_start = (\<lambda>_. Some versioned_payload), sx_parse_uuid = (\<lambda>_. None)\<rparr>,
      lx_encode_session =
        (\<lambda>p. if p = PersistedSession_from run_s0 then Some ''0''
             else if p = PersistedSession_from run_s1 then Some ''1'' else None),
      lx_decode_session =
        (\<lambda>b. if b = ''0'' then Some (PersistedSession_from run_s0)
             else if b = ''1'' then Some (PersistedSession_from run_s1) else None),
      rx_clock = (\<lambda>n. if n < 3 then 1000 + 1000 * int n else 70000), rx_wall_clock = (\<lambda>n. 1000), rx_fault = (\<lambda>_. False),
      rx_checkpoint_interval = 2, rx_compact_terminal_logs = True,
      rx_encode_cancel = (\<lambda>_ _. ''cancel''), rx_encode_suspend = (\<lambda>_ _. ''suspend''),
      rx_encode_resume = (\<lambda>_ _ _. ''resume''), rx_decode_signal = (\<lambda>_. None), rx_decode_progress = (\<lambda>_. True)\<rparr>"

definition run_rt0 :: Runtime where
  "run_rt0 = Runtime_new example_modes example_pol Map.empty"

definition run_start :: Envelope where
  "run_start = start_message qmode"

definition run_request :: Envelope where
  "run_request = message qmode ''ApprovalRequest'' ''m1'' ''alice'' ''request''"

definition run_entry0 :: LogEntry where
  "run_entry0 = (make_incoming_entry run_start 1000)
     \<lparr>le_semantics_rev := CURRENT_SEMANTICS_REV, le_bound_max_suspend_ms := Some MAX_SUSPEND_MS\<rparr>"

definition run_log :: "LogEntry list" where
  "run_log = [run_entry0, make_incoming_entry run_request 2000,
     make_checkpoint_entry ''1'' sid qmode 3000 0]"

definition run_rt1 :: Runtime where
  "run_rt1 = run_rt0\<lparr>rt_sessions := [sid \<mapsto> run_s0], rt_logs := [sid \<mapsto> [run_entry0]],
     rt_disk := [sid \<mapsto> \<lparr>sd_log = [run_entry0], sd_snapshot = Some (PersistedSession_from run_s0)\<rparr>],
     rt_stream := [run_start], rt_lifecycle := [LcCreated sid], rt_ticks := 1, rt_calls := 3\<rparr>"

definition run_rt2 :: Runtime where
  "run_rt2 = run_rt0\<lparr>rt_sessions := [sid \<mapsto> run_s1], rt_logs := [sid \<mapsto> run_log],
     rt_disk := [sid \<mapsto> \<lparr>sd_log = run_log, sd_snapshot = Some (PersistedSession_from run_s1)\<rparr>],
     rt_stream := [run_start, run_request], rt_lifecycle := [LcCreated sid], rt_ticks := 3, rt_calls := 6\<rparr>"

lemma run_ext_simps [simp]:
  "lx_start run_ext = \<lparr>sx_decode_start = (\<lambda>_. Some versioned_payload), sx_parse_uuid = (\<lambda>_. None)\<rparr>"
  "rx_clock run_ext n = (if n < 3 then 1000 + 1000 * int n else 70000)" "rx_fault run_ext n = False" "rx_checkpoint_interval run_ext = 2"
  "lx_encode_session run_ext (PersistedSession_from run_s0) = Some ''0''"
  by (simp_all add: run_ext_def)

lemma run_rt0_simps [simp]:
  "rt_sessions run_rt0 = Map.empty" "rt_logs run_rt0 = Map.empty" "rt_disk run_rt0 = Map.empty"
  "rt_modes run_rt0 = example_modes" "rt_policies run_rt0 = example_pol" "rt_stream run_rt0 = []"
  "rt_ticks run_rt0 = 0" "rt_calls run_rt0 = 0" "rt_lifecycle run_rt0 = []"
  by (simp_all add: run_rt0_def Runtime_new_def)

lemma run_codec: "session_codec_law run_ext"
  by (auto simp: session_codec_law_def run_ext_def split: if_splits)

lemma run_sh_law: "handoff_codec_law (sh_handoff example_sh)"
  by (simp add: example_sh_def example_handoff_law)

lemma run_encoded1: "lx_encode_session run_ext (PersistedSession_from run_s1) = Some ''1''"
proof -
  have "pse_seen_message_ids (PersistedSession_from run_s1) \<noteq> pse_seen_message_ids (PersistedSession_from run_s0)"
    by (simp add: PersistedSession_from_def run_s1_def run_s0_def)
  then show ?thesis by (auto simp: run_ext_def)
qed

lemma example_quorum_mode: "instantiate example_modes qmode = Inr Q"
proof -
  have "example_quorum\<lparr>x_evaluator := allow_all\<rparr> = example_quorum"
    by (simp add: example_quorum_def allow_all_def)
  then show ?thesis
    by (simp add: example_modes_def build_default_def insert_builtin_def Let_def instantiate_def example_sh_def)
qed

lemma example_quorum_options:
  "start_options example_modes qmode =
     default_StartOptions\<lparr>so_strict := Some True, so_descriptor_mode_version := Some ''1.0.0''\<rparr>"
proof -
  obtain d where d: "descriptor_of qmode = Some d" "md_mode_version d = ''1.0.0''"
    using descriptor_terminals [of qmode] by (auto simp: STANDARD_MODE_NAMES_def)
  then show ?thesis
    by (simp add: start_options_def registry_requires_strict_def get_mode_version_def registration_descriptor_def
        example_modes_def build_default_def insert_builtin_def Let_def)
qed

section \<open>Starting the session\<close>

definition run_validated :: "i64 \<Rightarrow> ValidatedStart" where
  "run_validated t = example_validated\<lparr>vs_payload := versioned_payload, vs_accepted_at_ms := t\<rparr>"

definition started :: "i64 \<Rightarrow> Session" where
  "started t = run_s0\<lparr>s_started_at_unix_ms := t\<rparr>"

lemma started_first: "started 1000 = run_s0"
  by (simp add: started_def run_s0_def opened_def fresh_def Session_builder_def)

lemma versioned_fields [simp]:
  "ssp_participants versioned_payload = [''alice'', ''bob'']" "ssp_mode_version versioned_payload = ''1.0.0''"
  "ssp_configuration_version versioned_payload = ''c''" "ssp_policy_version versioned_payload = []"
  "ssp_ttl_ms versioned_payload = 60000" "ssp_max_suspend_ms versioned_payload = 0"
  "ssp_intent versioned_payload = []" "ssp_context_id versioned_payload = []"
  "ssp_extensions versioned_payload = Map.empty" "ssp_roots versioned_payload = []"
  by (simp_all add: versioned_payload_def)

lemma run_canonical: "validate_canonical_session_start_payload_for_mode qmode versioned_payload = Ok ()"
  by (simp add: validate_canonical_session_start_payload_for_mode_def validate_canonical_start_def
      extract_ttl_ms_def MAX_TTL_MS_def MAX_PARTICIPANTS_def Let_def version_not_blank)

lemma run_validate:
  "validate_session_start (lx_start run_ext) run_start t (start_options example_modes qmode) = Ok (run_validated t)"
  by (simp add: validate_session_start_def run_start_def start_message_def message_def check_envelope_shape_def
      MACP_VERSION_def default_StartOptions_def parse_session_start_payload_def example_quorum_options
      session_id_ok run_canonical run_validated_def example_validated_def unwrap_or_def extract_ttl_ms_def
      MAX_TTL_MS_def resolve_max_suspend_ms_def sat_add_def sat_def i64_min_def i64_max_def Let_def)

lemma run_policy: "resolve example_pol DEFAULT_POLICY_ID = Inr default_policy" "effective_policy_version (run_validated t) = DEFAULT_POLICY_ID"
  by (simp_all add: example_pol_def resolve_def new_entries effective_policy_version_def requested_policy_version_def
      run_validated_def DEFAULT_POLICY_ID_def)

lemma run_accept: "ValidatedStart_accept (run_validated t) run_start Q (Some default_policy) = Ok (started t)"
proof -
  let ?e = "start_message qmode" and ?f = "(fresh (Some default_policy) qmode)\<lparr>s_mode_version := ''1.0.0'', s_started_at_unix_ms := t\<rparr>"
  have s: "(Session_builder (e_session_id ?e) (e_mode ?e) (e_sender ?e))
      \<lparr>s_ttl_expiry := vs_ttl_expiry (run_validated t), s_ttl_ms := vs_ttl_ms (run_validated t),
       s_max_suspend_ms := vs_max_suspend_ms (run_validated t),
       s_started_at_unix_ms := vs_accepted_at_ms (run_validated t),
       s_participants := ssp_participants (vs_payload (run_validated t)),
       s_intent := ssp_intent (vs_payload (run_validated t)),
       s_mode_version := unwrap_or (ssp_mode_version (vs_payload (run_validated t))) (vs_bound_mode_version (run_validated t)),
       s_configuration_version := ssp_configuration_version (vs_payload (run_validated t)),
       s_policy_version := p_policy_id default_policy,
       s_context_id := ssp_context_id (vs_payload (run_validated t)),
       s_extensions := ssp_extensions (vs_payload (run_validated t)),
       s_roots := ssp_roots (vs_payload (run_validated t)),
       s_policy_definition := Some default_policy, s_semantics_rev := CURRENT_SEMANTICS_REV\<rparr> = ?f"
    by (simp add: run_validated_def example_validated_def fresh_def Session_builder_def
        start_message_def message_def unwrap_or_def)
  have v: "ssp_policy_version (vs_payload (run_validated t)) = []" by (simp add: run_validated_def)
  have p: "resolve_policy_version [] (Some default_policy) = Ok (p_policy_id default_policy)"
    by (simp add: resolve_policy_version_def)
  have m: "p_mode default_policy = ''*''" by (simp add: default_policy_def)
  have st: "m_on_session_start Q ?f ?e = Ok (PersistState (unary_encode default_QuorumState))"
    "m_validate_client_envelope Q ?f ?e = Ok ()"
    by (simp_all add: quorum_eval)
  have r: "(consume_id ''m0'' ?f)\<lparr>s_mode_state := unary_encode default_QuorumState\<rparr> = started t"
    by (simp add: started_def run_s0_def opened_def consume_id_def fresh_def Session_builder_def)
  show ?thesis
    unfolding ValidatedStart_accept_def run_start_def v p and_then_simps Let_def s st
    using m r by simp
qed

lemma run_step0: "process run_ext run_start None run_rt0 = (Ok \<lparr>pr_session_state = Open, pr_duplicate = False\<rparr>, run_rt1)"
proof -
  have entry: "start_entry run_start (run_validated 1000) run_s0 = run_entry0"
    by (simp add: start_entry_def run_entry0_def run_validated_def example_validated_def run_s0_def make_incoming_entry_def)
  have ids: "e_session_id run_start = sid" "e_mode run_start = qmode" "e_message_type run_start = ''SessionStart''"
    by (simp_all add: run_start_def start_message_def)
  have cc: "check_component sid" by (simp add: check_component_def)
  have si: "s_session_id run_s0 = sid" "s_state run_s0 = Open" by (simp_all add: run_s0_def)
  let ?rt = "put_session sid run_s0 (run_rt0\<lparr>rt_ticks := Suc 0\<rparr>)"
  have "commit_start run_ext run_start (run_validated 1000) run_s0 ?rt = (Ok \<lparr>pr_session_state = Open, pr_duplicate = False\<rparr>, run_rt1)"
    by (simp add: commit_start_def Let_def storage_call_def create_session_storage_def append_log_entry_def
        save_session_to_storage_def save_session_def entry ids cc si put_session_def log_append_def create_session_log_def
        publish_accepted_envelope_def send_lifecycle_def run_rt1_def unwrap_or_def)
  then show ?thesis
    using run_validate [of 1000] run_accept [of 1000] run_policy example_quorum_mode session_id_ok started_first
    by (simp add: process_def process_session_start_def ids now_ms_def reserve_slot_def Let_def)
qed

section \<open>A message\<close>

lemma run_open: "s_state run_s0 = Open" "s_mode run_s0 = qmode" "s_session_id run_s0 = sid" "s_ttl_expiry run_s0 = 61000"
  "s_seen_message_ids run_s0 = {''m0''}"
  by (simp_all add: run_s0_def)

lemma run_threshold: "effective_threshold example_quorum run_s0 r = Approvals (ar_required_approvals r)"
proof -
  have "quorum_rules example_quorum default_policy = default_QuorumPolicyRules"
    by (simp add: quorum_rules_def example_quorum_def no_rules_def default_policy_def unwrap_or_def)
  then show ?thesis by (simp add: effective_threshold_def run_s0_def effective_def default_QuorumPolicyRules_def)
qed

lemma run_handler:
  "m_on_message_at Q run_s0 run_request ctx = Ok (PersistState (unary_encode (quorum_st [])))"
proof -
  have st: "decode_mode_state (qx_decode_state example_quorum) (s_mode_state run_s0) = Ok default_QuorumState"
    by (simp add: decode_mode_state_def example_quorum_def run_s0_def)
  have f: "qx_decode_request example_quorum ''request'' = Some \<lparr>arp_request_id = ''r1'',
       arp_action = ''deploy'', arp_summary = [], arp_details = [], arp_required_approvals = 2\<rparr>"
    "qx_encode_state example_quorum = unary_encode"
    by (simp_all add: example_quorum_def)
  have s: "s_mode_state run_s0 \<noteq> []" "s_initiator_sender run_s0 = ''alice''" "s_participants run_s0 = [''alice'', ''bob'']"
    by (simp_all add: run_s0_def)
  show ?thesis
    by (simp add: QuorumMode_def default_mode_def quorum_on_message_def st s run_request_def
        Quorum_Mode.handle_request_def f run_threshold Let_def default_QuorumState_def quorum_st_def quorum_request_def
        as_u32_def bt_empty_def)
qed

lemma run_admit: "m_authorize_sender Q run_s0 run_request = Ok ()" "m_validate_client_envelope Q s run_request = Ok ()"
  "m_due_synthetic_envelope Q s now = None"
  by (simp_all add: QuorumMode_def default_mode_def default_validate_client_envelope_def default_due_synthetic_envelope_def
      quorum_authorize_sender_def run_s0_def run_request_def)

lemma run_kernel: "step run_s0 run_request Q 2000 = (Ok (StepOutcome.Accepted Open []), run_s1)"
  unfolding run_request_def run_s1_def
  by (rule example_step) (simp_all add: run_open run_admit [unfolded run_request_def] run_handler [unfolded run_request_def])

lemma run_commit:
  "commit run_s0 run_request (PersistState (unary_encode (quorum_st []))) 2000 = (Open, run_s1)"
  by (simp add: commit_def Let_def run_s1_def after_def run_request_def run_open consume_id_def record_participant_activity_def)

lemma run_step1: "process run_ext run_request None run_rt1 = (Ok \<lparr>pr_session_state = Open, pr_duplicate = False\<rparr>, run_rt2)"
proof -
  have ids: "e_session_id run_request = sid" "e_message_type run_request = ''ApprovalRequest''"
    "e_mode run_request = qmode" "e_message_id run_request = ''m1''"
    by (simp_all add: run_request_def)
  have pre: "check_preconditions run_s0 run_request 2000 = Ok PcProceed"
    by (simp add: preconditions_proceed shape_ok_iff MACP_VERSION_def deadline_passed_def run_open run_request_def)
  have sy: "synthesize_due_accept run_ext sid run_s0 2000 rt = (Ok False, run_s0, rt)" if "rt_modes rt = example_modes" for rt
    using that by (simp add: synthesize_due_accept_def run_open example_quorum_mode next_synthetic_def run_admit)
  have disp: "dispatch run_s0 run_request Q 2000 = Ok (PersistState (unary_encode (quorum_st [])))"
    by (simp add: dispatch_def run_handler)
  have ad: "admit run_s0 run_request Q = Ok ()" by (simp add: admit_def run_admit)
  have cc: "check_component sid" by (simp add: check_component_def)
  have s1: "s_session_id run_s1 = sid" "s_mode run_s1 = qmode" by (simp_all add: run_s1_def run_open)
  have acc: "accept_message run_ext run_request Q 2000 run_s0 (run_rt1\<lparr>rt_ticks := 2\<rparr>) =
      (Ok \<lparr>pr_session_state = Open, pr_duplicate = False\<rparr>, run_s1, run_rt2\<lparr>rt_sessions := rt_sessions run_rt1\<rparr>)"
    by (simp add: accept_message_def ids disp run_commit Let_def append_entry_def storage_call_def append_log_entry_def
        save_session_to_storage_def save_session_def run_encoded1 cc s1 run_rt1_def run_rt2_def run_log_def
        log_append_def unwrap_or_def maybe_insert_checkpoint_def force_insert_checkpoint_def get_log_def now_ms_def
        publish_accepted_envelope_def numeral_2_eq_2 numeral_3_eq_3)
  have "message_on_session run_ext run_request run_s0 run_rt1 =
      (Ok \<lparr>pr_session_state = Open, pr_duplicate = False\<rparr>, run_s1, run_rt2\<lparr>rt_sessions := rt_sessions run_rt1\<rparr>)"
    using pre ad sy acc
    by (simp add: message_on_session_def now_ms_def run_rt1_def run_open example_quorum_mode ids numeral_2_eq_2)
  then show ?thesis
    by (simp add: process_def ids process_message_def with_session_def put_session_def run_rt1_def run_rt2_def)
qed

lemma run_reached:
  "runtime_run run_ext example_pol example_sh allow_all run_rt0"
  "runtime_run run_ext example_pol example_sh allow_all run_rt1"
  "runtime_run run_ext example_pol example_sh allow_all run_rt2"
proof -
  have modes: "mode_registry_run example_sh allow_all example_modes"
    unfolding example_modes_def by (rule modes_default)
  show 0: "runtime_run run_ext example_pol example_sh allow_all run_rt0"
    unfolding run_rt0_def by (rule runtime_run.run_new [OF modes])
  have "start_allowed run_ext example_pol run_start run_rt0" by (simp add: start_allowed_def unused_def)
  then show 1: "runtime_run run_ext example_pol example_sh allow_all run_rt1"
    using runtime_run.run_process [OF 0, of run_start None] run_step0 by simp
  have "start_allowed run_ext example_pol run_request run_rt1" by (simp add: start_allowed_def run_request_def)
  then show "runtime_run run_ext example_pol example_sh allow_all run_rt2"
    using runtime_run.run_process [OF 1, of run_request None] run_step1 by simp
qed

lemma run_clock: "\<forall>n. rx_clock run_ext n \<noteq> 0"
  by simp

section \<open>Expiry, eviction, and the same identifier again\<close>

definition expired_entry :: LogEntry where
  "expired_entry = make_internal_entry ''TtlExpired'' [] sid qmode 70000"

definition run_rt3 :: Runtime where
  "run_rt3 = run_rt2\<lparr>rt_sessions := [sid \<mapsto> run_s1\<lparr>s_state := Expired\<rparr>], rt_logs := [sid \<mapsto> run_log @ [expired_entry]],
     rt_disk := [sid \<mapsto> \<lparr>sd_log = run_log @ [expired_entry], sd_snapshot = Some (PersistedSession_from run_s1)\<rparr>],
     rt_lifecycle := [LcCreated sid, LcExpired sid], rt_ticks := 4, rt_calls := 8\<rparr>"

definition run_rt4 :: Runtime where
  "run_rt4 = run_rt3\<lparr>rt_sessions := Map.empty, rt_logs := Map.empty, rt_ticks := 5\<rparr>"

lemma unknown_encoding:
  "pse_state p = Expired \<or> pse_started_at_unix_ms p = 70000 \<Longrightarrow> lx_encode_session run_ext p = None"
  by (auto simp: run_ext_def PersistedSession_from_def run_s0_def run_s1_def after_def consume_id_def
      record_participant_activity_def opened_def fresh_def Session_builder_def)

lemma run_step2: "cleanup_expired_sessions run_ext run_rt2 = run_rt3"
proof -
  let ?s = "run_s1\<lparr>s_state := Expired\<rparr>"
  have s1: "s_session_id run_s1 = sid" "s_mode run_s1 = qmode" "s_state run_s1 = Open" "s_ttl_expiry run_s1 = 61000"
    by (simp_all add: run_s1_def run_open)
  have cc: "check_component sid" by (simp add: check_component_def)
  have en: "lx_encode_session run_ext (PersistedSession_from ?s) = None"
    by (rule unknown_encoding) (simp add: PersistedSession_from_def)
  have "cleanup_one run_ext 70000 sid (run_rt2\<lparr>rt_ticks := Suc (rt_ticks run_rt2)\<rparr>) = run_rt3"
    by (simp add: cleanup_one_def run_rt2_def run_rt3_def s1 append_entry_def storage_call_def append_log_entry_def cc
        Let_def put_session_def save_session_to_storage_def save_session_def en settle_terminal_def maybe_compact_log_def
        compact_session_log_def force_insert_checkpoint_def send_lifecycle_def log_append_def unwrap_or_def expired_entry_def)
  then show ?thesis by (simp add: cleanup_expired_sessions_def now_ms_def registered_ids_def run_rt2_def)
qed

lemma run_step3: "evict_stale_sessions run_ext 0 run_rt3 = run_rt4"
  by (simp add: evict_stale_sessions_def now_ms_def registered_ids_def run_rt3_def run_rt4_def cutoff_ms_def wrap_i64_def
      run_s1_def after_def consume_id_def record_participant_activity_def run_s0_def opened_def fresh_def
      Session_builder_def forget_session_def remove_session_log_def)

lemma run_step4:
  "\<exists>rt'. process_session_start run_ext run_start None run_rt4 =
     (Ok \<lparr>pr_session_state = Open, pr_duplicate = False\<rparr>, rt')"
proof -
  have ids: "e_session_id run_start = sid" "e_mode run_start = qmode"
    by (simp_all add: run_start_def start_message_def)
  have cc: "check_component sid" by (simp add: check_component_def)
  have st: "s_state (started 70000) = Open" "s_session_id (started 70000) = sid" by (simp_all add: started_def run_open)
  have f: "rt_modes run_rt4 = example_modes" "rt_policies run_rt4 = example_pol" "rt_ticks run_rt4 = 5"
    "rt_sessions run_rt4 = Map.empty"
    "rt_disk run_rt4 = [sid \<mapsto> \<lparr>sd_log = run_log @ [expired_entry], sd_snapshot = Some (PersistedSession_from run_s1)\<rparr>]"
    by (simp_all add: run_rt4_def run_rt3_def run_rt2_def)
  have "\<exists>rt'. commit_start run_ext run_start (run_validated 70000) (started 70000)
      (put_session sid (started 70000) (run_rt4\<lparr>rt_ticks := 6\<rparr>)) =
      (Ok \<lparr>pr_session_state = Open, pr_duplicate = False\<rparr>, rt')"
    by (simp add: commit_start_def Let_def storage_call_def create_session_storage_def append_log_entry_def ids cc st f
        put_session_def)
  then show ?thesis
    using run_validate [of 70000] run_accept [of 70000] run_policy example_quorum_mode session_id_ok
    by (simp add: process_session_start_def ids now_ms_def reserve_slot_def Let_def f)
qed

lemma run_evicted: "runtime_run run_ext example_pol example_sh allow_all run_rt4"
  using runtime_run.run_evict [OF runtime_run.run_cleanup [OF run_reached(3)], of 0] by (simp add: run_step2 run_step3)

end
