(* ===== verification/Runtime_Properties.thy ===== *)
theory Runtime_Properties
  imports Runtime_Examples
begin

text \<open>
  The properties of the runtime, its logs and its registries, each with an application to the run of
  \<^verbatim>\<open>Runtime_Examples\<close>. The reachable states are those of \<^verbatim>\<open>runtime_run\<close>: any sequence of operations, clock
  readings, storage failures and restarts in which a SessionStart does not reuse the identifier of a
  stored session and names a policy that the start-up registry holds, and in which the modes of
  stored logs stay registered. A failed storage call leaves the disk as it was; torn writes and the
  two exclusions are the subject of the last sections.
\<close>

section \<open>Logs and restarts\<close>

lemma storedE: "stored disk i \<Longrightarrow> (\<And>d. disk i = Some d \<Longrightarrow> sd_log d \<noteq> [] \<Longrightarrow> C) \<Longrightarrow> C"
  by (cases "disk i") (auto simp: stored_def)

text \<open>Claim C2. A restart loses nothing: stopping the process and recovering from a working disk, with the
  modes of the stored logs registered as before, succeeds and registers exactly the sessions with a
  stored log, and every session that was registered before is back, equal in everything but the
  participants' activity counters and the pause mark of an expired session. This holds from any
  state a runtime reaches by any sequence of its operations, restarts included, with a clock that
  may jump but never reads zero and with any storage calls failing on the way without touching the
  disk, as long as no SessionStart reuses the identifier of a log still stored or runs under a policy
  that the start-up registry resolves differently, and the modes of stored logs stay registered.\<close>

theorem restart_rebuilds_sessions:
  assumes run: "runtime_run rx pol sh ev rt"
    and laws: "session_codec_law rx" "handoff_codec_law (sh_handoff sh)" "\<forall>n. rx_clock rx n \<noteq> 0"
    and modes: "mode_registry_run sh ev modes" "modes_kept (rt_disk rt) (rt_modes rt) modes"
    and disk: "disk_works rx rt" "strict \<longrightarrow> (\<forall>q. lx_encode_session rx q \<noteq> None)"
  shows "\<exists>report rt'. recover_sessions rx strict (reboot modes pol rt) = (Inr report, rt') \<and>
    rr_recovered report = card {i. stored (rt_disk rt) i} \<and>
    (\<forall>i. rt_sessions rt' i \<noteq> None \<longleftrightarrow> stored (rt_disk rt) i) \<and>
    (\<forall>i s. rt_sessions rt i = Some s \<longrightarrow> (\<exists>r. rt_sessions rt' i = Some r \<and> same_session r s))"
proof -
  have ok: "rt_ok rx pol rt" by (rule run_ok [OF run laws])
  have shipped: "\<forall>m reg. modes m = Some reg \<longrightarrow> shipped_mode (mr_factory reg)"
    using registry_shipped [OF modes(1) laws(2)] by blast
  obtain report rt' where r: "recover_sessions rx strict (reboot modes pol rt) = (Inr report, rt')"
    "rr_recovered report = card {i. stored (rt_disk rt) i}"
    "\<forall>i. rt_sessions rt' i = rebuilt_session rx modes pol (rt_disk rt) i"
    using restart_works [OF ok modes(2) shipped disk] by blast
  have rebuilt: "\<exists>r. rebuilt_session rx modes pol (rt_disk rt) i = Some r \<and>
      (\<forall>s. rt_sessions rt i = Some s \<longrightarrow> same_session r s)" if "stored (rt_disk rt) i" for i
  proof -
    from that obtain d where d: "rt_disk rt i = Some d" "sd_log d \<noteq> []" by (rule storedE)
    obtain s where s: "tracked rx (rt_modes rt) pol i (sd_log d) s" "\<And>s'. rt_sessions rt i = Some s' \<Longrightarrow> s = s'"
      using stored_tracked [OF ok d] by blast
    have "tracked rx modes pol i (sd_log d) s"
      using tracked_kept [OF s(1) d(2)] modes(2) d(1) by (simp add: modes_kept_def)
    then show ?thesis using d s(2) by (auto simp: tracked_def rebuilt_session_def)
  qed
  have reg: "stored (rt_disk rt) i" if "rt_sessions rt i = Some s" for i s
    using okD(1) [OF ok that] tracked_nonempty [of rx "rt_modes rt" pol i _ s]
    by (auto simp: backed_def log_of_def stored_def)
  have "rt_sessions rt' i \<noteq> None \<longleftrightarrow> stored (rt_disk rt) i" for i
    using rebuilt [of i] r(3) by (auto simp: rebuilt_session_def stored_def split: option.splits if_splits)
  moreover have "\<exists>r. rt_sessions rt' i = Some r \<and> same_session r s" if "rt_sessions rt i = Some s" for i s
    using rebuilt [OF reg [OF that]] that r(3) by auto
  ultimately show ?thesis using r(1,2) by blast
qed

theorem restart_rebuilds_sessions_witness:
  "\<exists>report rt' r. recover_sessions run_ext False (reboot example_modes example_pol run_rt2) = (Inr report, rt') \<and>
     rr_recovered report = 1 \<and> rt_sessions rt' sid = Some r \<and> same_session r run_s1"
proof -
  have "mode_registry_run example_sh allow_all example_modes"
    unfolding example_modes_def by (rule modes_default)
  moreover have "modes_kept (rt_disk run_rt2) (rt_modes run_rt2) example_modes"
    by (simp add: modes_kept_def run_rt2_def)
  moreover have "disk_works run_ext run_rt2" by (simp add: disk_works_def)
  ultimately obtain report rt' where
    "recover_sessions run_ext False (reboot example_modes example_pol run_rt2) = (Inr report, rt')"
    "rr_recovered report = card {i. stored (rt_disk run_rt2) i}"
    "\<forall>i s. rt_sessions run_rt2 i = Some s \<longrightarrow> (\<exists>r. rt_sessions rt' i = Some r \<and> same_session r s)"
    using restart_rebuilds_sessions [OF run_reached(3) run_codec run_sh_law run_clock, of example_modes False] by auto
  moreover have "{i. stored (rt_disk run_rt2) i} = {sid}" by (auto simp: stored_def run_rt2_def run_log_def)
  moreover have "rt_sessions run_rt2 sid = Some run_s1" by (simp add: run_rt2_def)
  ultimately show ?thesis by fastforce
qed

text \<open>Claim C21. The log in memory and the log on disk do not diverge: for every registered session they
  are the same list of entries, all of the session's mode, and it replays to the session, up to the
  participants' activity counters and the pause mark of an expired session; for an unregistered one
  there is no log in memory, and a stored log still replays. This holds in any state a runtime
  reaches by any sequence of its operations, restarts included, with a clock that never reads zero and
  with any storage calls failing on the way without touching the disk, as long as no SessionStart
  reuses the identifier of a log still stored or runs under a policy that the start-up registry
  resolves differently, and the modes of stored logs stay registered.\<close>

theorem logs_in_step:
  assumes "runtime_run rx pol sh ev rt"
    and "session_codec_law rx" "handoff_codec_law (sh_handoff sh)" "\<forall>n. rx_clock rx n \<noteq> 0"
  shows "(case rt_sessions rt i of
      Some s \<Rightarrow> (\<exists>es r. rt_logs rt i = Some es \<and> map_option sd_log (rt_disk rt i) = Some es \<and>
        (\<forall>e \<in> set es. le_mode e = s_mode s) \<and> s_session_id s = i \<and>
        replay_session rx i es (rt_modes rt) (Some pol) = Inr r \<and> same_session r s)
    | None \<Rightarrow> rt_logs rt i = None \<and> (stored (rt_disk rt) i \<longrightarrow>
        (\<exists>es r. map_option sd_log (rt_disk rt i) = Some es \<and> replay_session rx i es (rt_modes rt) (Some pol) = Inr r)))"
proof -
  have ok: "rt_ok rx pol rt" by (rule run_ok [OF assms])
  show ?thesis
  proof (cases "rt_sessions rt i")
    case None
    have "\<exists>es r. map_option sd_log (rt_disk rt i) = Some es \<and> replay_session rx i es (rt_modes rt) (Some pol) = Inr r"
      if st: "stored (rt_disk rt) i"
    proof -
      from st obtain d where d: "rt_disk rt i = Some d" "sd_log d \<noteq> []" by (rule storedE)
      obtain s where "tracked rx (rt_modes rt) pol i (sd_log d) s" using stored_tracked [OF ok d] by blast
      then show ?thesis using d(1) by (auto simp: tracked_def)
    qed
    then show ?thesis using None okD(2) [OF ok None] by simp
  next
    case (Some s)
    then show ?thesis
      using okD(1) [OF ok Some] by (auto simp: backed_def log_of_def tracked_def bound_ok_def)
  qed
qed

theorem logs_in_step_witness:
  "\<exists>es r. rt_logs run_rt2 sid = Some es \<and> map_option sd_log (rt_disk run_rt2 sid) = Some es \<and>
     replay_session run_ext sid es (rt_modes run_rt2) (Some example_pol) = Inr r \<and> same_session r run_s1"
proof -
  have "rt_sessions run_rt2 sid = Some run_s1" by (simp add: run_rt2_def)
  then show ?thesis
    using logs_in_step [OF run_reached(3) run_codec run_sh_law run_clock, of sid] by auto
qed

section \<open>Messages\<close>

text \<open>Claim C5. The runtime refines the kernel: with a working disk, processing a message of a
  registered session changes the session exactly as the kernel's step does at the time read, answers
  with the step's outcome, changes no other session, and publishes the envelopes the step synthesized
  followed by the message. The clock may not step back over the session's deadline between the two
  readings of an expiry.\<close>

theorem runtime_refines_kernel:
  assumes "runtime_run rx pol sh ev rt"
    and "session_codec_law rx" "handoff_codec_law (sh_handoff sh)" "\<forall>n. rx_clock rx n \<noteq> 0"
    and "rt_sessions rt (e_session_id env) = Some s" "disk_works rx rt"
    and "deadline_passed (rx_clock rx (rt_ticks rt)) s \<longrightarrow> deadline_passed (rx_clock rx (Suc (rt_ticks rt))) s"
  shows "\<exists>M r s' rt'. instantiate (rt_modes rt) (s_mode s) = Inr M \<and>
     step s env M (rx_clock rx (rt_ticks rt)) = (r, s') \<and>
     process_message rx env rt = (map_sum id (outcome_result s) r, rt') \<and>
     rt_sessions rt' = (rt_sessions rt)(e_session_id env \<mapsto> s') \<and>
     (\<forall>oc. r = Inr oc \<longrightarrow> rt_stream rt' = rt_stream rt @ published env oc)"
  by (rule process_refines_step [OF run_ok [OF assms(1-4)] assms(5-7)])

theorem runtime_refines_kernel_witness:
  "\<exists>rt'. process_message run_ext run_request run_rt1 = (Inr \<lparr>pr_session_state = Open, pr_duplicate = False\<rparr>, rt') \<and>
     rt_sessions rt' = [sid \<mapsto> run_s1] \<and> rt_stream rt' = [run_start, run_request]"
proof -
  have "rt_sessions run_rt1 (e_session_id run_request) = Some run_s0" "disk_works run_ext run_rt1"
    by (simp_all add: run_rt1_def run_request_def disk_works_def)
  moreover have "deadline_passed (rx_clock run_ext (rt_ticks run_rt1)) run_s0 \<longrightarrow>
      deadline_passed (rx_clock run_ext (Suc (rt_ticks run_rt1))) run_s0"
    by (simp add: deadline_passed_def run_open run_rt1_def)
  ultimately obtain M r s' rt' where x: "instantiate (rt_modes run_rt1) (s_mode run_s0) = Inr M"
    "step run_s0 run_request M (rx_clock run_ext (rt_ticks run_rt1)) = (r, s')"
    "process_message run_ext run_request run_rt1 = (map_sum id (outcome_result run_s0) r, rt')"
    "rt_sessions rt' = (rt_sessions run_rt1)(e_session_id run_request \<mapsto> s')"
    "\<forall>oc. r = Inr oc \<longrightarrow> rt_stream rt' = rt_stream run_rt1 @ published run_request oc"
    using runtime_refines_kernel [OF run_reached(2) run_codec run_sh_law run_clock] by blast
  have "M = Q" using x(1) by (simp add: run_open run_rt1_def example_quorum_mode)
  then show ?thesis using x(2-5) run_kernel by (auto simp: run_rt1_def run_request_def)
qed

text \<open>Claim C9. When the disk is down nothing is half done: processing an envelope other than a signal
  changes no session, no log and nothing on disk, broadcasts nothing, and succeeds only for a
  duplicate.\<close>

theorem storage_down_is_harmless:
  assumes "disk_down rx rt" "process rx env mx rt = (r, rt')"
    and "e_message_type env \<noteq> ''Signal''" "e_message_type env \<noteq> ''Progress''"
  shows "rt_sessions rt' = rt_sessions rt \<and> rt_logs rt' = rt_logs rt \<and> rt_disk rt' = rt_disk rt \<and>
    rt_stream rt' = rt_stream rt \<and> rt_lifecycle rt' = rt_lifecycle rt \<and> (\<forall>pr. r = Inr pr \<longrightarrow> pr_duplicate pr)"
  using process_down [OF assms] by (simp add: untouched_def)

theorem storage_down_is_harmless_witness:
  "rt_sessions (snd (process (run_ext\<lparr>rx_fault := \<lambda>_. True\<rparr>) run_request None run_rt1)) = [sid \<mapsto> run_s0]"
proof -
  let ?rx = "run_ext\<lparr>rx_fault := \<lambda>_. True\<rparr>"
  have "disk_down ?rx run_rt1" by (simp add: disk_down_def)
  then have "rt_sessions (snd (process ?rx run_request None run_rt1)) = rt_sessions run_rt1"
    using storage_down_is_harmless [of ?rx run_rt1 run_request None]
    by (cases "process ?rx run_request None run_rt1") (simp add: run_request_def)
  then show ?thesis by (simp add: run_rt1_def)
qed

text \<open>Claim C22. Accepted ordinals are stable for subscribers: once a snapshot of a registered session
  was served up to a high-water mark, processing any further message of the session leaves every
  served ordinal with its envelope and adds only larger ordinals, or reports that the history up to
  at least that mark was compacted away.\<close>

theorem subscription_is_stable:
  assumes "process_message rx env rt = (r, rt')" "rt_logs rt (e_session_id env) = Some es"
    and "subscribe_snapshot rt (e_session_id env) n = Inr (xs, hw)"
  shows "(\<exists>base. subscribe_snapshot rt' (e_session_id env) n = Inl base \<and> hw \<le> base) \<or>
    (\<exists>ys hw'. subscribe_snapshot rt' (e_session_id env) n = Inr (xs @ ys, hw') \<and> hw \<le> hw' \<and>
       (\<forall>(k, e) \<in> set ys. hw < k))"
proof -
  have "log_evolves (e_session_id env) rt rt'"
  proof (cases "rt_sessions rt (e_session_id env)")
    case (Some s)
    obtain r1 s1 rt1 where x: "message_on_session rx env s rt = (r1, s1, rt1)" by (cases "message_on_session rx env s rt")
    then have "rt_logs rt' = rt_logs rt1"
      using assms(1) Some by (auto simp: process_message_def with_session_def put_session_def)
    then show ?thesis using message_evolves [OF x] by (simp add: log_evolves_def)
  qed (use assms(1) in \<open>simp add: process_message_def with_session_def\<close>)
  then show ?thesis using assms(2,3) by (rule subscribe_evolves)
qed

theorem subscription_is_stable_witness:
  "\<exists>ys. subscribe_snapshot run_rt2 sid 0 = Inr ([(1, run_start)] @ ys, 2) \<and> list_all (\<lambda>(k, e). 1 < k) ys"
proof -
  have e0: "envelope_from_log_entry run_entry0 = run_start"
    by (simp add: envelope_from_log_entry_def run_entry0_def make_incoming_entry_def run_start_def start_message_def message_def)
  have "subscribe_snapshot run_rt1 sid 0 = Inr ([(1, run_start)], 1)"
    using subscribe_log [of run_rt1 sid "[run_entry0]" 0] e0
    by (simp add: run_rt1_def compaction_base_def run_entry0_def make_incoming_entry_def numbered_def)
  moreover have "process_message run_ext run_request run_rt1 = (Inr \<lparr>pr_session_state = Open, pr_duplicate = False\<rparr>, run_rt2)"
    using run_step1 by (simp add: process_def run_request_def)
  moreover have "\<exists>xs. subscribe_snapshot run_rt2 sid 0 = Inr (xs, 2)"
    using subscribe_log [of run_rt2 sid run_log 0]
    by (simp add: run_rt2_def run_log_def compaction_base_def run_entry0_def make_incoming_entry_def make_checkpoint_entry_def)
  ultimately show ?thesis
    using subscription_is_stable [of run_ext run_request run_rt1 _ run_rt2 "[run_entry0]" 0 "[(1, run_start)]" 1]
    by (auto simp: run_request_def run_rt1_def list_all_iff)
qed

section \<open>Background tasks\<close>

text \<open>Eviction and garbage collection never touch a session that is still running: an open or
  suspended registered session keeps its registration, its log in memory and its directory, and
  eviction leaves the whole disk alone.\<close>

theorem sweeps_spare_live_sessions:
  assumes "rt_sessions rt j = Some s" "\<not> is_terminal (s_state s)"
  shows "rt_sessions (gc_disk_sessions rx secs rt) j = Some s \<and>
    rt_logs (gc_disk_sessions rx secs rt) j = rt_logs rt j \<and> rt_disk (gc_disk_sessions rx secs rt) j = rt_disk rt j \<and>
    rt_sessions (evict_stale_sessions rx secs rt) j = Some s \<and>
    rt_logs (evict_stale_sessions rx secs rt) j = rt_logs rt j \<and>
    rt_disk (evict_stale_sessions rx secs rt) = rt_disk rt"
  using gc_kept [OF assms(1), of rx secs] evict_kept [OF assms(1), of rx secs] evict_disk [of rx secs rt] assms
  by (auto simp: session_kept_def is_terminal_iff)

theorem sweeps_spare_live_sessions_witness:
  "rt_sessions (gc_disk_sessions run_ext 0 run_rt2) sid = Some run_s1 \<and>
   rt_disk (gc_disk_sessions run_ext 0 run_rt2) sid = rt_disk run_rt2 sid"
  using sweeps_spare_live_sessions [of run_rt2 sid run_s1 run_ext 0]
  by (simp add: run_rt2_def run_s1_def run_open)

lemma cleanup_one_spares: "\<not> overdue now rt j \<Longrightarrow> rt_sessions (cleanup_one rx now i rt) j = rt_sessions rt j"
proof (cases "overdue now rt i")
  case True
  assume "\<not> overdue now rt j"
  then have "j \<noteq> i" using True by auto
  moreover have "rt_sessions rt1 = rt_sessions rt" if "append_entry rx i e rt = (x, rt1)" for e x rt1
    using append_fields(1) [of rx i e rt] that by simp
  ultimately show ?thesis
    by (cases "rt_sessions rt i") (auto simp: cleanup_one_def put_session_def Let_def split: sum.split prod.split)
next
  case False
  then show ?thesis by (auto simp: cleanup_one_def overdue_def split: option.split)
qed

lemma cleanup_spares:
  "\<not> overdue now rt j \<Longrightarrow> rt_sessions (fold (cleanup_one rx now) ids rt) j = rt_sessions rt j"
proof (induction ids arbitrary: rt)
  case (Cons i ids)
  note same = cleanup_one_spares [OF Cons.prems, of rx i]
  then have "\<not> overdue now (cleanup_one rx now i rt) j" using Cons.prems by (simp add: overdue_def)
  then show ?case using Cons.IH same by simp
qed simp

text \<open>Claim C29. The expiry sweep finds every overdue session: with a working disk, no open session is
  past its deadline at the sweep's time afterwards, and every session that was not overdue is as it
  was.\<close>

theorem expiry_sweep_complete:
  assumes run: "runtime_run rx pol sh ev rt"
    and laws: "session_codec_law rx" "handoff_codec_law (sh_handoff sh)" "\<forall>n. rx_clock rx n \<noteq> 0"
    and w: "disk_works rx rt"
  shows "(\<forall>i s. rt_sessions (cleanup_expired_sessions rx rt) i = Some s \<and> s_state s = Open \<longrightarrow>
      rx_clock rx (rt_ticks rt) \<le> s_ttl_expiry s) \<and>
    (\<forall>i s. rt_sessions rt i = Some s \<and> (s_state s \<noteq> Open \<or> rx_clock rx (rt_ticks rt) \<le> s_ttl_expiry s) \<longrightarrow>
      rt_sessions (cleanup_expired_sessions rx rt) i = Some s)"
proof -
  let ?now = "rx_clock rx (rt_ticks rt)" and ?rt1 = "rt\<lparr>rt_ticks := Suc (rt_ticks rt)\<rparr>"
  have ok: "rt_ok rx pol ?rt1"
    using quiet_ok [OF _ run_ok [OF run laws], of ?rt1] by (simp add: quiet_def)
  have w1: "disk_works rx ?rt1" using w by (simp add: disk_works_def)
  have c: "cleanup_expired_sessions rx rt = fold (cleanup_one rx ?now) (registered_ids ?rt1) ?rt1"
    by (simp add: cleanup_expired_sessions_def now_ms_def)
  have "\<not> overdue ?now (cleanup_expired_sessions rx rt) i" for i
    unfolding c cleanup_works [OF laws(1) ok w1] registered_finite [OF ok] by (auto simp: overdue_def)
  moreover have "rt_sessions (cleanup_expired_sessions rx rt) i = rt_sessions rt i" if "\<not> overdue ?now rt i" for i
    unfolding c using cleanup_spares [of ?now ?rt1 i rx] that by (simp add: overdue_def)
  ultimately show ?thesis unfolding overdue_def by (metis not_le option.inject)
qed

theorem expiry_sweep_complete_witness:
  "\<not> (\<exists>s. rt_sessions (cleanup_expired_sessions run_ext run_rt2) sid = Some s \<and> s_state s = Open \<and>
     s_ttl_expiry s = 61000)"
proof -
  have "disk_works run_ext run_rt2" by (simp add: disk_works_def)
  note swept = expiry_sweep_complete [OF run_reached(3) run_codec run_sh_law run_clock this]
  have now: "rx_clock run_ext (rt_ticks run_rt2) = 70000" by (simp add: run_rt2_def)
  show ?thesis using conjunct1 [OF swept, unfolded now] by fastforce
qed

section \<open>Log files\<close>

text \<open>Claim C30. Log files read back: a log file rewritten by compaction and appended to since then parses
  to exactly its entries in order, whatever the next write left behind when it was cut short. A cut
  between two characters leaves a last line that is skipped, or is read if only its line end is
  missing; a cut inside a multibyte character leaves a file that is not UTF-8, and then the whole
  log cannot be read.\<close>

theorem log_file_round_trip:
  assumes "reads_json ec" "\<forall>e \<in> set (es @ es'). entry_text_ok ec e"
    and "entry_text_ok ec e0" "ec_encode ec e0 = torn @ rest"
  shows "parse_log ec (fold (append_line ec) es' (replace_lines ec es) @ torn)
    = (if utf8_ok torn then Some (es @ es' @ (if rest = [] then [e0] else [])) else None)"
proof -
  have "fold (append_line ec) es' (replace_lines ec es) = replace_lines ec (es @ es')"
    by (simp add: appended_lines replace_lines_def)
  then show ?thesis using torn_tail [OF assms] by simp
qed

text \<open>A codec for two entries, whose texts are a single field.\<close>

definition one_field :: "string \<Rightarrow> string" where
  "one_field v = entry_key @ [CHR 0x22] @ v @ [CHR 0x22, CHR ''}'']"

definition letter_codec :: entry_codec where
  "letter_codec = \<lparr>ec_encode = (\<lambda>e. if e = run_entry0 then one_field ''A'' else one_field ''B''),
     ec_decode = (\<lambda>l. if l = one_field ''A'' then Some run_entry0
       else if l = one_field ''B'' then Some expired_entry else None)\<rparr>"

lemma letter_texts: "entry_text_ok letter_codec run_entry0" "entry_text_ok letter_codec expired_entry"
  by (simp_all add: entry_text_ok_def letter_codec_def one_field_def entry_key_def starts_with_def between_def
      run_entry0_def expired_entry_def make_incoming_entry_def make_internal_entry_def)

lemma letter_json: "reads_json letter_codec"
  by (auto simp: reads_json_def letter_codec_def one_field_def entry_key_def json_document_def json_space_def
      json_close_def split: if_splits)

lemma letter_cut: "ec_encode letter_codec expired_entry = take 5 (one_field ''B'') @ drop 5 (one_field ''B'')"
  by (simp add: letter_codec_def run_entry0_def expired_entry_def make_incoming_entry_def
      make_internal_entry_def)

theorem log_file_round_trip_witness:
  "parse_log letter_codec (fold (append_line letter_codec) [expired_entry]
     (replace_lines letter_codec [run_entry0]) @ take 5 (one_field ''B'')) = Some [run_entry0, expired_entry]"
  using log_file_round_trip [OF letter_json _ letter_texts(2) letter_cut, of "[run_entry0]" "[expired_entry]"]
    letter_texts
  by (simp add: one_field_def entry_key_def between_def)

text \<open>Claim C36. Appending to a file whose last line was cut short loses the new entry: wherever the
  text of the earlier entry was cut, its line end included, the new entry is joined to that line and
  the joined line is skipped, so the log reads back without either entry although the append
  succeeded; if the cut fell inside a multibyte character the whole log cannot be read.\<close>

theorem torn_append_loses_entry:
  assumes "reads_json ec" "\<forall>e \<in> set es. entry_text_ok ec e" "entry_text_ok ec e"
    and "entry_text_ok ec e0" "ec_encode ec e0 = torn @ rest" "torn \<noteq> []"
  shows "parse_log ec (append_line ec e (replace_lines ec es @ torn))
    = (if utf8_ok torn then Some es else None)"
  by (rule torn_then_append [OF assms])

theorem torn_append_loses_entry_witness:
  "parse_log letter_codec (append_line letter_codec run_entry0
     (replace_lines letter_codec [run_entry0] @ take 5 (one_field ''B''))) = Some [run_entry0]"
  using torn_append_loses_entry [OF letter_json _ letter_texts(1,2) letter_cut, of "[run_entry0]"] letter_texts
  by (simp add: one_field_def entry_key_def between_def)

section \<open>Where the surroundings matter\<close>

lemma commit_start_log:
  assumes "commit_start rx env v s rt = (Inr pr, rt')" "rt_disk rt (e_session_id env) = Some d"
  shows "map_option sd_log (rt_disk rt' (e_session_id env)) = Some (sd_log d @ [start_entry env v s])"
    "pr_session_state pr = s_state s" "rt_modes rt' = rt_modes rt"
proof -
  let ?i = "e_session_id env" and ?e = "start_entry env v s"
  obtain b1 rt1 where c1: "storage_call rx (create_session_storage ?i) rt = (b1, rt1)"
    by (cases "storage_call rx (create_session_storage ?i) rt")
  obtain b2 rt2 where c2: "storage_call rx (append_log_entry ?i ?e) rt1 = (b2, rt2)"
    by (cases "storage_call rx (append_log_entry ?i ?e) rt1")
  let ?rt3 = "rt2\<lparr>rt_logs := log_append ?i ?e (create_session_log ?i (rt_logs rt2))\<rparr>"
  have r: "b1" "b2" "pr = \<lparr>pr_session_state = s_state s, pr_duplicate = False\<rparr>"
    "rt' = send_lifecycle (LcCreated ?i) (publish_accepted_envelope env (save_session_to_storage rx s ?rt3))"
    using assms(1) c1 c2 by (auto simp: commit_start_def Let_def split: bool.splits)
  have d1: "rt_disk rt1 ?i = Some d"
    using c1 r(1) assms(2) by (auto elim!: storage_call_cases simp: create_session_storage_def split: if_splits)
  have "rt_disk rt2 ?i = Some (d\<lparr>sd_log := sd_log d @ [?e]\<rparr>)"
    using c2 r(2) d1 by (auto elim!: storage_call_cases simp: append_log_entry_def split: if_splits)
  moreover have "quiet ?rt3 rt'" unfolding r(4)
    by (rule quiet_trans [OF quiet_trans [OF quiet_save quiet_sends(1)] quiet_sends(2)])
  moreover have "rt_modes rt2 = rt_modes rt"
    using storage_fields(3) [of rx "create_session_storage ?i" rt] storage_fields(3) [of rx "append_log_entry ?i ?e" rt1]
    by (simp add: c1 c2)
  ultimately show "map_option sd_log (rt_disk rt' ?i) = Some (sd_log d @ [?e])" "pr_session_state pr = s_state s"
    "rt_modes rt' = rt_modes rt"
    by (simp_all add: quiet_def r(3))
qed

text \<open>Claim C34. A session identifier must not be reused while its old log is stored: a SessionStart for an
  evicted, terminated session is accepted and its session registered, but its entry goes behind the
  old log, which still replays to the old session in its terminal state, so a restart brings back
  the old session and loses the acknowledged one.\<close>

theorem reused_id_loses_session:
  assumes i: "e_session_id env = i" "rt_sessions rt i = None" "rt_disk rt i = Some d"
    and old: "replay_session rx i (sd_log d) (rt_modes rt) (Some pol) = Inr r" "is_terminal (s_state r)"
      "instantiate (rt_modes rt) (s_mode r) = Inr M"
    and new: "process_session_start rx env mx rt = (Inr pr, rt')"
  shows "\<exists>s es r'. rt_sessions rt' i = Some s \<and> s_state s = pr_session_state pr \<and>
    map_option sd_log (rt_disk rt' i) = Some es \<and>
    replay_session rx i es (rt_modes rt') (Some pol) = Inr r' \<and> s_state r' = s_state r"
proof -
  let ?reserved = "\<exists>v s rt2. rt_sessions rt2 i = Some s \<and> rt_disk rt2 i = Some d \<and> rt_modes rt2 = rt_modes rt \<and>
      commit_start rx env v s rt2 = (Inr pr, rt')"
  have reserved: ?reserved if "commit_start rx env v s rt2 = (Inr pr, rt')" "rt_sessions rt2 i = Some s"
      "rt_disk rt2 i = Some d" "rt_modes rt2 = rt_modes rt" for v s rt2 using that by blast
  have ?reserved
    using new i(2,3) unfolding process_session_start_def now_ms_def reserve_slot_def Let_def i(1)
    by (auto simp: put_session_def intro: reserved split: if_splits sum.splits option.splits)
  then obtain v s rt2 where c: "rt_sessions rt2 i = Some s" "rt_disk rt2 i = Some d" "rt_modes rt2 = rt_modes rt"
      "commit_start rx env v s rt2 = (Inr pr, rt')" by blast
  note log = commit_start_log [OF c(4), unfolded i(1), OF c(2)]
  let ?e = "start_entry env v s"
  have e: "le_entry_kind ?e = Incoming" by (simp add: start_entry_def)
  have closed: "s_state r \<noteq> Open" using old(2) by (auto simp: is_terminal_iff)
  have "\<exists>r'. replay_entry r i ?e M = (Inr (), r') \<and> s_state r' = s_state r"
    using closed e by (simp add: replay_entry_def replay_event_def apply_envelope_event_def)
  then obtain r' where r': "replay_entry r i ?e M = (Inr (), r')" "s_state r' = s_state r" by blast
  have "replay_session rx i (sd_log d @ [?e]) (rt_modes rt) (Some pol) = Inr r'"
    by (rule replay_session_snoc [OF old(1) _ old(3) r'(1)]) (simp add: e)
  moreover have "rt_sessions rt' i = Some s" using commit_start_registers [OF c(4)] c(1) i(1) by simp
  ultimately show ?thesis using log c(3) r'(2) by auto
qed

theorem reused_id_loses_session_witness:
  "\<exists>pr rt' s es r'. process_session_start run_ext run_start None run_rt4 = (Inr pr, rt') \<and>
     rt_sessions rt' sid = Some s \<and> s_state s = Open \<and> map_option sd_log (rt_disk rt' sid) = Some es \<and>
     replay_session run_ext sid es (rt_modes rt') (Some example_pol) = Inr r' \<and> s_state r' = Expired"
proof -
  obtain rt' where new: "process_session_start run_ext run_start None run_rt4 =
      (Inr \<lparr>pr_session_state = Open, pr_duplicate = False\<rparr>, rt')" using run_step4 by blast
  have f: "rt_modes run_rt4 = example_modes" "rt_sessions run_rt4 sid = None"
    "rt_disk run_rt4 sid = Some \<lparr>sd_log = run_log @ [expired_entry], sd_snapshot = Some (PersistedSession_from run_s1)\<rparr>"
    by (simp_all add: run_rt4_def run_rt3_def run_rt2_def)
  have "rt_ok run_ext example_pol run_rt3"
    using run_ok [OF runtime_run.run_cleanup [OF run_reached(3)] run_codec run_sh_law run_clock] by (simp add: run_step2)
  moreover have "rt_sessions run_rt3 sid = Some (run_s1\<lparr>s_state := Expired\<rparr>)" by (simp add: run_rt3_def)
  ultimately have "backed run_ext example_pol run_rt3 sid (run_s1\<lparr>s_state := Expired\<rparr>)" by (rule okD(1))
  then obtain r where r: "replay_session run_ext sid (run_log @ [expired_entry]) example_modes (Some example_pol) = Inr r"
    "same_session r (run_s1\<lparr>s_state := Expired\<rparr>)"
    by (auto simp: backed_def log_of_def tracked_def run_rt3_def run_rt2_def)
  have st: "s_state r = Expired" "s_mode r = qmode"
    using same_session_state [OF r(2)] bound_mode [OF same_session_bound [OF r(2)]] by (simp_all add: run_s1_def run_open)
  have i: "e_session_id run_start = sid" by (simp add: run_start_def start_message_def)
  have "replay_session run_ext sid (sd_log \<lparr>sd_log = run_log @ [expired_entry], sd_snapshot = Some (PersistedSession_from run_s1)\<rparr>)
      (rt_modes run_rt4) (Some example_pol) = Inr r"
    using r(1) f(1) by simp
  from reused_id_loses_session [OF i f(2,3) this _ _ new, of Q] show ?thesis
    using new st f(1) example_quorum_mode by (auto simp: is_terminal_iff)
qed

text \<open>Claim C35. A policy that is gone at recovery leaves its sessions ungoverned: when the start-up
  registry does not know the policy a SessionStart named, a full replay of the log rebuilds a session
  that carries the policy's name but no definition, and its policy gate admits every commitment, which
  is what the deployment guide warns of.\<close>

theorem lost_policy_is_not_enforced:
  assumes "\<forall>e \<in> set es. le_entry_kind e \<noteq> Checkpoint" "find is_session_start es = Some e"
    and "parse_session_start_payload (sx_decode_start (lx_start rx)) (le_raw_payload e) = Inr p"
    and "ssp_policy_version p \<noteq> []" "resolve pol (ssp_policy_version p) = Inl missing"
    and "le_raw_payload e \<noteq> []" "replay_session rx i es modes (Some pol) = Inr r"
  shows "s_policy_definition r = None \<and> s_policy_version r = ssp_policy_version p \<and>
    enforce_commitment_policy x r m positive = Inr ()"
proof -
  have "last_split (\<lambda>e. le_entry_kind e = Checkpoint) es = None" using assms(1) by (simp add: last_split_None)
  then have "replay_from_start rx i es modes (Some pol) = Inr r"
    using assms(7) unfolding replay_session_iff by (auto simp: checkpoint_replay_iff)
  then obtain k M s where k: "position is_session_start es = Some k"
    "replay_start (lx_start rx) ((entry_start modes i (es ! k))\<lparr>rs_policy := replayed_policy rx (es ! k) (Some pol)\<rparr>) M = Inr s"
    "replay_entries s i (drop 1 es) M = Inr r"
    unfolding start_replay_iff by blast
  have "find is_session_start es = Some (es ! k)" if "position is_session_start es = Some k" for es k
    using that by (induction es arbitrary: k) (auto split: if_splits)
  then have e: "es ! k = e" using k(1) assms(2) by fastforce
  have np: "replayed_policy rx e (Some pol) = None" using assms(3-5) by (simp add: replayed_policy_def)
  have pay: "e_payload (rs_envelope (entry_start modes i e)) = le_raw_payload e"
    by (simp add: entry_start_def Let_def RecordedStart_new_def recorded_envelope_def)
  have resp: "s_policy_version (apply_mode_response resp t) = s_policy_version t"
    "s_policy_definition (apply_mode_response resp t) = s_policy_definition t" for resp and t :: Session
    by (cases resp; simp)+
  have "s_policy_definition s = None \<and> s_policy_version s = ssp_policy_version p"
    using k(2) assms(3,6) pay by (auto simp: e np replay_start_def Let_def res_simps resp consume_id_def split: if_splits)
  moreover have "s_policy_definition r = s_policy_definition s" "s_policy_version r = s_policy_version s"
    using replay_entries_bound [OF k(3)] by (simp_all add: bound_fields_def)
  ultimately show ?thesis by (simp add: enforce_commitment_policy_def)
qed

definition gone_payload :: SessionStartPayload where
  "gone_payload = versioned_payload\<lparr>ssp_policy_version := ''pol''\<rparr>"

definition gone_ext :: runtime_ext where
  "gone_ext = run_ext\<lparr>lx_start := \<lparr>sx_decode_start = (\<lambda>_. Some gone_payload), sx_parse_uuid = (\<lambda>_. None)\<rparr>\<rparr>"

lemma gone_replays: "\<exists>r. replay_session gone_ext sid [run_entry0] example_modes (Some example_pol) = Inr r"
proof -
  have can: "validate_canonical_session_start_payload_for_mode qmode gone_payload = Ok ()"
    by (simp add: validate_canonical_session_start_payload_for_mode_def validate_canonical_start_def gone_payload_def
        extract_ttl_ms_def MAX_TTL_MS_def MAX_PARTICIPANTS_def Let_def version_not_blank)
  have ttl: "extract_ttl_ms gone_payload = Ok 60000"
    by (simp add: extract_ttl_ms_def gone_payload_def MAX_TTL_MS_def)
  have e: "le_entry_kind run_entry0 = Incoming" "le_mode run_entry0 = qmode" "le_message_type run_entry0 = ''SessionStart''"
    "le_raw_payload run_entry0 = ''start''"
    by (simp_all add: run_entry0_def make_incoming_entry_def run_start_def start_message_def)
  have strict: "registry_requires_strict example_modes qmode"
    by (simp add: registry_requires_strict_def example_modes_def build_default_def insert_builtin_def Let_def)
  have st: "m_on_session_start Q s env = Ok (PersistState (unary_encode default_QuorumState))"
    if "s_participants s = [''alice'', ''bob'']" for s env
    using that by (simp add: QuorumMode_def default_mode_def quorum_on_session_start_def example_quorum_def)
  have "\<exists>s. replay_start (lx_start gone_ext)
      ((entry_start example_modes sid run_entry0)\<lparr>rs_policy := replayed_policy gone_ext run_entry0 (Some example_pol)\<rparr>) Q = Inr s"
    using can ttl e strict
    by (auto simp: replay_start_def Let_def entry_start_def RecordedStart_new_def recorded_envelope_def gone_ext_def
        parse_session_start_payload_def unwrap_or_def res_simps st gone_payload_def)
  then show ?thesis
    using e example_quorum_mode
    by (auto simp: replay_session_iff start_replay_iff no_checkpoint_iff is_session_start_def)
qed

theorem lost_policy_is_not_enforced_witness:
  "\<exists>r. replay_session gone_ext sid [run_entry0] example_modes (Some example_pol) = Inr r \<and>
     s_policy_version r = ''pol'' \<and> s_policy_definition r = None"
proof -
  obtain r where r: "replay_session gone_ext sid [run_entry0] example_modes (Some example_pol) = Inr r"
    using gone_replays by blast
  have e: "le_entry_kind run_entry0 = Incoming" "le_message_type run_entry0 = ''SessionStart''"
    "le_raw_payload run_entry0 = ''start''"
    by (simp_all add: run_entry0_def make_incoming_entry_def run_start_def start_message_def)
  have "resolve example_pol ''pol'' = Inl ''pol''"
    by (simp add: resolve_def example_pol_def new_entries) (simp add: policy_ids)
  then show ?thesis
    using lost_policy_is_not_enforced [of "[run_entry0]" run_entry0 gone_ext gone_payload example_pol "''pol''" sid
        example_modes r example_quorum _ True] r e
    by (simp add: is_session_start_def gone_ext_def parse_session_start_payload_def gone_payload_def)
qed

section \<open>The mode registry\<close>

text \<open>Claim C32. Whatever is registered, removed and promoted, the mode registry stays well formed: every
  entry is filed under its own name, runs one of the shipped modes, has a descriptor with a version
  and with Commitment as its only terminal message, a standards-track entry is validated strictly, a
  name in the reserved namespace belongs to a built-in standard mode, and the standard modes are
  registered as they were at start-up.\<close>

theorem mode_registry_well_formed:
  assumes "mode_registry_run sh ev modes" "handoff_codec_law (sh_handoff sh)"
  shows "finite (dom modes) \<and>
    (\<forall>name e. modes name = Some e \<longrightarrow> mr_mode_name e = name \<and> shipped_mode (mr_factory e) \<and>
      (mr_standards_track e \<longrightarrow> mr_strict_session_start e) \<and>
      (\<exists>d. mr_descriptor_provider e = Some d \<and> \<not> blank (md_mode_version d) \<and>
         md_terminal_message_types d \<noteq> [] \<and> set (md_terminal_message_types d) \<subseteq> {''Commitment''} \<and>
         ''Commitment'' \<in> set (md_message_types d)) \<and>
      (starts_with name ''macp.mode.'' \<longrightarrow> mr_builtin e \<and> mr_standards_track e)) \<and>
    (\<forall>name \<in> set STANDARD_MODE_NAMES. modes name = build_default sh ev name)"
  using mode_registry_run_inv [OF assms] by (simp add: mode_registry_inv_def sound_entry_def)

theorem mode_registry_well_formed_witness:
  "finite (dom example_modes) \<and> example_modes qmode = build_default example_sh allow_all qmode"
proof -
  have "mode_registry_run example_sh allow_all example_modes" unfolding example_modes_def by (rule modes_default)
  moreover have "qmode \<in> set STANDARD_MODE_NAMES" by (simp add: STANDARD_MODE_NAMES_def)
  ultimately show ?thesis using mode_registry_well_formed [OF _ run_sh_law] by blast
qed

end
