(* ===== verification/Access.thy ===== *)
theory Access
  imports Errors Rule_Keys
begin

text \<open>
  Who a caller is and how much it may send: the security layer of \<^verbatim>\<open>macp-auth/src/security.rs\<close>, the
  resolver chain of \<^verbatim>\<open>auth/chain.rs\<close> and the static token resolver. Request metadata is a map from header
  names to the values that are readable as text. Resolvers other than the static one (JSON web
  tokens) are elements of the chain like any other. The monotone clock behind \<^verbatim>\<open>Instant\<close> is a
  number of nanoseconds.
\<close>

section \<open>Identities\<close>

record AuthIdentity =
  ai_sender :: string
  ai_allowed_modes :: "string set option"
  ai_can_start_sessions :: bool
  ai_max_open_sessions :: "nat option"
  ai_can_manage_mode_registry :: bool
  ai_is_observer :: bool

record ResolvedIdentity =
  ri_sender :: string
  ri_allowed_modes :: "string set option"
  ri_can_start_sessions :: bool
  ri_max_open_sessions :: "nat option"
  ri_can_manage_mode_registry :: bool
  ri_is_observer :: bool
  ri_resolver :: string

definition AuthIdentity_from :: "ResolvedIdentity \<Rightarrow> AuthIdentity" where
  "AuthIdentity_from resolved =
     \<lparr>ai_sender = ri_sender resolved, ai_allowed_modes = ri_allowed_modes resolved,
      ai_can_start_sessions = ri_can_start_sessions resolved,
      ai_max_open_sessions = ri_max_open_sessions resolved,
      ai_can_manage_mode_registry = ri_can_manage_mode_registry resolved,
      ai_is_observer = ri_is_observer resolved\<rparr>"

datatype AuthError =
    InvalidCredential string
  | CredentialExpired
  | MissingClaim string
  | FetchFailed string

type_synonym metadata = "string \<rightharpoonup> string"

definition bearer_token :: "metadata \<Rightarrow> string option" where
  "bearer_token md =
     (case Option.bind (md ''authorization'') (\<lambda>v. strip_prefix v ''Bearer '') of
        Some t \<Rightarrow> Some t
      | None \<Rightarrow> md ''x-macp-token'')"

section \<open>The resolver chain\<close>

record AuthResolver =
  ar_name :: string
  ar_resolve :: "metadata \<Rightarrow> AuthError + ResolvedIdentity option"

definition static_bearer_resolve ::
    "(string \<rightharpoonup> AuthIdentity) \<Rightarrow> metadata \<Rightarrow> AuthError + ResolvedIdentity option" where
  "static_bearer_resolve identities md =
     (case bearer_token md of
        None \<Rightarrow> Inr None
      | Some token \<Rightarrow>
          if CHR ''.'' \<in> set token then Inr None
          else case identities token of
            Some identity \<Rightarrow>
              Inr (Some \<lparr>ri_sender = ai_sender identity, ri_allowed_modes = ai_allowed_modes identity,
                         ri_can_start_sessions = ai_can_start_sessions identity,
                         ri_max_open_sessions = ai_max_open_sessions identity,
                         ri_can_manage_mode_registry = ai_can_manage_mode_registry identity,
                         ri_is_observer = ai_is_observer identity, ri_resolver = ''static_bearer''\<rparr>)
          | None \<Rightarrow> Inl (InvalidCredential ''token not found in identity map''))"

definition StaticBearerResolver :: "(string \<rightharpoonup> AuthIdentity) \<Rightarrow> AuthResolver" where
  "StaticBearerResolver identities =
     \<lparr>ar_name = ''static_bearer'', ar_resolve = static_bearer_resolve identities\<rparr>"

fun chain_authenticate :: "AuthResolver list \<Rightarrow> metadata \<Rightarrow> AuthIdentity result" where
  "chain_authenticate [] md = Err MacpError.Unauthenticated"
| "chain_authenticate (resolver # resolvers) md =
     (case ar_resolve resolver md of
        Inr (Some identity) \<Rightarrow> Ok (AuthIdentity_from identity)
      | Inr None \<Rightarrow> chain_authenticate resolvers md
      | Inl _ \<Rightarrow> Err MacpError.Unauthenticated)"

section \<open>Rate limits\<close>

type_synonym instant = nat

record RateLimitConfig =
  rl_limit :: nat
  rl_window :: nat

text \<open>A bucket with the counter that paces its sweeps.\<close>

record bucket =
  bk_events :: "string \<rightharpoonup> instant list"
  bk_sweep_counter :: u64

definition SWEEP_EVERY :: u64 where "SWEEP_EVERY = 128"

definition sweep_bucket :: "instant \<Rightarrow> RateLimitConfig \<Rightarrow> (string \<rightharpoonup> instant list) \<Rightarrow> (string \<rightharpoonup> instant list)" where
  "sweep_bucket now config events =
     (\<lambda>sender. case events sender of
        None \<Rightarrow> None
      | Some deque \<Rightarrow> if deque \<noteq> [] \<and> now - last deque \<le> rl_window config then Some deque else None)"

definition check_bucket :: "instant \<Rightarrow> string \<Rightarrow> RateLimitConfig \<Rightarrow> bucket \<Rightarrow> unit result \<times> bucket" where
  "check_bucket now sender config b =
     (let tick = bk_sweep_counter b;
          events = (if tick mod SWEEP_EVERY = 0 then sweep_bucket now config (bk_events b) else bk_events b);
          deque = dropWhile (\<lambda>instant. now - instant > rl_window config)
                    (case events sender of None \<Rightarrow> [] | Some d \<Rightarrow> d);
          counter = (tick + 1) mod 2 ^ 64
      in if length deque \<ge> rl_limit config
         then (Err RateLimited, \<lparr>bk_events = events(sender \<mapsto> deque), bk_sweep_counter = counter\<rparr>)
         else (Ok (), \<lparr>bk_events = events(sender \<mapsto> deque @ [now]), bk_sweep_counter = counter\<rparr>))"

record RateBucket =
  rb_start :: bucket
  rb_message :: bucket

definition default_RateBucket :: RateBucket where
  "default_RateBucket =
     \<lparr>rb_start = \<lparr>bk_events = Map.empty, bk_sweep_counter = 0\<rparr>,
      rb_message = \<lparr>bk_events = Map.empty, bk_sweep_counter = 0\<rparr>\<rparr>"

section \<open>The security layer\<close>

record SecurityLayer =
  sl_identities :: "string \<rightharpoonup> AuthIdentity"
  sl_auth_chain :: "AuthResolver list option"
  sl_max_payload_bytes :: nat
  sl_list_sessions_default_page_size :: nat
  sl_list_sessions_max_page_size :: nat
  sl_session_start_rate :: RateLimitConfig
  sl_message_rate :: RateLimitConfig

definition dev_authenticate :: "metadata \<Rightarrow> AuthIdentity result" where
  "dev_authenticate md =
     (case bearer_token md of
        Some token \<Rightarrow>
          Ok \<lparr>ai_sender = token, ai_allowed_modes = None, ai_can_start_sessions = True,
              ai_max_open_sessions = None, ai_can_manage_mode_registry = True, ai_is_observer = False\<rparr>
      | None \<Rightarrow> Err MacpError.Unauthenticated)"

definition authenticate_metadata :: "SecurityLayer \<Rightarrow> metadata \<Rightarrow> AuthIdentity result" where
  "authenticate_metadata sl md =
     (case sl_auth_chain sl of
        Some chain \<Rightarrow> chain_authenticate chain md
      | None \<Rightarrow>
          if sl_identities sl \<noteq> Map.empty then
            (case bearer_token md of
               Some token \<Rightarrow> ok_or (sl_identities sl token) MacpError.Unauthenticated
             | None \<Rightarrow> Err MacpError.Unauthenticated)
          else dev_authenticate md)"

definition authorize_mode :: "AuthIdentity \<Rightarrow> string \<Rightarrow> bool \<Rightarrow> unit result" where
  "authorize_mode identity mode is_session_start =
     (if is_session_start \<and> \<not> ai_can_start_sessions identity then Err Forbidden
      else case ai_allowed_modes identity of
        Some allowed_modes \<Rightarrow> if mode \<notin> allowed_modes then Err Forbidden else Ok ()
      | None \<Rightarrow> Ok ())"

definition authorize_mode_registry :: "AuthIdentity \<Rightarrow> unit result" where
  "authorize_mode_registry identity =
     (if ai_can_manage_mode_registry identity then Ok () else Err Forbidden)"

definition enforce_rate_limit ::
    "SecurityLayer \<Rightarrow> instant \<Rightarrow> string \<Rightarrow> bool \<Rightarrow> RateBucket \<Rightarrow> unit result \<times> RateBucket" where
  "enforce_rate_limit sl now sender is_session_start rb =
     (if is_session_start then
        (let (r, b) = check_bucket now sender (sl_session_start_rate sl) (rb_start rb)
         in (r, rb\<lparr>rb_start := b\<rparr>))
      else
        (let (r, b) = check_bucket now sender (sl_message_rate sl) (rb_message rb)
         in (r, rb\<lparr>rb_message := b\<rparr>)))"

section \<open>The rate limit against the full history\<close>

text \<open>The specification keeps every admitted request: a request is admitted when fewer than the limit
  of the sender's admitted requests are at most a window old.\<close>

type_synonym history = "(instant \<times> string) list"

definition recent :: "nat \<Rightarrow> instant \<Rightarrow> string \<Rightarrow> history \<Rightarrow> instant list" where
  "recent window now sender h = map fst (filter (\<lambda>(t, s). s = sender \<and> now - t \<le> window) h)"

definition admit_spec :: "RateLimitConfig \<Rightarrow> instant \<Rightarrow> string \<Rightarrow> history \<Rightarrow> bool \<times> history" where
  "admit_spec config now sender h =
     (let ok = length (recent (rl_window config) now sender h) < rl_limit config
      in (ok, if ok then h @ [(now, sender)] else h))"

fun serve :: "RateLimitConfig \<Rightarrow> (instant \<times> string) list \<Rightarrow> bucket \<Rightarrow> bool list \<times> bucket" where
  "serve config [] b = ([], b)"
| "serve config ((now, sender) # reqs) b =
     (case check_bucket now sender config b of
        (r, b1) \<Rightarrow> (case serve config reqs b1 of (rs, b2) \<Rightarrow> ((r = Ok ()) # rs, b2)))"

fun serve_spec :: "RateLimitConfig \<Rightarrow> (instant \<times> string) list \<Rightarrow> history \<Rightarrow> bool list \<times> history" where
  "serve_spec config [] h = ([], h)"
| "serve_spec config ((now, sender) # reqs) h =
     (case admit_spec config now sender h of
        (ok, h1) \<Rightarrow> (case serve_spec config reqs h1 of (oks, h2) \<Rightarrow> (ok # oks, h2)))"

definition deque_of :: "bucket \<Rightarrow> string \<Rightarrow> instant list" where
  "deque_of b sender = (case bk_events b sender of None \<Rightarrow> [] | Some d \<Rightarrow> d)"

text \<open>The bucket holds of each sender's admitted requests those that can still count.\<close>

definition bucket_tracks :: "nat \<Rightarrow> instant \<Rightarrow> bucket \<Rightarrow> history \<Rightarrow> bool" where
  "bucket_tracks window t b h \<longleftrightarrow> sorted (map fst h) \<and> (\<forall>x \<in> set h. fst x \<le> t) \<and>
     (\<forall>sender. sorted (deque_of b sender) \<and>
        (\<forall>now \<ge> t. filter (\<lambda>i. now - i \<le> window) (deque_of b sender) = recent window now sender h))"

lemma sorted_dropWhile_old:
  "sorted (xs :: nat list) \<Longrightarrow> dropWhile (\<lambda>i. w < now - i) xs = filter (\<lambda>i. now - i \<le> w) xs"
proof (induction xs)
  case (Cons x xs)
  show ?case
  proof (cases "w < now - x")
    case False
    then have "filter (\<lambda>i. now - i \<le> w) xs = xs" using Cons.prems by (auto simp: filter_id_conv)
    then show ?thesis using False by simp
  qed (use Cons in auto)
qed simp

lemma sweep_keeps_recent:
  assumes "sorted (case e s of None \<Rightarrow> [] | Some d \<Rightarrow> d)" "now \<le> later"
  shows "filter (\<lambda>i. later - i \<le> rl_window c) (case sweep_bucket now c e s of None \<Rightarrow> [] | Some d \<Rightarrow> d)
    = filter (\<lambda>i. later - i \<le> rl_window c) (case e s of None \<Rightarrow> [] | Some d \<Rightarrow> d)"
proof (cases "e s")
  case (Some d)
  have "filter (\<lambda>i. later - i \<le> rl_window c) d = []" if "d = [] \<or> rl_window c < now - last d"
  proof -
    have "i \<le> last d" if "i \<in> set d" for i
      using that assms(1) Some sorted_nth_mono [of d _ "length d - 1"]
      by (cases "d = []") (auto simp: in_set_conv_nth last_conv_nth)
    then show ?thesis using that assms(2) by (fastforce simp: filter_empty_conv)
  qed
  then show ?thesis using Some by (auto simp: sweep_bucket_def not_le)
qed (simp add: sweep_bucket_def)

lemma check_bucket_tracks:
  assumes tracks: "bucket_tracks (rl_window c) t b h" and now: "t \<le> now"
    and run: "check_bucket now sender c b = (r, b')" and spec: "admit_spec c now sender h = (ok, h')"
  shows "(r = Ok ()) = ok" "bucket_tracks (rl_window c) now b' h'"
proof -
  let ?w = "rl_window c"
  define events where "events = (if bk_sweep_counter b mod SWEEP_EVERY = 0
    then sweep_bucket now c (bk_events b) else bk_events b)"
  define d where "d = (\<lambda>s. case events s of None \<Rightarrow> [] | Some d \<Rightarrow> d)"
  define deque where "deque = dropWhile (\<lambda>i. now - i > ?w) (d sender)"
  have sd: "sorted (d s)" for s
    using tracks unfolding bucket_tracks_def d_def events_def deque_of_def sweep_bucket_def
    by (auto split: option.splits)
  have fd: "filter (\<lambda>i. later - i \<le> ?w) (d s) = recent ?w later s h" if "now \<le> later" for later s
  proof -
    have "filter (\<lambda>i. later - i \<le> ?w) (d s) = filter (\<lambda>i. later - i \<le> ?w) (deque_of b s)"
      using tracks sweep_keeps_recent [of "bk_events b" s now later c] that
      by (auto simp: bucket_tracks_def d_def events_def deque_of_def)
    then show ?thesis using tracks that now by (simp add: bucket_tracks_def)
  qed
  have dq: "deque = recent ?w now sender h"
    unfolding deque_def sorted_dropWhile_old [OF sd] using fd by simp
  have past: "\<forall>x \<in> set h. fst x \<le> now" and sh: "sorted (map fst h)" using tracks now by (auto simp: bucket_tracks_def)
  have dpast: "\<forall>i \<in> set deque. i \<le> now" using past unfolding dq recent_def by auto
  have fdq: "filter (\<lambda>i. later - i \<le> ?w) deque = recent ?w later sender h" if "now \<le> later" for later
  proof -
    have "filter (\<lambda>i. later - i \<le> ?w) deque = filter (\<lambda>i. later - i \<le> ?w) (d sender)"
      unfolding deque_def sorted_dropWhile_old [OF sd] filter_filter
      by (rule filter_cong) (use that in auto)
    then show ?thesis using fd [OF that] by simp
  qed
  have r: "r = (if length deque \<ge> rl_limit c then Err RateLimited else Ok ())"
    and b': "bk_events b' = events(sender \<mapsto> if length deque \<ge> rl_limit c then deque else deque @ [now])"
    using run unfolding check_bucket_def Let_def events_def [symmetric] d_def [symmetric, THEN fun_cong] deque_def [symmetric]
    by (auto split: if_splits)
  have ok: "ok = (length deque < rl_limit c)" "h' = (if ok then h @ [(now, sender)] else h)"
    using spec by (auto simp: admit_spec_def Let_def dq)
  show "(r = Ok ()) = ok" using r ok by auto
  have ds: "deque_of b' s = (if s = sender then if ok then deque @ [now] else deque else d s)" for s
    using b' ok(1) by (simp add: deque_of_def d_def)
  have sdq: "sorted deque" unfolding deque_def sorted_dropWhile_old [OF sd] using sd by (simp add: sorted_wrt_filter)
  have grown: "recent ?w later s (h @ [(now, sender)]) =
      recent ?w later s h @ (if s = sender \<and> later - now \<le> ?w then [now] else [])" for later s
    by (simp add: recent_def)
  show "bucket_tracks ?w now b' h'"
    unfolding bucket_tracks_def ds ok(2)
    using sh past sd sdq dpast fd fdq by (auto simp: sorted_append grown)
qed

lemma serve_tracks:
  assumes "bucket_tracks (rl_window c) t b h" "sorted (t # map fst reqs)"
  shows "fst (serve c reqs b) = fst (serve_spec c reqs h)"
  using assms
proof (induction reqs arbitrary: t b h)
  case (Cons req reqs)
  obtain now sender where req: "req = (now, sender)" by (cases req)
  obtain r b1 where run: "check_bucket now sender c b = (r, b1)" by (cases "check_bucket now sender c b")
  obtain ok h1 where spec: "admit_spec c now sender h = (ok, h1)" by (cases "admit_spec c now sender h")
  have "t \<le> now" "sorted (now # map fst reqs)" using Cons.prems(2) by (auto simp: req)
  note step = check_bucket_tracks [OF Cons.prems(1) this(1) run spec]
  have "fst (serve c reqs b1) = fst (serve_spec c reqs h1)" by (rule Cons.IH [OF step(2)]) fact
  then show ?case using step(1)
    by (cases "serve c reqs b1"; cases "serve_spec c reqs h1") (simp add: req run spec)
qed simp

text \<open>What the specification admits never exceeds the limit in any window.\<close>

definition admitted :: "(instant \<times> string) list \<Rightarrow> bool list \<Rightarrow> history" where
  "admitted reqs oks = map fst (filter snd (zip reqs oks))"

lemma spec_history: "snd (serve_spec c reqs h) = h @ admitted reqs (fst (serve_spec c reqs h))"
proof (induction reqs arbitrary: h)
  case (Cons req reqs)
  obtain now sender where req: "req = (now, sender)" by (cases req)
  obtain ok h1 where spec: "admit_spec c now sender h = (ok, h1)" by (cases "admit_spec c now sender h")
  have "h1 = h @ (if ok then [req] else [])" using spec by (auto simp: admit_spec_def Let_def req split: if_splits)
  then show ?case
    using Cons.IH [of h1] by (cases "serve_spec c reqs h1") (simp add: req spec admitted_def)
qed (simp add: admitted_def)

definition in_window :: "nat \<Rightarrow> instant \<Rightarrow> string \<Rightarrow> history \<Rightarrow> nat" where
  "in_window window t0 sender h = length (filter (\<lambda>(t, s). s = sender \<and> t0 \<le> t \<and> t \<le> t0 + window) h)"

definition within_limit :: "RateLimitConfig \<Rightarrow> history \<Rightarrow> bool" where
  "within_limit c h \<longleftrightarrow> (\<forall>t0 sender. in_window (rl_window c) t0 sender h \<le> rl_limit c)"

lemma admit_within_limit:
  assumes "within_limit c h" "\<forall>x \<in> set h. fst x \<le> now" "admit_spec c now sender h = (ok, h')"
  shows "within_limit c h'"
proof -
  let ?w = "rl_window c"
  have "in_window ?w t0 s (h @ [(now, sender)]) \<le> rl_limit c"
    if ok: "length (recent ?w now sender h) < rl_limit c" for t0 s
  proof (cases "s = sender \<and> t0 \<le> now \<and> now \<le> t0 + ?w")
    case True
    have "length (filter (\<lambda>(t, s). s = sender \<and> t0 \<le> t \<and> t \<le> t0 + ?w) h)
        \<le> length (filter (\<lambda>(t, s). s = sender \<and> now - t \<le> ?w) h)"
      using True by (induction h) auto
    then show ?thesis using ok True by (simp add: in_window_def recent_def)
  next
    case False
    then show ?thesis using assms(1) by (auto simp: within_limit_def in_window_def)
  qed
  then show ?thesis using assms(1,3) by (auto simp: admit_spec_def Let_def within_limit_def split: if_splits)
qed

lemma spec_within_limit:
  assumes "within_limit c h" "\<forall>x \<in> set h. fst x \<le> t" "sorted (t # map fst reqs)"
  shows "within_limit c (snd (serve_spec c reqs h))"
  using assms
proof (induction reqs arbitrary: t h)
  case (Cons req reqs)
  obtain now sender where req: "req = (now, sender)" by (cases req)
  obtain ok h1 where spec: "admit_spec c now sender h = (ok, h1)" by (cases "admit_spec c now sender h")
  have past: "\<forall>x \<in> set h. fst x \<le> now" and s: "sorted (now # map fst reqs)" using Cons.prems(2,3) by (auto simp: req)
  have "\<forall>x \<in> set h1. fst x \<le> now" using spec past by (auto simp: admit_spec_def Let_def split: if_splits)
  then have "within_limit c (snd (serve_spec c reqs h1))"
    by (rule Cons.IH [OF admit_within_limit [OF Cons.prems(1) past spec] _ s])
  then show ?case by (cases "serve_spec c reqs h1") (simp add: req spec)
qed simp

end
