(* ===== verification/Server.thy ===== *)
theory Server
  imports Access Runtime
begin

text \<open>
  The service in front of the runtime (\<^verbatim>\<open>src/server.rs\<close>): admission of envelopes, reads, the control
  requests and the administration of the registries. A handler takes the metadata and the
  fields of its request and returns its answer or the error it reports, with the new state. The texts
  of error messages, the wall-clock time in an acknowledgement, spans and counters are left out; a policy
  descriptor is taken after its conversion to a definition.

  The external policy engine is asked in the order of the code and may answer differently each time:
  its functions take the number of the consultation. The order in which a hash map yields its keys is
  a parameter too.
\<close>

section \<open>State\<close>

record PolicyEngine =
  pe_evaluate_session_start :: "nat \<Rightarrow> AuthIdentity \<Rightarrow> string \<Rightarrow> Envelope \<Rightarrow> PolicyDecision"
  pe_evaluate_message :: "nat \<Rightarrow> AuthIdentity \<Rightarrow> Session \<Rightarrow> Envelope \<Rightarrow> PolicyDecision"
  pe_evaluate_session_access :: "nat \<Rightarrow> AuthIdentity \<Rightarrow> Session \<Rightarrow> PolicyDecision"

record server_ext =
  vx_runtime :: runtime_ext
  vx_instant :: "nat \<Rightarrow> instant"
  vx_mode :: mode_ext
  vx_shipped :: shipped_ext
  vx_policies :: registry_ext
  vx_base64_encode :: "bytes \<Rightarrow> string"
  vx_base64_decode :: "string \<Rightarrow> bytes option"
  vx_key_order :: "string set \<Rightarrow> string list"

record MacpServer =
  sv_security :: SecurityLayer
  sv_policy_engine :: "PolicyEngine option"
  sv_policies_read_only :: bool

record service =
  ss_runtime :: Runtime
  ss_rates :: RateBucket
  ss_instants :: nat
  ss_consults :: nat

definition rate_limit :: "server_ext \<Rightarrow> MacpServer \<Rightarrow> string \<Rightarrow> bool \<Rightarrow> service \<Rightarrow> unit result \<times> service" where
  "rate_limit vx srv sender starts st =
     (let (r, rates) = enforce_rate_limit (sv_security srv) (vx_instant vx (ss_instants st)) sender
                         starts (ss_rates st)
      in (r, st\<lparr>ss_rates := rates, ss_instants := Suc (ss_instants st)\<rparr>))"

definition on_runtime :: "(Runtime \<Rightarrow> 'a \<times> Runtime) \<Rightarrow> service \<Rightarrow> 'a \<times> service" where
  "on_runtime f st = (let (r, rt) = f (ss_runtime st) in (r, st\<lparr>ss_runtime := rt\<rparr>))"

section \<open>Admission of envelopes\<close>

definition require_decision :: "PolicyDecision \<Rightarrow> unit result" where
  "require_decision decision = (case decision of Allow _ \<Rightarrow> Ok () | Deny reasons \<Rightarrow> Err (PolicyDenied reasons))"

definition enforce_ingress_policy ::
    "server_ext \<Rightarrow> MacpServer \<Rightarrow> AuthIdentity \<Rightarrow> Envelope \<Rightarrow> service \<Rightarrow> unit result \<times> service" where
  "enforce_ingress_policy vx srv identity env st =
     (case sv_policy_engine srv of
        None \<Rightarrow> (Ok (), st)
      | Some engine \<Rightarrow>
          (let n = ss_consults st; asked = (\<lambda>st. st\<lparr>ss_consults := Suc n\<rparr>)
           in if e_message_type env = ''SessionStart'' then
                (require_decision (pe_evaluate_session_start engine n identity (e_mode env) env), asked st)
              else if e_session_id env \<noteq> [] then
                (case on_runtime (get_session_checked (vx_runtime vx) (e_session_id env)) st of
                   (Some s, st1) \<Rightarrow> (require_decision (pe_evaluate_message engine n identity s env), asked st1)
                 | (None, st1) \<Rightarrow> (Ok (), st1))
              else (Ok (), st)))"

definition server_envelope_shape :: "SecurityLayer \<Rightarrow> Envelope \<Rightarrow> unit result" where
  "server_envelope_shape sl env =
     (let is_ambient_type = e_message_type env = ''Signal'' \<or> e_message_type env = ''Progress''
      in if e_macp_version env \<noteq> MACP_VERSION then Err InvalidMacpVersion
         else if e_message_type env = [] \<or> e_message_id env = [] then Err InvalidEnvelope
         else if e_message_type env = ''Signal'' \<and> e_session_id env \<noteq> [] then Err InvalidEnvelope
         else if e_message_type env = ''Signal'' \<and> \<not> blank (e_mode env) then Err InvalidEnvelope
         else if e_message_type env = ''Progress'' \<and> (e_session_id env = []) \<noteq> blank (e_mode env) then Err InvalidEnvelope
         else if \<not> is_ambient_type \<and> e_session_id env = [] then Err InvalidEnvelope
         else if \<not> is_ambient_type \<and> blank (e_mode env) then Err InvalidEnvelope
         else if length (e_payload env) > sl_max_payload_bytes sl then Err PayloadTooLarge
         else Ok ())"

definition apply_authenticated_sender :: "AuthIdentity \<Rightarrow> Envelope \<Rightarrow> Envelope result" where
  "apply_authenticated_sender identity env =
     (if e_sender env \<noteq> [] \<and> e_sender env \<noteq> ai_sender identity then Err MacpError.Unauthenticated
      else Ok (env\<lparr>e_sender := ai_sender identity\<rparr>))"

definition authorize_send ::
    "server_ext \<Rightarrow> MacpServer \<Rightarrow> AuthIdentity \<Rightarrow> Envelope \<Rightarrow> service
     \<Rightarrow> (Envelope \<times> nat option) result \<times> service" where
  "authorize_send vx srv identity env st =
     (case apply_authenticated_sender identity env of
        Inl e \<Rightarrow> (Inl e, st)
      | Inr env1 \<Rightarrow>
          (let starts = e_message_type env1 = ''SessionStart''
           in case authorize_mode identity (e_mode env1) starts of
                Inl e \<Rightarrow> (Inl e, st)
              | Inr _ \<Rightarrow>
                  (case rate_limit vx srv (ai_sender identity) starts st of
                     (Inl e, st1) \<Rightarrow> (Inl e, st1)
                   | (Inr _, st1) \<Rightarrow>
                       (case enforce_ingress_policy vx srv identity env1 st1 of
                          (Inl e, st2) \<Rightarrow> (Inl e, st2)
                        | (Inr _, st2) \<Rightarrow>
                            (Ok (env1, if starts then ai_max_open_sessions identity else None), st2)))))"

record Ack =
  ack_ok :: bool
  ack_duplicate :: bool
  ack_message_id :: string
  ack_session_id :: string
  ack_session_state :: "SessionState option"
  ack_error :: "MacpError option"

definition make_error_ack :: "MacpError \<Rightarrow> Envelope \<Rightarrow> Ack" where
  "make_error_ack e env =
     \<lparr>ack_ok = False, ack_duplicate = False, ack_message_id = e_message_id env,
      ack_session_id = e_session_id env, ack_session_state = None, ack_error = Some e\<rparr>"

definition finish_send :: "Envelope \<Rightarrow> (Envelope \<times> ProcessResult) result \<Rightarrow> Ack" where
  "finish_send raw r =
     (case r of
        Inr (env, process_result) \<Rightarrow>
          \<lparr>ack_ok = True, ack_duplicate = pr_duplicate process_result, ack_message_id = e_message_id env,
           ack_session_id = e_session_id env, ack_session_state = Some (pr_session_state process_result),
           ack_error = None\<rparr>
      | Inl e \<Rightarrow> make_error_ack e raw)"

definition send_authenticated ::
    "server_ext \<Rightarrow> MacpServer \<Rightarrow> AuthIdentity \<Rightarrow> Envelope \<Rightarrow> service \<Rightarrow> Ack \<times> service" where
  "send_authenticated vx srv identity env st =
     (case server_envelope_shape (sv_security srv) env of
        Inl e \<Rightarrow> (finish_send env (Inl e), st)
      | Inr _ \<Rightarrow>
          (case authorize_send vx srv identity env st of
             (Inl e, st1) \<Rightarrow> (finish_send env (Inl e), st1)
           | (Inr (bound, max_open), st1) \<Rightarrow>
               (case on_runtime (process (vx_runtime vx) bound max_open) st1 of
                  (r, st2) \<Rightarrow> (finish_send env (map_sum id (Pair bound) r), st2))))"

definition send :: "server_ext \<Rightarrow> MacpServer \<Rightarrow> metadata \<Rightarrow> Envelope option \<Rightarrow> service \<Rightarrow> Ack result \<times> service" where
  "send vx srv md envelope st =
     (case envelope of
        None \<Rightarrow> (Err InvalidEnvelope, st)
      | Some env \<Rightarrow>
          (case and_then (server_envelope_shape (sv_security srv) env)
                  (\<lambda>_. authenticate_metadata (sv_security srv) md) of
             Inr identity \<Rightarrow> (case send_authenticated vx srv identity env st of (ack, st1) \<Rightarrow> (Ok ack, st1))
           | Inl e \<Rightarrow> (Ok (finish_send env (Inl e)), st)))"

section \<open>Reads\<close>

definition authorize_session_read ::
    "MacpServer \<Rightarrow> AuthIdentity \<Rightarrow> Session \<Rightarrow> service \<Rightarrow> unit result \<times> service" where
  "authorize_session_read srv identity s st =
     (let allowed = ai_is_observer identity \<or> s_initiator_sender s = ai_sender identity
            \<or> ai_sender identity \<in> set (s_participants s)
      in if \<not> allowed then (Err Forbidden, st)
         else case sv_policy_engine srv of
           None \<Rightarrow> (Ok (), st)
         | Some engine \<Rightarrow>
             (case pe_evaluate_session_access engine (ss_consults st) identity s of
                Allow _ \<Rightarrow> Ok ()
              | Deny _ \<Rightarrow> Err Forbidden, st\<lparr>ss_consults := Suc (ss_consults st)\<rparr>))"

definition authenticate_session_access ::
    "server_ext \<Rightarrow> MacpServer \<Rightarrow> metadata \<Rightarrow> string \<Rightarrow> service \<Rightarrow> AuthIdentity result \<times> service" where
  "authenticate_session_access vx srv md session_id st =
     (case authenticate_metadata (sv_security srv) md of
        Inl e \<Rightarrow> (Inl e, st)
      | Inr identity \<Rightarrow>
          (case on_runtime (get_session_checked (vx_runtime vx) session_id) st of
             (None, st1) \<Rightarrow> (Err UnknownSession, st1)
           | (Some s, st1) \<Rightarrow>
               (case authorize_session_read srv identity s st1 of
                  (Inl e, st2) \<Rightarrow> (Inl e, st2)
                | (Inr _, st2) \<Rightarrow> (Ok identity, st2))))"

record SessionMetadata =
  sm_session_id :: string
  sm_mode :: string
  sm_state :: SessionState
  sm_started_at_unix_ms :: i64
  sm_expires_at_unix_ms :: i64
  sm_mode_version :: string
  sm_configuration_version :: string
  sm_policy_version :: string
  sm_participants :: "string list"
  sm_participant_activity :: "string \<rightharpoonup> i64 \<times> u32"
  sm_initiator :: string
  sm_context_id :: string
  sm_extension_keys :: "string set"

definition session_to_metadata :: "Session \<Rightarrow> SessionMetadata" where
  "session_to_metadata s =
     \<lparr>sm_session_id = s_session_id s, sm_mode = s_mode s, sm_state = s_state s,
      sm_started_at_unix_ms = s_started_at_unix_ms s, sm_expires_at_unix_ms = s_ttl_expiry s,
      sm_mode_version = s_mode_version s, sm_configuration_version = s_configuration_version s,
      sm_policy_version = s_policy_version s, sm_participants = s_participants s,
      sm_participant_activity =
        (\<lambda>pid. map_option (\<lambda>count. (case s_participant_last_seen s pid of None \<Rightarrow> 0 | Some t \<Rightarrow> t, count))
                 (s_participant_message_counts s pid)),
      sm_initiator = s_initiator_sender s, sm_context_id = s_context_id s,
      sm_extension_keys = dom (s_extensions s)\<rparr>"

definition get_session ::
    "server_ext \<Rightarrow> MacpServer \<Rightarrow> metadata \<Rightarrow> string \<Rightarrow> service \<Rightarrow> SessionMetadata result \<times> service" where
  "get_session vx srv md session_id st =
     (case authenticate_session_access vx srv md session_id st of
        (Inl e, st1) \<Rightarrow> (Inl e, st1)
      | (Inr _, st1) \<Rightarrow>
          (case on_runtime (get_session_checked (vx_runtime vx) session_id) st1 of
             (None, st2) \<Rightarrow> (Err UnknownSession, st2)
           | (Some s, st2) \<Rightarrow> (Ok (session_to_metadata s), st2)))"

section \<open>Control of a session\<close>

text \<open>The three control handlers share their code up to the runtime operation they call.\<close>

definition control_ack :: "string \<Rightarrow> ProcessResult result \<Rightarrow> Ack" where
  "control_ack session_id r =
     (case r of
        Inr result \<Rightarrow>
          \<lparr>ack_ok = True, ack_duplicate = False, ack_message_id = [], ack_session_id = session_id,
           ack_session_state = Some (pr_session_state result), ack_error = None\<rparr>
      | Inl e \<Rightarrow>
          \<lparr>ack_ok = False, ack_duplicate = False, ack_message_id = [], ack_session_id = session_id,
           ack_session_state = None, ack_error = Some e\<rparr>)"

definition control_session ::
    "server_ext \<Rightarrow> MacpServer \<Rightarrow> metadata \<Rightarrow> string
     \<Rightarrow> (string \<Rightarrow> Runtime \<Rightarrow> ProcessResult result \<times> Runtime) \<Rightarrow> service \<Rightarrow> Ack result \<times> service" where
  "control_session vx srv md session_id operation st =
     (case authenticate_metadata (sv_security srv) md of
        Inl e \<Rightarrow> (Inl e, st)
      | Inr identity \<Rightarrow>
          (case on_runtime (get_session_checked (vx_runtime vx) session_id) st of
             (None, st1) \<Rightarrow> (Err UnknownSession, st1)
           | (Some s, st1) \<Rightarrow>
               if ai_sender identity \<noteq> s_initiator_sender s
                  \<and> check_commitment_authority (vx_mode vx) s (ai_sender identity) \<noteq> Ok ()
               then (Err Forbidden, st1)
               else (case on_runtime (operation (ai_sender identity)) st1 of
                       (r, st2) \<Rightarrow> (Ok (control_ack session_id r), st2))))"

definition cancel_request ::
    "server_ext \<Rightarrow> MacpServer \<Rightarrow> metadata \<Rightarrow> string \<Rightarrow> string \<Rightarrow> service \<Rightarrow> Ack result \<times> service" where
  "cancel_request vx srv md session_id reason st =
     control_session vx srv md session_id (cancel_session (vx_runtime vx) session_id reason) st"

definition suspend_request ::
    "server_ext \<Rightarrow> MacpServer \<Rightarrow> metadata \<Rightarrow> string \<Rightarrow> string \<Rightarrow> service \<Rightarrow> Ack result \<times> service" where
  "suspend_request vx srv md session_id reason st =
     control_session vx srv md session_id (suspend_session (vx_runtime vx) session_id reason) st"

definition resume_request ::
    "server_ext \<Rightarrow> MacpServer \<Rightarrow> metadata \<Rightarrow> string \<Rightarrow> string \<Rightarrow> service \<Rightarrow> Ack result \<times> service" where
  "resume_request vx srv md session_id reason st =
     control_session vx srv md session_id (resume_session (vx_runtime vx) session_id reason) st"

section \<open>Administration of the registries\<close>

definition manage_registry :: "MacpServer \<Rightarrow> metadata \<Rightarrow> unit result" where
  "manage_registry srv md =
     and_then (authenticate_metadata (sv_security srv) md) authorize_mode_registry"

definition register_ext_mode ::
    "server_ext \<Rightarrow> MacpServer \<Rightarrow> metadata \<Rightarrow> ModeDescriptor option \<Rightarrow> service
     \<Rightarrow> unit checked result \<times> service" where
  "register_ext_mode vx srv md mode_descriptor st =
     (case and_then (manage_registry srv md) (\<lambda>_. ok_or mode_descriptor InvalidRequest) of
        Inl e \<Rightarrow> (Inl e, st)
      | Inr descriptor \<Rightarrow>
          (let (r, modes) = register_extension (vx_shipped vx) (rt_modes (ss_runtime st)) descriptor
           in (Ok r, st\<lparr>ss_runtime := (ss_runtime st)\<lparr>rt_modes := modes\<rparr>\<rparr>)))"

definition unregister_ext_mode ::
    "MacpServer \<Rightarrow> metadata \<Rightarrow> string \<Rightarrow> service \<Rightarrow> unit checked result \<times> service" where
  "unregister_ext_mode srv md mode st =
     (case manage_registry srv md of
        Inl e \<Rightarrow> (Inl e, st)
      | Inr _ \<Rightarrow>
          (let (r, modes) = unregister_extension (rt_modes (ss_runtime st)) mode
           in (Ok r, st\<lparr>ss_runtime := (ss_runtime st)\<lparr>rt_modes := modes\<rparr>\<rparr>)))"

definition promote_mode_request ::
    "MacpServer \<Rightarrow> metadata \<Rightarrow> string \<Rightarrow> string \<Rightarrow> service \<Rightarrow> string checked result \<times> service" where
  "promote_mode_request srv md mode promoted_mode_name st =
     (case manage_registry srv md of
        Inl e \<Rightarrow> (Inl e, st)
      | Inr _ \<Rightarrow>
          (let new_name = (if promoted_mode_name = [] then None else Some promoted_mode_name);
               (r, modes) = promote_mode (rt_modes (ss_runtime st)) mode new_name
           in (Ok r, st\<lparr>ss_runtime := (ss_runtime st)\<lparr>rt_modes := modes\<rparr>\<rparr>)))"

definition register_policy ::
    "server_ext \<Rightarrow> MacpServer \<Rightarrow> metadata \<Rightarrow> PolicyDefinition option \<Rightarrow> service
     \<Rightarrow> unit checked result \<times> service" where
  "register_policy vx srv md policy_descriptor st =
     (if sv_policies_read_only srv then (Err RegistryReadOnly, st)
      else case and_then (manage_registry srv md) (\<lambda>_. ok_or policy_descriptor InvalidRequest) of
        Inl e \<Rightarrow> (Inl e, st)
      | Inr definition' \<Rightarrow>
          (let (r, policies) = register (vx_policies vx) (rt_policies (ss_runtime st)) definition'
           in (Ok r, st\<lparr>ss_runtime := (ss_runtime st)\<lparr>rt_policies := policies\<rparr>\<rparr>)))"

definition unregister_policy ::
    "MacpServer \<Rightarrow> metadata \<Rightarrow> string \<Rightarrow> service \<Rightarrow> unit checked result \<times> service" where
  "unregister_policy srv md policy_id st =
     (if sv_policies_read_only srv then (Err RegistryReadOnly, st)
      else case manage_registry srv md of
        Inl e \<Rightarrow> (Inl e, st)
      | Inr _ \<Rightarrow>
          (let (r, policies) = unregister (rt_policies (ss_runtime st)) policy_id
           in (Ok r, st\<lparr>ss_runtime := (ss_runtime st)\<lparr>rt_policies := policies\<rparr>\<rparr>)))"

definition what_if_request ::
    "server_ext \<Rightarrow> MacpServer \<Rightarrow> metadata \<Rightarrow> string \<Rightarrow> PolicyDefinition option \<Rightarrow> service
     \<Rightarrow> WhatIfRun result \<times> service" where
  "what_if_request vx srv md session_id candidate st =
     (case authenticate_session_access vx srv md session_id st of
        (Inl e, st1) \<Rightarrow> (Inl e, st1)
      | (Inr identity, st1) \<Rightarrow>
          (case rate_limit vx srv (ai_sender identity) False st1 of
             (Inl e, st2) \<Rightarrow> (Inl e, st2)
           | (Inr _, st2) \<Rightarrow>
               (case candidate of
                  None \<Rightarrow> (Err InvalidRequest, st2)
                | Some policy \<Rightarrow>
                    (case on_runtime (what_if_replay (vx_runtime vx) (vx_policies vx) session_id policy) st2 of
                       (Inr run, st3) \<Rightarrow> (Ok run, st3)
                     | (Inl e, st3) \<Rightarrow>
                         (Err (case e of
                            WiUnknownSession \<Rightarrow> UnknownSession
                          | WiInvalidCandidate _ \<Rightarrow> InvalidPolicyDefinition
                          | WiCompacted \<Rightarrow> HistoryUnavailable
                          | _ \<Rightarrow> StorageFailed), st3)))))"

end
