(* ===== verification/Listing.thy ===== *)
theory Listing
  imports Server
begin

text \<open>
  The paged listing of sessions: the keyset scan \<^verbatim>\<open>SessionRegistry::session_ids_after\<close>, the page tokens of
  \<^verbatim>\<open>src/pagination.rs\<close> and the \<^verbatim>\<open>list_sessions\<close> handler of \<^verbatim>\<open>src/server.rs\<close>. Strings are their UTF-8 bytes;
  base64 is a parameter. A binary heap is the ascending list of its elements.
\<close>

section \<open>The keyset scan\<close>

definition heap_keep :: "string option \<Rightarrow> nat \<Rightarrow> string \<Rightarrow> string list \<Rightarrow> string list" where
  "heap_keep after limit key heap =
     (if (case after of None \<Rightarrow> True | Some a \<Rightarrow> key > a) then
        (let heap1 = insort key heap in if length heap1 > limit then butlast heap1 else heap1)
      else heap)"

definition session_ids_after :: "string list \<Rightarrow> string option \<Rightarrow> nat \<Rightarrow> string list" where
  "session_ids_after keys after limit = (if limit = 0 then [] else fold (heap_keep after limit) keys [])"

section \<open>Page tokens\<close>

definition TOKEN_VERSION_PREFIX :: string where "TOKEN_VERSION_PREFIX = ''v1:''"

definition MAX_PAGE_TOKEN_CHARS :: nat where "MAX_PAGE_TOKEN_CHARS = 1024"

datatype PageTokenError = TooLong | NotBase64 | NotUtf8 | WrongVersion | EmptyCursor

definition encode_page_token :: "server_ext \<Rightarrow> string \<Rightarrow> string" where
  "encode_page_token vx session_id = vx_base64_encode vx (TOKEN_VERSION_PREFIX @ session_id)"

definition decode_page_token :: "server_ext \<Rightarrow> string \<Rightarrow> PageTokenError + string" where
  "decode_page_token vx token =
     (if length token > MAX_PAGE_TOKEN_CHARS then Inl TooLong
      else case vx_base64_decode vx token of
        None \<Rightarrow> Inl NotBase64
      | Some plaintext \<Rightarrow>
          if \<not> utf8_ok plaintext then Inl NotUtf8
          else case strip_prefix plaintext TOKEN_VERSION_PREFIX of
            None \<Rightarrow> Inl WrongVersion
          | Some cursor \<Rightarrow> if cursor = [] then Inl EmptyCursor else Inr cursor)"

section \<open>The handler\<close>

definition usize_max :: nat where "usize_max = 2 ^ 64 - 1"

definition effective_page_size :: "SecurityLayer \<Rightarrow> int \<Rightarrow> nat" where
  "effective_page_size sl page_size =
     max 1 (if page_size = 0 then sl_list_sessions_default_page_size sl
            else min (nat page_size) (sl_list_sessions_max_page_size sl))"

definition list_sessions ::
    "server_ext \<Rightarrow> MacpServer \<Rightarrow> metadata \<Rightarrow> int \<Rightarrow> string \<Rightarrow> service
     \<Rightarrow> (SessionMetadata list \<times> string) result" where
  "list_sessions vx srv md page_size page_token st =
     and_then (authenticate_metadata (sv_security srv) md) (\<lambda>_.
       if page_size < 0 then Err InvalidRequest
       else
         let effective = effective_page_size (sv_security srv) page_size in
         and_then (if page_token = [] then Ok None
                   else case decode_page_token vx page_token of
                     Inl _ \<Rightarrow> Err InvalidRequest
                   | Inr cursor \<Rightarrow> Ok (Some cursor)) (\<lambda>cursor.
           let sessions = rt_sessions (ss_runtime st);
               ids = session_ids_after (vx_key_order vx (dom sessions)) cursor (min (effective + 1) usize_max);
               has_more = length ids > effective;
               page_ids = take effective ids;
               next_page_token = (if has_more \<and> page_ids \<noteq> [] then encode_page_token vx (last page_ids) else [])
           in Ok (map session_to_metadata (List.map_filter sessions page_ids), next_page_token)))"

section \<open>The scan against sorting\<close>

lemma butlast_insort_take:
  "sorted xs \<Longrightarrow> length xs = n \<Longrightarrow> butlast (insort x xs) = take n (insort x xs)"
  by (simp add: butlast_conv_take)

lemma take_insort_take:
  "sorted xs \<Longrightarrow> take n (insort x (take n xs)) = take n (insort (x :: 'a :: linorder) xs)"
proof (induction xs arbitrary: n)
  case (Cons y ys)
  then show ?case by (cases n) (auto simp: take_Cons' min_def)
qed simp

lemma heap_keep_take:
  assumes "sorted xs" "0 < limit"
  shows "heap_keep after limit key (take limit xs) =
    take limit (if (case after of None \<Rightarrow> True | Some a \<Rightarrow> key > a) then insort key xs else xs)"
proof -
  have "(let h = insort key (take limit xs) in if length h > limit then butlast h else h) =
      take limit (insort key (take limit xs))"
    by (simp add: Let_def butlast_conv_take)
  then show ?thesis using take_insort_take [OF assms(1), of limit key] by (simp add: heap_keep_def)
qed

lemma fold_heap_keep:
  assumes "sorted xs" "0 < limit"
  shows "fold (heap_keep after limit) keys (take limit xs) =
    take limit (fold insort (filter (\<lambda>key. case after of None \<Rightarrow> True | Some a \<Rightarrow> key > a) keys) xs)"
  using assms(1)
proof (induction keys arbitrary: xs)
  case (Cons k keys)
  then show ?case using heap_keep_take [OF Cons.prems assms(2)] by (auto simp: sorted_insort)
qed simp

lemma session_ids_after_spec:
  "session_ids_after keys after limit =
     take limit (sort (filter (\<lambda>key. case after of None \<Rightarrow> True | Some a \<Rightarrow> key > a) keys))"
  using fold_heap_keep [of "[]" limit after keys]
  by (cases "limit = 0") (simp_all add: session_ids_after_def sort_conv_fold)

section \<open>Page tokens read back\<close>

text \<open>What is relied on in the base64 library: it decodes what it encoded, never encodes bytes to nothing,
  and writes four characters for three bytes.\<close>

definition base64_law :: "server_ext \<Rightarrow> bool" where
  "base64_law vx \<longleftrightarrow> (\<forall>b. vx_base64_decode vx (vx_base64_encode vx b) = Some b \<and>
     length (vx_base64_encode vx b) = (4 * length b + 2) div 3)"

definition listable :: "string \<Rightarrow> bool" where
  "listable i \<longleftrightarrow> i \<noteq> [] \<and> length i \<le> 765 \<and> utf8_ok i"

lemma page_token_round_trip:
  assumes "base64_law vx" "listable i"
  shows "decode_page_token vx (encode_page_token vx i) = Inr i" "encode_page_token vx i \<noteq> []"
proof -
  have len: "length (encode_page_token vx i) = (4 * (length i + 3) + 2) div 3"
    and dec: "vx_base64_decode vx (encode_page_token vx i) = Some (''v1:'' @ i)"
    using assms(1) by (simp_all add: base64_law_def encode_page_token_def TOKEN_VERSION_PREFIX_def)
  have "utf8_ok (''v1:'' @ i)" using assms(2) by (subst utf8_ascii) (simp_all add: between_def listable_def)
  moreover have "length (encode_page_token vx i) \<le> 1024" using assms(2) div_le_mono [of "4 * (length i + 3) + 2" 3074 3] by (simp add: listable_def len)
  moreover have "strip_prefix (''v1:'' @ i) ''v1:'' = Some i" by (simp add: strip_prefix_def starts_with_iff)
  ultimately show "decode_page_token vx (encode_page_token vx i) = Inr i"
    using dec assms(2) by (simp add: decode_page_token_def MAX_PAGE_TOKEN_CHARS_def TOKEN_VERSION_PREFIX_def listable_def)
  show "encode_page_token vx i \<noteq> []" using len by (cases "encode_page_token vx i") auto
qed

section \<open>A traversal\<close>

text \<open>A client that asks for page after page; the sessions may change between two pages. \<open>None\<close> means that
  the fuel ran out.\<close>

fun traverse ::
    "server_ext \<Rightarrow> MacpServer \<Rightarrow> metadata \<Rightarrow> int \<Rightarrow> (nat \<Rightarrow> service) \<Rightarrow> nat \<Rightarrow> nat \<Rightarrow> string
     \<Rightarrow> string list result option" where
  "traverse vx srv md page_size sts 0 j token = None"
| "traverse vx srv md page_size sts (Suc fuel) j token =
     (case list_sessions vx srv md page_size token (sts j) of
        Inl e \<Rightarrow> Some (Inl e)
      | Inr (page, next_token) \<Rightarrow>
          if next_token = [] then Some (Ok (map sm_session_id page))
          else map_option (map_sum id (\<lambda>ids. map sm_session_id page @ ids))
                 (traverse vx srv md page_size sts fuel (Suc j) next_token))"

definition beyond :: "string option \<Rightarrow> string \<Rightarrow> bool" where
  "beyond cursor i \<longleftrightarrow> (case cursor of None \<Rightarrow> True | Some a \<Rightarrow> i > a)"

definition registered :: "service \<Rightarrow> string set" where
  "registered st = dom (rt_sessions (ss_runtime st))"

definition key_order_law :: "server_ext \<Rightarrow> bool" where
  "key_order_law vx \<longleftrightarrow> (\<forall>A. finite A \<longrightarrow> set (vx_key_order vx A) = A \<and> distinct (vx_key_order vx A))"

definition keyed :: "service \<Rightarrow> bool" where
  "keyed st \<longleftrightarrow> finite (registered st) \<and> card (registered st) < usize_max \<and>
     (\<forall>i s. rt_sessions (ss_runtime st) i = Some s \<longrightarrow> s_session_id s = i \<and> listable i)"

lemma scan_page:
  assumes "key_order_law vx" "keyed st" "ids = session_ids_after (vx_key_order vx (registered st)) cursor limit"
  shows "ids = take limit (sorted_list_of_set {i \<in> registered st. beyond cursor i})"
proof -
  let ?f = "filter (beyond cursor) (vx_key_order vx (registered st))"
  have fin: "finite (registered st)" using assms(2) by (simp add: keyed_def)
  then have o: "set (vx_key_order vx (registered st)) = registered st" "distinct (vx_key_order vx (registered st))"
    using assms(1) by (simp_all add: key_order_law_def)
  have "sort ?f = sorted_list_of_set (set ?f)"
    using o(2) by (metis distinct_filter distinct_remdups_id sorted_list_of_set_sort_remdups)
  moreover have "set ?f = {i \<in> registered st. beyond cursor i}" using o(1) by auto
  ultimately show ?thesis using assms(3) by (simp add: session_ids_after_spec beyond_def [abs_def])
qed

lemma page_sessions:
  assumes "keyed st" "set ids \<subseteq> registered st"
  shows "map sm_session_id (map session_to_metadata (List.map_filter (rt_sessions (ss_runtime st)) ids)) = ids"
  using assms(2)
proof (induction ids)
  case (Cons i ids)
  then obtain s where "rt_sessions (ss_runtime st) i = Some s" by (auto simp: registered_def)
  moreover from this have "s_session_id s = i" using assms(1) by (simp add: keyed_def)
  ultimately show ?case using Cons by (simp add: map_filter_simps session_to_metadata_def)
qed (simp add: map_filter_simps)

text \<open>A request with a valid cursor answers with the next identifiers and, when there are more, a token for
  the last of them.\<close>

definition token_for :: "server_ext \<Rightarrow> string option \<Rightarrow> string" where
  "token_for vx cursor = (case cursor of None \<Rightarrow> [] | Some i \<Rightarrow> encode_page_token vx i)"

lemma list_sessions_page:
  assumes laws: "base64_law vx" "key_order_law vx" "keyed st"
    and who: "authenticate_metadata (sv_security srv) md = Inr identity" "0 \<le> page_size"
    and cursor: "\<forall>i. cursor = Some i \<longrightarrow> listable i"
    and rest: "rest = sorted_list_of_set {i \<in> registered st. beyond cursor i}"
    and size: "n = effective_page_size (sv_security srv) page_size"
  obtains page where "list_sessions vx srv md page_size (token_for vx cursor) st =
      Inr (page, if length rest \<le> n then [] else token_for vx (Some (last (take n rest))))"
    "map sm_session_id page = take n rest"
proof -
  let ?keys = "vx_key_order vx (registered st)"
  have n: "0 < n" by (simp add: size effective_page_size_def)
  have fin: "finite (registered st)" "card (registered st) < usize_max" using laws(3) by (auto simp: keyed_def)
  have "length rest \<le> card (registered st)" unfolding rest using fin(1) by (simp add: card_mono)
  then have short: "length rest < usize_max" using fin(2) by simp
  have ids: "session_ids_after ?keys cursor (min (n + 1) usize_max) = take (n + 1) rest"
    unfolding scan_page [OF laws(2,3) refl] rest [symmetric] using short by (simp add: min_def)
  have tok: "(if token_for vx cursor = [] then Ok None
      else case decode_page_token vx (token_for vx cursor) of Inl _ \<Rightarrow> Err InvalidRequest | Inr c \<Rightarrow> Ok (Some c)) = Ok cursor"
    using cursor page_token_round_trip [OF laws(1)] by (cases cursor) (auto simp: token_for_def)
  have "set (take n rest) \<subseteq> registered st" using set_take_subset [of n rest] fin(1) by (auto simp: rest)
  note page = page_sessions [OF laws(3) this]
  have tk: "take n (take (n + 1) rest) = take n rest" by (simp add: min_def)
  have more: "(n < length (take (n + 1) rest) \<and> take n rest \<noteq> []) = (\<not> length rest \<le> n)" using n by auto
  have "list_sessions vx srv md page_size (token_for vx cursor) st =
      Inr (map session_to_metadata (List.map_filter (rt_sessions (ss_runtime st)) (take n rest)),
           if length rest \<le> n then [] else token_for vx (Some (last (take n rest))))"
    unfolding list_sessions_def who(1) and_then_simps size [symmetric] Let_def tok registered_def [symmetric] ids tk more
    using who(2) by (simp add: token_for_def)
  then show thesis using page by (rule that)
qed

lemma sorted_last: "sorted_wrt (<) xs \<Longrightarrow> x \<in> set xs \<Longrightarrow> x \<le> last (xs :: string list)"
proof (induction xs)
  case (Cons y ys)
  then show ?case by (cases "ys = []") (auto dest: last_in_set intro: less_imp_le)
qed simp

lemma sorted_split:
  assumes "sorted_wrt (<) (xs :: string list)" "x \<in> set xs" "\<not> last (take n xs) < x"
  shows "x \<in> set (take n xs) \<or> n = 0"
proof -
  have "x \<in> set (take n xs) \<or> x \<in> set (drop n xs)"
    using assms(2) by (metis Un_iff append_take_drop_id set_append)
  moreover have "sorted_wrt (<) (take n xs @ drop n xs)" using assms(1) by simp
  then have "\<forall>x \<in> set (take n xs). \<forall>y \<in> set (drop n xs). x < y" unfolding sorted_wrt_append by blast
  moreover have "last (take n xs) \<in> set (take n xs)" if "n \<noteq> 0" using that assms(2) by (cases xs) auto
  ultimately show ?thesis using assms(3) by blast
qed

lemma traverse_complete:
  assumes laws: "base64_law vx" "key_order_law vx" "\<forall>j. keyed (sts j)" "finite (\<Union>j. registered (sts j))"
    and who: "authenticate_metadata (sv_security srv) md = Inr identity" "0 \<le> page_size"
    and "\<forall>i. cursor = Some i \<longrightarrow> listable i"
    and "card {i \<in> (\<Union>j. registered (sts j)). beyond cursor i} < fuel"
  shows "\<exists>ids. traverse vx srv md page_size sts fuel j (token_for vx cursor) = Some (Ok ids) \<and> sorted_wrt (<) ids \<and>
    set ids \<subseteq> {i \<in> (\<Union>j. registered (sts j)). beyond cursor i} \<and>
    {i. beyond cursor i \<and> (\<forall>k. i \<in> registered (sts k))} \<subseteq> set ids"
  using assms(7,8)
proof (induction fuel arbitrary: j cursor)
  case (Suc fuel)
  let ?U = "\<Union>j. registered (sts j)" and ?n = "effective_page_size (sv_security srv) page_size"
  define rest where "rest = sorted_list_of_set {i \<in> registered (sts j). beyond cursor i}"
  have kj: "keyed (sts j)" and fin: "finite (registered (sts j))" using laws(3) by (auto simp: keyed_def)
  have sr: "set rest = {i \<in> registered (sts j). beyond cursor i}" "sorted_wrt (<) rest"
    using fin by (simp_all add: rest_def)
  obtain page where page: "list_sessions vx srv md page_size (token_for vx cursor) (sts j) =
      Inr (page, if length rest \<le> ?n then [] else token_for vx (Some (last (take ?n rest))))"
      "map sm_session_id page = take ?n rest"
    by (rule list_sessions_page [OF laws(1,2) kj who Suc.prems(1) rest_def refl])
  show ?case
  proof (cases "length rest \<le> ?n")
    case True
    then show ?thesis using page sr by auto
  next
    case False
    let ?c = "last (take ?n rest)"
    have n: "?n \<noteq> 0" by (simp add: effective_page_size_def)
    have "?c \<in> set (take ?n rest)" using False n by (auto intro: last_in_set)
    then have c: "?c \<in> registered (sts j)" "beyond cursor ?c" using sr(1) in_set_takeD by fastforce+
    have lc: "listable ?c" using c(1) kj by (auto simp: keyed_def registered_def)
    have up: "beyond cursor i" if "beyond (Some ?c) i" for i
      using that c(2) by (cases cursor) (auto simp: beyond_def)
    have "{i \<in> ?U. beyond (Some ?c) i} \<subset> {i \<in> ?U. beyond cursor i}"
      using up c by (auto simp: beyond_def)
    moreover have "finite {i \<in> ?U. beyond cursor i}" using laws(4) by (rule rev_finite_subset) blast
    ultimately have "card {i \<in> ?U. beyond (Some ?c) i} < card {i \<in> ?U. beyond cursor i}"
      by (rule psubset_card_mono [rotated])
    then have "card {i \<in> ?U. beyond (Some ?c) i} < fuel" using Suc.prems(2) by linarith
    then obtain ids where ids: "traverse vx srv md page_size sts fuel (Suc j) (token_for vx (Some ?c)) = Some (Ok ids)"
      "sorted_wrt (<) ids" "set ids \<subseteq> {i \<in> ?U. beyond (Some ?c) i}"
      "{i. beyond (Some ?c) i \<and> (\<forall>k. i \<in> registered (sts k))} \<subseteq> set ids"
      using Suc.IH [of "Some ?c" "Suc j"] lc by auto
    have ne: "token_for vx (Some ?c) \<noteq> []" using page_token_round_trip [OF laws(1) lc] by (simp add: token_for_def)
    have st: "sorted_wrt (<) (take ?n rest)" using sr(2) by (rule sorted_wrt_take)
    have "i < k" if "i \<in> set (take ?n rest)" "k \<in> set ids" for i k
      using sorted_last [OF st that(1)] that(2) ids(3) by (auto simp: beyond_def)
    then have "sorted_wrt (<) (take ?n rest @ ids)" using st ids(2) by (simp add: sorted_wrt_append)
    moreover have "set (take ?n rest @ ids) \<subseteq> {i \<in> ?U. beyond cursor i}"
      using ids(3) up sr(1) set_take_subset [of ?n rest] by auto
    moreover have "i \<in> set (take ?n rest @ ids)" if "beyond cursor i" "\<forall>k. i \<in> registered (sts k)" for i
      using sorted_split [OF sr(2), of i ?n] that sr(1) n ids(4) by (auto simp: beyond_def)
    ultimately show ?thesis using page ids(1) False ne by auto
  qed
qed simp

end
