(* ===== verification/Service_Runs.thy ===== *)
theory Service_Runs
  imports Server Runtime_Effects
begin

text \<open>
  Everything a service does: requests of clients and administrators and the background tasks, as a
  relation on its state. The runtime inside stays reachable in the sense of \<^verbatim>\<open>runtime_run\<close>, so what holds of
  a runtime holds of every runtime behind the service.
\<close>

section \<open>The mode registry is left alone\<close>

lemma modes_storage: "storage_call rx op rt = (b, rt') \<Longrightarrow> rt_modes rt' = rt_modes rt"
  using storage_fields(3) [of rx op rt] by simp

lemma modes_append: "append_entry rx i e rt = (r, rt') \<Longrightarrow> rt_modes rt' = rt_modes rt"
  using append_fields(3) [of rx i e rt] by simp

lemma modes_read: "storage_read rx op rt = (x, rt') \<Longrightarrow> rt_modes rt' = rt_modes rt"
  by (auto simp: storage_read_def Let_def split: if_splits)

lemma modes_small [simp]:
  "rt_modes (save_session_to_storage rx s rt) = rt_modes rt" "rt_modes (send_lifecycle ev rt) = rt_modes rt"
  "rt_modes (publish_accepted_envelope env rt) = rt_modes rt" "rt_modes (put_session i s rt) = rt_modes rt"
  "rt_modes (rollback env rt) = rt_modes rt" "rt_modes (forget_session i rt) = rt_modes rt"
  by (simp_all add: save_session_to_storage_def send_lifecycle_def publish_accepted_envelope_def put_session_def
      rollback_def forget_session_def)

lemma modes_now: "now_ms rx rt = (now, rt') \<Longrightarrow> rt_modes rt' = rt_modes rt"
  by (auto simp: now_ms_def)

lemma modes_checkpoint [simp]:
  "rt_modes (force_insert_checkpoint rx i s rt) = rt_modes rt" "rt_modes (maybe_insert_checkpoint rx i s rt) = rt_modes rt"
  by (simp_all add: force_insert_checkpoint_def maybe_insert_checkpoint_def now_ms_def Let_def split: option.split)

lemma modes_compact: "compact_session_log rx i s n rt = (x, rt') \<Longrightarrow> rt_modes rt' = rt_modes rt"
  by (auto simp: compact_session_log_def Let_def dest!: modes_storage split: option.splits prod.splits bool.splits)

lemma modes_maybe_compact: "maybe_compact_log rx i s rt = (b, rt') \<Longrightarrow> rt_modes rt' = rt_modes rt"
  by (auto simp: maybe_compact_log_def Let_def dest!: modes_compact split: if_splits option.splits prod.splits)

lemma modes_settle [simp]: "rt_modes (settle_terminal rx i s rt) = rt_modes rt"
  by (auto simp: settle_terminal_def dest!: modes_maybe_compact split: prod.splits bool.splits)

lemma modes_expire: "maybe_expire_session rx i s rt = (r, s', rt') \<Longrightarrow> rt_modes rt' = rt_modes rt"
  by (auto simp: maybe_expire_session_def now_ms_def dest!: modes_append split: if_splits prod.splits sum.splits)

lemma modes_synthesize: "synthesize_due_accept rx i s now rt = (r, s', rt') \<Longrightarrow> rt_modes rt' = rt_modes rt"
  by (auto simp: synthesize_due_accept_def Let_def dest!: modes_append split: sum.splits option.splits prod.splits)

lemma modes_reserve: "reserve_slot rx env mx s rt = (r, rt') \<Longrightarrow> rt_modes rt' = rt_modes rt"
  by (auto simp: reserve_slot_def now_ms_def split: if_splits option.splits)

lemma modes_commit_start: "commit_start rx env v s rt = (r, rt') \<Longrightarrow> rt_modes rt' = rt_modes rt"
  by (auto simp: commit_start_def Let_def dest!: modes_storage split: prod.splits bool.splits)

lemma modes_start: "process_session_start rx env mx rt = (r, rt') \<Longrightarrow> rt_modes rt' = rt_modes rt"
  by (auto simp: process_session_start_def now_ms_def Let_def dest!: modes_reserve modes_commit_start
      split: if_splits sum.splits option.splits prod.splits)

lemma modes_accept: "accept_message rx env M now s rt = (r, s', rt') \<Longrightarrow> rt_modes rt' = rt_modes rt"
  by (auto simp: accept_message_def Let_def dest!: modes_append split: sum.splits prod.splits if_splits)

lemma modes_message: "message_on_session rx env s rt = (r, s', rt') \<Longrightarrow> rt_modes rt' = rt_modes rt"
  by (auto simp: message_on_session_def now_ms_def dest!: modes_expire modes_synthesize modes_accept
      split: sum.splits prod.splits Precheck.splits)

lemma modes_with_session:
  assumes "\<And>s r s' rt'. f s rt = (r, s', rt') \<Longrightarrow> rt_modes rt' = rt_modes rt"
  shows "rt_modes (snd (with_session i f rt)) = rt_modes rt"
  using assms by (auto simp: with_session_def split: option.splits prod.splits)

lemma modes_process [simp]: "rt_modes (snd (process rx env mx rt)) = rt_modes rt"
proof -
  have "rt_modes (snd (process_session_start rx env mx rt)) = rt_modes rt"
    using modes_start [of rx env mx rt] by (cases "process_session_start rx env mx rt") simp
  moreover have "rt_modes (snd (process_message rx env rt)) = rt_modes rt"
    unfolding process_message_def by (rule modes_with_session) (rule modes_message)
  ultimately show ?thesis by (simp add: process_def process_signal_def)
qed

lemma modes_control [simp]:
  "rt_modes (snd (cancel_session rx i reason who rt)) = rt_modes rt"
  "rt_modes (snd (suspend_session rx i reason who rt)) = rt_modes rt"
  "rt_modes (snd (resume_session rx i reason who rt)) = rt_modes rt"
proof -
  have "rt_modes rt' = rt_modes rt" if "cancel_on_session rx i reason who s rt = (r, s', rt')" for s r s' rt'
    using that by (auto simp: cancel_on_session_def now_ms_def Let_def dest!: modes_expire modes_append
        split: sum.splits prod.splits if_splits)
  then show "rt_modes (snd (cancel_session rx i reason who rt)) = rt_modes rt"
    unfolding cancel_session_def by (rule modes_with_session)
  have "rt_modes rt' = rt_modes rt" if "suspend_on_session rx i reason who s rt = (r, s', rt')" for s r s' rt'
    using that by (auto simp: suspend_on_session_def now_ms_def dest!: modes_expire modes_append
        split: sum.splits prod.splits if_splits)
  then show "rt_modes (snd (suspend_session rx i reason who rt)) = rt_modes rt"
    unfolding suspend_session_def by (rule modes_with_session)
  have "rt_modes rt' = rt_modes rt" if "resume_on_session rx i reason who s rt = (r, s', rt')" for s r s' rt'
    using that by (auto simp: resume_on_session_def now_ms_def dest!: modes_append split: sum.splits prod.splits if_splits)
  then show "rt_modes (snd (resume_session rx i reason who rt)) = rt_modes rt"
    unfolding resume_session_def by (rule modes_with_session)
qed

lemma modes_checked [simp]: "rt_modes (snd (get_session_checked rx i rt)) = rt_modes rt"
  by (auto simp: get_session_checked_def Let_def dest!: modes_expire split: option.splits prod.splits)

lemma modes_reads [simp]:
  "rt_modes (snd (session_for_read rx i rt)) = rt_modes rt" "rt_modes (snd (what_if_replay rx px i p rt)) = rt_modes rt"
proof -
  obtain x rt1 where g: "get_session_checked rx i rt = (x, rt1)" by (cases "get_session_checked rx i rt")
  have m: "rt_modes rt1 = rt_modes rt" using modes_checked [of rx i rt] g by simp
  show "rt_modes (snd (session_for_read rx i rt)) = rt_modes rt"
    using m by (auto simp: session_for_read_def g dest!: modes_read split: option.splits prod.splits)
  show "rt_modes (snd (what_if_replay rx px i p rt)) = rt_modes rt"
    using m by (auto simp: what_if_replay_def g Let_def dest!: modes_read split: option.splits prod.splits)
qed

lemma modes_fold: "(\<And>x rt. rt_modes (f x rt) = rt_modes rt) \<Longrightarrow> rt_modes (fold f xs rt) = rt_modes rt"
  by (induction xs arbitrary: rt) auto

lemma modes_sweeps [simp]:
  "rt_modes (cleanup_expired_sessions rx rt) = rt_modes rt" "rt_modes (sweep_due_synthetic_accepts rx rt) = rt_modes rt"
  "rt_modes (evict_stale_sessions rx secs rt) = rt_modes rt" "rt_modes (gc_disk_sessions rx secs rt) = rt_modes rt"
proof -
  have "rt_modes (cleanup_one rx now i rt) = rt_modes rt" for now i rt
    by (auto simp: cleanup_one_def Let_def dest!: modes_append split: option.splits prod.splits sum.splits)
  then show "rt_modes (cleanup_expired_sessions rx rt) = rt_modes rt"
    by (simp add: cleanup_expired_sessions_def now_ms_def modes_fold)
  have "rt_modes (sweep_one rx now i rt) = rt_modes rt" for now i rt
    by (auto simp: sweep_one_def dest!: modes_synthesize split: option.splits prod.splits)
  then show "rt_modes (sweep_due_synthetic_accepts rx rt) = rt_modes rt"
    by (simp add: sweep_due_synthetic_accepts_def now_ms_def modes_fold)
  show "rt_modes (evict_stale_sessions rx secs rt) = rt_modes rt"
    by (simp add: evict_stale_sessions_def now_ms_def Let_def modes_fold)
  have "rt_modes (gc_one rx cutoff i rt) = rt_modes rt" for cutoff i rt
    by (auto simp: gc_one_def Let_def dest!: modes_read modes_storage split: option.splits prod.splits bool.splits if_splits)
  then show "rt_modes (gc_disk_sessions rx secs rt) = rt_modes rt"
    by (auto simp: gc_disk_sessions_def now_ms_def modes_fold dest!: modes_read split: prod.splits option.splits)
qed

lemma modes_recover [simp]: "rt_modes (snd (recover_sessions rx strict rt)) = rt_modes rt"
proof -
  have one: "rt_modes rt' = rt_modes rt" if "recover_one rx strict i report rt = (r, rt')" for i report r and rt rt' :: Runtime
    using that by (auto simp: recover_one_def Let_def dest!: modes_read modes_storage
        split: option.splits prod.splits sum.splits if_splits)
  have "rt_modes (snd (recover_each rx strict ids report rt)) = rt_modes rt" for ids report and rt :: Runtime
    by (induction ids arbitrary: report rt) (auto dest!: one split: prod.splits sum.splits)
  then show ?thesis by (auto simp: recover_sessions_def dest!: modes_read split: prod.splits option.splits)
qed

lemma run_modes_registered: "runtime_run rx pol sh ev rt \<Longrightarrow> mode_registry_run sh ev (rt_modes rt)"
  by (induction rule: runtime_run.induct) (simp_all add: Runtime_new_def reboot_def)

section \<open>What a request does to the runtime\<close>

lemma run_checked:
  assumes "runtime_run rx pol sh ev rt"
  shows "runtime_run rx pol sh ev (snd (get_session_checked rx i rt))"
proof (cases "rt_sessions rt i")
  case (Some s)
  obtain x s1 rt1 where "maybe_expire_session rx i s rt = (x, s1, rt1)" by (cases "maybe_expire_session rx i s rt")
  then obtain s' rt' where "get_session_checked rx i rt = (Some s', rt')"
    by (simp add: get_session_checked_def Some Let_def)
  then have "snd (get_session_checked rx i rt) = snd (session_for_read rx i rt)" by (simp add: session_for_read_def)
  then show ?thesis using run_read [OF assms, of i] by simp
qed (simp add: get_session_checked_def assms)

lemma rate_limit_runtime: "rate_limit vx srv who starts st = (r, st') \<Longrightarrow> ss_runtime st' = ss_runtime st"
  by (auto simp: rate_limit_def split: prod.splits)

lemma ingress_runtime:
  assumes "enforce_ingress_policy vx srv identity env st = (r, st')"
  shows "ss_runtime st' = ss_runtime st \<or>
    e_message_type env \<noteq> ''SessionStart'' \<and> ss_runtime st' = snd (get_session_checked (vx_runtime vx) (e_session_id env) (ss_runtime st))"
proof (cases "get_session_checked (vx_runtime vx) (e_session_id env) (ss_runtime st)")
  case (Pair x rt1)
  then show ?thesis
    using assms
    by (auto simp: enforce_ingress_policy_def on_runtime_def Let_def split: option.splits if_splits)
qed

lemma authorize_send_cases:
  assumes "authorize_send vx srv identity env st = (r, st')"
  shows "ss_runtime st' = ss_runtime st \<or>
      e_message_type env \<noteq> ''SessionStart'' \<and> ss_runtime st' = snd (get_session_checked (vx_runtime vx) (e_session_id env) (ss_runtime st))"
    "r = Inr (bound, mx) \<Longrightarrow> (e_sender env = [] \<or> e_sender env = ai_sender identity) \<and>
       bound = env\<lparr>e_sender := ai_sender identity\<rparr> \<and>
       authorize_mode identity (e_mode env) (e_message_type env = ''SessionStart'') = Inr () \<and>
       fst (rate_limit vx srv (ai_sender identity) (e_message_type env = ''SessionStart'') st) = Inr () \<and>
       mx = (if e_message_type env = ''SessionStart'' then ai_max_open_sessions identity else None)"
proof -
  let ?s = "e_message_type env = ''SessionStart''" and ?b = "env\<lparr>e_sender := ai_sender identity\<rparr>"
  obtain r1 st1 where l: "rate_limit vx srv (ai_sender identity) ?s st = (r1, st1)"
    by (cases "rate_limit vx srv (ai_sender identity) ?s st")
  obtain r2 st2 where p: "enforce_ingress_policy vx srv identity ?b st1 = (r2, st2)"
    by (cases "enforce_ingress_policy vx srv identity ?b st1")
  have same: "ss_runtime st1 = ss_runtime st" by (rule rate_limit_runtime [OF l])
  have seen: "ss_runtime st2 = ss_runtime st \<or> \<not> ?s \<and> ss_runtime st2 = snd (get_session_checked (vx_runtime vx) (e_session_id env) (ss_runtime st))"
    using ingress_runtime [OF p] same by simp
  note d = assms [unfolded authorize_send_def apply_authenticated_sender_def Let_def]
  show "ss_runtime st' = ss_runtime st \<or> \<not> ?s \<and> ss_runtime st' = snd (get_session_checked (vx_runtime vx) (e_session_id env) (ss_runtime st))"
    using d l p same seen by (auto split: if_splits sum.splits)
  show "(e_sender env = [] \<or> e_sender env = ai_sender identity) \<and> bound = ?b \<and>
      authorize_mode identity (e_mode env) ?s = Inr () \<and>
      fst (rate_limit vx srv (ai_sender identity) ?s st) = Inr () \<and> mx = (if ?s then ai_max_open_sessions identity else None)"
    if "r = Inr (bound, mx)"
    using d that l p by (auto split: if_splits sum.splits)
qed

text \<open>A send either reaches the kernel with the authenticated sender or is refused before it.\<close>

lemma send_cases:
  assumes "send vx srv md (Some env) st = (r, st')"
  obtains (kernel) identity mx rt pr where
      "authenticate_metadata (sv_security srv) md = Inr identity" "server_envelope_shape (sv_security srv) env = Inr ()"
      "e_sender env = [] \<or> e_sender env = ai_sender identity"
      "authorize_mode identity (e_mode env) (e_message_type env = ''SessionStart'') = Inr ()"
      "fst (rate_limit vx srv (ai_sender identity) (e_message_type env = ''SessionStart'') st) = Inr ()"
      "mx = (if e_message_type env = ''SessionStart'' then ai_max_open_sessions identity else None)"
      "rt = ss_runtime st \<or>
        e_message_type env \<noteq> ''SessionStart'' \<and> rt = snd (get_session_checked (vx_runtime vx) (e_session_id env) (ss_runtime st))"
      "process (vx_runtime vx) (env\<lparr>e_sender := ai_sender identity\<rparr>) mx rt = (pr, ss_runtime st')"
      "r = Inr (finish_send env (map_sum id (Pair (env\<lparr>e_sender := ai_sender identity\<rparr>)) pr))"
  | (refused) e where "r = Inr (make_error_ack e env)"
      "ss_runtime st' = ss_runtime st \<or> ss_runtime st' = snd (get_session_checked (vx_runtime vx) (e_session_id env) (ss_runtime st))"
proof (cases "and_then (server_envelope_shape (sv_security srv) env) (\<lambda>_. authenticate_metadata (sv_security srv) md)")
  case (Inl e)
  then show thesis using assms by (intro refused) (auto simp: send_def finish_send_def)
next
  case (Inr identity)
  then have i: "authenticate_metadata (sv_security srv) md = Inr identity" "server_envelope_shape (sv_security srv) env = Inr ()"
    by (auto simp: res_simps)
  obtain a st1 where a: "authorize_send vx srv identity env st = (a, st1)" by (cases "authorize_send vx srv identity env st")
  show thesis
  proof (cases a)
    case (Inl e)
    then show thesis
      using assms i a authorize_send_cases(1) [OF a]
      by (intro refused) (auto simp: send_def send_authenticated_def finish_send_def)
  next
    case (Inr x)
    obtain bound mx where x: "x = (bound, mx)" by (cases x)
    note ok = authorize_send_cases(2) [OF a Inr [unfolded x]]
    obtain pr rt2 where pr: "process (vx_runtime vx) bound mx (ss_runtime st1) = (pr, rt2)" by (cases "process (vx_runtime vx) bound mx (ss_runtime st1)")
    have "r = Inr (finish_send env (map_sum id (Pair bound) pr))" "ss_runtime st' = rt2"
      using assms i a Inr x pr by (auto simp: send_def send_authenticated_def on_runtime_def)
    then show thesis using i ok pr authorize_send_cases(1) [OF a] by (intro kernel) auto
  qed
qed

lemma access_cases:
  assumes "authenticate_session_access vx srv md i st = (r, st')"
  shows "ss_runtime st' = ss_runtime st \<or> ss_runtime st' = snd (get_session_checked (vx_runtime vx) i (ss_runtime st))"
proof -
  have read: "ss_runtime st2 = ss_runtime st1" if "authorize_session_read srv identity s st1 = (q, st2)" for identity s st1 q st2
    using that by (auto simp: authorize_session_read_def Let_def split: if_splits option.splits)
  obtain x rt1 where g: "get_session_checked (vx_runtime vx) i (ss_runtime st) = (x, rt1)" by (cases "get_session_checked (vx_runtime vx) i (ss_runtime st)")
  show ?thesis
    using assms by (auto simp: authenticate_session_access_def on_runtime_def g dest!: read split: sum.splits option.splits prod.splits)
qed

text \<open>A control request performs its operation only for the initiator or a holder of commitment authority.\<close>

lemma control_cases:
  assumes "control_session vx srv md i operation st = (r, st')"
  obtains (operated) identity s rt where "authenticate_metadata (sv_security srv) md = Inr identity"
      "get_session_checked (vx_runtime vx) i (ss_runtime st) = (Some s, rt)"
      "ai_sender identity = s_initiator_sender s \<or> check_commitment_authority (vx_mode vx) s (ai_sender identity) = Inr ()"
      "ss_runtime st' = snd (operation (ai_sender identity) rt)"
  | (refused) e where "r = Inl e"
      "ss_runtime st' = ss_runtime st \<or> ss_runtime st' = snd (get_session_checked (vx_runtime vx) i (ss_runtime st))"
proof (cases "authenticate_metadata (sv_security srv) md")
  case (Inl e)
  then show thesis using assms by (intro refused) (auto simp: control_session_def)
next
  case (Inr identity)
  obtain x rt1 where g: "get_session_checked (vx_runtime vx) i (ss_runtime st) = (x, rt1)" by (cases "get_session_checked (vx_runtime vx) i (ss_runtime st)")
  show thesis
  proof (cases x)
    case None
    then show thesis using assms Inr g by (intro refused) (auto simp: control_session_def on_runtime_def)
  next
    case (Some s)
    show thesis
    proof (cases "ai_sender identity = s_initiator_sender s \<or> check_commitment_authority (vx_mode vx) s (ai_sender identity) = Inr ()")
      case True
      then show thesis
        using assms Inr g Some
        by (intro operated) (auto simp: control_session_def on_runtime_def split: prod.splits)
    next
      case False
      then show thesis using assms Inr g Some by (intro refused) (auto simp: control_session_def on_runtime_def)
    qed
  qed
qed

section \<open>Runs of a service\<close>

inductive service_run ::
    "server_ext \<Rightarrow> MacpServer \<Rightarrow> PolicyRegistry \<Rightarrow> PolicyEvaluator \<Rightarrow> service \<Rightarrow> bool"
  for vx srv pol ev where
  svc_new: "runtime_run (vx_runtime vx) pol (vx_shipped vx) ev rt \<Longrightarrow>
    service_run vx srv pol ev \<lparr>ss_runtime = rt, ss_rates = default_RateBucket, ss_instants = 0, ss_consults = 0\<rparr>"
| svc_send: "service_run vx srv pol ev st \<Longrightarrow> start_allowed (vx_runtime vx) pol env (ss_runtime st) \<Longrightarrow>
    service_run vx srv pol ev (snd (send vx srv md (Some env) st))"
| svc_get: "service_run vx srv pol ev st \<Longrightarrow> service_run vx srv pol ev (snd (get_session vx srv md i st))"
| svc_cancel: "service_run vx srv pol ev st \<Longrightarrow> service_run vx srv pol ev (snd (cancel_request vx srv md i reason st))"
| svc_suspend: "service_run vx srv pol ev st \<Longrightarrow> service_run vx srv pol ev (snd (suspend_request vx srv md i reason st))"
| svc_resume: "service_run vx srv pol ev st \<Longrightarrow> service_run vx srv pol ev (snd (resume_request vx srv md i reason st))"
| svc_what_if: "service_run vx srv pol ev st \<Longrightarrow> service_run vx srv pol ev (snd (what_if_request vx srv md i candidate st))"
| svc_register_mode: "service_run vx srv pol ev st \<Longrightarrow> st' = snd (register_ext_mode vx srv md d st) \<Longrightarrow>
    modes_kept (rt_disk (ss_runtime st)) (rt_modes (ss_runtime st)) (rt_modes (ss_runtime st')) \<Longrightarrow>
    service_run vx srv pol ev st'"
| svc_unregister_mode: "service_run vx srv pol ev st \<Longrightarrow> st' = snd (unregister_ext_mode srv md m st) \<Longrightarrow>
    modes_kept (rt_disk (ss_runtime st)) (rt_modes (ss_runtime st)) (rt_modes (ss_runtime st')) \<Longrightarrow>
    service_run vx srv pol ev st'"
| svc_promote_mode: "service_run vx srv pol ev st \<Longrightarrow> st' = snd (promote_mode_request srv md m name st) \<Longrightarrow>
    modes_kept (rt_disk (ss_runtime st)) (rt_modes (ss_runtime st)) (rt_modes (ss_runtime st')) \<Longrightarrow>
    service_run vx srv pol ev st'"
| svc_register_policy: "service_run vx srv pol ev st \<Longrightarrow> service_run vx srv pol ev (snd (register_policy vx srv md p st))"
| svc_unregister_policy: "service_run vx srv pol ev st \<Longrightarrow> service_run vx srv pol ev (snd (unregister_policy srv md p st))"
| svc_background: "service_run vx srv pol ev st \<Longrightarrow>
    task \<in> {cleanup_expired_sessions (vx_runtime vx), sweep_due_synthetic_accepts (vx_runtime vx), evict_stale_sessions (vx_runtime vx) secs, gc_disk_sessions (vx_runtime vx) secs} \<Longrightarrow>
    service_run vx srv pol ev (st\<lparr>ss_runtime := task (ss_runtime st)\<rparr>)"

lemma start_allowed_sender [simp]: "start_allowed rx pol (env\<lparr>e_sender := x\<rparr>) rt = start_allowed rx pol env rt"
  by (simp add: start_allowed_def start_policy_def)

lemma send_keeps_run:
  assumes run: "runtime_run (vx_runtime vx) pol sh ev (ss_runtime st)" and al: "start_allowed (vx_runtime vx) pol env (ss_runtime st)"
  shows "runtime_run (vx_runtime vx) pol sh ev (ss_runtime (snd (send vx srv md (Some env) st)))"
proof -
  obtain r st' where s: "send vx srv md (Some env) st = (r, st')" by (cases "send vx srv md (Some env) st")
  note checked = run_checked [OF run, of "e_session_id env"]
  from s show ?thesis
  proof (cases rule: send_cases)
    case (kernel identity mx rt pr)
    have "runtime_run (vx_runtime vx) pol sh ev rt" "start_allowed (vx_runtime vx) pol env rt"
      using kernel(7) run checked al by (auto simp: start_allowed_def)
    then have "runtime_run (vx_runtime vx) pol sh ev (snd (process (vx_runtime vx) (env\<lparr>e_sender := ai_sender identity\<rparr>) mx rt))"
      by (intro run_process) simp_all
    then show ?thesis using kernel(8) s by simp
  next
    case (refused e)
    then show ?thesis using run checked s by auto
  qed
qed

lemma control_keeps_run:
  assumes run: "runtime_run (vx_runtime vx) pol sh ev (ss_runtime st)"
    and op: "\<And>who rt. runtime_run (vx_runtime vx) pol sh ev rt \<Longrightarrow> runtime_run (vx_runtime vx) pol sh ev (snd (operation who rt))"
  shows "runtime_run (vx_runtime vx) pol sh ev (ss_runtime (snd (control_session vx srv md i operation st)))"
proof -
  obtain r st' where s: "control_session vx srv md i operation st = (r, st')" by (cases "control_session vx srv md i operation st")
  note checked = run_checked [OF run, of i]
  from s show ?thesis
    by (cases rule: control_cases) (use s run checked op in auto)
qed

lemma reads_keep_run:
  assumes run: "runtime_run (vx_runtime vx) pol sh ev (ss_runtime st)"
  shows "runtime_run (vx_runtime vx) pol sh ev (ss_runtime (snd (get_session vx srv md i st)))"
    "runtime_run (vx_runtime vx) pol sh ev (ss_runtime (snd (what_if_request vx srv md i candidate st)))"
proof -
  obtain r st1 where a: "authenticate_session_access vx srv md i st = (r, st1)" by (cases "authenticate_session_access vx srv md i st")
  have run1: "runtime_run (vx_runtime vx) pol sh ev (ss_runtime st1)" using access_cases [OF a] run run_checked [OF run, of i] by auto
  show "runtime_run (vx_runtime vx) pol sh ev (ss_runtime (snd (get_session vx srv md i st)))"
    using run1 run_checked [OF run1, of i]
    by (cases "get_session_checked (vx_runtime vx) i (ss_runtime st1)")
      (auto simp: get_session_def a on_runtime_def split: sum.splits option.splits)
  show "runtime_run (vx_runtime vx) pol sh ev (ss_runtime (snd (what_if_request vx srv md i candidate st)))"
  proof (cases r)
    case (Inr identity)
    obtain q st2 where l: "rate_limit vx srv (ai_sender identity) False st1 = (q, st2)"
      by (cases "rate_limit vx srv (ai_sender identity) False st1")
    have run2: "runtime_run (vx_runtime vx) pol sh ev (ss_runtime st2)" using rate_limit_runtime [OF l] run1 by simp
    have "runtime_run (vx_runtime vx) pol sh ev rt" if "what_if_replay (vx_runtime vx) (vx_policies vx) i p (ss_runtime st2) = (x, rt)" for p x rt
      using run_what_if [OF run2, of "vx_policies vx" i p] that by simp
    then show ?thesis
      using run2 by (auto simp: what_if_request_def a Inr l on_runtime_def split: sum.splits prod.splits option.splits)
  qed (simp add: what_if_request_def a run1)
qed

lemma service_reaches:
  assumes "service_run vx srv pol ev st"
  shows "runtime_run (vx_runtime vx) pol (vx_shipped vx) ev (ss_runtime st)"
  using assms
proof (induction rule: service_run.induct)
  case (svc_register_mode st st' md d)
  have m: "mode_registry_run (vx_shipped vx) ev (rt_modes (ss_runtime st))" by (rule run_modes_registered) fact
  have "ss_runtime st' = ss_runtime st \<or> (\<exists>d. ss_runtime st' =
      (ss_runtime st)\<lparr>rt_modes := snd (register_extension (vx_shipped vx) (rt_modes (ss_runtime st)) d)\<rparr>)"
    using svc_register_mode.hyps by (auto simp: register_ext_mode_def Let_def case_prod_beta split: sum.splits)
  then show ?case
    using svc_register_mode.IH svc_register_mode.hyps run_modes [OF svc_register_mode.IH modes_register [OF m]] by auto
next
  case (svc_unregister_mode st st' md m)
  have r: "mode_registry_run (vx_shipped vx) ev (rt_modes (ss_runtime st))" by (rule run_modes_registered) fact
  have "ss_runtime st' = ss_runtime st \<or>
      ss_runtime st' = (ss_runtime st)\<lparr>rt_modes := snd (unregister_extension (rt_modes (ss_runtime st)) m)\<rparr>"
    using svc_unregister_mode.hyps by (auto simp: unregister_ext_mode_def Let_def case_prod_beta split: sum.splits)
  then show ?case
    using svc_unregister_mode.IH svc_unregister_mode.hyps run_modes [OF svc_unregister_mode.IH modes_unregister [OF r]] by auto
next
  case (svc_promote_mode st st' md m name)
  have r: "mode_registry_run (vx_shipped vx) ev (rt_modes (ss_runtime st))" by (rule run_modes_registered) fact
  have "ss_runtime st' = ss_runtime st \<or> (\<exists>n. ss_runtime st' =
      (ss_runtime st)\<lparr>rt_modes := snd (promote_mode (rt_modes (ss_runtime st)) m n)\<rparr>)"
    using svc_promote_mode.hyps by (auto simp: promote_mode_request_def Let_def case_prod_beta split: sum.splits)
  then show ?case
    using svc_promote_mode.IH svc_promote_mode.hyps run_modes [OF svc_promote_mode.IH modes_promote [OF r]] by auto
next
  case (svc_register_policy st md p)
  have "\<exists>ps. ss_runtime (snd (register_policy vx srv md p st)) = (ss_runtime st)\<lparr>rt_policies := ps\<rparr>"
    by (auto simp: register_policy_def split: sum.splits prod.splits intro: exI [of _ "rt_policies (ss_runtime st)"])
  then show ?case using run_policies [OF svc_register_policy.IH] by auto
next
  case (svc_unregister_policy st md p)
  have "\<exists>ps. ss_runtime (snd (unregister_policy srv md p st)) = (ss_runtime st)\<lparr>rt_policies := ps\<rparr>"
    by (auto simp: unregister_policy_def split: sum.splits prod.splits intro: exI [of _ "rt_policies (ss_runtime st)"])
  then show ?case using run_policies [OF svc_unregister_policy.IH] by auto
qed (auto simp: cancel_request_def suspend_request_def resume_request_def
    intro: send_keeps_run control_keeps_run reads_keep_run run_cancel run_suspend run_resume
      run_cleanup run_sweep run_evict run_gc)

end
