(* ===== verification/Service_Properties.thy ===== *)
theory Service_Properties
  imports Listing Service_Runs Runtime_Examples Governed_Runs
begin

text \<open>
  The properties of the service, each with an application to a concrete service over the run of
  \<^verbatim>\<open>Runtime_Examples\<close>.
\<close>

section \<open>A concrete service\<close>

definition alice :: AuthIdentity where
  "alice = \<lparr>ai_sender = ''alice'', ai_allowed_modes = Some {qmode}, ai_can_start_sessions = True,
     ai_max_open_sessions = None, ai_can_manage_mode_registry = False, ai_is_observer = False\<rparr>"

definition example_srv :: MacpServer where
  "example_srv = \<lparr>sv_security = \<lparr>sl_identities = Map.empty, sl_auth_chain = Some [StaticBearerResolver [''tok'' \<mapsto> alice]],
       sl_max_payload_bytes = 1000, sl_list_sessions_default_page_size = 1, sl_list_sessions_max_page_size = 10,
       sl_session_start_rate = \<lparr>rl_limit = 5, rl_window = 60\<rparr>, sl_message_rate = \<lparr>rl_limit = 5, rl_window = 60\<rparr>\<rparr>,
     sv_policy_engine = None, sv_policies_read_only = False\<rparr>"

definition example_vx :: server_ext where
  "example_vx = \<lparr>vx_runtime = run_ext, vx_instant = (\<lambda>n. n),
     vx_mode = \<lparr>x_decode_commitment = (\<lambda>_. None), x_rules = no_rules, x_evaluator = allow_all\<rparr>, vx_shipped = example_sh,
     vx_policies = example_rx, vx_base64_encode = (\<lambda>b. b @ replicate ((length b + 2) div 3) CHR ''A''),
     vx_base64_decode = (\<lambda>t. Some (take (3 * length t div 4) t)), vx_key_order = sorted_list_of_set\<rparr>"

definition service_at :: "Runtime \<Rightarrow> service" where
  "service_at rt = \<lparr>ss_runtime = rt, ss_rates = default_RateBucket, ss_instants = 0, ss_consults = 0\<rparr>"

abbreviation "alice_md \<equiv> [''authorization'' \<mapsto> ''Bearer tok'']"

lemma alice_known: "authenticate_metadata (sv_security example_srv) alice_md = Ok alice"
  by (simp add: authenticate_metadata_def example_srv_def StaticBearerResolver_def static_bearer_resolve_def
      bearer_token_def strip_prefix_def starts_with_def AuthIdentity_from_def)

lemma example_vx_laws: "base64_law example_vx" "key_order_law example_vx"
proof -
  have "3 * (n + (n + 2) div 3) div 4 = n" "n + (n + 2) div 3 = (4 * n + 2) div 3" for n :: nat by presburger+
  then show "base64_law example_vx" by (simp add: base64_law_def example_vx_def)
  show "key_order_law example_vx" by (simp add: key_order_law_def example_vx_def)
qed

lemma sends: "send example_vx example_srv alice_md (Some run_request) (service_at run_rt1) =
    (Ok (finish_send run_request (Ok (run_request, \<lparr>pr_session_state = Open, pr_duplicate = False\<rparr>))),
     (service_at run_rt2)\<lparr>ss_rates := default_RateBucket\<lparr>rb_message :=
        \<lparr>bk_events = [''alice'' \<mapsto> [0]], bk_sweep_counter = 1\<rparr>\<rparr>, ss_instants := 1\<rparr>)"
proof -
  have env: "run_request\<lparr>e_sender := ''alice''\<rparr> = run_request" "e_sender run_request = ''alice''" "e_mode run_request = qmode"
    "e_message_type run_request = ''ApprovalRequest''"
    by (simp_all add: run_request_def message_def)
  have shape: "server_envelope_shape (sv_security example_srv) run_request = Ok ()"
    by (simp add: server_envelope_shape_def run_request_def message_def MACP_VERSION_def example_srv_def printable_not_blank Let_def)
  have limit: "rate_limit example_vx example_srv ''alice'' False (service_at run_rt1) =
      (Ok (), (service_at run_rt1)\<lparr>ss_rates := default_RateBucket\<lparr>rb_message :=
        \<lparr>bk_events = [''alice'' \<mapsto> [0]], bk_sweep_counter = 1\<rparr>\<rparr>, ss_instants := 1\<rparr>)"
    by (simp add: rate_limit_def enforce_rate_limit_def check_bucket_def Let_def service_at_def example_vx_def example_srv_def
        default_RateBucket_def sweep_bucket_def SWEEP_EVERY_def)
  have auth: "authorize_send example_vx example_srv alice run_request (service_at run_rt1) =
      (Ok (run_request, None), (service_at run_rt1)\<lparr>ss_rates := default_RateBucket\<lparr>rb_message :=
        \<lparr>bk_events = [''alice'' \<mapsto> [0]], bk_sweep_counter = 1\<rparr>\<rparr>, ss_instants := 1\<rparr>)"
    using limit env
    by (simp add: authorize_send_def apply_authenticated_sender_def authorize_mode_def alice_def enforce_ingress_policy_def
        example_srv_def)
  show ?thesis
    using shape alice_known auth run_step1
    by (simp add: send_def send_authenticated_def on_runtime_def service_at_def example_vx_def)
qed

section \<open>Admission\<close>

text \<open>Claim C12. Only authenticated and authorized senders reach the kernel: a send either hands the kernel the
  envelope under the authenticated identity, which the envelope may not contradict, with a payload
  within the limit, in a mode the identity may use and, for a SessionStart, by an identity that may
  start sessions and under its session limit, and acknowledges with the kernel's answer; or it is
  answered with an error and changes no session, except that an overdue one may expire when the
  policy engine is shown it.\<close>

theorem send_is_authorized:
  assumes "send vx srv md (Some env) st = (r, st')"
  shows "(\<exists>identity mx rt pr. authenticate_metadata (sv_security srv) md = Inr identity \<and>
      (e_sender env = [] \<or> e_sender env = ai_sender identity) \<and>
      length (e_payload env) \<le> sl_max_payload_bytes (sv_security srv) \<and>
      (\<forall>allowed. ai_allowed_modes identity = Some allowed \<longrightarrow> e_mode env \<in> allowed) \<and>
      (if e_message_type env = ''SessionStart''
       then ai_can_start_sessions identity \<and> mx = ai_max_open_sessions identity else mx = None) \<and>
      rt \<in> {ss_runtime st, snd (get_session_checked (vx_runtime vx) (e_session_id env) (ss_runtime st))} \<and>
      process (vx_runtime vx) (env\<lparr>e_sender := ai_sender identity\<rparr>) mx rt = (pr, ss_runtime st') \<and>
      r = Inr (finish_send env (map_sum id (Pair (env\<lparr>e_sender := ai_sender identity\<rparr>)) pr))) \<or>
    (\<exists>e. r = Inr (make_error_ack e env)) \<and>
      ss_runtime st' \<in> {ss_runtime st, snd (get_session_checked (vx_runtime vx) (e_session_id env) (ss_runtime st))}"
  using assms
proof (cases rule: send_cases)
  case (kernel identity mx rt pr)
  have "length (e_payload env) \<le> sl_max_payload_bytes (sv_security srv)"
    using kernel(2) by (auto simp: server_envelope_shape_def Let_def split: if_splits)
  moreover have "\<forall>allowed. ai_allowed_modes identity = Some allowed \<longrightarrow> e_mode env \<in> allowed"
    "e_message_type env = ''SessionStart'' \<longrightarrow> ai_can_start_sessions identity"
    using kernel(4) by (auto simp: authorize_mode_def split: if_splits option.splits)
  ultimately show ?thesis using kernel by (intro disjI1 exI [of _ identity] exI [of _ mx] exI [of _ rt] exI [of _ pr]) auto
qed auto

theorem send_is_authorized_witness:
  "\<exists>identity mx rt pr. authenticate_metadata (sv_security example_srv) alice_md = Inr identity \<and>
     e_sender run_request = ai_sender identity \<and>
     process run_ext (run_request\<lparr>e_sender := ai_sender identity\<rparr>) mx rt = (pr, run_rt2)"
  using send_is_authorized [OF sends] alice_known
  by (auto simp: finish_send_def make_error_ack_def example_vx_def service_at_def alice_def run_request_def message_def)

lemma process_durable:
  assumes run: "runtime_run rx pol sh ev rt" "start_allowed rx pol env rt"
    and laws: "session_codec_law rx" "handoff_codec_law (sh_handoff sh)" "\<forall>n. rx_clock rx n \<noteq> 0"
    and acc: "process rx env mx rt = (Inr pr, rt')"
      "e_message_type env \<noteq> ''Signal''" "e_message_type env \<noteq> ''Progress''"
  shows "\<exists>d r. rt_disk rt' (e_session_id env) = Some d \<and>
    replay_session rx (e_session_id env) (sd_log d) (rt_modes rt') (Some pol) = Inr r \<and>
    e_message_id env \<in> s_seen_message_ids r"
proof -
  have "rt_ok rx pol rt'" using run_ok [OF run_process [OF run, of mx] laws] acc(1) by simp
  moreover obtain s where s: "rt_sessions rt' (e_session_id env) = Some s" "e_message_id env \<in> s_seen_message_ids s"
    using process_seen [OF acc] by blast
  ultimately obtain es r where es: "log_of rt' (e_session_id env) es"
    "replay_session rx (e_session_id env) es (rt_modes rt') (Some pol) = Inr r" "same_session r s"
    using okD(1) unfolding backed_def tracked_def by blast
  obtain d where "rt_disk rt' (e_session_id env) = Some d" "sd_log d = es" using es(1) by (auto simp: log_of_def)
  then show ?thesis using es(2) s(2) same_session_seen [OF es(3)] by auto
qed

text \<open>Claim C3. What a client was acknowledged is on disk: in any state a service can reach, when a send of an
  envelope other than a signal is answered with ok, the log stored for the session replays to a
  session that knows the envelope's message id, whatever storage calls failed. A SessionStart has to
  use a fresh identifier and a policy of the start-up registry.\<close>

theorem acknowledged_is_durable:
  assumes run: "service_run vx srv pol ev st" "start_allowed (vx_runtime vx) pol env (ss_runtime st)"
    and laws: "session_codec_law (vx_runtime vx)" "handoff_codec_law (sh_handoff (vx_shipped vx))"
      "\<forall>n. rx_clock (vx_runtime vx) n \<noteq> 0"
    and sent: "send vx srv md (Some env) st = (Inr ack, st')" "ack_ok ack"
      "e_message_type env \<noteq> ''Signal''" "e_message_type env \<noteq> ''Progress''"
  shows "\<exists>d r. rt_disk (ss_runtime st') (e_session_id env) = Some d \<and>
    replay_session (vx_runtime vx) (e_session_id env) (sd_log d) (rt_modes (ss_runtime st')) (Some pol) = Inr r \<and>
    e_message_id env \<in> s_seen_message_ids r"
  using sent(1)
proof (cases rule: send_cases)
  case (kernel identity mx rt pr)
  let ?env = "env\<lparr>e_sender := ai_sender identity\<rparr>"
  note reach = service_reaches [OF run(1)]
  have rt: "runtime_run (vx_runtime vx) pol (vx_shipped vx) ev rt" "start_allowed (vx_runtime vx) pol ?env rt"
    using kernel(7) reach run_checked [OF reach] run(2) by (auto simp: start_allowed_def start_policy_def)
  obtain q where "pr = Inr q" using kernel(9) sent(2) by (cases pr) (auto simp: finish_send_def make_error_ack_def)
  then have "process (vx_runtime vx) ?env mx rt = (Inr q, ss_runtime st')" using kernel(8) by simp
  from process_durable [OF rt laws this] show ?thesis using sent(3,4) by simp
qed (use sent(2) in \<open>auto simp: make_error_ack_def\<close>)

theorem acknowledged_is_durable_witness:
  "\<exists>d r. rt_disk run_rt2 sid = Some d \<and>
     replay_session run_ext sid (sd_log d) (rt_modes run_rt2) (Some example_pol) = Inr r \<and> ''m1'' \<in> s_seen_message_ids r"
proof -
  have vx: "vx_runtime example_vx = run_ext" "vx_shipped example_vx = example_sh" by (simp_all add: example_vx_def)
  have "service_run example_vx example_srv example_pol allow_all (service_at run_rt1)"
    unfolding service_at_def by (rule svc_new) (simp add: vx run_reached(2))
  moreover have "start_allowed (vx_runtime example_vx) example_pol run_request (ss_runtime (service_at run_rt1))"
    by (simp add: start_allowed_def run_request_def)
  ultimately show ?thesis
    using acknowledged_is_durable [OF _ _ _ _ _ sends, of example_pol allow_all] run_codec run_sh_law run_clock
    by (simp add: vx finish_send_def service_at_def run_request_def message_def)
qed

lemma expire_session_state:
  assumes "maybe_expire_session rx i s rt = (r, s', rt')"
  shows "s' = s \<or> s_state s' = Expired"
  using assms by (auto simp: maybe_expire_session_def now_ms_def expire_def split: if_splits sum.splits prod.splits)

lemma checked_session:
  assumes "get_session_checked rx i rt = (x, rt')" "rt_sessions rt i = Some s"
  obtains s' where "x = Some s'" "rt_sessions rt' i = Some s'" "s' = s \<or> s_state s' = Expired"
proof -
  obtain r s1 rt1 where e: "maybe_expire_session rx i s rt = (r, s1, rt1)" by (cases "maybe_expire_session rx i s rt")
  then have "x = Some s1" "rt_sessions rt' i = Some s1"
    using assms by (auto simp: get_session_checked_def Let_def put_session_def)
  then show thesis using expire_session_state [OF e] by (rule that)
qed

lemma control_of_expired:
  assumes "rt_sessions rt i = Some s" "s_state s = Expired"
    and "rt' \<in> {snd (cancel_session rx i reason who rt), snd (suspend_session rx i reason who rt),
      snd (resume_session rx i reason who rt)}" "rt_sessions rt' i = Some s'"
  shows "s_state s' = Expired"
proof -
  have e: "s_state s1 = Expired" if "maybe_expire_session rx i s rt = (r, s1, rt1)" for r s1 rt1
    using expire_session_state [OF that] assms(2) by auto
  have "s_state s1 = Expired" if "cancel_on_session rx i reason who s rt = (r, s1, rt1)" for r s1 rt1
    using that e by (auto simp: cancel_on_session_def is_terminal_iff split: sum.splits prod.splits if_splits)
  moreover have "s_state s1 = Expired" if "suspend_on_session rx i reason who s rt = (r, s1, rt1)" for r s1 rt1
    using that e by (auto simp: suspend_on_session_def split: sum.splits prod.splits if_splits)
  moreover have "s_state s1 = Expired" if "resume_on_session rx i reason who s rt = (r, s1, rt1)" for r s1 rt1
    using that assms(2) by (auto simp: resume_on_session_def)
  ultimately show ?thesis
    using assms(1,3,4)
    by (auto simp: cancel_session_def suspend_session_def resume_session_def with_session_def put_session_def split: prod.splits)
qed

text \<open>Claim C15. Only the initiator or a holder of commitment authority controls a session: when a cancel,
  suspend or resume request changes the state of a session to anything but expired, the caller is
  authenticated as the session's initiator or has commitment authority in it.\<close>

theorem control_is_authorized:
  assumes "st' \<in> {snd (cancel_request vx srv md i reason st), snd (suspend_request vx srv md i reason st),
      snd (resume_request vx srv md i reason st)}"
    and "rt_sessions (ss_runtime st) i = Some s" "rt_sessions (ss_runtime st') i = Some s'"
    and "s_state s' \<noteq> s_state s" "s_state s' \<noteq> Expired"
  shows "\<exists>identity. authenticate_metadata (sv_security srv) md = Inr identity \<and>
    (ai_sender identity = s_initiator_sender s \<or> check_commitment_authority (vx_mode vx) s (ai_sender identity) = Inr ())"
proof -
  let ?rx = "vx_runtime vx"
  let ?controls = "\<lambda>operation. operation \<in> {cancel_session ?rx i reason, suspend_session ?rx i reason, resume_session ?rx i reason}"
  obtain operation where o: "?controls operation" "st' = snd (control_session vx srv md i operation st)"
    using assms(1) by (auto simp: cancel_request_def suspend_request_def resume_request_def)
  obtain r st2 where "control_session vx srv md i operation st = (r, st2)" by (cases "control_session vx srv md i operation st")
  then have op: "?controls operation" "control_session vx srv md i operation st = (r, st')" using o by auto
  from op(2) show ?thesis
  proof (cases rule: control_cases)
    case (operated identity s1 rt)
    obtain s2 where s2: "s1 = s2" "rt_sessions rt i = Some s2" "s2 = s \<or> s_state s2 = Expired"
      by (rule checked_session [OF operated(2) assms(2)]) auto
    have "s_state s2 \<noteq> Expired"
      using control_of_expired [OF s2(2), of "ss_runtime st'" ?rx reason "ai_sender identity" s'] op(1) operated(4) assms(3,5)
      by auto
    then show ?thesis using s2 operated(1,3) by auto
  next
    case (refused e)
    obtain x rt where g: "get_session_checked ?rx i (ss_runtime st) = (x, rt)" by (cases "get_session_checked ?rx i (ss_runtime st)")
    obtain s2 where "rt_sessions rt i = Some s2" "s2 = s \<or> s_state s2 = Expired"
      by (rule checked_session [OF g assms(2)])
    then show ?thesis using refused(2) assms(2-5) by (auto simp: g)
  qed
qed

lemma alice_cancels:
  "\<exists>s'. rt_sessions (ss_runtime (snd (cancel_request example_vx example_srv alice_md sid [] (service_at run_rt1)))) sid = Some s' \<and>
     s_state s' = Cancelled"
proof -
  let ?rt = "run_rt1\<lparr>rt_ticks := 2\<rparr>"
  have f: "rt_sessions run_rt1 = [sid \<mapsto> run_s0]" "rt_ticks run_rt1 = 1"
    "sid \<in> dom (rt_disk run_rt1)" "check_component sid"
    by (auto simp: run_rt1_def check_component_def)
  have put: "put_session sid run_s0 (run_rt1\<lparr>rt_ticks := Suc (Suc 0)\<rparr>) = ?rt"
    using f by (simp add: put_session_def numeral_2_eq_2)
  have checked: "get_session_checked run_ext sid run_rt1 = (Some run_s0, ?rt)"
    using f put by (simp add: get_session_checked_def maybe_expire_session_def now_ms_def deadline_passed_def run_open Let_def)
  obtain rt1 where app: "append_entry run_ext sid e (?rt\<lparr>rt_ticks := 4\<rparr>) = (Ok (), rt1 e)" for e
  proof -
    have "dir_ready run_ext sid (?rt\<lparr>rt_ticks := 4\<rparr>)" using f by (simp add: dir_ready_def disk_works_def)
    then have "\<exists>rt'. append_entry run_ext sid e (?rt\<lparr>rt_ticks := 4\<rparr>) = (Ok (), rt')" for e by (rule append_works) blast
    then show thesis using that by metis
  qed
  have "s_state (snd (cancel run_s0)) = Cancelled" by (simp add: cancel_def run_open is_terminal_iff)
  moreover have "rt_sessions (snd (cancel_session run_ext sid [] ''alice'' ?rt)) sid = Some (snd (cancel run_s0))"
    using f app
    by (simp add: cancel_session_def with_session_def cancel_on_session_def maybe_expire_session_def now_ms_def
        deadline_passed_def run_open is_terminal_iff put_session_def Let_def)
  moreover have "s_initiator_sender run_s0 = ''alice''" by (simp add: run_s0_def opened_def fresh_def Session_builder_def)
  ultimately show ?thesis
    using checked
    by (simp add: cancel_request_def control_session_def alice_known on_runtime_def service_at_def example_vx_def alice_def
        case_prod_beta)
qed

theorem control_is_authorized_witness:
  "\<exists>identity. authenticate_metadata (sv_security example_srv) alice_md = Inr identity \<and>
     (ai_sender identity = s_initiator_sender run_s0 \<or>
      check_commitment_authority (vx_mode example_vx) run_s0 (ai_sender identity) = Inr ())"
proof -
  obtain s' where s': "rt_sessions (ss_runtime (snd (cancel_request example_vx example_srv alice_md sid [] (service_at run_rt1)))) sid = Some s'"
    "s_state s' = Cancelled" using alice_cancels by blast
  have "rt_sessions (ss_runtime (service_at run_rt1)) sid = Some run_s0" by (simp add: service_at_def run_rt1_def)
  from control_is_authorized [OF insertI1 this s'(1)] show ?thesis using s'(2) by (simp add: run_open)
qed

section \<open>Rate limits\<close>

text \<open>Claim C13. The rate limit is exact: for any requests in the order of a monotone clock, whatever their senders
  and however sweeps fall, a request is admitted exactly when fewer than the limit of its sender's
  admitted requests are at most a window old, and no stretch of time as long as the window holds more
  admitted requests of one sender than the limit.\<close>

theorem rate_limit_exact:
  assumes "sorted (map fst reqs)" "oks = fst (serve c reqs \<lparr>bk_events = Map.empty, bk_sweep_counter = n\<rparr>)"
  shows "oks = fst (serve_spec c reqs []) \<and>
    (\<forall>t0 sender. length (filter (\<lambda>(t, s). s = sender \<and> t0 \<le> t \<and> t \<le> t0 + rl_window c) (admitted reqs oks)) \<le> rl_limit c)"
proof -
  have tracks: "bucket_tracks (rl_window c) 0 \<lparr>bk_events = Map.empty, bk_sweep_counter = n\<rparr> []"
    by (simp add: bucket_tracks_def deque_of_def recent_def)
  have oks: "oks = fst (serve_spec c reqs [])"
    unfolding assms(2) by (rule serve_tracks [OF tracks]) (simp add: assms(1))
  have "within_limit c (snd (serve_spec c reqs []))"
    by (rule spec_within_limit [of _ _ 0]) (simp_all add: assms(1) within_limit_def in_window_def)
  then show ?thesis by (simp add: spec_history oks within_limit_def in_window_def)
qed

theorem rate_limit_exact_witness:
  "fst (serve \<lparr>rl_limit = 1, rl_window = 10\<rparr> [(0, ''a''), (5, ''a''), (5, ''b''), (11, ''a'')]
      \<lparr>bk_events = Map.empty, bk_sweep_counter = 127\<rparr>) = [True, False, True, True]"
  using rate_limit_exact [of "[(0, ''a''), (5, ''a''), (5, ''b''), (11, ''a'')]" _ "\<lparr>rl_limit = 1, rl_window = 10\<rparr>" 127]
  by (simp add: admit_spec_def recent_def Let_def)

section \<open>Listing\<close>

text \<open>Claim C14. A paged listing ends and misses nothing: a client that follows the page tokens gets the last
  page after at most one request more than there are session identifiers, although sessions come and
  go between pages; the identifiers it saw are in ascending order without repetition, they were
  registered at some page, and every session registered at all pages is among them.\<close>

theorem listing_visits_each_once:
  assumes "base64_law vx" "key_order_law vx" "\<forall>j. keyed (sts j)"
    and "finite (\<Union>j. dom (rt_sessions (ss_runtime (sts j))))" "card (\<Union>j. dom (rt_sessions (ss_runtime (sts j)))) < fuel"
    and "authenticate_metadata (sv_security srv) md = Inr identity" "0 \<le> page_size"
  shows "\<exists>ids. traverse vx srv md page_size sts fuel 0 [] = Some (Ok ids) \<and> sorted_wrt (<) ids \<and>
    (\<Inter>j. dom (rt_sessions (ss_runtime (sts j)))) \<subseteq> set ids \<and>
    set ids \<subseteq> (\<Union>j. dom (rt_sessions (ss_runtime (sts j))))"
proof -
  have fin: "finite (\<Union>j. registered (sts j))" "card (\<Union>j. registered (sts j)) < fuel"
    using assms(4,5) by (simp_all add: registered_def)
  have all: "{i \<in> (\<Union>j. registered (sts j)). beyond None i} = (\<Union>j. registered (sts j))"
    "{i. beyond None i \<and> (\<forall>k. i \<in> registered (sts k))} = (\<Inter>j. registered (sts j))"
    by (auto simp: beyond_def)
  have "\<exists>ids. traverse vx srv md page_size sts fuel 0 (token_for vx None) = Some (Ok ids) \<and> sorted_wrt (<) ids \<and>
      set ids \<subseteq> (\<Union>j. registered (sts j)) \<and> (\<Inter>j. registered (sts j)) \<subseteq> set ids"
    by (rule traverse_complete [OF assms(1-3) fin(1) assms(6,7), of None fuel 0, unfolded all, OF _ fin(2)]) simp
  then show ?thesis unfolding registered_def token_for_def by auto
qed

theorem listing_visits_each_once_witness:
  "\<exists>ids. traverse example_vx example_srv alice_md 0 (\<lambda>j. service_at run_rt2) 2 0 [] = Some (Ok ids) \<and> set ids = {sid}"
proof -
  have "keyed (service_at run_rt2)"
    by (auto simp: keyed_def registered_def service_at_def run_rt2_def usize_max_def run_s1_def run_open listable_def between_def
        split: if_splits)
  then show ?thesis
    using listing_visits_each_once [OF example_vx_laws _ _ _ alice_known, of "\<lambda>j. service_at run_rt2" 2 0]
    by (simp add: service_at_def run_rt2_def) blast
qed

end
