(* ===== verification/Spec2Isabelle.thy ===== *)
theory Spec2Isabelle
  imports Session_Properties Kernel_Properties Mode_Properties Governance Runtime_Properties Service_Properties
begin

text \<open>
  This development models the MACP runtime from the coordination kernel up to the process that hosts
  it and the service in front of it: the session life cycle, the step, replay and what-if kernels, the
  modes, the policies that govern them, the runtime with its logs, storage, background tasks and
  restarts, and the admission of requests. It proves what makes these parts correct.

  \<^bold>\<open>The program.\<close> A session is opened by a SessionStart envelope, bound to participants, a mode, a
  TTL and a governance policy, and then receives envelopes. The kernel
  (\<^verbatim>\<open>src/crates/macp-modes/src/step.rs\<close>) checks each envelope, lets the mode judge it and commits the
  mode's response to the session. A mode (\<^verbatim>\<open>src/crates/macp-modes/src/mode/\<close>) keeps its state as
  bytes inside the session, decides who may send what, and resolves the session through a Commitment
  that the policy evaluator (\<^verbatim>\<open>src/crates/macp-policy/\<close>) has to allow. The runtime
  (\<^verbatim>\<open>src/src/runtime.rs\<close>) appends every accepted envelope and every life-cycle change to the session's
  log on disk before it commits it, keeps the same log in memory for subscribers, writes checkpoints
  and compacts the logs of terminated sessions. On start-up, \<^verbatim>\<open>src/src/recovery.rs\<close> rebuilds every
  stored session with \<^verbatim>\<open>src/src/replay.rs\<close>, which runs the replay kernel
  (\<^verbatim>\<open>macp-modes/src/replay.rs\<close>); \<^verbatim>\<open>what_if.rs\<close> replays a log under another policy. The service
  (\<^verbatim>\<open>src/src/server.rs\<close>) authenticates callers (\<^verbatim>\<open>src/crates/macp-auth/\<close>), limits their rate and hands what
  they may send to the runtime.

  \<^bold>\<open>Theories: the kernel.\<close>
  \<^item> \<^verbatim>\<open>Prelude\<close>, \<^verbatim>\<open>F64\<close>, \<^verbatim>\<open>Ordered_Map\<close>, \<^verbatim>\<open>Wire_Text\<close>: what the source uses of Rust: 64-bit integers with
    saturation and wrap-around, string trimming, IEEE doubles over the rationals, ordered maps, UTF-8;
    and a scanner for the brackets and strings of JSON text.
  \<^item> \<^verbatim>\<open>Policy_Types\<close>, \<^verbatim>\<open>Errors\<close>: \<^verbatim>\<open>macp-core/src/policy/\<close>, \<^verbatim>\<open>decision.rs\<close> and \<^verbatim>\<open>error.rs\<close>.
  \<^item> \<^verbatim>\<open>Sessions\<close>: \<^verbatim>\<open>macp-core/src/session.rs\<close>. An operation on \<^verbatim>\<open>&mut Session\<close> returns its result and
    the updated session.
  \<^item> \<^verbatim>\<open>Mode_Trait\<close>: the \<^verbatim>\<open>Mode\<close> trait as a record of functions, the helpers of \<^verbatim>\<open>mode/util.rs\<close>, the locale
    \<^verbatim>\<open>mode_contract\<close> with what the kernel relies on in a mode, and the locales \<^verbatim>\<open>stateful_mode\<close> and
    \<^verbatim>\<open>lossy_mode\<close>, from which a mode with an encoded state gets that contract; the second is for a
    codec that cannot read back every state it writes.
  \<^item> \<^verbatim>\<open>Step\<close>, \<^verbatim>\<open>Replay\<close>, \<^verbatim>\<open>What_If\<close>: the kernel functions of the same names.
  \<^item> \<^verbatim>\<open>Decision_Mode\<close>, \<^verbatim>\<open>Proposal_Mode\<close>, \<^verbatim>\<open>Task_Mode\<close>, \<^verbatim>\<open>Handoff_Mode\<close>, \<^verbatim>\<open>Quorum_Mode\<close>,
    \<^verbatim>\<open>Multi_Round_Mode\<close> (with the passthrough mode): one definition per message arm, the state
    invariant of the mode and its preservation, and the interpretation of the kernel contract.
    \<^verbatim>\<open>Handoff_Clock\<close> adds the timing argument for implicit accepts: the order of pauses and offers on
    a clock that does not step back, and from it the exact instant of the stamp.
  \<^item> \<^verbatim>\<open>Kernel_Runs\<close>, \<^verbatim>\<open>Shipped_Modes\<close>: the sessions the kernel can drive (all interleavings of messages,
    clock observations, suspension, resumption, cancellation and expiry) and the set of modes the
    runtime ships, each of which keeps the contract.
  \<^item> \<^verbatim>\<open>Examples\<close>, \<^verbatim>\<open>Example_Runs\<close>: concrete sessions of every mode, reached by the kernel's own steps.
  \<^item> \<^verbatim>\<open>Session_Properties\<close>, \<^verbatim>\<open>Kernel_Properties\<close>, \<^verbatim>\<open>Mode_Properties\<close>: deadlines and suspension; replay,
    authority, deduplication, immutability and termination of the kernel; the record each mode keeps.

  \<^bold>\<open>Theories: governance.\<close>
  \<^item> \<^verbatim>\<open>Evaluator\<close>: \<^verbatim>\<open>macp-policy/src/evaluator.rs\<close>, one definition per numbered check.
  \<^item> \<^verbatim>\<open>Rule_Keys\<close>, \<^verbatim>\<open>Policy_Registry\<close>: \<^verbatim>\<open>macp-core/src/policy/keys.rs\<close> and \<^verbatim>\<open>macp-policy/src/registry.rs\<close>
    with the built-in policies of \<^verbatim>\<open>defaults.rs\<close>.
  \<^item> \<^verbatim>\<open>Governed_Runs\<close>, \<^verbatim>\<open>Governance\<close>: sessions bound to an admitted policy; the decision table of the
    evaluator, what a governed commitment is backed by, exactness of the vote arithmetic, and the
    registry's invariant.

  \<^bold>\<open>Theories: the runtime.\<close>
  \<^item> \<^verbatim>\<open>Mode_Registry\<close>: \<^verbatim>\<open>macp-modes/src/mode_registry.rs\<close> with the descriptor tables.
  \<^item> \<^verbatim>\<open>Log_Store\<close>, \<^verbatim>\<open>File_Backend\<close>: \<^verbatim>\<open>macp-storage/src/log_store.rs\<close>, the persisted session of
    \<^verbatim>\<open>registry.rs\<close>, and \<^verbatim>\<open>storage/file.rs\<close>, as directories of entries and as text. The text of a file is
    refused as a whole if it is not UTF-8, and otherwise read line by line.
  \<^item> \<^verbatim>\<open>Mode_Frames\<close>: the locale \<^verbatim>\<open>recorded_mode\<close>: a mode reads nothing a log entry does not keep. Every
    shipped mode satisfies it.
  \<^item> \<^verbatim>\<open>Log_Replay\<close>: \<^verbatim>\<open>src/src/replay.rs\<close>.
  \<^item> \<^verbatim>\<open>Runtime\<close>: \<^verbatim>\<open>src/src/runtime.rs\<close>, \<^verbatim>\<open>src/src/recovery.rs\<close> and the compaction of
    \<^verbatim>\<open>storage/compaction.rs\<close>. The record \<^verbatim>\<open>Runtime\<close> holds the session registry, both copies of the logs,
    the registries of modes and policies and what was broadcast.
  \<^item> \<^verbatim>\<open>Durability\<close>, \<^verbatim>\<open>Runtime_Runs\<close>: every operation keeps the invariant that a stored log replays to its
    session; \<^verbatim>\<open>runtime_run\<close> is every sequence of operations and restarts.
  \<^item> \<^verbatim>\<open>Runtime_Effects\<close>, \<^verbatim>\<open>Runtime_Sweeps\<close>: what operations register and publish with a working and with
    a failing disk, the background tasks, and the ordinals that subscribers see.
  \<^item> \<^verbatim>\<open>Runtime_Examples\<close>, \<^verbatim>\<open>Runtime_Properties\<close>: a concrete run, and the properties: restarts,
    refinement of the kernel, storage failures, subscriptions, sweeps, log files, the mode registry, and three situations in which a restart does not bring back what was there.

  \<^bold>\<open>Theories: the service.\<close>
  \<^item> \<^verbatim>\<open>Access\<close>: \<^verbatim>\<open>macp-auth/src/security.rs\<close> and the resolver chain, with the rate limiter related to a
    specification that keeps the whole history.
  \<^item> \<^verbatim>\<open>Server\<close>: the handlers of \<^verbatim>\<open>src/src/server.rs\<close> over the state of the runtime and the rate limiter.
  \<^item> \<^verbatim>\<open>Listing\<close>: \<^verbatim>\<open>src/src/pagination.rs\<close>, the keyset scan and the \<^verbatim>\<open>list_sessions\<close> handler, and a client that
    follows the page tokens. The fuel of that client is one more than the number of identifiers.
  \<^item> \<^verbatim>\<open>Service_Runs\<close>: every sequence of requests and background tasks keeps the runtime inside reachable.
  \<^item> \<^verbatim>\<open>Service_Properties\<close>: a concrete service, and the properties: authorization of sends and control
    requests, durability of what a client was acknowledged, exactness of the rate limit, and
    completeness of the listing.

  \<^bold>\<open>Time, failures and interleaving.\<close> The code holds a session's lock for the whole of an operation, so
  an operation is one step, and the interleavings of the asynchronous runtime are the sequences of
  steps. The clock is any sequence of readings, also one that goes back; the properties that rely on
  a replayed SessionStart ask that no reading is zero, because a zero receive time marks an entry
  without one. Each storage call may fail, and then leaves the disk as it was; a partial write is
  treated on the text of the log file, wherever it is cut. The runs that the restart properties speak about do not reuse
  the identifier of a session that is still stored, start sessions under policies that the start-up
  registry holds, and keep the modes of stored logs registered; what happens otherwise is shown for
  the first two.

  \<^bold>\<open>Parameters.\<close> Code outside the repository is an argument of the definitions: protobuf decoding and
  encoding, the serde codecs of mode states, policy rules, log entries and persisted sessions, UUID
  parsing, base64, token resolvers other than the static one, the external policy engine, the order
  in which a hash map yields its keys. The law that decoding reads back what was encoded is a named predicate
  (\<^verbatim>\<open>quorum_codec_law\<close>, \<^verbatim>\<open>session_codec_law\<close> and so on). The laws for the two modes with floating-point
  fields, \<^verbatim>\<open>decision_codec_law\<close> and \<^verbatim>\<open>task_codec_law\<close>, say that a state with a non-finite number does
  not decode, because JSON writes it as null; nothing is assumed of the numbers that arrive. The laws
  for log entries, \<^verbatim>\<open>reads_json\<close> and \<^verbatim>\<open>entry_text_ok\<close>, say that only JSON text is read and what the text
  written for an entry looks like; that a line cut short or joined to another does not parse is proved
  from them. Codecs that satisfy the laws are constructed in \<^verbatim>\<open>State_Codec\<close> and in the theories of the
  modes.

  \<^bold>\<open>Bounds.\<close> The loop of \<^verbatim>\<open>advance\<close> stops after 64 emissions, as the source's does; the properties show
  that the shipped modes never emit twice in a row, so the bound is never what ends it. All other
  loops are recursions over lists, structural or with a shrinking rest.

  \<^bold>\<open>Not modelled.\<close> Receipts and the commitment hash (signatures and digests of an external library);
  JSON web tokens; the bidirectional and the watch streams of the service and the HTTP binding, which
  reach the runtime through the same operations; manifests and message texts; telemetry, metrics and
  trace anchors; reading the configuration; command line tools and the conformance runner; generated
  protocol buffers; the provider traits of extensions; the RocksDB, Redis and memory back ends, which
  are adapters over the storage trait; loading a policy directory; the change notification channels;
  fsync and the temporary file of an atomic write; the counters the sweeps return. These are input
  and output around the modelled parts or calls into external libraries, and none of them changes a
  session, a log or a registry except through the operations modelled here. The capacity limits of
  broadcast channels are not modelled either: a broadcast is recorded in the order it is sent,
  whether or not a slow receiver still sees it.
\<close>

end
